(* ===== verification/Tron_Prelude.thy ===== *)
theory Tron_Prelude
  imports Main "HOL-Library.Word"
begin

text \<open>
  Shared vocabulary of the development: the machine types of the C sources, big-endian byte
  strings, C buffers and NUL-terminated strings, and the generic lemmas and fact collections that
  the component theories use.
\<close>

unbundle bit_operations_syntax

section \<open>Fact collections\<close>

named_theorems val_simps
  "values of fixed-width operations, as natural numbers"

named_theorems buf_simps
  "lengths and contents of C buffers"

section \<open>Machine types\<close>

type_synonym u8 = "8 word"
type_synonym u16 = "16 word"
type_synonym u32 = "32 word"
type_synonym u64 = "64 word"
type_synonym bytes = "u8 list"

section \<open>Big-endian byte strings\<close>

definition be_val :: "bytes \<Rightarrow> nat" where
  "be_val bs = foldl (\<lambda>acc b. acc * 256 + unat b) 0 bs"

lemma be_val_Nil [simp]: "be_val [] = 0"
  by (simp add: be_val_def)

lemma be_val_snoc [simp]: "be_val (bs @ [b]) = be_val bs * 256 + unat b"
  by (simp add: be_val_def)

lemma be_val_append: "be_val (xs @ ys) = be_val xs * 256 ^ length ys + be_val ys"
proof (induction ys rule: rev_induct)
  case (snoc y ys)
  have "be_val (xs @ ys @ [y]) = be_val (xs @ ys) * 256 + unat y"
    using be_val_snoc [of "xs @ ys" y] by simp
  with snoc show ?case by (simp add: algebra_simps)
qed simp

lemma be_val_Cons: "be_val (b # bs) = unat b * 256 ^ length bs + be_val bs"
  using be_val_append [of "[b]" bs] be_val_snoc [of "[]" b] by simp

lemma be_val_less: "be_val bs < 256 ^ length bs"
proof (induction bs rule: rev_induct)
  case (snoc b bs)
  have "unat b < 256" using unsigned_less [of b] by simp
  with snoc show ?case by simp
qed simp

lemma be_val_replicate_0 [simp]: "be_val (replicate n 0) = 0"
  by (induction n) (simp_all add: be_val_Cons)

section \<open>Numbers made of two halves\<close>

lemma half_mod: "y < M \<Longrightarrow> (x * M + y) mod (M * M) = (x mod M) * M + y" for x y M :: nat
  by (simp add: mod_mult2_eq)

lemma half_add:
  fixes M :: nat
  assumes "l1 < M" "l2 < M"
  shows "((u1 + u2 + of_bool (M \<le> l1 + l2)) mod M) * M + (l1 + l2) mod M
       = (u1 * M + l1 + (u2 * M + l2)) mod (M * M)"
proof -
  let ?c = "of_bool (M \<le> l1 + l2) :: nat"
  define b where "b = (l1 + l2) mod M"
  have b: "b < M" "l1 + l2 = ?c * M + b"
    using assms by (auto simp: mod_if b_def)
  then have "u1 * M + l1 + (u2 * M + l2) = (u1 + u2 + ?c) * M + b"
    by (simp add: algebra_simps)
  with b(1) show ?thesis by (simp only: half_mod b_def [symmetric])
qed

lemma half_minus:
  fixes M :: nat
  assumes "l1 < M" "l2 < M" "u1 < M" "u2 < M"
  shows "((u1 + M + M - u2 - of_bool (l1 < l2)) mod M) * M + (l1 + M - l2) mod M
       = (u1 * M + l1 + M * M - (u2 * M + l2)) mod (M * M)"
proof -
  let ?c = "of_bool (l1 < l2) :: nat"
  define a where "a = u1 + M - u2 - ?c"
  define b where "b = (l1 + M - l2) mod M"
  have a: "u1 + M = a + u2 + ?c" "u1 + M + M - u2 - ?c = a + M"
    using assms by (auto simp: a_def)
  have b: "b < M" "l1 + ?c * M = b + l2"
    using assms by (auto simp: mod_if b_def)
  have "u1 * M + l1 + M * M = (a + u2 + ?c) * M + l1"
    unfolding a(1) [symmetric] by (simp add: algebra_simps)
  also have "\<dots> = a * M + u2 * M + (l1 + ?c * M)"
    by (simp add: algebra_simps)
  also have "\<dots> = (a * M + b) + (u2 * M + l2)"
    unfolding b(2) by simp
  finally have "u1 * M + l1 + M * M - (u2 * M + l2) = a * M + b"
    by simp
  with b(1) a(2) show ?thesis by (simp add: half_mod b_def [symmetric])
qed

lemma mod_carry: "x < M \<Longrightarrow> y < M \<Longrightarrow> (x + y) mod M < x \<longleftrightarrow> M \<le> x + y" for x y M :: nat
  by (auto simp: mod_if)

lemma mod_borrow: "x < M \<Longrightarrow> y < M \<Longrightarrow> x < (x + M - y) mod M \<longleftrightarrow> x < y" for x y M :: nat
  by (auto simp: mod_if)

lemma mod_minus_minus:
  fixes u v c M :: nat
  assumes "v \<le> M" "c \<le> M"
  shows "((u + M - v) mod M + M - c) mod M = (u + M + M - v - c) mod M"
proof -
  have "((u + M - v) mod M + M - c) mod M = ((u + M - v) mod M + (M - c)) mod M"
    using assms by simp
  also have "\<dots> = ((u + M - v) + (M - c)) mod M"
    by (simp add: mod_add_left_eq)
  also have "(u + M - v) + (M - c) = u + M + M - v - c"
    using assms by simp
  finally show ?thesis .
qed

lemma half_minus_borrow:
  fixes M :: nat
  assumes "l1 < M" "l2 < M" "u1 < M" "u2 < M"
  shows "(if l1 < l2 then ((u1 + M - u2) mod M + M - 1) mod M else (u1 + M - u2) mod M) * M
         + (l1 + M - l2) mod M
       = (u1 * M + l1 + M * M - (u2 * M + l2)) mod (M * M)"
proof -
  have "(if l1 < l2 then ((u1 + M - u2) mod M + M - 1) mod M else (u1 + M - u2) mod M)
      = (u1 + M + M - u2 - of_bool (l1 < l2)) mod M"
    using mod_minus_minus [of u2 M 1 u1] mod_minus_minus [of u2 M 0 u1] assms by auto
  with half_minus [OF assms] show ?thesis by simp
qed

lemma half_less: "x < A \<Longrightarrow> y < M \<Longrightarrow> x * M + y < A * M" for x y M A :: nat
proof -
  assume "x < A" "y < M"
  then have "x * M + y < (x + 1) * M" by simp
  also have "\<dots> \<le> A * M" using \<open>x < A\<close> by (intro mult_le_mono1) simp
  finally show "x * M + y < A * M" .
qed

lemma half_inj: "y < M \<Longrightarrow> y' < M \<Longrightarrow> x * M + y = x' * M + y' \<longleftrightarrow> x = x' \<and> y = y'"
  for x y M x' y' :: nat
  by (metis add.commute add_right_cancel div_mult_self3 div_less div_mult_self1 less_nat_zero_code
      mod_less mod_mult_self1 add_0)

lemma half_order: "y < M \<Longrightarrow> y' < M \<Longrightarrow>
    (x * M + y < x' * M + y') = (if x = x' then y < y' else x < x')" for x y M x' y' :: nat
proof -
  assume y: "y < M" "y' < M"
  consider "x < x'" | "x = x'" | "x' < x" by linarith
  then show ?thesis
  proof cases
    case 1
    then have "(x + 1) * M \<le> x' * M" by (intro mult_le_mono1) simp
    with 1 y show ?thesis by simp
  next
    case 3
    then have "(x' + 1) * M \<le> x * M" by (intro mult_le_mono1) simp
    with 3 y show ?thesis by simp
  qed simp
qed

section \<open>Disjoint bits\<close>

lemma half_bits: "M = 2 ^ n \<Longrightarrow> y < M \<Longrightarrow> x * M + y = push_bit n x OR y" for x y M :: nat
proof -
  assume M: "M = 2 ^ n" "y < M"
  then have "take_bit n y = y" by (simp add: take_bit_nat_eq_self)
  then have "bit y k \<Longrightarrow> k < n" for k
    by (metis bit_take_bit_iff)
  then have "push_bit n x + y = push_bit n x OR y"
    by (intro disjunctive_add_eq_or) (fastforce simp: bit_eq_iff bit_simps)
  then show ?thesis using M by (simp add: push_bit_eq_mult)
qed

lemma or_byte: "n < 2 ^ k \<Longrightarrow> or (push_bit k m) n = m * 2 ^ k + (n :: nat)"
  using half_bits [OF refl, of n k m] by simp

section \<open>Machine counters\<close>

lemma unat32_less: "unat (w :: u32) < 2 ^ 32"
  using unsigned_less [of w] by simp

lemma unat32_Suc: "unat w + 1 < 2 ^ 32 \<Longrightarrow> unat (w + 1) = unat w + 1" for w :: u32
  by (simp add: unat_word_ariths)

lemma unat32_Suc_less: "i < j \<Longrightarrow> unat (i + 1) = unat i + 1" for i j :: u32
  by (rule unat32_Suc) (use unat32_less [of j] in \<open>simp add: word_less_nat_alt\<close>)

lemma unat32_pred: "i < j \<Longrightarrow> unat (j - 1) = unat j - 1" for i j :: u32
  by (simp add: unat_sub word_le_nat_alt word_less_nat_alt)

section \<open>C buffers\<close>

text \<open>
  A C array is the list of its elements. \<open>buf_write\<close> stores a block at an offset; a store past the
  end of the array makes the list longer, so a lemma that an operation keeps the length of a buffer
  says that it writes inside it.
\<close>

definition buf_write :: "'a list \<Rightarrow> nat \<Rightarrow> 'a list \<Rightarrow> 'a list" where
  "buf_write buf off bs = take off buf @ bs @ drop (off + length bs) buf"

definition buf_set :: "'a list \<Rightarrow> nat \<Rightarrow> 'a \<Rightarrow> 'a list" where
  "buf_set buf i x = buf_write buf i [x]"

lemma length_buf_write [buf_simps]:
  "off + length bs \<le> length buf \<Longrightarrow> length (buf_write buf off bs) = length buf"
  by (simp add: buf_write_def)

lemma length_buf_set [buf_simps]: "i < length buf \<Longrightarrow> length (buf_set buf i x) = length buf"
  by (simp add: buf_set_def length_buf_write)

lemma buf_set_eq_list_update: "i < length buf \<Longrightarrow> buf_set buf i x = buf[i := x]"
  by (simp add: buf_set_def buf_write_def upd_conv_take_nth_drop)

lemma take_buf_write [buf_simps]:
  "off \<le> length buf \<Longrightarrow> take (off + length bs) (buf_write buf off bs) = take off buf @ bs"
  by (simp add: buf_write_def)

lemma buf_write_Cons:
  "off < length buf \<Longrightarrow> buf_write (buf_set buf off x) (Suc off) xs = buf_write buf off (x # xs)"
  by (simp add: buf_set_def buf_write_def add.commute)

text \<open>The string in a buffer: its bytes up to the first NUL.\<close>

definition cstr :: "bytes \<Rightarrow> bytes" where
  "cstr buf = takeWhile (\<lambda>c. c \<noteq> 0) buf"

definition strlen :: "bytes \<Rightarrow> nat" where
  "strlen buf = length (cstr buf)"

lemma cstr_Cons_0 [simp]: "cstr (0 # r) = []"
  by (simp add: cstr_def)

lemma cstr_Cons [simp]: "c \<noteq> 0 \<Longrightarrow> cstr (c # r) = c # cstr r"
  by (simp add: cstr_def)

lemma cstr_append [simp]: "0 \<notin> set s \<Longrightarrow> cstr (s @ r) = s @ cstr r"
  by (induction s) (auto simp: cstr_def)

lemma cstr_append_NUL: "0 \<notin> set s \<Longrightarrow> cstr (s @ 0 # r) = s"
  by simp

lemma cstr_no_NUL [simp]: "0 \<notin> set (cstr buf)"
  by (auto simp: cstr_def dest: set_takeWhileD)

lemma cstr_cstr [simp]: "0 \<notin> set s \<Longrightarrow> cstr s = s"
  by (auto simp: cstr_def takeWhile_eq_all_conv)

lemma strlen_le: "strlen buf \<le> length buf"
  by (simp add: strlen_def cstr_def length_takeWhile_le)

text \<open>ASCII literals of the sources as byte strings.\<close>

definition chars :: "string \<Rightarrow> bytes" where
  "chars s = map (\<lambda>c. word_of_nat (of_char c)) s"

lemma length_chars [simp]: "length (chars s) = length s"
  by (simp add: chars_def)

lemma chars_Nil [simp]: "chars [] = []"
  by (simp add: chars_def)

section \<open>String functions of the C library\<close>

text \<open>
  \<^verbatim>\<open>strlcpy(out, src, size)\<close> and \<^verbatim>\<open>snprintf(out, size, ...)\<close> for a positive \<open>size\<close>: at most
  \<open>size - 1\<close> characters and a NUL. With size 0 they write nothing.
\<close>

definition strlcpy :: "bytes \<Rightarrow> bytes \<Rightarrow> nat \<Rightarrow> bytes" where
  "strlcpy out src n = (if n = 0 then out else buf_write out 0 (take (n - 1) (cstr src) @ [0]))"

definition snprintf :: "bytes \<Rightarrow> nat \<Rightarrow> bytes \<Rightarrow> bytes" where
  "snprintf out n formatted = strlcpy out formatted n"

lemma cstr_strlcpy: "0 < n \<Longrightarrow> cstr (strlcpy out src n) = take (n - 1) (cstr src)"
proof -
  assume "0 < n"
  have "0 \<notin> set (take (n - 1) (cstr src))"
    using cstr_no_NUL [of src] by (blast dest: in_set_takeD)
  with \<open>0 < n\<close> show ?thesis by (simp add: strlcpy_def buf_write_def)
qed

lemma length_strlcpy [buf_simps]: "n \<le> length out \<Longrightarrow> length (strlcpy out src n) = length out"
  by (auto simp: strlcpy_def buf_write_def)

section \<open>Copy loops\<close>

text \<open>\<^verbatim>\<open>target[offset++] = src[sourceOffset++]\<close>, \<open>n\<close> times.\<close>

primrec copy_loop :: "bytes \<Rightarrow> nat \<Rightarrow> bytes \<Rightarrow> nat \<Rightarrow> nat \<Rightarrow> bytes" where
  "copy_loop target offset src sourceOffset 0 = target"
| "copy_loop target offset src sourceOffset (Suc n) =
     copy_loop (buf_set target offset (src ! sourceOffset)) (Suc offset) src (Suc sourceOffset) n"

text \<open>\<^verbatim>\<open>target[offset++] = c\<close>, \<open>n\<close> times.\<close>

primrec fill_loop :: "bytes \<Rightarrow> nat \<Rightarrow> u8 \<Rightarrow> nat \<Rightarrow> bytes" where
  "fill_loop target offset c 0 = target"
| "fill_loop target offset c (Suc n) = fill_loop (buf_set target offset c) (Suc offset) c n"

lemma buf_write_Nil [simp]: "buf_write buf off [] = buf"
  by (simp add: buf_write_def)

lemma copy_loop_eq:
  "offset + n \<le> length target \<Longrightarrow> sourceOffset + n \<le> length src \<Longrightarrow>
   copy_loop target offset src sourceOffset n = buf_write target offset (take n (drop sourceOffset src))"
proof (induction n arbitrary: target offset sourceOffset)
  case (Suc n)
  let ?t = "buf_set target offset (src ! sourceOffset)"
  have "copy_loop target offset src sourceOffset (Suc n) =
      buf_write ?t (Suc offset) (take n (drop (Suc sourceOffset) src))"
    using Suc by (simp add: length_buf_set)
  also have "\<dots> = buf_write target offset (src ! sourceOffset # take n (drop (Suc sourceOffset) src))"
    using Suc.prems by (intro buf_write_Cons) simp
  also have "src ! sourceOffset # take n (drop (Suc sourceOffset) src) = take (Suc n) (drop sourceOffset src)"
    using Suc.prems by (simp add: Cons_nth_drop_Suc [symmetric])
  finally show ?case .
qed simp

lemma fill_loop_eq:
  "offset + n \<le> length target \<Longrightarrow> fill_loop target offset c n = buf_write target offset (replicate n c)"
proof (induction n arbitrary: target offset)
  case (Suc n)
  then show ?case by (simp add: length_buf_set buf_write_Cons)
qed simp

lemma buf_write_append:
  "off + length xs \<le> length buf \<Longrightarrow>
   buf_write (buf_write buf off xs) (off + length xs) ys = buf_write buf off (xs @ ys)"
  by (simp add: buf_write_def ac_simps)

section \<open>Tables of addresses\<close>

text \<open>\<^verbatim>\<open>memcmp(a, b, n) == 0\<close>.\<close>

definition memeq :: "bytes \<Rightarrow> bytes \<Rightarrow> nat \<Rightarrow> bool" where
  "memeq a b n \<longleftrightarrow> take n a = take n b"

text \<open>
  The application looks addresses up in three tables: known tokens, known services and the contacts of
  the address book. Each is searched from the front for the first entry with the given 21 bytes. The
  contract below is what the clients of the tables use.
\<close>

locale address_table =
  fixes entries :: "'e list"
    and key :: "'e \<Rightarrow> bytes"
    and lookup :: "bytes \<Rightarrow> 'e option"
  assumes lookup_find: "lookup a = find (\<lambda>e. memeq (key e) a 21) entries"
begin

lemma lookup_sound: "lookup a = Some e \<Longrightarrow> e \<in> set entries \<and> memeq (key e) a 21"
  by (auto simp: lookup_find find_Some_iff)

lemma lookup_None: "lookup a = None \<longleftrightarrow> (\<forall>e \<in> set entries. \<not> memeq (key e) a 21)"
  by (auto simp: lookup_find find_None_iff)

lemma lookup_cong: "memeq a b 21 \<Longrightarrow> lookup a = lookup b"
  by (simp add: lookup_find memeq_def)

lemma lookup_unique:
  assumes "distinct (map (\<lambda>e. take 21 (key e)) entries)" "e \<in> set entries"
  shows "lookup (key e) = Some e"
proof -
  have "\<not> lookup (key e) = None" using assms(2) by (auto simp: lookup_None memeq_def)
  then obtain e' where e': "lookup (key e) = Some e'" by auto
  from lookup_sound [OF e'] assms have "e' = e"
    by (auto simp: memeq_def distinct_map dest: inj_onD)
  with e' show ?thesis by simp
qed

end

end
