(* ===== verification/Uint256.thy ===== *)
theory Uint256
  imports Tron_Prelude
begin

text \<open>
  The 128- and 256-bit unsigned arithmetic of \<^verbatim>\<open>src/src/uint256.c\<close>. A number is a pair of halves
  (\<^verbatim>\<open>elements[0]\<close> is the upper one); every C function becomes a function from its inputs to the value
  it leaves in \<^verbatim>\<open>target\<close>. The functions are shown to compute, on the natural numbers the pairs
  stand for, exactly the operation they are named after, wrap-around included.
\<close>

unbundle bit_operations_syntax

section \<open>Data\<close>

datatype uint128_t = UInt128 (upper128: u64) (lower128: u64)

datatype uint256_t = UInt256 (upper256: uint128_t) (lower256: uint128_t)

definition HEXDIGITS :: bytes where
  "HEXDIGITS = chars ''0123456789abcdef''"

section \<open>Reading big-endian numbers\<close>

definition readUint64BE :: "bytes \<Rightarrow> u64" where
  "readUint64BE buffer =
     push_bit 56 (ucast (buffer ! 0)) OR push_bit 48 (ucast (buffer ! 1)) OR
     push_bit 40 (ucast (buffer ! 2)) OR push_bit 32 (ucast (buffer ! 3)) OR
     push_bit 24 (ucast (buffer ! 4)) OR push_bit 16 (ucast (buffer ! 5)) OR
     push_bit 8 (ucast (buffer ! 6)) OR ucast (buffer ! 7)"

definition readu128BE :: "bytes \<Rightarrow> uint128_t" where
  "readu128BE buffer = UInt128 (readUint64BE buffer) (readUint64BE (drop 8 buffer))"

definition readu256BE :: "bytes \<Rightarrow> uint256_t" where
  "readu256BE buffer = UInt256 (readu128BE buffer) (readu128BE (drop 16 buffer))"

text \<open>
  \<^verbatim>\<open>memcpy(tmp + 32 - length, data, length)\<close> with \<open>len \<le> 32\<close>; a longer input would be stored before
  the start of \<^verbatim>\<open>tmp\<close>, which the model reports as \<^const>\<open>None\<close>.
\<close>

definition convertUint256BE :: "bytes \<Rightarrow> nat \<Rightarrow> uint256_t option" where
  "convertUint256BE data len =
     (if len \<le> 32
      then Some (readu256BE (buf_write (replicate 32 0) (32 - len) (take len data)))
      else None)"

section \<open>Zero, copy, clear, comparisons\<close>

definition zero128 :: "uint128_t \<Rightarrow> bool" where
  "zero128 number = (lower128 number = 0 \<and> upper128 number = 0)"

definition zero256 :: "uint256_t \<Rightarrow> bool" where
  "zero256 number = (zero128 (lower256 number) \<and> zero128 (upper256 number))"

definition copy128 :: "uint128_t \<Rightarrow> uint128_t" where
  "copy128 number = UInt128 (upper128 number) (lower128 number)"

definition copy256 :: "uint256_t \<Rightarrow> uint256_t" where
  "copy256 number = UInt256 (copy128 (upper256 number)) (copy128 (lower256 number))"

definition clear128 :: uint128_t where
  "clear128 = UInt128 0 0"

definition clear256 :: uint256_t where
  "clear256 = UInt256 clear128 clear128"

definition equal128 :: "uint128_t \<Rightarrow> uint128_t \<Rightarrow> bool" where
  "equal128 number1 number2 =
     (upper128 number1 = upper128 number2 \<and> lower128 number1 = lower128 number2)"

definition equal256 :: "uint256_t \<Rightarrow> uint256_t \<Rightarrow> bool" where
  "equal256 number1 number2 =
     (equal128 (upper256 number1) (upper256 number2) \<and>
      equal128 (lower256 number1) (lower256 number2))"

definition gt128 :: "uint128_t \<Rightarrow> uint128_t \<Rightarrow> bool" where
  "gt128 number1 number2 =
     (if upper128 number1 = upper128 number2 then lower128 number1 > lower128 number2
      else upper128 number1 > upper128 number2)"

definition gt256 :: "uint256_t \<Rightarrow> uint256_t \<Rightarrow> bool" where
  "gt256 number1 number2 =
     (if equal128 (upper256 number1) (upper256 number2)
      then gt128 (lower256 number1) (lower256 number2)
      else gt128 (upper256 number1) (upper256 number2))"

definition gte128 :: "uint128_t \<Rightarrow> uint128_t \<Rightarrow> bool" where
  "gte128 number1 number2 = (gt128 number1 number2 \<or> equal128 number1 number2)"

definition gte256 :: "uint256_t \<Rightarrow> uint256_t \<Rightarrow> bool" where
  "gte256 number1 number2 = (gt256 number1 number2 \<or> equal256 number1 number2)"

section \<open>Addition, subtraction, disjunction\<close>

definition add128 :: "uint128_t \<Rightarrow> uint128_t \<Rightarrow> uint128_t" where
  "add128 number1 number2 =
     UInt128 (upper128 number1 + upper128 number2 +
                of_bool (lower128 number1 + lower128 number2 < lower128 number1))
             (lower128 number1 + lower128 number2)"

definition add256 :: "uint256_t \<Rightarrow> uint256_t \<Rightarrow> uint256_t" where
  "add256 number1 number2 =
     (let up = add128 (upper256 number1) (upper256 number2);
          tmp = add128 (lower256 number1) (lower256 number2);
          up' = (if gt128 (lower256 number1) tmp then add128 up (UInt128 0 1) else up)
      in UInt256 up' (add128 (lower256 number1) (lower256 number2)))"

definition minus128 :: "uint128_t \<Rightarrow> uint128_t \<Rightarrow> uint128_t" where
  "minus128 number1 number2 =
     UInt128 (upper128 number1 - upper128 number2 -
                of_bool (lower128 number1 - lower128 number2 > lower128 number1))
             (lower128 number1 - lower128 number2)"

definition minus256 :: "uint256_t \<Rightarrow> uint256_t \<Rightarrow> uint256_t" where
  "minus256 number1 number2 =
     (let up = minus128 (upper256 number1) (upper256 number2);
          tmp = minus128 (lower256 number1) (lower256 number2);
          up' = (if gt128 tmp (lower256 number1) then minus128 up (UInt128 0 1) else up)
      in UInt256 up' (minus128 (lower256 number1) (lower256 number2)))"

definition or128 :: "uint128_t \<Rightarrow> uint128_t \<Rightarrow> uint128_t" where
  "or128 number1 number2 =
     UInt128 (upper128 number1 OR upper128 number2) (lower128 number1 OR lower128 number2)"

definition or256 :: "uint256_t \<Rightarrow> uint256_t \<Rightarrow> uint256_t" where
  "or256 number1 number2 =
     UInt256 (or128 (upper256 number1) (upper256 number2))
             (or128 (lower256 number1) (lower256 number2))"

section \<open>Shifts\<close>

definition shiftl128 :: "uint128_t \<Rightarrow> u32 \<Rightarrow> uint128_t" where
  "shiftl128 number value =
     (if value \<ge> 128 then clear128
      else if value = 64 then UInt128 (lower128 number) 0
      else if value = 0 then copy128 number
      else if value < 64 then
        UInt128 (push_bit (unat value) (upper128 number) +
                   drop_bit (unat (64 - value)) (lower128 number))
                (push_bit (unat value) (lower128 number))
      else if 128 > value \<and> value > 64 then
        UInt128 (push_bit (unat (value - 64)) (lower128 number)) 0
      else clear128)"

definition shiftr128 :: "uint128_t \<Rightarrow> u32 \<Rightarrow> uint128_t" where
  "shiftr128 number value =
     (if value \<ge> 128 then clear128
      else if value = 64 then UInt128 0 (upper128 number)
      else if value = 0 then copy128 number
      else if value < 64 then
        UInt128 (drop_bit (unat value) (upper128 number))
                (push_bit (unat (64 - value)) (upper128 number) +
                   drop_bit (unat value) (lower128 number))
      else if 128 > value \<and> value > 64 then
        UInt128 0 (drop_bit (unat (value - 64)) (upper128 number))
      else clear128)"

definition shiftl256 :: "uint256_t \<Rightarrow> u32 \<Rightarrow> uint256_t" where
  "shiftl256 number value =
     (if value \<ge> 256 then clear256
      else if value = 128 then UInt256 (copy128 (lower256 number)) clear128
      else if value = 0 then copy256 number
      else if value < 128 then
        UInt256 (add128 (shiftl128 (upper256 number) value)
                        (shiftr128 (lower256 number) (128 - value)))
                (shiftl128 (lower256 number) value)
      else if 256 > value \<and> value > 128 then
        UInt256 (shiftl128 (lower256 number) (value - 128)) clear128
      else clear256)"

definition shiftr256 :: "uint256_t \<Rightarrow> u32 \<Rightarrow> uint256_t" where
  "shiftr256 number value =
     (if value \<ge> 256 then clear256
      else if value = 128 then UInt256 clear128 (copy128 (upper256 number))
      else if value = 0 then copy256 number
      else if value < 128 then
        UInt256 (shiftr128 (upper256 number) value)
                (add128 (shiftr128 (lower256 number) value)
                        (shiftl128 (upper256 number) (128 - value)))
      else if 256 > value \<and> value > 128 then
        UInt256 clear128 (shiftr128 (upper256 number) (value - 128))
      else clear256)"

section \<open>Bit lengths\<close>

function bits_loop64 :: "u64 \<Rightarrow> u32 \<Rightarrow> u32" where
  "bits_loop64 w result = (if w = 0 then result else bits_loop64 (drop_bit 1 w) (result + 1))"
  by pat_completeness auto
termination
proof (relation "measure (\<lambda>(w, result). unat w)")
  fix w :: u64 and result :: u32
  assume "w \<noteq> 0"
  then have "0 < unat w" by (simp add: unat_gt_0)
  then show "((drop_bit 1 w, result + 1), (w, result)) \<in> measure (\<lambda>(w, result). unat w)"
    by (simp add: unat_div drop_bit_Suc)
qed simp

definition bits128 :: "uint128_t \<Rightarrow> u32" where
  "bits128 number =
     (if upper128 number \<noteq> 0 then bits_loop64 (upper128 number) 64
      else bits_loop64 (lower128 number) 0)"

declare bits_loop64.simps [simp del]

section \<open>The numbers the pairs stand for\<close>

definition val128 :: "uint128_t \<Rightarrow> nat" where
  "val128 x = unat (upper128 x) * 2 ^ 64 + unat (lower128 x)"

definition val256 :: "uint256_t \<Rightarrow> nat" where
  "val256 x = val128 (upper256 x) * 2 ^ 128 + val128 (lower256 x)"

lemma pow_128: "(2::nat) ^ 128 = 2 ^ 64 * 2 ^ 64"
  by (simp flip: power_add)

lemma pow_256: "(2::nat) ^ 256 = 2 ^ 128 * 2 ^ 128"
  by (simp flip: power_add)

lemma unat64_less: "unat (w :: u64) < 2 ^ 64"
  using unsigned_less [of w] by simp

lemma val128_less: "val128 x < 2 ^ 128"
  using half_less [OF unat64_less [of "upper128 x"] unat64_less [of "lower128 x"]]
  by (simp add: val128_def)

lemma val256_less: "val256 x < 2 ^ 256"
  using half_less [OF val128_less [of "upper256 x"] val128_less [of "lower256 x"]]
  by (simp add: val256_def)

lemma val128_inj: "val128 x = val128 y \<longleftrightarrow> x = y"
  unfolding val128_def half_inj [OF unat64_less unat64_less]
  by (cases x; cases y) (simp add: word_unat_eq_iff)

lemma val256_inj: "val256 x = val256 y \<longleftrightarrow> x = y"
  unfolding val256_def half_inj [OF val128_less val128_less]
  by (cases x; cases y) (simp add: val128_inj)

lemma zero128_iff: "zero128 x \<longleftrightarrow> val128 x = 0"
  by (auto simp: zero128_def val128_def unat_eq_0)

lemma zero256_iff: "zero256 x \<longleftrightarrow> val256 x = 0"
  by (auto simp: zero256_def val256_def zero128_iff)

lemma val128_clear [simp]: "val128 clear128 = 0"
  by (simp add: val128_def clear128_def)

lemma val256_clear [simp]: "val256 clear256 = 0"
  by (simp add: val256_def clear256_def)

lemma copy128_id [simp]: "copy128 x = x"
  by (simp add: copy128_def)

lemma copy256_id [simp]: "copy256 x = x"
  by (simp add: copy256_def)

subsection \<open>Comparisons\<close>

lemma equal128_iff [simp]: "equal128 x y \<longleftrightarrow> x = y"
  by (cases x; cases y) (simp add: equal128_def)

lemma equal256_iff [simp]: "equal256 x y \<longleftrightarrow> x = y"
  by (cases x; cases y) (simp add: equal256_def)

lemma gt128_iff: "gt128 x y \<longleftrightarrow> val128 y < val128 x"
  unfolding gt128_def val128_def half_order [OF unat64_less unat64_less]
  by (auto simp: word_less_nat_alt word_unat_eq_iff)

lemma gt256_iff: "gt256 x y \<longleftrightarrow> val256 y < val256 x"
  unfolding gt256_def val256_def half_order [OF val128_less val128_less] gt128_iff
  by (auto simp: val128_inj)

lemma gte128_iff: "gte128 x y \<longleftrightarrow> val128 y \<le> val128 x"
  by (auto simp: gte128_def gt128_iff le_less val128_inj)

lemma gte256_iff: "gte256 x y \<longleftrightarrow> val256 y \<le> val256 x"
  by (auto simp: gte256_def gt256_iff le_less val256_inj)

subsection \<open>Addition and subtraction\<close>

lemma unat64_add: "unat (a + b) = (unat a + unat b) mod 2 ^ 64" for a b :: u64
  by (simp add: unat_word_ariths)

lemma unat64_minus: "unat (a - b) = (unat a + 2 ^ 64 - unat b) mod 2 ^ 64" for a b :: u64
  using unat64_less [of a] unat64_less [of b]
  by (simp add: unat_sub_if' mod_if)

lemma add64_carry: "(a + b < a) \<longleftrightarrow> 2 ^ 64 \<le> unat a + unat b" for a b :: u64
  unfolding word_less_nat_alt unat64_add by (rule mod_carry) (rule unat64_less)+

lemma minus64_borrow: "(a < a - b) \<longleftrightarrow> unat a < unat b" for a b :: u64
  unfolding word_less_nat_alt unat64_minus by (rule mod_borrow) (rule unat64_less)+

lemma val128_add: "val128 (add128 x y) = (val128 x + val128 y) mod 2 ^ 128"
proof -
  let ?u = "unat (upper128 x) + unat (upper128 y)" and ?c = "2 ^ 64 \<le> unat (lower128 x) + unat (lower128 y)"
  have "unat (upper128 x + upper128 y + of_bool ?c) = (?u + of_bool ?c) mod 2 ^ 64"
    by (cases ?c) (simp_all add: unat64_add mod_simps)
  then have "val128 (add128 x y) = (?u + of_bool ?c) mod 2 ^ 64 * 2 ^ 64
      + (unat (lower128 x) + unat (lower128 y)) mod 2 ^ 64"
    by (simp only: val128_def add128_def uint128_t.sel add64_carry unat64_add)
  also have "\<dots> = (val128 x + val128 y) mod (2 ^ 64 * 2 ^ 64)"
    unfolding val128_def by (rule half_add) (rule unat64_less)+
  finally show ?thesis unfolding pow_128 .
qed

lemma val128_minus: "val128 (minus128 x y) = (val128 x + 2 ^ 128 - val128 y) mod 2 ^ 128"
proof -
  let ?c = "unat (lower128 x) < unat (lower128 y)"
  have one: "unat (1 :: u64) = 1" by simp
  have up: "unat (upper128 x - upper128 y - of_bool ?c)
      = (if ?c then ((unat (upper128 x) + 2 ^ 64 - unat (upper128 y)) mod 2 ^ 64 + 2 ^ 64 - 1) mod 2 ^ 64
         else (unat (upper128 x) + 2 ^ 64 - unat (upper128 y)) mod 2 ^ 64)"
    by (cases ?c) (simp_all only: of_bool_eq if_True if_False one unat64_minus diff_zero diff_0_right)
  show ?thesis
    unfolding pow_128 val128_def minus128_def uint128_t.sel minus64_borrow up
    unfolding unat64_minus by (rule half_minus_borrow) (rule unat64_less)+
qed

lemma val256_add: "val256 (add256 x y) = (val256 x + val256 y) mod 2 ^ 256"
proof -
  let ?l1 = "val128 (lower256 x)" and ?l2 = "val128 (lower256 y)"
  let ?u = "val128 (upper256 x) + val128 (upper256 y)" and ?M = "2 ^ 128 :: nat"
  have carry: "gt128 (lower256 x) (add128 (lower256 x) (lower256 y)) \<longleftrightarrow> ?M \<le> ?l1 + ?l2"
    unfolding gt128_iff val128_add by (rule mod_carry) (rule val128_less)+
  have one: "val128 (UInt128 0 1) = 1" by (simp add: val128_def)
  have "val256 (add256 x y) = (?u + of_bool (?M \<le> ?l1 + ?l2)) mod ?M * ?M + (?l1 + ?l2) mod ?M"
    by (cases "?M \<le> ?l1 + ?l2")
      (simp_all add: val256_def add256_def Let_def carry val128_add one mod_simps)
  also have "\<dots> = (val256 x + val256 y) mod (?M * ?M)"
    unfolding val256_def by (rule half_add) (rule val128_less)+
  finally show ?thesis unfolding pow_256 .
qed

lemma val256_minus: "val256 (minus256 x y) = (val256 x + 2 ^ 256 - val256 y) mod 2 ^ 256"
proof -
  let ?c = "val128 (lower256 x) < val128 (lower256 y)"
  have borrow: "gt128 (minus128 (lower256 x) (lower256 y)) (lower256 x) \<longleftrightarrow> ?c"
    unfolding gt128_iff val128_minus by (rule mod_borrow) (rule val128_less)+
  have one: "val128 (UInt128 0 1) = 1" by (simp add: val128_def)
  show ?thesis
    unfolding pow_256 val256_def minus256_def Let_def uint256_t.sel borrow if_distrib [of val128]
    unfolding val128_minus one by (rule half_minus_borrow) (rule val128_less)+
qed

subsection \<open>Disjunction\<close>

lemma or_half:
  fixes M :: nat
  assumes "M = 2 ^ n" "y1 < M" "y2 < M"
  shows "(x1 * M + y1) OR (x2 * M + y2) = (x1 OR x2) * M + (y1 OR y2)"
proof -
  have "take_bit n (y1 OR y2) = y1 OR y2"
    using assms by (simp add: take_bit_nat_eq_self)
  then have "y1 OR y2 < M" using assms(1) take_bit_nat_less_exp [of n "y1 OR y2"] by simp
  then have "(x1 OR x2) * M + (y1 OR y2) = push_bit n (x1 OR x2) OR (y1 OR y2)"
    using assms by (intro half_bits)
  also have "\<dots> = (push_bit n x1 OR y1) OR (push_bit n x2 OR y2)"
    by (simp add: bit_eq_iff bit_simps) blast
  also have "\<dots> = (x1 * M + y1) OR (x2 * M + y2)"
    using assms by (simp only: half_bits)
  finally show ?thesis ..
qed

lemma val128_or: "val128 (or128 x y) = val128 x OR val128 y"
  unfolding val128_def or128_def uint128_t.sel unsigned_or_eq
  by (rule or_half [OF refl, symmetric]) (rule unat64_less)+

lemma val256_or: "val256 (or256 x y) = val256 x OR val256 y"
  unfolding val256_def or256_def uint256_t.sel val128_or
  by (rule or_half [OF refl, symmetric]) (rule val128_less)+

subsection \<open>Shifts\<close>

lemma shiftl_half:
  fixes u l h k :: nat
  assumes "l < 2 ^ h" "k \<le> h"
  shows "(u * 2 ^ h + l) * 2 ^ k mod (2 ^ h * 2 ^ h)
       = ((u * 2 ^ k + l div 2 ^ (h - k)) mod 2 ^ h) * 2 ^ h + (l * 2 ^ k) mod 2 ^ h"
proof -
  have "(2::nat) ^ h = 2 ^ (h - k) * 2 ^ k" using assms by (simp flip: power_add)
  then have "(l * 2 ^ k) div 2 ^ h = l div 2 ^ (h - k)" by simp
  then have "l * 2 ^ k = (l div 2 ^ (h - k)) * 2 ^ h + (l * 2 ^ k) mod 2 ^ h"
    by (metis div_mult_mod_eq)
  then have "(u * 2 ^ h + l) * 2 ^ k
      = (u * 2 ^ k + l div 2 ^ (h - k)) * 2 ^ h + (l * 2 ^ k) mod 2 ^ h"
    by (simp add: algebra_simps)
  moreover have "(l * 2 ^ k) mod 2 ^ h < 2 ^ h" by simp
  ultimately show ?thesis by (simp only: half_mod)
qed

lemma shiftl_half_far:
  fixes u l h k :: nat
  assumes "h \<le> k"
  shows "(u * 2 ^ h + l) * 2 ^ k mod (2 ^ h * 2 ^ h) = ((l * 2 ^ (k - h)) mod 2 ^ h) * 2 ^ h"
proof -
  have k: "(2::nat) ^ k = 2 ^ (k - h) * 2 ^ h" using assms by (simp flip: power_add)
  have "(u * 2 ^ h + l) * 2 ^ k = u * 2 ^ (k - h) * (2 ^ h * 2 ^ h) + l * 2 ^ (k - h) * 2 ^ h"
    unfolding k by (simp add: algebra_simps)
  then show ?thesis by (simp add: mod_mult_mult2)
qed

lemma shiftr_half_bound:
  fixes u l h k :: nat
  assumes "l < 2 ^ h" "k \<le> h"
  shows "(u * 2 ^ (h - k)) mod 2 ^ h + l div 2 ^ k < 2 ^ h"
proof -
  have h: "(2::nat) ^ h = 2 ^ k * 2 ^ (h - k)" using assms by (simp flip: power_add)
  have "l div 2 ^ k < 2 ^ (h - k)"
    using assms by (simp add: less_mult_imp_div_less flip: power_add)
  then have "(u mod 2 ^ k) * 2 ^ (h - k) + l div 2 ^ k < 2 ^ k * 2 ^ (h - k)"
    by (intro half_less) simp_all
  then show ?thesis unfolding h by (simp add: mod_mult_mult2)
qed

lemma shiftr_half:
  fixes u l h k :: nat
  assumes "l < 2 ^ h" "k \<le> h"
  shows "(u * 2 ^ h + l) div 2 ^ k
       = (u div 2 ^ k) * 2 ^ h + ((u * 2 ^ (h - k)) mod 2 ^ h + l div 2 ^ k)"
proof -
  have h: "(2::nat) ^ h = 2 ^ (h - k) * 2 ^ k" using assms by (simp flip: power_add)
  have "(u * 2 ^ h + l) div 2 ^ k = u * 2 ^ (h - k) + l div 2 ^ k"
    unfolding h by (metis div_mult_self3 mult.assoc power_not_zero zero_neq_numeral)
  moreover have "(u * 2 ^ (h - k)) div 2 ^ h = u div 2 ^ k"
    unfolding h by (simp add: mult.commute)
  ultimately show ?thesis by (metis add.assoc div_mult_mod_eq)
qed

lemma shiftr_half_far:
  fixes u l h k :: nat
  assumes "l < 2 ^ h" "h \<le> k"
  shows "(u * 2 ^ h + l) div 2 ^ k = u div 2 ^ (k - h)"
proof -
  have "(2::nat) ^ k = 2 ^ h * 2 ^ (k - h)" using assms by (simp flip: power_add)
  then show ?thesis using assms by (simp add: div_mult2_eq)
qed

lemma unat64_push_bit: "unat (push_bit n w) = (unat w * 2 ^ n) mod 2 ^ 64" for w :: u64
  by (subst unsigned_push_bit_eq) (simp add: push_bit_eq_mult take_bit_eq_mod)

lemma unat64_drop_bit: "unat (drop_bit n w) = unat w div 2 ^ n" for w :: u64
  by (subst unat_drop_bit_eq) (simp only: drop_bit_eq_div)

lemma unat_diff32: "v \<le> w \<Longrightarrow> unat (w - v) = unat w - unat v" for v w :: u32
  by (simp add: unat_sub)

lemma shift32_nat:
  fixes n :: u32
  shows "n \<ge> 128 \<longleftrightarrow> unat n \<ge> 128" "n = 64 \<longleftrightarrow> unat n = 64" "n = 0 \<longleftrightarrow> unat n = 0"
    "n < 64 \<longleftrightarrow> unat n < 64" "n < 128 \<longleftrightarrow> unat n < 128" "64 < n \<longleftrightarrow> 64 < unat n"
    "n \<ge> 256 \<longleftrightarrow> unat n \<ge> 256" "n = 128 \<longleftrightarrow> unat n = 128" "n < 256 \<longleftrightarrow> unat n < 256"
    "128 < n \<longleftrightarrow> 128 < unat n"
  by (simp_all add: word_le_nat_alt word_less_nat_alt word_unat_eq_iff)

lemma shift32_minus:
  fixes n :: u32
  shows "unat n < 64 \<Longrightarrow> unat (64 - n) = 64 - unat n"
    "unat n < 128 \<Longrightarrow> unat (128 - n) = 128 - unat n"
    "64 < unat n \<Longrightarrow> unat (n - 64) = unat n - 64"
    "128 < unat n \<Longrightarrow> unat (n - 128) = unat n - 128"
  by (simp_all add: unat_sub word_le_nat_alt)

lemma val128_shiftl: "val128 (shiftl128 x n) = (val128 x * 2 ^ unat n) mod 2 ^ 128"
proof -
  let ?k = "unat n" and ?u = "unat (upper128 x)" and ?l = "unat (lower128 x)"
  note defs = shiftl128_def shift32_nat
  consider "128 \<le> ?k" | "64 \<le> ?k" "?k < 128" | "?k = 0" | "0 < ?k" "?k < 64" by linarith
  then show ?thesis
  proof cases
    case 1
    then have "(2::nat) ^ 128 dvd 2 ^ ?k" by (rule le_imp_power_dvd)
    with 1 show ?thesis by (simp add: defs mod_eq_0_iff_dvd)
  next
    case 2
    then have "shiftl128 x n = UInt128 (push_bit (?k - 64) (lower128 x)) 0"
      by (auto simp: defs shift32_minus)
    then have "val128 (shiftl128 x n) = (?l * 2 ^ (?k - 64)) mod 2 ^ 64 * 2 ^ 64"
      by (simp only: val128_def uint128_t.sel unat64_push_bit unsigned_0 add_0_right)
    also have "\<dots> = val128 x * 2 ^ ?k mod (2 ^ 64 * 2 ^ 64)"
      unfolding val128_def by (rule shiftl_half_far [symmetric, OF 2(1)])
    finally show ?thesis unfolding pow_128 .
  next
    case 3
    with val128_less [of x] show ?thesis by (simp add: defs)
  next
    case 4
    then have "shiftl128 x n = UInt128 (push_bit ?k (upper128 x) + drop_bit (64 - ?k) (lower128 x))
        (push_bit ?k (lower128 x))"
      by (simp add: defs shift32_minus)
    then have "val128 (shiftl128 x n)
        = ((?u * 2 ^ ?k + ?l div 2 ^ (64 - ?k)) mod 2 ^ 64) * 2 ^ 64 + (?l * 2 ^ ?k) mod 2 ^ 64"
      by (simp only: val128_def uint128_t.sel unat64_push_bit unat64_add unat64_drop_bit mod_add_left_eq)
    also have "\<dots> = val128 x * 2 ^ ?k mod (2 ^ 64 * 2 ^ 64)"
      unfolding val128_def
      by (rule shiftl_half [symmetric]) (use 4 unat64_less in simp_all)
    finally show ?thesis unfolding pow_128 .
  qed
qed

lemma val128_shiftr: "val128 (shiftr128 x n) = val128 x div 2 ^ unat n"
proof -
  let ?k = "unat n" and ?u = "unat (upper128 x)" and ?l = "unat (lower128 x)"
  note defs = shiftr128_def shift32_nat
  have l: "?l < 2 ^ 64" by (rule unat64_less)
  consider "128 \<le> ?k" | "64 \<le> ?k" "?k < 128" | "?k = 0" | "0 < ?k" "?k < 64" by linarith
  then show ?thesis
  proof cases
    case 1
    then have "(2::nat) ^ 128 \<le> 2 ^ ?k" by (rule power_increasing) simp
    with val128_less [of x] have "val128 x < 2 ^ ?k" by linarith
    with 1 show ?thesis by (simp add: defs)
  next
    case 2
    then have "shiftr128 x n = UInt128 0 (drop_bit (?k - 64) (upper128 x))"
      by (auto simp: defs shift32_minus)
    then have "val128 (shiftr128 x n) = ?u div 2 ^ (?k - 64)"
      by (simp only: val128_def uint128_t.sel unat64_drop_bit unsigned_0 mult_0 add_0_left)
    also have "\<dots> = val128 x div 2 ^ ?k"
      unfolding val128_def by (rule shiftr_half_far [symmetric, OF l 2(1)])
    finally show ?thesis .
  next
    case 3
    then show ?thesis by (simp add: defs)
  next
    case 4
    then have k: "?k \<le> 64" by simp
    from 4 have "shiftr128 x n = UInt128 (drop_bit ?k (upper128 x))
        (push_bit (64 - ?k) (upper128 x) + drop_bit ?k (lower128 x))"
      by (simp add: defs shift32_minus)
    then have "val128 (shiftr128 x n)
        = (?u div 2 ^ ?k) * 2 ^ 64 + ((?u * 2 ^ (64 - ?k)) mod 2 ^ 64 + ?l div 2 ^ ?k)"
      by (simp only: val128_def uint128_t.sel unat64_push_bit unat64_add unat64_drop_bit
          mod_less [OF shiftr_half_bound [OF l k]])
    also have "\<dots> = val128 x div 2 ^ ?k"
      unfolding val128_def by (rule shiftr_half [symmetric, OF l k])
    finally show ?thesis .
  qed
qed

lemma val256_shiftl: "val256 (shiftl256 x n) = (val256 x * 2 ^ unat n) mod 2 ^ 256"
proof -
  let ?k = "unat n" and ?u = "val128 (upper256 x)" and ?l = "val128 (lower256 x)"
  note defs = shiftl256_def shift32_nat
  consider "256 \<le> ?k" | "128 \<le> ?k" "?k < 256" | "?k = 0" | "0 < ?k" "?k < 128" by linarith
  then show ?thesis
  proof cases
    case 1
    then have "(2::nat) ^ 256 dvd 2 ^ ?k" by (rule le_imp_power_dvd)
    with 1 show ?thesis by (simp add: defs mod_eq_0_iff_dvd)
  next
    case 2
    then have "val256 (shiftl256 x n) = (?l * 2 ^ (?k - 128)) mod 2 ^ 128 * 2 ^ 128"
      using val128_less [of "lower256 x"]
      by (cases "?k = 128") (simp_all add: defs val256_def shift32_minus val128_shiftl)
    also have "\<dots> = val256 x * 2 ^ ?k mod (2 ^ 128 * 2 ^ 128)"
      unfolding val256_def by (rule shiftl_half_far [symmetric, OF 2(1)])
    finally show ?thesis unfolding pow_256 .
  next
    case 3
    with val256_less [of x] show ?thesis by (simp add: defs)
  next
    case 4
    then have "shiftl256 x n = UInt256
        (add128 (shiftl128 (upper256 x) n) (shiftr128 (lower256 x) (128 - n))) (shiftl128 (lower256 x) n)"
      by (simp add: defs)
    then have "val256 (shiftl256 x n)
        = ((?u * 2 ^ ?k + ?l div 2 ^ (128 - ?k)) mod 2 ^ 128) * 2 ^ 128 + (?l * 2 ^ ?k) mod 2 ^ 128"
      by (simp only: val256_def uint256_t.sel val128_shiftl val128_add val128_shiftr
          shift32_minus(2) [OF 4(2)] mod_add_left_eq)
    also have "\<dots> = val256 x * 2 ^ ?k mod (2 ^ 128 * 2 ^ 128)"
      unfolding val256_def
      by (rule shiftl_half [symmetric]) (use 4 val128_less in simp_all)
    finally show ?thesis unfolding pow_256 .
  qed
qed

lemma val256_shiftr: "val256 (shiftr256 x n) = val256 x div 2 ^ unat n"
proof -
  let ?k = "unat n" and ?u = "val128 (upper256 x)" and ?l = "val128 (lower256 x)"
  note defs = shiftr256_def shift32_nat
  have l: "?l < 2 ^ 128" by (rule val128_less)
  consider "256 \<le> ?k" | "128 \<le> ?k" "?k < 256" | "?k = 0" | "0 < ?k" "?k < 128" by linarith
  then show ?thesis
  proof cases
    case 1
    then have "(2::nat) ^ 256 \<le> 2 ^ ?k" by (rule power_increasing) simp
    with val256_less [of x] have "val256 x < 2 ^ ?k" by linarith
    with 1 show ?thesis by (simp add: defs)
  next
    case 2
    then have "val256 (shiftr256 x n) = ?u div 2 ^ (?k - 128)"
      by (cases "?k = 128") (simp_all add: defs val256_def shift32_minus val128_shiftr)
    also have "\<dots> = val256 x div 2 ^ ?k"
      unfolding val256_def by (rule shiftr_half_far [symmetric, OF l 2(1)])
    finally show ?thesis .
  next
    case 3
    then show ?thesis by (simp add: defs)
  next
    case 4
    then have k: "?k \<le> 128" by simp
    from 4 have "shiftr256 x n = UInt256 (shiftr128 (upper256 x) n)
        (add128 (shiftr128 (lower256 x) n) (shiftl128 (upper256 x) (128 - n)))"
      by (simp add: defs)
    then have "val256 (shiftr256 x n)
        = (?u div 2 ^ ?k) * 2 ^ 128 + (?l div 2 ^ ?k + (?u * 2 ^ (128 - ?k)) mod 2 ^ 128) mod 2 ^ 128"
      by (simp only: val256_def uint256_t.sel val128_shiftl val128_add val128_shiftr
          shift32_minus(2) [OF 4(2)])
    also have "\<dots> = (?u div 2 ^ ?k) * 2 ^ 128 + ((?u * 2 ^ (128 - ?k)) mod 2 ^ 128 + ?l div 2 ^ ?k)"
      by (simp only: add.commute [of "?l div 2 ^ ?k"] mod_less [OF shiftr_half_bound [OF l k]])
    also have "\<dots> = val256 x div 2 ^ ?k"
      unfolding val256_def by (rule shiftr_half [symmetric, OF l k])
    finally show ?thesis .
  qed
qed

subsection \<open>Bit lengths\<close>

text \<open>The number of binary digits: the reference for \<open>bits128\<close> and \<open>bits256\<close>.\<close>

fun bit_len :: "nat \<Rightarrow> nat" where
  "bit_len n = (if n = 0 then 0 else Suc (bit_len (n div 2)))"

declare bit_len.simps [simp del]

lemma bit_len_0 [simp]: "bit_len 0 = 0"
  by (simp add: bit_len.simps)

lemma bit_len_pos: "0 < n \<Longrightarrow> bit_len n = Suc (bit_len (n div 2))"
  by (simp add: bit_len.simps)

lemma bit_len_upper: "n < 2 ^ bit_len n"
proof (induction n rule: bit_len.induct)
  case (1 n)
  then show ?case by (cases "n = 0") (auto simp: bit_len_pos)
qed

lemma bit_len_lower: "0 < n \<Longrightarrow> 2 ^ (bit_len n - 1) \<le> n"
proof (induction n rule: bit_len.induct)
  case (1 n)
  show ?case
  proof (cases "n < 2")
    case True
    with 1 show ?thesis by (simp add: bit_len_pos)
  next
    case False
    then have "2 ^ (bit_len (n div 2) - 1) \<le> n div 2" and "0 < bit_len (n div 2)"
      using 1 by (simp_all add: bit_len_pos)
    then have "2 * 2 ^ (bit_len (n div 2) - 1) \<le> n" by linarith
    with \<open>0 < bit_len (n div 2)\<close> False show ?thesis
      by (simp add: bit_len_pos flip: power_Suc)
  qed
qed

lemma bit_len_le: "n < 2 ^ k \<Longrightarrow> bit_len n \<le> k"
proof (rule ccontr)
  assume "n < 2 ^ k" "\<not> bit_len n \<le> k"
  then have "n \<noteq> 0" by (cases "n = 0") auto
  then have "2 ^ (bit_len n - 1) \<le> n" using bit_len_lower [of n] by simp
  moreover have "(2::nat) ^ k \<le> 2 ^ (bit_len n - 1)"
    using \<open>\<not> bit_len n \<le> k\<close> by (intro power_increasing) auto
  ultimately show False using \<open>n < 2 ^ k\<close> by linarith
qed

lemma bit_len_mono: "a \<le> b \<Longrightarrow> bit_len a \<le> bit_len b"
  by (rule bit_len_le) (use bit_len_upper [of b] in simp)

lemma bit_len_half: "0 < u \<Longrightarrow> l < 2 ^ h \<Longrightarrow> bit_len (u * 2 ^ h + l) = h + bit_len u"
proof (induction h arbitrary: l)
  case (Suc h)
  have "(u * 2 ^ Suc h + l) div 2 = u * 2 ^ h + l div 2" by simp
  moreover have "l div 2 < 2 ^ h" using Suc.prems by simp
  ultimately show ?case using Suc.IH [of "l div 2"] Suc.prems by (simp add: bit_len_pos)
qed simp

lemma bits_loop64_eq: "bits_loop64 w r = r + of_nat (bit_len (unat w))"
proof (induction w r rule: bits_loop64.induct)
  case (1 w r)
  show ?case
  proof (cases "w = 0")
    case False
    then have "0 < unat w" by (simp add: unat_gt_0)
    moreover have "unat (drop_bit 1 w) = unat w div 2" by (simp add: unat64_drop_bit del: drop_bit_Suc)
    ultimately show ?thesis
      using 1 [OF False] False by (simp add: bits_loop64.simps [of w r] bit_len_pos algebra_simps)
  qed (simp add: bits_loop64.simps)
qed

lemma unat_bits128: "unat (bits128 x) = bit_len (val128 x)"
proof -
  have le: "bit_len (unat (w :: u64)) \<le> 64" for w
    by (rule bit_len_le) (rule unat64_less)
  have "bits128 x = of_nat (bit_len (val128 x))"
  proof (cases "upper128 x = 0")
    case True
    then show ?thesis by (simp add: bits128_def bits_loop64_eq val128_def)
  next
    case False
    then have "bit_len (val128 x) = 64 + bit_len (unat (upper128 x))"
      unfolding val128_def by (intro bit_len_half unat64_less) (simp add: unat_gt_0)
    with False show ?thesis by (simp add: bits128_def bits_loop64_eq)
  qed
  moreover have "bit_len (val128 x) \<le> 128" by (rule bit_len_le) (rule val128_less)
  ultimately show ?thesis by (simp add: unat_of_nat)
qed

text \<open>The two loops of \<^verbatim>\<open>bits256\<close>, which shift a copy of one half to the right.\<close>

function bits_loop128 :: "uint128_t \<Rightarrow> u32 \<Rightarrow> u32" where
  "bits_loop128 w result =
     (if \<not> zero128 w then bits_loop128 (shiftr128 w 1) (result + 1) else result)"
  by pat_completeness auto
termination
  by (relation "measure (\<lambda>(w, result). val128 w)") (auto simp: zero128_iff val128_shiftr)

declare bits_loop128.simps [simp del]

definition bits256 :: "uint256_t \<Rightarrow> u32" where
  "bits256 number =
     (if \<not> zero128 (upper256 number) then bits_loop128 (copy128 (upper256 number)) 128
      else bits_loop128 (copy128 (lower256 number)) 0)"

lemma bits_loop128_eq: "bits_loop128 w r = r + of_nat (bit_len (val128 w))"
proof (induction w r rule: bits_loop128.induct)
  case (1 w r)
  then show ?case
    by (cases "zero128 w")
      (simp_all add: bits_loop128.simps [of w r] zero128_iff val128_shiftr bit_len_pos algebra_simps numeral_2_eq_2)
qed

lemma unat_bits256: "unat (bits256 x) = bit_len (val256 x)"
proof -
  have "bits256 x = of_nat (bit_len (val256 x))"
  proof (cases "zero128 (upper256 x)")
    case True
    then show ?thesis by (simp add: bits256_def bits_loop128_eq val256_def zero128_iff)
  next
    case False
    then have "bit_len (val256 x) = 128 + bit_len (val128 (upper256 x))"
      unfolding val256_def by (intro bit_len_half val128_less) (simp add: zero128_iff)
    with False show ?thesis by (simp add: bits256_def bits_loop128_eq)
  qed
  moreover have "bit_len (val256 x) \<le> 256" by (rule bit_len_le) (rule val256_less)
  ultimately show ?thesis by (simp add: unat_of_nat)
qed

section \<open>Big-endian input\<close>

lemma unat_byte_at: "k + 8 \<le> 64 \<Longrightarrow> unat (push_bit k (ucast (b :: u8)) :: u64) = push_bit k (unat b)"
proof -
  assume k: "k + 8 \<le> 64"
  have "unat b < 2 ^ 8" using unsigned_less [of b] by simp
  then have "unat b * 2 ^ k < 2 ^ 8 * 2 ^ k" by simp
  also have "(2::nat) ^ 8 * 2 ^ k = 2 ^ (k + 8)" by (simp add: power_add)
  also have "(2::nat) ^ (k + 8) \<le> 2 ^ 64" using k by (rule power_increasing) simp
  finally have "unat b * 2 ^ k < 2 ^ 64" .
  moreover have "unat (ucast b :: u64) = unat b" by (simp add: unsigned_ucast_eq take_bit_nat_eq_self order.strict_trans [OF \<open>unat b < 2 ^ 8\<close>])
  ultimately show ?thesis
    by (simp add: unsigned_push_bit_eq) (simp add: push_bit_eq_mult take_bit_eq_mod)
qed

lemma unat_readUint64BE_8:
  "unat (readUint64BE [a, b, c, d, e, f, g, h]) = be_val [a, b, c, d, e, f, g, h]"
proof -
  have u: "unat (ucast h :: u64) = be_val [h]"
    using unat_byte_at [of 0 h] by (simp add: be_val_Cons)
  have s: "be_val (x # y # r) = or (push_bit (8 * Suc (length r)) (unat x)) (be_val (y # r))" for x y r
    using be_val_less [of "y # r"] by (subst or_byte) (simp_all add: be_val_Cons power_mult power_add)
  show ?thesis
    by (simp add: readUint64BE_def unsigned_or_eq unat_byte_at u s)
qed

lemma unat_readUint64BE: "8 \<le> length bs \<Longrightarrow> unat (readUint64BE bs) = be_val (take 8 bs)"
proof -
  assume "8 \<le> length bs"
  then obtain a b c d e f g h r where "bs = a # b # c # d # e # f # g # h # r"
    by (auto simp: numeral_eq_Suc Suc_le_length_iff)
  then show ?thesis
    using unat_readUint64BE_8 [of a b c d e f g h] by (simp add: readUint64BE_def)
qed

lemma val128_readu128BE: "16 \<le> length bs \<Longrightarrow> val128 (readu128BE bs) = be_val (take 16 bs)"
  using be_val_append [of "take 8 bs" "take 8 (drop 8 bs)"]
  by (simp add: readu128BE_def val128_def unat_readUint64BE flip: take_add)

lemma val256_readu256BE: "32 \<le> length bs \<Longrightarrow> val256 (readu256BE bs) = be_val (take 32 bs)"
  using be_val_append [of "take 16 bs" "take 16 (drop 16 bs)"]
  by (simp add: readu256BE_def val256_def val128_readu128BE flip: take_add)

lemma val256_convertUint256BE:
  assumes "len \<le> 32" "len \<le> length data"
  shows "\<exists>x. convertUint256BE data len = Some x \<and> val256 x = be_val (take len data)"
proof -
  have "buf_write (replicate 32 0) (32 - len) (take len data) = replicate (32 - len) 0 @ take len data"
    using assms by (simp add: buf_write_def min_def)
  then show ?thesis
    using assms be_val_append [of "replicate (32 - len) 0" "take len data"]
    by (simp add: convertUint256BE_def val256_readu256BE)
qed

section \<open>The comparisons as linear orders\<close>

instantiation uint128_t :: linorder
begin

definition less_eq_uint128_t :: "uint128_t \<Rightarrow> uint128_t \<Rightarrow> bool" where
  "x \<le> y \<longleftrightarrow> gte128 y x"

definition less_uint128_t :: "uint128_t \<Rightarrow> uint128_t \<Rightarrow> bool" where
  "x < y \<longleftrightarrow> gt128 y x"

instance
  by standard (auto simp: less_eq_uint128_t_def less_uint128_t_def gt128_iff gte128_iff val128_inj [symmetric])

end

instantiation uint256_t :: linorder
begin

definition less_eq_uint256_t :: "uint256_t \<Rightarrow> uint256_t \<Rightarrow> bool" where
  "x \<le> y \<longleftrightarrow> gte256 y x"

definition less_uint256_t :: "uint256_t \<Rightarrow> uint256_t \<Rightarrow> bool" where
  "x < y \<longleftrightarrow> gt256 y x"

instance
  by standard (auto simp: less_eq_uint256_t_def less_uint256_t_def gt256_iff gte256_iff val256_inj [symmetric])

end

end
