(* ===== verification/Uint256_Div.thy ===== *)
theory Uint256_Div
  imports Uint256
begin

text \<open>
  Division of wide numbers: \<^verbatim>\<open>divmod128\<close> and \<^verbatim>\<open>divmod256\<close> of \<^verbatim>\<open>src/src/uint256.c\<close>. The two
  widths run the same algorithm, so it is verified once, in a locale over the operations of a width,
  and the locale is interpreted on the 128-bit and on the 256-bit functions. A loop that may run
  forever returns \<^const>\<open>None\<close>: the division by a non-zero number is shown to return, the division
  by zero not to.
\<close>

section \<open>Division\<close>

partial_function (option) divmod128_loop ::
  "uint128_t \<Rightarrow> uint128_t \<Rightarrow> uint128_t \<Rightarrow> uint128_t \<Rightarrow> uint128_t \<Rightarrow> (uint128_t \<times> uint128_t) option" where
  "divmod128_loop r copyd adder resDiv resMod =
     (if gte128 resMod r
      then if gte128 resMod copyd
        then divmod128_loop r (shiftr128 copyd 1) (shiftr128 adder 1)
               (or128 resDiv adder) (minus128 resMod copyd)
        else divmod128_loop r (shiftr128 copyd 1) (shiftr128 adder 1) resDiv resMod
      else Some (resDiv, resMod))"

definition divmod128 :: "uint128_t \<Rightarrow> uint128_t \<Rightarrow> (uint128_t \<times> uint128_t) option" where
  "divmod128 l r =
     (let diffBits = bits128 l - bits128 r in
      if gt128 r l then Some (clear128, copy128 l)
      else
        let copyd = shiftl128 r diffBits; adder = shiftl128 (UInt128 0 1) diffBits in
        if gt128 copyd l
        then divmod128_loop r (shiftr128 copyd 1) (shiftr128 adder 1) clear128 (copy128 l)
        else divmod128_loop r copyd adder clear128 (copy128 l))"

partial_function (option) divmod256_loop ::
  "uint256_t \<Rightarrow> uint256_t \<Rightarrow> uint256_t \<Rightarrow> uint256_t \<Rightarrow> uint256_t \<Rightarrow> (uint256_t \<times> uint256_t) option" where
  "divmod256_loop r copyd adder resDiv resMod =
     (if gte256 resMod r
      then if gte256 resMod copyd
        then divmod256_loop r (shiftr256 copyd 1) (shiftr256 adder 1)
               (or256 resDiv adder) (minus256 resMod copyd)
        else divmod256_loop r (shiftr256 copyd 1) (shiftr256 adder 1) resDiv resMod
      else Some (resDiv, resMod))"

definition divmod256 :: "uint256_t \<Rightarrow> uint256_t \<Rightarrow> (uint256_t \<times> uint256_t) option" where
  "divmod256 l r =
     (let diffBits = bits256 l - bits256 r in
      if gt256 r l then Some (clear256, copy256 l)
      else
        let copyd = shiftl256 r diffBits; adder = shiftl256 (UInt256 clear128 (UInt128 0 1)) diffBits in
        if gt256 copyd l
        then divmod256_loop r (shiftr256 copyd 1) (shiftr256 adder 1) clear256 (copy256 l)
        else divmod256_loop r copyd adder clear256 (copy256 l))"

section \<open>Interfaces\<close>

text \<open>What the division algorithm relies on: the operations of one width and their values.\<close>

locale wide_unsigned =
  fixes width :: nat
    and valu :: "'u \<Rightarrow> nat"
    and clear one :: 'u
    and gt gte :: "'u \<Rightarrow> 'u \<Rightarrow> bool"
    and minus_op or_op :: "'u \<Rightarrow> 'u \<Rightarrow> 'u"
    and shiftl shiftr :: "'u \<Rightarrow> u32 \<Rightarrow> 'u"
    and bits :: "'u \<Rightarrow> u32"
  assumes valu_less: "valu x < 2 ^ width"
    and valu_clear: "valu clear = 0"
    and valu_one: "valu one = 1"
    and gt_iff: "gt x y \<longleftrightarrow> valu y < valu x"
    and gte_iff: "gte x y \<longleftrightarrow> valu y \<le> valu x"
    and valu_minus: "valu (minus_op x y) = (valu x + 2 ^ width - valu y) mod 2 ^ width"
    and valu_or: "valu (or_op x y) = or (valu x) (valu y)"
    and valu_shiftl: "valu (shiftl x n) = (valu x * 2 ^ unat n) mod 2 ^ width"
    and valu_shiftr: "valu (shiftr x n) = valu x div 2 ^ unat n"
    and valu_bits: "unat (bits x) = bit_len (valu x)"
begin

lemma minus_exact: "valu y \<le> valu x \<Longrightarrow> valu (minus_op x y) = valu x - valu y"
proof -
  assume le: "valu y \<le> valu x"
  then have "valu x + 2 ^ width - valu y = (valu x - valu y) + 2 ^ width" by simp
  moreover have "valu x - valu y < 2 ^ width" using valu_less [of x] by linarith
  ultimately show ?thesis by (simp only: valu_minus mod_add_self2 mod_less)
qed

lemma shiftl_exact: "valu x * 2 ^ unat n < 2 ^ width \<Longrightarrow> valu (shiftl x n) = valu x * 2 ^ unat n"
  by (simp add: valu_shiftl)

lemma or_low_bit: "2 ^ Suc k dvd valu x \<Longrightarrow> valu a = 2 ^ k \<Longrightarrow> valu (or_op x a) = valu x + 2 ^ k"
proof -
  assume "2 ^ Suc k dvd valu x" "valu a = 2 ^ k"
  then obtain q where q: "valu x = q * 2 ^ Suc k" by (auto simp: dvd_def mult.commute)
  have "q * 2 ^ Suc k + 2 ^ k = or (push_bit (Suc k) q) (2 ^ k)"
    by (rule half_bits) simp_all
  then show ?thesis
    by (simp add: valu_or q \<open>valu a = 2 ^ k\<close> push_bit_eq_mult)
qed

end

locale wide_division = wide_unsigned width valu clear one gt gte minus_op or_op shiftl shiftr bits
  for width :: nat and valu :: "'u \<Rightarrow> nat" and clear one gt gte minus_op or_op shiftl shiftr bits +
  fixes loop :: "'u \<Rightarrow> 'u \<Rightarrow> 'u \<Rightarrow> 'u \<Rightarrow> 'u \<Rightarrow> ('u \<times> 'u) option"
    and divmod :: "'u \<Rightarrow> 'u \<Rightarrow> ('u \<times> 'u) option"
  assumes loop_unfold:
      "loop r copyd adder resDiv resMod =
         (if gte resMod r
          then if gte resMod copyd
            then loop r (shiftr copyd 1) (shiftr adder 1) (or_op resDiv adder) (minus_op resMod copyd)
            else loop r (shiftr copyd 1) (shiftr adder 1) resDiv resMod
          else Some (resDiv, resMod))"
    and loop_result: "loop r copyd adder resDiv resMod = Some (q, m) \<Longrightarrow> \<not> gte m r"
    and divmod_unfold:
      "divmod l r =
         (let diffBits = bits l - bits r in
          if gt r l then Some (clear, l)
          else
            let copyd = shiftl r diffBits; adder = shiftl one diffBits in
            if gt copyd l then loop r (shiftr copyd 1) (shiftr adder 1) clear l
            else loop r copyd adder clear l)"
begin

lemma loop_correct:
  assumes "0 < valu r" "valu copyd = valu r * 2 ^ k" "valu adder = 2 ^ k"
    "valu resMod < valu r * 2 ^ Suc k" "2 ^ Suc k dvd valu resDiv"
  shows "\<exists>q m. loop r copyd adder resDiv resMod = Some (q, m) \<and>
      valu q = valu resDiv + valu resMod div valu r \<and> valu m = valu resMod mod valu r"
  using assms
proof (induction k arbitrary: copyd adder resDiv resMod)
  case 0
  let ?d = "or_op resDiv adder" and ?m = "minus_op resMod copyd"
  show ?case
  proof (cases "valu r \<le> valu resMod")
    case True
    then have m: "valu ?m = valu resMod - valu r" using 0 by (simp add: minus_exact)
    have "valu resMod - valu r < valu r" using 0 by simp
    then have "loop r (shiftr copyd 1) (shiftr adder 1) ?d ?m = Some (?d, ?m)"
      by (subst loop_unfold) (simp add: gte_iff m)
    then have "loop r copyd adder resDiv resMod = Some (?d, ?m)"
      using True 0 by (subst loop_unfold) (simp add: gte_iff)
    moreover have "valu ?d = valu resDiv + 1" using or_low_bit [of 0 resDiv adder] 0 by simp
    ultimately show ?thesis
      using True 0 m by (simp add: le_div_geq le_mod_geq)
  next
    case False
    then show ?thesis by (subst loop_unfold) (simp add: gte_iff)
  qed
next
  case (Suc k)
  let ?c = "shiftr copyd 1" and ?a = "shiftr adder 1"
  let ?d = "or_op resDiv adder" and ?m = "minus_op resMod copyd"
  have c: "valu ?c = valu r * 2 ^ k" and a: "valu ?a = 2 ^ k"
    using Suc.prems by (simp_all add: valu_shiftr)
  have dvd: "2 ^ Suc k dvd valu resDiv" using Suc.prems(5) by (rule power_le_dvd) simp
  show ?case
  proof (cases "valu r \<le> valu resMod")
    case ge: True
    show ?thesis
    proof (cases "valu copyd \<le> valu resMod")
      case True
      then have m: "valu ?m = valu resMod - valu copyd" by (rule minus_exact)
      have d: "valu ?d = valu resDiv + 2 ^ Suc k"
        by (rule or_low_bit) (use Suc.prems in simp_all)
      have "valu ?m < valu r * 2 ^ Suc k" using Suc.prems True by (simp add: m)
      moreover have "2 ^ Suc k dvd valu ?d" using dvd by (simp add: d)
      ultimately obtain q m' where qm: "loop r ?c ?a ?d ?m = Some (q, m')"
        "valu q = valu ?d + valu ?m div valu r" "valu m' = valu ?m mod valu r"
        using Suc.IH [OF Suc.prems(1) c a] by blast
      have "valu resMod = valu ?m + valu r * 2 ^ Suc k" using True Suc.prems by (simp add: m)
      then have "valu resMod div valu r = valu ?m div valu r + 2 ^ Suc k"
        "valu resMod mod valu r = valu ?m mod valu r"
        using Suc.prems(1) by simp_all
      with qm ge True show ?thesis by (subst loop_unfold) (simp add: gte_iff d)
    next
      case False
      then have "valu resMod < valu r * 2 ^ Suc k" using Suc.prems by simp
      then obtain q m' where "loop r ?c ?a resDiv resMod = Some (q, m')"
        "valu q = valu resDiv + valu resMod div valu r" "valu m' = valu resMod mod valu r"
        using Suc.IH [OF Suc.prems(1) c a _ dvd] by blast
      with ge False show ?thesis by (subst loop_unfold) (simp add: gte_iff)
    qed
  next
    case False
    then show ?thesis by (subst loop_unfold) (simp add: gte_iff)
  qed
qed

text \<open>
  The two shifted copies of the divisor that \<^verbatim>\<open>divmod\<close> starts from: aligning the leading bits of
  divisor and dividend neither overflows nor leaves the dividend more than twice as large.
\<close>

lemma align:
  assumes "0 < valu r" "valu r \<le> valu l"
  defines "d \<equiv> bit_len (valu l) - bit_len (valu r)"
  shows "unat (bits l - bits r) = d"
    and "valu (shiftl r (bits l - bits r)) = valu r * 2 ^ d"
    and "valu (shiftl one (bits l - bits r)) = 2 ^ d"
    and "valu l < valu r * 2 ^ Suc d"
proof -
  let ?n = "bit_len (valu l)" and ?m = "bit_len (valu r)"
  have nm: "?m \<le> ?n" using assms(2) by (rule bit_len_mono)
  then show d: "unat (bits l - bits r) = d"
    unfolding d_def by (simp add: unat_sub word_le_nat_alt valu_bits)
  have split: "(2::nat) ^ ?n = 2 ^ ?m * 2 ^ d" using nm by (simp add: d_def flip: power_add)
  have "valu r * 2 ^ d < 2 ^ ?m * 2 ^ d" using bit_len_upper [of "valu r"] by simp
  also have "\<dots> \<le> 2 ^ width"
    unfolding split [symmetric] by (intro power_increasing bit_len_le valu_less) simp
  finally have fits: "valu r * 2 ^ d < 2 ^ width" .
  then show "valu (shiftl r (bits l - bits r)) = valu r * 2 ^ d"
    using shiftl_exact [of r "bits l - bits r"] by (simp add: d)
  have "1 * 2 ^ d \<le> valu r * 2 ^ d" using assms(1) by (intro mult_le_mono1) simp
  with fits have "2 ^ d < (2::nat) ^ width" by linarith
  then show "valu (shiftl one (bits l - bits r)) = 2 ^ d"
    using shiftl_exact [of one "bits l - bits r"] by (simp only: d valu_one mult_1)
  have "?m \<noteq> 0" using assms(1) by (simp add: bit_len_pos)
  then have "(2::nat) ^ ?m = 2 * 2 ^ (?m - 1)" by (simp flip: power_Suc)
  then have "(2::nat) ^ ?m \<le> 2 * valu r" using bit_len_lower [OF assms(1)] by simp
  then have "(2::nat) ^ ?m * 2 ^ d \<le> 2 * valu r * 2 ^ d" by (rule mult_le_mono1)
  moreover have "2 * valu r * 2 ^ d = valu r * 2 ^ Suc d" by simp
  ultimately show "valu l < valu r * 2 ^ Suc d"
    using bit_len_upper [of "valu l"] unfolding split by linarith
qed

theorem divmod_correct:
  assumes "0 < valu r"
  shows "\<exists>q m. divmod l r = Some (q, m) \<and> valu q = valu l div valu r \<and> valu m = valu l mod valu r"
proof (cases "valu l < valu r")
  case True
  then show ?thesis by (simp add: divmod_unfold gt_iff valu_clear Let_def)
next
  case False
  then have le: "valu r \<le> valu l" by simp
  note al = align [OF assms le]
  let ?b = "bits l - bits r" and ?d = "bit_len (valu l) - bit_len (valu r)"
  let ?c = "shiftl r ?b" and ?a = "shiftl one ?b"
  have zero: "2 ^ k dvd valu clear" for k by (simp add: valu_clear)
  show ?thesis
  proof (cases "valu l < valu ?c")
    case True
    then have "?d \<noteq> 0" using le al(2) by (cases "?d = 0") auto
    then obtain k where k: "?d = Suc k" by (cases ?d) auto
    have "valu (shiftr ?c 1) = valu r * 2 ^ k" "valu (shiftr ?a 1) = 2 ^ k"
      by (simp_all add: valu_shiftr al(2,3) k)
    moreover have "valu l < valu r * 2 ^ Suc k" using True al(2) k by simp
    ultimately have "\<exists>q m. loop r (shiftr ?c 1) (shiftr ?a 1) clear l = Some (q, m) \<and>
        valu q = valu clear + valu l div valu r \<and> valu m = valu l mod valu r"
      by (intro loop_correct [OF assms _ _ _ zero])
    with True False show ?thesis by (simp add: divmod_unfold gt_iff valu_clear Let_def)
  next
    case ge: False
    have "\<exists>q m. loop r ?c ?a clear l = Some (q, m) \<and>
        valu q = valu clear + valu l div valu r \<and> valu m = valu l mod valu r"
      by (rule loop_correct [OF assms al(2,3,4) zero])
    with ge False show ?thesis by (simp add: divmod_unfold gt_iff valu_clear Let_def)
  qed
qed

theorem divmod_zero_diverges:
  assumes "valu r = 0"
  shows "divmod l r = None"
proof -
  have "loop r c a d m = None" for c a d m
  proof (cases "loop r c a d m")
    case (Some qm)
    then have "\<not> gte (snd qm) r" by (intro loop_result [of r c a d m "fst qm"]) simp
    with assms show ?thesis by (simp add: gte_iff)
  qed
  with assms show ?thesis by (simp add: divmod_unfold gt_iff Let_def)
qed

end

section \<open>The interfaces on the two widths\<close>

lemma divmod128_loop_result:
  assumes "divmod128_loop r copyd adder resDiv resMod = Some (q, m)"
  shows "\<not> gte128 m r"
proof -
  have "\<not> gte128 (snd qm) r" if "divmod128_loop r copyd adder resDiv resMod = Some qm" for qm
    by (rule divmod128_loop.raw_induct
        [where P = "\<lambda>r copyd adder resDiv resMod qm. \<not> gte128 (snd qm) r", OF _ that])
      (auto split: if_splits)
  from this [OF assms] show ?thesis by simp
qed

lemma divmod256_loop_result:
  assumes "divmod256_loop r copyd adder resDiv resMod = Some (q, m)"
  shows "\<not> gte256 m r"
proof -
  have "\<not> gte256 (snd qm) r" if "divmod256_loop r copyd adder resDiv resMod = Some qm" for qm
    by (rule divmod256_loop.raw_induct
        [where P = "\<lambda>r copyd adder resDiv resMod qm. \<not> gte256 (snd qm) r", OF _ that])
      (auto split: if_splits)
  from this [OF assms] show ?thesis by simp
qed

lemmas divmod128_unfold = divmod128_def [unfolded copy128_id]

lemmas divmod256_unfold = divmod256_def [unfolded copy256_id]

lemma val128_one: "val128 (UInt128 0 1) = 1"
  by (simp add: val128_def)

lemma val256_one: "val256 (UInt256 clear128 (UInt128 0 1)) = 1"
  by (simp add: val256_def val128_one)

interpretation w128: wide_division 128 val128 clear128 "UInt128 0 1" gt128 gte128 minus128 or128
    shiftl128 shiftr128 bits128 divmod128_loop divmod128
  by unfold_locales
    (fact val128_less val128_clear val128_one gt128_iff gte128_iff val128_minus val128_or val128_shiftl
       val128_shiftr unat_bits128 divmod128_loop.simps divmod128_loop_result divmod128_unfold)+

interpretation w256: wide_division 256 val256 clear256 "UInt256 clear128 (UInt128 0 1)" gt256 gte256
    minus256 or256 shiftl256 shiftr256 bits256 divmod256_loop divmod256
  by unfold_locales
    (fact val256_less val256_clear val256_one gt256_iff gte256_iff val256_minus val256_or val256_shiftl
       val256_shiftr unat_bits256 divmod256_loop.simps divmod256_loop_result divmod256_unfold)+

section \<open>Properties\<close>

text \<open>C24: Division by a non-zero number always returns, at both widths, and returns the quotient and
  the remainder: the shift-and-subtract loop of \<^verbatim>\<open>divmod128\<close> and \<^verbatim>\<open>divmod256\<close> computes
  \<^verbatim>\<open>l / r\<close> and \<^verbatim>\<open>l % r\<close>.\<close>

theorem divmod_total_correct:
  assumes "val128 r \<noteq> 0" "val256 s \<noteq> 0"
  shows "(\<exists>q m. divmod128 l r = Some (q, m) \<and> val128 q = val128 l div val128 r \<and> val128 m = val128 l mod val128 r) \<and>
    (\<exists>q m. divmod256 k s = Some (q, m) \<and> val256 q = val256 k div val256 s \<and> val256 m = val256 k mod val256 s)"
  using w128.divmod_correct [of r l] w256.divmod_correct [of s k] assms by simp_all

theorem divmod_total_correct_witness:
  "\<exists>q m. divmod128 (UInt128 3 5) (UInt128 0 7) = Some (q, m) \<and>
     val128 q = val128 (UInt128 3 5) div val128 (UInt128 0 7)"
proof -
  have "val128 (UInt128 0 7) \<noteq> 0" "val256 (UInt256 clear128 (UInt128 0 1)) \<noteq> 0"
    by (simp_all add: val128_def val256_one)
  from divmod_total_correct [OF this, of "UInt128 3 5"] show ?thesis by blast
qed

text \<open>C35: Division by zero never returns: \<^verbatim>\<open>divmod128\<close> and \<^verbatim>\<open>divmod256\<close> loop forever on a zero
  divisor, whatever the dividend. The callers only divide by the bases 2 to 16.\<close>

theorem divmod_by_zero_diverges:
  assumes "val128 r = 0" "val256 s = 0"
  shows "divmod128 l r = None \<and> divmod256 k s = None"
  using w128.divmod_zero_diverges w256.divmod_zero_diverges assms by simp_all

theorem divmod_by_zero_diverges_witness: "divmod128 (UInt128 1 2) clear128 = None"
proof -
  have "val128 clear128 = 0" "val256 clear256 = 0" by (simp_all add: val128_clear val256_clear)
  from divmod_by_zero_diverges [OF this] show ?thesis by blast
qed

end
