(* ===== verification/Uint256_Print.thy ===== *)
theory Uint256_Print
  imports Uint256_Div
begin

text \<open>
  Printing of wide numbers: \<^verbatim>\<open>tostring128\<close>, \<^verbatim>\<open>tostring256\<close> and \<^verbatim>\<open>reverseString\<close> of
  \<^verbatim>\<open>src/src/uint256.c\<close>. As for the division, the two widths are instances of one verified algorithm.
  The output buffer is explicit, so the lemmas also say where the code writes.
\<close>

section \<open>The code\<close>

function reverse_loop :: "bytes \<Rightarrow> u32 \<Rightarrow> u32 \<Rightarrow> bytes" where
  "reverse_loop str i j =
     (if i < j
      then reverse_loop (buf_set (buf_set str (unat i) (str ! unat j)) (unat j) (str ! unat i)) (i + 1) (j - 1)
      else str)"
  by pat_completeness auto
termination
proof (relation "measure (\<lambda>(str, i, j). unat j - unat i)")
  fix str :: bytes and i j :: u32
  assume "i < j"
  then have "unat (i + 1) = unat i + 1" "unat (j - 1) = unat j - 1" "unat i < unat j"
    by (simp_all add: unat32_Suc_less unat32_pred) (simp add: word_less_nat_alt)
  then show "((buf_set (buf_set str (unat i) (str ! unat j)) (unat j) (str ! unat i), i + 1, j - 1), str, i, j)
      \<in> measure (\<lambda>(str, i, j). unat j - unat i)" by simp
qed simp

definition reverseString :: "bytes \<Rightarrow> u32 \<Rightarrow> bytes" where
  "reverseString str len = reverse_loop str 0 (len - 1)"

partial_function (option) tostring128_loop ::
  "uint128_t \<Rightarrow> u32 \<Rightarrow> uint128_t \<Rightarrow> u32 \<Rightarrow> bytes \<Rightarrow> (bool \<times> u32 \<times> bytes) option" where
  "tostring128_loop base outLength rDiv offset out =
     (if offset > outLength - 1 then Some (False, offset, out)
      else
        Option.bind (divmod128 rDiv base) (\<lambda>(rDiv', rMod).
          let out' = buf_set out (unat offset) (HEXDIGITS ! unat (ucast (lower128 rMod) :: u8)) in
          if \<not> zero128 rDiv' then tostring128_loop base outLength rDiv' (offset + 1) out'
          else Some (True, offset + 1, out')))"

definition tostring128 :: "uint128_t \<Rightarrow> u32 \<Rightarrow> bytes \<Rightarrow> u32 \<Rightarrow> (bool \<times> bytes) option" where
  "tostring128 number baseParam out outLength =
     (if baseParam < 2 \<or> baseParam > 16 then Some (False, out)
      else
        Option.bind (tostring128_loop (UInt128 0 (ucast baseParam)) outLength (copy128 number) 0 out)
          (\<lambda>(ok, offset, out').
             if ok then Some (True, reverseString (buf_set out' (unat offset) 0) offset)
             else Some (False, out')))"

partial_function (option) tostring256_loop ::
  "uint256_t \<Rightarrow> u32 \<Rightarrow> uint256_t \<Rightarrow> u32 \<Rightarrow> bytes \<Rightarrow> (bool \<times> u32 \<times> bytes) option" where
  "tostring256_loop base outLength rDiv offset out =
     (if offset > outLength - 1 then Some (False, offset, out)
      else
        Option.bind (divmod256 rDiv base) (\<lambda>(rDiv', rMod).
          let out' = buf_set out (unat offset) (HEXDIGITS ! unat (ucast (lower128 (lower256 rMod)) :: u8)) in
          if \<not> zero256 rDiv' then tostring256_loop base outLength rDiv' (offset + 1) out'
          else Some (True, offset + 1, out')))"

definition tostring256 :: "uint256_t \<Rightarrow> u32 \<Rightarrow> bytes \<Rightarrow> u32 \<Rightarrow> (bool \<times> bytes) option" where
  "tostring256 number baseParam out outLength =
     (if baseParam < 2 \<or> baseParam > 16 then Some (False, out)
      else
        Option.bind
          (tostring256_loop (UInt256 clear128 (UInt128 0 (ucast baseParam))) outLength (copy256 number) 0 out)
          (\<lambda>(ok, offset, out').
             if ok then Some (True, reverseString (buf_set out' (unat offset) 0) offset)
             else Some (False, out')))"

section \<open>Reversing a string in place\<close>

declare reverse_loop.simps [simp del]

lemma reverse_loop_nth:
  assumes "unat j < length str"
  shows "length (reverse_loop str i j) = length str \<and>
    (\<forall>p < length str. reverse_loop str i j ! p =
       (if unat i \<le> p \<and> p \<le> unat j then str ! (unat i + unat j - p) else str ! p))"
  using assms
proof (induction str i j rule: reverse_loop.induct)
  case (1 str i j)
  show ?case
  proof (cases "i < j")
    case True
    let ?i = "unat i" and ?j = "unat j"
    let ?s = "str[?i := str ! ?j, ?j := str ! ?i]"
    have ij: "?i < ?j" using True by (simp add: word_less_nat_alt)
    have s: "buf_set (buf_set str ?i (str ! ?j)) ?j (str ! ?i) = ?s"
      using 1(2) ij by (simp add: buf_set_eq_list_update)
    have step: "unat (i + 1) = ?i + 1" "unat (j - 1) = ?j - 1"
      using True by (simp_all add: unat32_Suc_less unat32_pred)
    have "length (reverse_loop ?s (i + 1) (j - 1)) = length ?s \<and>
      (\<forall>p < length ?s. reverse_loop ?s (i + 1) (j - 1) ! p =
         (if ?i + 1 \<le> p \<and> p \<le> ?j - 1 then ?s ! (?i + ?j - p) else ?s ! p))"
      using "1.IH" [OF True] 1(2) ij unfolding s step by simp
    moreover have "reverse_loop str i j = reverse_loop ?s (i + 1) (j - 1)"
      using True by (subst reverse_loop.simps) (simp add: s)
    ultimately show ?thesis
      using ij 1(2) by (auto simp: nth_list_update)
  next
    case False
    then have "unat j \<le> unat i" by (simp add: word_less_nat_alt)
    then have "unat i + unat j - p = p" if "unat i \<le> p" "p \<le> unat j" for p
      using that by linarith
    with False show ?thesis by (simp add: reverse_loop.simps [of str i j])
  qed
qed

lemma reverseString_eq:
  assumes "0 < unat n" "unat n \<le> length str"
  shows "reverseString str n = rev (take (unat n) str) @ drop (unat n) str"
proof (rule nth_equalityI)
  have j: "unat (n - 1) = unat n - 1" using assms(1) by (simp add: unat_sub word_le_nat_alt)
  note rl = reverse_loop_nth [of "n - 1" str 0, unfolded j]
  have len: "length (reverseString str n) = length str"
    and nth: "p < length str \<Longrightarrow> reverseString str n ! p = (if p \<le> unat n - 1 then str ! (unat n - 1 - p) else str ! p)" for p
    using rl assms by (simp_all add: reverseString_def)
  show "length (reverseString str n) = length (rev (take (unat n) str) @ drop (unat n) str)"
    using len by simp
  fix p assume "p < length (reverseString str n)"
  then show "reverseString str n ! p = (rev (take (unat n) str) @ drop (unat n) str) ! p"
    using assms len nth [of p] by (auto simp: nth_append rev_nth)
qed

section \<open>Digits\<close>

text \<open>The digits of a number to a base, least significant first: the reference for printing.\<close>

function rdigits :: "nat \<Rightarrow> nat \<Rightarrow> nat list" where
  "rdigits b n = (n mod b) # (if n div b = 0 \<or> b < 2 then [] else rdigits b (n div b))"
  by pat_completeness auto
termination
  by (relation "measure snd") (auto intro!: div_less_dividend simp: div_greater_zero_iff)

declare rdigits.simps [simp del]

definition digits :: "nat \<Rightarrow> nat \<Rightarrow> nat list" where
  "digits b n = rev (rdigits b n)"

fun digits_val :: "nat \<Rightarrow> nat list \<Rightarrow> nat" where
  "digits_val b [] = 0"
| "digits_val b (d # ds) = d * b ^ length ds + digits_val b ds"

lemma digits_val_snoc: "digits_val b (ds @ [d]) = digits_val b ds * b + d"
  by (induction ds) (auto simp: algebra_simps)

lemma rdigits_small: "n < b \<Longrightarrow> rdigits b n = [n]"
  by (subst rdigits.simps) simp

lemma rdigits_step: "2 \<le> b \<Longrightarrow> b \<le> n \<Longrightarrow> rdigits b n = (n mod b) # rdigits b (n div b)"
  by (subst rdigits.simps) (simp add: div_eq_0_iff)

lemma base_induct [consumes 1, case_names small step]:
  assumes b: "2 \<le> b"
    and small: "\<And>n. n < b \<Longrightarrow> P n"
    and step: "\<And>n. b \<le> n \<Longrightarrow> P (n div b) \<Longrightarrow> P n"
  shows "P (n::nat)"
proof (induction n rule: less_induct)
  case (less n)
  show ?case
  proof (cases "n < b")
    case False
    then have "n div b < n" using b by (intro div_less_dividend) auto
    then have "P (n div b)" by (rule less)
    with False show ?thesis by (simp add: step)
  qed (rule small)
qed

lemma digits_small: "n < b \<Longrightarrow> digits b n = [n]"
  by (simp add: digits_def rdigits_small)

lemma digits_step: "2 \<le> b \<Longrightarrow> b \<le> n \<Longrightarrow> digits b n = digits b (n div b) @ [n mod b]"
  by (simp add: digits_def rdigits_step)

lemma digits_nonempty [simp]: "digits b n \<noteq> []"
  by (subst digits_def, subst rdigits.simps) simp

lemma length_digits: "length (digits b n) = length (rdigits b n)"
  by (simp add: digits_def)

lemma digits_val_digits:
  assumes "2 \<le> b"
  shows "digits_val b (digits b n) = n"
proof (induction n rule: base_induct [OF assms])
  case (2 n)
  with assms show ?case by (simp add: digits_step digits_val_snoc)
qed (use assms in \<open>simp_all add: digits_small\<close>)

lemma digits_less:
  assumes "2 \<le> b"
  shows "d \<in> set (digits b n) \<Longrightarrow> d < b"
proof (induction n rule: base_induct [OF assms])
  case (2 n)
  with assms show ?case by (auto simp: digits_step)
qed (use assms in \<open>simp_all add: digits_small\<close>)

lemma digits_hd:
  assumes "2 \<le> b"
  shows "0 < n \<Longrightarrow> hd (digits b n) \<noteq> 0"
proof (induction n rule: base_induct [OF assms])
  case (2 n)
  then have "0 < n div b" using assms by (simp add: div_greater_zero_iff)
  with assms 2 show ?case by (simp add: digits_step)
qed (use assms in \<open>simp_all add: digits_small\<close>)

lemma length_digits_le:
  assumes "2 \<le> b"
  shows "n < b ^ Suc k \<Longrightarrow> length (digits b n) \<le> Suc k"
proof (induction n arbitrary: k rule: base_induct [OF assms])
  case (2 n)
  then obtain k' where k: "k = Suc k'" by (cases k) auto
  with assms 2 have "n div b < b ^ Suc k'" by (simp add: less_mult_imp_div_less mult.commute)
  with assms 2 k show ?case by (simp add: digits_step)
qed (use assms in \<open>simp_all add: digits_small\<close>)

section \<open>The printing algorithm\<close>

locale wide_printing = wide_division width valu clear one gt gte minus_op or_op shiftl shiftr bits loop divmod
  for width :: nat and valu :: "'u \<Rightarrow> nat" and clear one gt gte minus_op or_op shiftl shiftr bits
    and loop :: "'u \<Rightarrow> 'u \<Rightarrow> 'u \<Rightarrow> 'u \<Rightarrow> 'u \<Rightarrow> ('u \<times> 'u) option" and divmod +
  fixes is_zero :: "'u \<Rightarrow> bool"
    and low :: "'u \<Rightarrow> u64"
    and small :: "u32 \<Rightarrow> 'u"
    and print_loop :: "'u \<Rightarrow> u32 \<Rightarrow> 'u \<Rightarrow> u32 \<Rightarrow> bytes \<Rightarrow> (bool \<times> u32 \<times> bytes) option"
    and tostring :: "'u \<Rightarrow> u32 \<Rightarrow> bytes \<Rightarrow> u32 \<Rightarrow> (bool \<times> bytes) option"
  assumes is_zero_iff: "is_zero x \<longleftrightarrow> valu x = 0"
    and low_valu: "unat (low x) = valu x mod 2 ^ 64"
    and valu_small: "valu (small b) = unat b"
    and print_loop_unfold:
      "print_loop base outLength rDiv offset out =
         (if offset > outLength - 1 then Some (False, offset, out)
          else
            Option.bind (divmod rDiv base) (\<lambda>(rDiv', rMod).
              let out' = buf_set out (unat offset) (HEXDIGITS ! unat (ucast (low rMod) :: u8)) in
              if \<not> is_zero rDiv' then print_loop base outLength rDiv' (offset + 1) out'
              else Some (True, offset + 1, out')))"
    and tostring_unfold:
      "tostring number baseParam out outLength =
         (if baseParam < 2 \<or> baseParam > 16 then Some (False, out)
          else
            Option.bind (print_loop (small baseParam) outLength number 0 out)
              (\<lambda>(ok, offset, out').
                 if ok then Some (True, reverseString (buf_set out' (unat offset) 0) offset)
                 else Some (False, out')))"
begin

lemma hex_digit:
  assumes "valu base = unat (b :: u32)" "2 \<le> unat b" "unat b \<le> 16" "valu m = n mod unat b"
  shows "unat (ucast (low m) :: u8) = n mod unat b"
proof -
  have "valu m < 16" using assms mod_less_divisor [of "unat b" n] by linarith
  then have "unat (low m) = valu m" and "unat (low m) < 16" by (simp_all add: low_valu)
  then show ?thesis using assms(4) by (simp add: unsigned_ucast_eq take_bit_nat_eq_self)
qed

lemma print_step:
  assumes "valu base = unat (b :: u32)" "2 \<le> unat b" "unat b \<le> 16" "unat offset < unat outLength"
  obtains q where "valu q = valu x div unat b"
    "print_loop base outLength x offset out =
       (let out' = buf_set out (unat offset) (HEXDIGITS ! (valu x mod unat b)) in
        if valu q \<noteq> 0 then print_loop base outLength q (offset + 1) out'
        else Some (True, offset + 1, out'))"
proof -
  obtain q m where qm: "divmod x base = Some (q, m)" "valu q = valu x div unat b" "valu m = valu x mod unat b"
    using divmod_correct [of base x] assms(1,2) by auto
  have "offset < outLength" using assms(4) by (simp add: word_less_nat_alt)
  then have "unat (outLength - 1) = unat outLength - 1" by (rule unat32_pred)
  then have "\<not> offset > outLength - 1" using assms(4) by (simp add: word_less_nat_alt)
  then have "print_loop base outLength x offset out =
       (let out' = buf_set out (unat offset) (HEXDIGITS ! (valu x mod unat b)) in
        if valu q \<noteq> 0 then print_loop base outLength q (offset + 1) out'
        else Some (True, offset + 1, out'))"
    by (subst print_loop_unfold) (simp add: qm(1) is_zero_iff Let_def hex_digit [OF assms(1-3) qm(3)])
  with qm(2) show thesis by (rule that)
qed

lemma print_loop_ok:
  assumes "valu base = unat (b :: u32)" "2 \<le> unat b" "unat b \<le> 16"
    "unat offset + length (rdigits (unat b) (valu x)) \<le> unat outLength" "unat outLength \<le> length out"
  shows "print_loop base outLength x offset out =
    Some (True, offset + of_nat (length (rdigits (unat b) (valu x))),
      buf_write out (unat offset) (map ((!) HEXDIGITS) (rdigits (unat b) (valu x))))"
  using assms(4,5)
proof (induction "length (rdigits (unat b) (valu x))" arbitrary: x offset out)
  case 0
  then show ?case by (subst (asm) rdigits.simps) simp
next
  case (Suc k)
  have "0 < length (rdigits (unat b) (valu x))" by (subst rdigits.simps) simp
  then have lt: "unat offset < unat outLength" using Suc.prems(1) by linarith
  obtain q where q: "valu q = valu x div unat b"
    and step: "print_loop base outLength x offset out =
       (let out' = buf_set out (unat offset) (HEXDIGITS ! (valu x mod unat b)) in
        if valu q \<noteq> 0 then print_loop base outLength q (offset + 1) out'
        else Some (True, offset + 1, out'))"
    using print_step [OF assms(1-3) lt] by blast
  show ?case
  proof (cases "valu x < unat b")
    case True
    then show ?thesis by (simp add: step q rdigits_small Let_def buf_set_def)
  next
    case False
    then have ds: "rdigits (unat b) (valu x) = valu x mod unat b # rdigits (unat b) (valu q)"
      using assms(2) by (simp add: rdigits_step q)
    have nz: "valu q \<noteq> 0" using False assms(2) by (simp add: q div_eq_0_iff)
    have o: "unat (offset + 1) = unat offset + 1"
      using lt by (intro unat32_Suc_less [of _ outLength]) (simp add: word_less_nat_alt)
    let ?out = "buf_set out (unat offset) (HEXDIGITS ! (valu x mod unat b))"
    have "print_loop base outLength q (offset + 1) ?out =
      Some (True, offset + 1 + of_nat (length (rdigits (unat b) (valu q))),
        buf_write ?out (unat offset + 1) (map ((!) HEXDIGITS) (rdigits (unat b) (valu q))))"
      using Suc.hyps(1) [of q "offset + 1" ?out] Suc.hyps(2) Suc.prems lt ds
      by (simp add: o length_buf_set)
    with nz lt Suc.prems show ?thesis
      by (simp add: step ds Let_def buf_write_Cons algebra_simps)
  qed
qed

lemma print_loop_too_long:
  assumes "valu base = unat (b :: u32)" "2 \<le> unat b" "unat b \<le> 16" "0 < unat outLength"
    "unat offset \<le> unat outLength" "unat outLength < unat offset + length (rdigits (unat b) (valu x))"
    "unat outLength \<le> length out"
  shows "\<exists>o'. print_loop base outLength x offset out = Some (False, o',
    buf_write out (unat offset) (map ((!) HEXDIGITS) (take (unat outLength - unat offset) (rdigits (unat b) (valu x)))))"
  using assms(5-)
proof (induction "unat outLength - unat offset" arbitrary: x offset out)
  case 0
  have "unat (outLength - 1) = unat outLength - 1"
    using assms(4) by (intro unat32_pred [of 0]) (simp add: word_less_nat_alt)
  with 0 assms(4) have "offset > outLength - 1" by (simp add: word_less_nat_alt)
  then show ?case using 0 by (subst print_loop_unfold) simp
next
  case (Suc k)
  then have lt: "unat offset < unat outLength" by linarith
  obtain q where q: "valu q = valu x div unat b"
    and step: "print_loop base outLength x offset out =
       (let out' = buf_set out (unat offset) (HEXDIGITS ! (valu x mod unat b)) in
        if valu q \<noteq> 0 then print_loop base outLength q (offset + 1) out'
        else Some (True, offset + 1, out'))"
    using print_step [OF assms(1-3) lt] by blast
  have "\<not> valu x < unat b" using Suc.prems(2) lt by (auto simp: rdigits_small)
  then have ds: "rdigits (unat b) (valu x) = valu x mod unat b # rdigits (unat b) (valu q)"
    and nz: "valu q \<noteq> 0"
    using assms(2) by (simp_all add: rdigits_step q div_eq_0_iff)
  have o: "unat (offset + 1) = unat offset + 1"
    using lt by (intro unat32_Suc_less [of _ outLength]) (simp add: word_less_nat_alt)
  let ?out = "buf_set out (unat offset) (HEXDIGITS ! (valu x mod unat b))"
  have "\<exists>o'. print_loop base outLength q (offset + 1) ?out = Some (False, o', buf_write ?out (unat (offset + 1))
      (map ((!) HEXDIGITS) (take (unat outLength - unat (offset + 1)) (rdigits (unat b) (valu q)))))"
    using Suc.hyps(2) Suc.prems lt ds by (intro Suc.hyps(1)) (simp_all add: o length_buf_set)
  moreover have "take (unat outLength - unat offset) (rdigits (unat b) (valu x)) =
      valu x mod unat b # take (unat outLength - unat (offset + 1)) (rdigits (unat b) (valu q))"
    using lt by (simp add: ds o take_Cons')
  ultimately show ?case using nz lt Suc.prems by (simp add: step Let_def o buf_write_Cons)
qed

lemma tostring_ok:
  assumes "2 \<le> unat b" "unat b \<le> 16"
    "length (digits (unat b) (valu x)) \<le> unat outLength" "unat outLength \<le> length out"
  shows "tostring x b out outLength =
    Some (True, map ((!) HEXDIGITS) (digits (unat b) (valu x)) @ 0 #
      drop (Suc (length (digits (unat b) (valu x)))) out)"
proof -
  let ?ds = "rdigits (unat b) (valu x)"
  let ?n = "word_of_nat (length ?ds) :: u32"
  have len: "length ?ds \<le> unat outLength" using assms(3) by (simp add: length_digits)
  then have n: "unat ?n = length ?ds"
    using unat32_less [of outLength] by (simp add: unat_of_nat)
  have pos: "0 < length ?ds" by (subst rdigits.simps) simp
  have "print_loop (small b) outLength x 0 out = Some (True, ?n, buf_write out 0 (map ((!) HEXDIGITS) ?ds))"
    using print_loop_ok [of "small b" b 0 x outLength out] assms(1,2,4) len by (simp add: valu_small)
  moreover have "\<not> (b < 2 \<or> b > 16)" using assms(1,2) by (simp add: word_less_nat_alt)
  moreover have "buf_set (buf_write out 0 (map ((!) HEXDIGITS) ?ds)) (unat ?n) 0 =
      map ((!) HEXDIGITS) ?ds @ 0 # drop (Suc (length ?ds)) out"
    by (simp add: n buf_set_def buf_write_def)
  ultimately have "tostring x b out outLength =
      Some (True, reverseString (map ((!) HEXDIGITS) ?ds @ 0 # drop (Suc (length ?ds)) out) ?n)"
    by (subst tostring_unfold) simp
  also have "reverseString (map ((!) HEXDIGITS) ?ds @ 0 # drop (Suc (length ?ds)) out) ?n =
      map ((!) HEXDIGITS) (digits (unat b) (valu x)) @ 0 # drop (Suc (length ?ds)) out"
    using pos by (subst reverseString_eq) (simp_all add: n digits_def rev_map)
  finally show ?thesis by (simp add: length_digits)
qed

lemma tostring_too_long:
  assumes "2 \<le> unat b" "unat b \<le> 16" "0 < unat outLength"
    "unat outLength < length (digits (unat b) (valu x))" "unat outLength \<le> length out"
  shows "\<exists>out'. tostring x b out outLength = Some (False, out') \<and> length out' = length out \<and>
    take (unat outLength) out' = map ((!) HEXDIGITS) (take (unat outLength) (rdigits (unat b) (valu x)))"
proof -
  have "\<not> (b < 2 \<or> b > 16)" using assms(1,2) by (simp add: word_less_nat_alt)
  moreover have "\<exists>o'. print_loop (small b) outLength x 0 out = Some (False, o', buf_write out 0
      (map ((!) HEXDIGITS) (take (unat outLength) (rdigits (unat b) (valu x)))))"
    using print_loop_too_long [of "small b" b outLength 0 x out] assms by (simp add: valu_small length_digits)
  moreover have "length (rdigits (unat b) (valu x)) > unat outLength" using assms(4) by (simp add: length_digits)
  ultimately show ?thesis using assms(5) by (subst tostring_unfold) (auto simp: buf_write_def)
qed

lemma tostring_bad_base:
  "unat b < 2 \<or> 16 < unat b \<Longrightarrow> tostring x b out outLength = Some (False, out)"
  by (subst tostring_unfold) (simp add: word_less_nat_alt)

end

lemma hex_nonzero: "2 \<le> b \<Longrightarrow> b \<le> 16 \<Longrightarrow> 0 \<notin> set (map ((!) HEXDIGITS) (digits b n))"
proof -
  assume b: "2 \<le> b" "b \<le> 16"
  have "0 \<notin> set HEXDIGITS" by (simp add: HEXDIGITS_def chars_def)
  moreover have "HEXDIGITS ! d \<in> set HEXDIGITS" if "d \<in> set (digits b n)" for d
    using digits_less [OF b(1) that] b(2) by (intro nth_mem) (simp add: HEXDIGITS_def)
  ultimately show ?thesis unfolding set_map image_iff by metis
qed

section \<open>The printing interface on the two widths\<close>

lemma unat_ucast_32_64: "unat (ucast (b :: u32) :: u64) = unat b"
  by (simp add: unsigned_ucast_eq take_bit_nat_eq_self order.strict_trans [OF unat32_less])

lemma val128_small: "val128 (UInt128 0 (ucast (b :: u32))) = unat b"
  by (simp add: val128_def unat_ucast_32_64)

lemma val256_small: "val256 (UInt256 clear128 (UInt128 0 (ucast (b :: u32)))) = unat b"
  by (simp add: val256_def val128_small)

lemma val128_low: "unat (lower128 x) = val128 x mod 2 ^ 64"
  by (simp only: val128_def mod_mult_self3 mod_less [OF unat64_less])

lemma val256_low: "unat (lower128 (lower256 x)) = val256 x mod 2 ^ 64"
proof -
  have "val256 x mod 2 ^ 64 = (val256 x mod 2 ^ 128) mod 2 ^ 64"
    by (simp only: mod_mod_cancel [OF le_imp_power_dvd])
  also have "val256 x mod 2 ^ 128 = val128 (lower256 x)"
    by (simp only: val256_def mod_mult_self3 mod_less [OF val128_less])
  finally show ?thesis by (simp only: val128_low)
qed

lemmas tostring128_unfold = tostring128_def [unfolded copy128_id]

lemmas tostring256_unfold = tostring256_def [unfolded copy256_id]

interpretation p128: wide_printing 128 val128 clear128 "UInt128 0 1" gt128 gte128 minus128 or128
    shiftl128 shiftr128 bits128 divmod128_loop divmod128 zero128 lower128
    "\<lambda>b. UInt128 0 (ucast b)" tostring128_loop tostring128
  by unfold_locales
    (fact zero128_iff val128_low val128_small tostring128_loop.simps tostring128_unfold)+

interpretation p256: wide_printing 256 val256 clear256 "UInt256 clear128 (UInt128 0 1)" gt256 gte256
    minus256 or256 shiftl256 shiftr256 bits256 divmod256_loop divmod256 zero256
    "\<lambda>x. lower128 (lower256 x)" "\<lambda>b. UInt256 clear128 (UInt128 0 (ucast b))"
    tostring256_loop tostring256
  by unfold_locales
    (fact zero256_iff val256_low val256_small tostring256_loop.simps tostring256_unfold)+

section \<open>Properties\<close>

text \<open>C23: Printing a 256-bit number to a base from 2 to 16 returns, and when the digits fit, leaves in
  the buffer exactly the digits of the number, most significant first and without leading zeros,
  followed by NUL; nothing outside \<^verbatim>\<open>out[0..outLength)\<close> is written when a byte is left for the NUL.\<close>

theorem tostring256_correct:
  assumes "2 \<le> unat b" "unat b \<le> 16" "length (digits (unat b) (val256 x)) < unat outLength"
    "unat outLength \<le> length out"
  shows "\<exists>out'. tostring256 x b out outLength = Some (True, out') \<and> length out' = length out \<and>
    cstr out' = map ((!) HEXDIGITS) (digits (unat b) (val256 x)) \<and>
    digits_val (unat b) (digits (unat b) (val256 x)) = val256 x"
proof -
  let ?ds = "map ((!) HEXDIGITS) (digits (unat b) (val256 x))"
  have "cstr (?ds @ 0 # drop (Suc (length ?ds)) out) = ?ds"
    using assms(1,2) by (intro cstr_append_NUL hex_nonzero) auto
  then show ?thesis
    using p256.tostring_ok [of b x outLength out] assms by (simp add: digits_val_digits)
qed

theorem tostring256_correct_witness:
  "\<exists>out'. tostring256 (UInt256 clear128 (UInt128 0 255)) 16 (replicate 4 1) 4 = Some (True, out') \<and>
     cstr out' = chars ''ff''"
proof -
  have v: "val256 (UInt256 clear128 (UInt128 0 255)) = 255" by (simp add: val256_def val128_def clear128_def)
  have d: "digits 16 255 = [15, 15]" by (simp add: digits_def rdigits.simps)
  show ?thesis
    using tostring256_correct [of 16 "UInt256 clear128 (UInt128 0 255)" 4 "replicate 4 1"]
    by (auto simp: v d HEXDIGITS_def chars_def)
qed

text \<open>C34: The bound check of the printing loop is one too large: a number with exactly
  \<^verbatim>\<open>outLength\<close> digits is accepted and its NUL is stored at \<^verbatim>\<open>out[outLength]\<close>, one byte after a
  buffer of that length; one digit more and the call returns false without leaving the buffer.\<close>

theorem tostring256_nul_past_end:
  assumes "2 \<le> unat b" "unat b \<le> 16" "length out = unat outLength" "0 < unat outLength"
  shows "(length (digits (unat b) (val256 x)) = unat outLength \<longrightarrow>
      (\<exists>out'. tostring256 x b out outLength = Some (True, out') \<and> length out' = Suc (length out))) \<and>
    (unat outLength < length (digits (unat b) (val256 x)) \<longrightarrow>
      (\<exists>out'. tostring256 x b out outLength = Some (False, out') \<and> length out' = length out))"
  using p256.tostring_ok [of b x outLength out] p256.tostring_too_long [of b outLength x out] assms by auto

theorem tostring256_nul_past_end_witness:
  "\<exists>out'. tostring256 (UInt256 clear128 (UInt128 0 255)) 16 (replicate 2 1) 2 = Some (True, out') \<and>
     length out' = 3"
proof -
  have v: "val256 (UInt256 clear128 (UInt128 0 255)) = 255" by (simp add: val256_def val128_def clear128_def)
  have d: "digits 16 255 = [15, 15]" by (simp add: digits_def rdigits.simps)
  show ?thesis
    using tostring256_nul_past_end [of 16 "replicate 2 1" 2 "UInt256 clear128 (UInt128 0 255)"]
    by (auto simp: v d numeral_3_eq_3)
qed

end
