(* ===== verification/Errors.thy ===== *)
theory Errors
  imports Tron_Prelude
begin

text \<open>
  The status words of \<^verbatim>\<open>src/src/app_errors.h\<close> that the application sends or throws.
\<close>

definition E_OK :: u16 where "E_OK = 0x9000"
definition E_INCORRECT_LENGTH :: u16 where "E_INCORRECT_LENGTH = 0x6700"
definition E_MISSING_CRITICAL_PARAMETER :: u16 where "E_MISSING_CRITICAL_PARAMETER = 0x6800"
definition E_SECURITY_STATUS_NOT_SATISFIED :: u16 where "E_SECURITY_STATUS_NOT_SATISFIED = 0x6982"
definition E_CONDITIONS_OF_USE_NOT_SATISFIED :: u16 where "E_CONDITIONS_OF_USE_NOT_SATISFIED = 0x6985"
definition E_INCORRECT_DATA :: u16 where "E_INCORRECT_DATA = 0x6a80"
definition E_INCORRECT_P1_P2 :: u16 where "E_INCORRECT_P1_P2 = 0x6b00"
definition E_INCORRECT_BIP32_PATH :: u16 where "E_INCORRECT_BIP32_PATH = 0x6a8a"
definition E_MISSING_SETTING_DATA_ALLOWED :: u16 where "E_MISSING_SETTING_DATA_ALLOWED = 0x6a8b"
definition E_MISSING_SETTING_SIGN_BY_HASH :: u16 where "E_MISSING_SETTING_SIGN_BY_HASH = 0x6a8c"
definition E_MISSING_SETTING_CUSTOM_CONTRACT :: u16 where "E_MISSING_SETTING_CUSTOM_CONTRACT = 0x6a8d"
definition E_SWAP_CHECKING_FAIL :: u16 where "E_SWAP_CHECKING_FAIL = 0x6a8e"
definition E_WRONG_DATA_LENGTH :: u16 where "E_WRONG_DATA_LENGTH = 0x6a87"
definition E_INS_NOT_SUPPORTED :: u16 where "E_INS_NOT_SUPPORTED = 0x6d00"
definition E_CLA_NOT_SUPPORTED :: u16 where "E_CLA_NOT_SUPPORTED = 0x6e00"

lemmas status_words =
  E_OK_def E_INCORRECT_LENGTH_def E_MISSING_CRITICAL_PARAMETER_def E_SECURITY_STATUS_NOT_SATISFIED_def
  E_CONDITIONS_OF_USE_NOT_SATISFIED_def E_INCORRECT_DATA_def E_INCORRECT_P1_P2_def
  E_INCORRECT_BIP32_PATH_def E_MISSING_SETTING_DATA_ALLOWED_def E_MISSING_SETTING_SIGN_BY_HASH_def
  E_MISSING_SETTING_CUSTOM_CONTRACT_def E_SWAP_CHECKING_FAIL_def E_INS_NOT_SUPPORTED_def
  E_CLA_NOT_SUPPORTED_def E_WRONG_DATA_LENGTH_def

end
