(* ===== verification/Amount.thy ===== *)
theory Amount
  imports Uint256_Print Errors
begin

text \<open>
  Decimal amounts for display: \<^verbatim>\<open>adjustDecimals\<close> and \<^verbatim>\<open>print_amount\<close> of \<^verbatim>\<open>src/src/parse.c\<close>. The
  theory shows that the text on the screen denotes exactly the number that is signed: the digits
  before and after the point, scaled by the number of decimals, give back the amount.
\<close>

section \<open>The code\<close>

abbreviation "ch_0 \<equiv> (0x30 :: u8)"

abbreviation "ch_dot \<equiv> (0x2E :: u8)"

text \<open>The loop over the written digits that remembers where the trailing zeros start.\<close>

primrec zero_scan :: "bytes \<Rightarrow> nat \<Rightarrow> nat \<Rightarrow> nat \<Rightarrow> nat" where
  "zero_scan target i 0 lastZeroOffset = lastZeroOffset"
| "zero_scan target i (Suc n) lastZeroOffset =
     zero_scan target (Suc i) n
       (if target ! i = ch_0 then (if lastZeroOffset = 0 then i else lastZeroOffset) else 0)"

definition trim_zeros :: "bytes \<Rightarrow> nat \<Rightarrow> nat \<Rightarrow> bytes" where
  "trim_zeros target startOffset offset =
     (let lastZeroOffset = zero_scan target startOffset (offset - startOffset) 0 in
      if lastZeroOffset \<noteq> 0 then
        let target' = buf_set target lastZeroOffset 0 in
        if target' ! (lastZeroOffset - 1) = ch_dot then buf_set target' (lastZeroOffset - 1) 0
        else target'
      else target)"

definition adjustDecimals :: "bytes \<Rightarrow> u32 \<Rightarrow> bytes \<Rightarrow> u32 \<Rightarrow> u8 \<Rightarrow> bool \<times> bytes" where
  "adjustDecimals src srcLength target targetLength decimals =
     (if srcLength = 1 \<and> src ! 0 = ch_0 then
        if targetLength < 2 then (False, target)
        else (True, buf_set (buf_set target 0 ch_0) 1 0)
      else if srcLength \<le> ucast decimals then
        let delta = ucast decimals - srcLength in
        if targetLength < srcLength + 1 + 2 + delta then (False, target)
        else
          let target1 = buf_set (buf_set target 0 ch_0) 1 ch_dot;
              target2 = fill_loop target1 2 ch_0 (unat delta);
              startOffset = 2 + unat delta;
              target3 = copy_loop target2 startOffset src 0 (unat srcLength);
              offset = startOffset + unat srcLength
          in (True, trim_zeros (buf_set target3 offset 0) startOffset offset)
      else
        let delta = srcLength - ucast decimals in
        if targetLength < srcLength + 1 + 1 then (False, target)
        else
          let target1 = copy_loop target 0 src 0 (unat delta);
              startOffset = (if decimals \<noteq> 0 then unat delta + 1 else unat delta);
              target2 = (if decimals \<noteq> 0 then buf_set target1 (unat delta) ch_dot else target1);
              target3 = copy_loop target2 startOffset src (unat delta) (unat srcLength - unat delta);
              offset = startOffset + (unat srcLength - unat delta)
          in (True, trim_zeros (buf_set target3 offset 0) startOffset offset))"

text \<open>\<^verbatim>\<open>print_amount\<close>: the loop that finds the largest power of ten not above the amount.\<close>

partial_function (option) base_loop :: "u64 \<Rightarrow> u64 \<Rightarrow> u32 \<Rightarrow> (u64 \<times> u32) option" where
  "base_loop amount base numDigits =
     (if base \<le> amount div 10 then base_loop amount (base * 10) (numDigits + 1)
      else Some (base, numDigits))"

primrec digit_loop :: "u64 \<Rightarrow> u64 \<Rightarrow> bytes \<Rightarrow> nat \<Rightarrow> nat \<Rightarrow> bytes" where
  "digit_loop amount base tmp i 0 = tmp"
| "digit_loop amount base tmp i (Suc n) =
     digit_loop amount (base div 10) (buf_set tmp i (ch_0 + ucast ((amount div base) mod 10))) (Suc i) n"

text \<open>
  The result is the status word thrown, or the contents of \<^verbatim>\<open>out\<close> and the returned length. The
  local array \<^verbatim>\<open>tmp\<close> is uninitialised in C; every byte of it that is read was written before, so
  its initial contents are immaterial.
\<close>

definition print_amount :: "u64 \<Rightarrow> bytes \<Rightarrow> u32 \<Rightarrow> u8 \<Rightarrow> (u16 + bytes \<times> u16) option" where
  "print_amount amount out outlen sun =
     Option.bind
       (if amount > 0
        then map_option (\<lambda>(base, numDigits). (base, numDigits + 1)) (base_loop amount 1 0)
        else Some (1, 0))
       (\<lambda>(base, numDigits).
          if numDigits > 19 then Some (Inl E_INCORRECT_LENGTH)
          else
            let tmp1 = digit_loop amount base (replicate 20 0) 0 (unat numDigits);
                tmp2 = buf_set tmp1 (unat numDigits) 0;
                (ok, t2) = adjustDecimals tmp2 numDigits (replicate 25 0) 25 sun
            in
              if \<not> ok then Some (Inr (buf_set out 0 0, 0))
              else
                let out' = (if of_nat (strlen t2) < outlen - 1 then strlcpy out t2 (unat outlen)
                            else buf_set out 0 0)
                in Some (Inr (out', of_nat (strlen out'))))"

section \<open>Reference: the decimal text of a number\<close>

fun strip0 :: "bytes \<Rightarrow> bytes" where
  "strip0 [] = []"
| "strip0 (x # xs) = (if strip0 xs = [] then (if x = ch_0 then [] else [x]) else x # strip0 xs)"

definition int_part :: "bytes \<Rightarrow> nat \<Rightarrow> bytes" where
  "int_part s d = (if length s \<le> d then [ch_0] else take (length s - d) s)"

definition frac_part :: "bytes \<Rightarrow> nat \<Rightarrow> bytes" where
  "frac_part s d = (if length s \<le> d then replicate (d - length s) ch_0 @ s else drop (length s - d) s)"

definition decimal_text :: "bytes \<Rightarrow> nat \<Rightarrow> bytes" where
  "decimal_text s d =
     (if strip0 (frac_part s d) = [] then int_part s d else int_part s d @ ch_dot # strip0 (frac_part s d))"

definition is_digit :: "u8 \<Rightarrow> bool" where
  "is_digit c \<longleftrightarrow> ch_0 \<le> c \<and> c < 0x3A"

text \<open>A number as \<^verbatim>\<open>adjustDecimals\<close> expects it: digits without a leading zero, or a single zero.\<close>

definition is_number :: "bytes \<Rightarrow> bool" where
  "is_number s \<longleftrightarrow> list_all is_digit s \<and> s \<noteq> [] \<and> (s = [ch_0] \<or> hd s \<noteq> ch_0)"

definition text_fits :: "bytes \<Rightarrow> nat \<Rightarrow> nat \<Rightarrow> bool" where
  "text_fits s d n \<longleftrightarrow>
     (if s = [ch_0] then 2 else if length s \<le> d then d + 3 else length s + 2) \<le> n"

section \<open>Trimming trailing zeros\<close>

lemma length_strip0_le: "length (strip0 s) \<le> length s"
  by (induction s) auto

lemma strip0_prefix: "take (length (strip0 s)) s = strip0 s"
  by (induction s) auto

lemma strip0_idem_length: "length (strip0 s) = length s \<longleftrightarrow> strip0 s = s"
  by (metis strip0_prefix take_all order_refl)

lemma strip0_append: "strip0 y \<noteq> [] \<Longrightarrow> strip0 (x @ y) = x @ strip0 y"
  by (induction x) auto

lemma strip0_Nil_iff: "strip0 s = [] \<longleftrightarrow> set s \<subseteq> {ch_0}"
  by (induction s) auto

lemma is_digit_not: "is_digit c \<Longrightarrow> c \<noteq> 0 \<and> c \<noteq> ch_dot"
  by (auto simp: is_digit_def word_le_nat_alt)

lemma zero_scan_eq:
  assumes "take (length m) (drop i t) = m" "0 < i"
  shows "zero_scan t i (length m) z =
    (if strip0 m = m then (if m = [] then z else 0)
     else if strip0 m = [] \<and> z \<noteq> 0 then z else i + length (strip0 m))"
  using assms
proof (induction m arbitrary: i z)
  case (Cons x xs)
  then have "i < length t" by (cases "i < length t") auto
  with Cons.prems have x: "t ! i = x" and xs: "take (length xs) (drop (Suc i) t) = xs"
    by (simp_all add: Cons_nth_drop_Suc [symmetric])
  show ?case using Cons.IH [OF xs] Cons.prems(2) by (auto simp: x)
qed simp

lemma cstr_trim_zeros:
  assumes "target = pre @ m @ 0 # rest" "pre \<noteq> []" "0 \<notin> set pre" "0 \<notin> set m" "ch_dot \<notin> set m"
  shows "length (trim_zeros target (length pre) (length pre + length m)) = length target \<and>
    cstr (trim_zeros target (length pre) (length pre + length m)) =
      (if strip0 m = [] \<and> m \<noteq> [] \<and> last pre = ch_dot then butlast pre else pre @ strip0 m)"
proof (cases "strip0 m = m")
  case True
  have "zero_scan target (length pre) (length m) 0 = 0"
    using assms(1,2) True by (subst zero_scan_eq) auto
  with True assms show ?thesis by (auto simp: trim_zeros_def)
next
  case False
  let ?k = "length (strip0 m)"
  have k: "?k < length m" using False strip0_idem_length [of m] length_strip0_le [of m] by linarith
  have scan: "zero_scan target (length pre) (length m) 0 = length pre + ?k"
    using assms(1,2) False by (subst zero_scan_eq) auto
  let ?r = "drop (Suc ?k) m @ 0 # rest"
  have t': "buf_set target (length pre + ?k) 0 = pre @ strip0 m @ 0 # ?r"
    using k by (simp add: assms(1) buf_set_def buf_write_def strip0_prefix)
  have sub: "set (strip0 m) \<subseteq> set m" by (metis set_take_subset strip0_prefix)
  show ?thesis
  proof (cases "strip0 m = []")
    case True
    obtain pre' c where pre: "pre = pre' @ [c]" using assms(2) by (cases pre rule: rev_cases) auto
    show ?thesis
      using assms(3) False True k scan t' [unfolded True]
      by (auto simp: trim_zeros_def Let_def pre nth_append buf_set_def buf_write_def assms(1))
  next
    case nonempty: False
    have "length pre + ?k - 1 = length pre + (?k - 1)" using nonempty by (cases "strip0 m") auto
    then have "(pre @ strip0 m @ 0 # ?r) ! (length pre + ?k - 1) = strip0 m ! (?k - 1)"
      using nonempty by (simp only: nth_append_length_plus) (simp add: nth_append)
    also have "\<dots> \<noteq> ch_dot"
      using sub assms(5) nonempty by (metis One_nat_def diff_less length_greater_0_conv lessI nth_mem subsetD)
    finally have nd: "(pre @ strip0 m @ 0 # ?r) ! (length pre + ?k - 1) \<noteq> ch_dot" .
    have "0 \<notin> set (pre @ strip0 m)" using sub assms(3,4) by auto
    then have "cstr ((pre @ strip0 m) @ 0 # ?r) = pre @ strip0 m" by (rule cstr_append_NUL)
    moreover have "trim_zeros target (length pre) (length pre + length m) = pre @ strip0 m @ 0 # ?r"
      using scan t' nd nonempty assms(2) by (simp add: trim_zeros_def Let_def)
    ultimately show ?thesis using nonempty k by (simp add: assms(1))
  qed
qed

section \<open>What adjustDecimals writes\<close>

lemma is_number_digits: "is_number s \<Longrightarrow> c \<in> set s \<Longrightarrow> is_digit c"
  by (simp add: is_number_def list_all_iff)

lemma is_number_chars: "is_number s \<Longrightarrow> 0 \<notin> set s \<and> ch_dot \<notin> set s"
  using is_digit_not is_number_digits by blast

lemma strip0_number: "is_number s \<Longrightarrow> s \<noteq> [ch_0] \<Longrightarrow> strip0 s \<noteq> []"
  by (cases s) (auto simp: is_number_def)

lemma unat_ucast_8_32: "unat (ucast (b :: u8) :: u32) = unat b"
proof -
  have "unat b < 2 ^ 8" using unsigned_less [of b] by simp
  then show ?thesis by (simp add: unsigned_ucast_eq take_bit_nat_eq_self)
qed

lemma adjustDecimals_zero:
  assumes "unat n = 1" "src ! 0 = ch_0" "2 \<le> unat size'" "unat size' \<le> length target"
  shows "\<exists>t. adjustDecimals src n target size' d = (True, t) \<and> length t = length target \<and> cstr t = [ch_0]"
proof -
  have "n = 1" using assms(1) by (metis unat_1 word_unat_eq_iff)
  moreover have "\<not> size' < 2" using assms(3) by (simp add: word_less_nat_alt)
  moreover obtain a b r where "target = a # b # r"
    using assms(3,4) by (cases target; cases "tl target") auto
  ultimately show ?thesis
    using assms by (simp add: adjustDecimals_def buf_set_def buf_write_def)
qed

lemma adjustDecimals_small:
  assumes s: "take (unat n) src = s" "length s = unat n" "is_number s" "s \<noteq> [ch_0]"
    and le: "unat n \<le> unat d" and fits: "unat d + 3 \<le> unat size'" "unat size' \<le> length target"
  shows "\<exists>t. adjustDecimals src n target size' d = (True, t) \<and> length t = length target \<and>
    cstr t = ch_0 # ch_dot # replicate (unat d - unat n) ch_0 @ strip0 s"
proof -
  let ?d = "unat d - unat n"
  let ?pre = "ch_0 # ch_dot # replicate ?d ch_0"
  let ?rest = "drop (Suc (length ?pre + length s)) target"
  have n1: "\<not> (n = 1 \<and> src ! 0 = ch_0)"
    using s by (auto simp: take_Suc_conv_app_nth is_number_def)
  have d: "unat (ucast d - n) = ?d" "n \<le> ucast d"
    using le by (simp_all add: unat_sub word_le_nat_alt unat_ucast_8_32)
  have "unat d < 256" using unsigned_less [of d] by simp
  then have "unat (n + 1 + 2 + (ucast d - n)) = unat d + 3"
    using d(2) le by (simp add: unat_word_ariths unat_ucast_8_32)
  then have nt: "\<not> size' < n + 1 + 2 + (ucast d - n)" using fits by (simp add: word_less_nat_alt)
  have "buf_set (buf_set target 0 ch_0) 1 ch_dot = buf_write target 0 [ch_0, ch_dot]"
    using buf_write_Cons [of 0 target ch_0 "[ch_dot]"] fits by (cases target) (simp_all add: buf_set_def)
  moreover have "fill_loop (buf_write target 0 [ch_0, ch_dot]) 2 ch_0 ?d = buf_write target 0 ?pre"
    using buf_write_append [of 0 "[ch_0, ch_dot]" target "replicate ?d ch_0"] fits le
    by (simp add: fill_loop_eq length_buf_write numeral_2_eq_2)
  moreover have "copy_loop (buf_write target 0 ?pre) (2 + ?d) src 0 (unat n) = buf_write target 0 (?pre @ s)"
    using buf_write_append [of 0 ?pre target s] fits le s(1,2)
    by (subst copy_loop_eq) (auto simp: length_buf_write)
  moreover have "buf_set (buf_write target 0 (?pre @ s)) (2 + ?d + unat n) 0 = ?pre @ s @ 0 # ?rest"
    using fits le s(2) by (simp add: buf_set_def buf_write_def)
  ultimately have "adjustDecimals src n target size' d =
      (True, trim_zeros (?pre @ s @ 0 # ?rest) (length ?pre) (length ?pre + length s))"
    unfolding adjustDecimals_def if_not_P [OF n1] if_P [OF d(2)] Let_def if_not_P [OF nt] d(1)
    by (simp add: s(2))
  moreover have "length (?pre @ s @ 0 # ?rest) = length target" using fits le s(2) by simp
  ultimately show ?thesis
    using cstr_trim_zeros [OF refl, of ?pre s ?rest] is_number_chars [OF s(3)] strip0_number [OF s(3,4)]
    by (auto simp: set_replicate_conv_if)
qed

lemma adjustDecimals_large:
  assumes s: "take (unat n) src = s" "length s = unat n" "is_number s" "s \<noteq> [ch_0]"
    and lt: "unat d < unat n" and fits: "unat n + 2 \<le> unat size'" "unat size' \<le> length target"
  shows "\<exists>t. adjustDecimals src n target size' d = (True, t) \<and> length t = length target \<and>
    cstr t = (let i = take (unat n - unat d) s; f = strip0 (drop (unat n - unat d) s) in
      if f = [] then i else i @ ch_dot # f)"
proof -
  let ?d = "unat n - unat d"
  define i where "i = take ?d s"
  define f where "f = drop ?d s"
  define pre where "pre = i @ (if d \<noteq> 0 then [ch_dot] else [])"
  have len: "length i = ?d" "length f = unat d" "s = i @ f" "i \<noteq> []"
    using lt s(2) by (auto simp: i_def f_def)
  let ?rest = "drop (Suc (length pre + length f)) target"
  have n1: "\<not> (n = 1 \<and> src ! 0 = ch_0)"
    using s by (auto simp: take_Suc_conv_app_nth is_number_def)
  have d: "unat (n - ucast d) = ?d" "\<not> n \<le> ucast d"
    using lt by (simp_all add: unat_sub word_le_nat_alt unat_ucast_8_32)
  have "unat (n + 1 + 1) = unat n + 2"
    using fits unat32_less [of size'] by (simp add: unat_word_ariths)
  then have nt: "\<not> size' < n + 1 + 1" using fits by (simp add: word_less_nat_alt)
  have src: "take ?d src = i" "take (unat d) (drop ?d src) = f" "unat n \<le> length src"
    using s(1,2) lt by (auto simp: i_def f_def take_drop)
  have c1: "copy_loop target 0 src 0 ?d = buf_write target 0 i"
    using fits src by (subst copy_loop_eq) auto
  have c2: "(if d \<noteq> 0 then buf_set (buf_write target 0 i) ?d ch_dot else buf_write target 0 i) =
      buf_write target 0 pre"
    using buf_write_append [of 0 i target "[ch_dot]"] fits len by (auto simp: pre_def buf_set_def)
  have c3: "(if d \<noteq> 0 then ?d + 1 else ?d) = length pre" "unat n - ?d = length f"
    using len lt by (simp_all add: pre_def Suc_diff_le)
  have c4: "copy_loop (buf_write target 0 pre) (length pre) src ?d (length f) = buf_write target 0 (pre @ f)"
    using buf_write_append [of 0 pre target f] fits lt src len
    by (subst copy_loop_eq) (auto simp: length_buf_write pre_def)
  have c5: "buf_set (buf_write target 0 (pre @ f)) (length pre + length f) 0 = pre @ f @ 0 # ?rest"
    using fits lt len by (simp add: buf_set_def buf_write_def pre_def)
  have "adjustDecimals src n target size' d =
      (True, trim_zeros (pre @ f @ 0 # ?rest) (length pre) (length pre + length f))"
    unfolding adjustDecimals_def if_not_P [OF n1] if_not_P [OF d(2)] Let_def if_not_P [OF nt] d(1)
    by (simp only: c1 c2 c3 c4 c5)
  moreover have "length (pre @ f @ 0 # ?rest) = length target" using fits lt len by (simp add: pre_def)
  moreover have ok: "0 \<notin> set i" "0 \<notin> set f" "ch_dot \<notin> set f" using is_number_chars [OF s(3)] len(3) by auto
  moreover have "d = 0 \<longleftrightarrow> f = []" using len(2) by (auto simp: unat_eq_0)
  moreover have "ch_dot \<notin> set i" using is_number_chars [OF s(3)] len(3) by auto
  then have "last i \<noteq> ch_dot" using last_in_set [OF len(4)] by metis
  ultimately show ?thesis
    using cstr_trim_zeros [OF refl, of pre f ?rest] len(4)
    by (auto simp: Let_def pre_def i_def [symmetric] f_def [symmetric])
qed

theorem adjustDecimals_ok:
  assumes "take (unat n) src = s" "length s = unat n" "is_number s"
    "text_fits s (unat d) (unat size')" "unat size' \<le> length target"
  shows "\<exists>t. adjustDecimals src n target size' d = (True, t) \<and> length t = length target \<and>
    cstr t = decimal_text s (unat d)"
proof (cases "s = [ch_0]")
  case True
  then have "decimal_text s (unat d) = [ch_0]"
    by (auto simp: decimal_text_def int_part_def frac_part_def strip0_Nil_iff)
  moreover have "src ! 0 = ch_0" using nth_take [of 0 "unat n" src] assms(1,2) True by simp
  ultimately show ?thesis
    using adjustDecimals_zero [of n src size' target d] assms True by (simp add: text_fits_def)
next
  case False
  show ?thesis
  proof (cases "unat n \<le> unat d")
    case True
    have "decimal_text s (unat d) = ch_0 # ch_dot # replicate (unat d - unat n) ch_0 @ strip0 s"
      using strip0_number [OF assms(3) False] True assms(2)
      by (simp add: decimal_text_def int_part_def frac_part_def strip0_append)
    with adjustDecimals_small [OF assms(1-3) False True, of size' target] assms(2,4,5) False True
    show ?thesis by (simp add: text_fits_def)
  next
    case large: False
    then have "decimal_text s (unat d) =
        (let i = take (unat n - unat d) s; f = strip0 (drop (unat n - unat d) s) in
          if f = [] then i else i @ ch_dot # f)"
      using assms(2) by (simp add: decimal_text_def int_part_def frac_part_def Let_def)
    with adjustDecimals_large [OF assms(1-3) False, of d size' target] assms(2,4,5) False large
    show ?thesis by (simp add: text_fits_def)
  qed
qed

section \<open>The number a decimal text denotes\<close>

definition dval :: "bytes \<Rightarrow> nat" where
  "dval s = digits_val 10 (map (\<lambda>c. unat c - 48) s)"

text \<open>The text \<open>t\<close>, digits with an optional decimal point, denotes \<open>v / 10 ^ d\<close>.\<close>

definition denotes :: "bytes \<Rightarrow> nat \<Rightarrow> nat \<Rightarrow> bool" where
  "denotes t v d =
     (let i = takeWhile (\<lambda>c. c \<noteq> ch_dot) t; f = drop (Suc (length i)) t in
      i \<noteq> [] \<and> list_all is_digit i \<and> list_all is_digit f \<and> length f \<le> d \<and>
      dval (i @ f) * 10 ^ (d - length f) = v)"

lemma dval_append: "dval (x @ y) = dval x * 10 ^ length y + dval y"
  by (induction x) (simp_all add: dval_def algebra_simps power_add)

lemma dval_zeros [simp]: "dval (replicate n ch_0) = 0"
  by (induction n) (simp_all add: dval_def)

lemma strip0_pad: "strip0 s @ replicate (length s - length (strip0 s)) ch_0 = s"
proof (induction s)
  case (Cons x xs)
  then show ?case
    by (cases "strip0 xs = []") auto
qed simp

lemma frac_int_dval: "dval (int_part s d @ frac_part s d) = dval s"
proof (cases "length s \<le> d")
  case True
  have "dval ((ch_0 # replicate (d - length s) ch_0) @ s) = dval s"
    using dval_zeros [of "Suc (d - length s)"] unfolding dval_append by simp
  with True show ?thesis by (simp add: int_part_def frac_part_def)
qed (simp add: int_part_def frac_part_def)

lemma length_frac_part [simp]: "length (frac_part s d) = d"
  by (simp add: frac_part_def)

lemma decimal_text_denotes:
  assumes "is_number s"
  shows "denotes (decimal_text s d) (dval s) d"
proof -
  let ?i = "int_part s d" and ?f = "strip0 (frac_part s d)"
  have digits: "list_all is_digit s" using assms by (simp add: is_number_def)
  have "is_digit ch_0" by (simp add: is_digit_def)
  with digits have di: "list_all is_digit ?i" and dp: "list_all is_digit (frac_part s d)"
    by (auto simp: int_part_def frac_part_def list_all_iff dest: in_set_takeD in_set_dropD)
  from dp have df: "list_all is_digit ?f"
    by (metis list_all_append strip0_pad)
  have ne: "?i \<noteq> []" using assms by (auto simp: int_part_def is_number_def)
  have nodot: "ch_dot \<notin> set ?i" using di is_digit_not by (auto simp: list_all_iff)
  then have i: "takeWhile (\<lambda>c. c \<noteq> ch_dot) (decimal_text s d) = ?i"
    by (auto simp: decimal_text_def takeWhile_eq_all_conv takeWhile_append)
  have f: "drop (Suc (length ?i)) (decimal_text s d) = ?f"
    by (simp add: decimal_text_def)
  have len: "length ?f \<le> d" using length_strip0_le [of "frac_part s d"] by simp
  have "dval (?i @ ?f) * 10 ^ (d - length ?f) = dval ((?i @ ?f) @ replicate (d - length ?f) ch_0)"
    unfolding dval_append [of "?i @ ?f"] by simp
  also have "(?i @ ?f) @ replicate (d - length ?f) ch_0 = ?i @ frac_part s d"
    using strip0_pad [of "frac_part s d"] by simp
  finally have "dval (?i @ ?f) * 10 ^ (d - length ?f) = dval s" by (simp only: frac_int_dval)
  with ne di df len show ?thesis unfolding denotes_def Let_def i f by simp
qed

section \<open>The decimal digits of a number\<close>

definition decimal :: "nat \<Rightarrow> bytes" where
  "decimal v = map ((!) HEXDIGITS) (digits 10 v)"

lemma HEXDIGITS_digit: "d < 10 \<Longrightarrow> HEXDIGITS ! d = of_nat (48 + d)"
  by (auto simp: HEXDIGITS_def chars_def less_Suc_eq numeral_eq_Suc of_char_def)

lemma unat_digit: "d < 10 \<Longrightarrow> unat (of_nat (48 + d) :: u8) = 48 + d"
  by (simp only: unat_of_nat) simp

lemma decimal_eq: "decimal v = map (\<lambda>d. of_nat (48 + d)) (digits 10 v)"
  unfolding decimal_def by (rule map_cong [OF refl HEXDIGITS_digit]) (rule digits_less, simp_all)

lemma dval_decimal: "dval (decimal v) = v"
proof -
  have "map (\<lambda>c. unat c - 48) (decimal v) = map (\<lambda>d. d) (digits 10 v)"
    unfolding decimal_eq map_map
    by (rule map_cong [OF refl]) (use unat_digit digits_less [of 10] in fastforce)
  then show ?thesis by (simp add: dval_def digits_val_digits)
qed

lemma is_number_decimal: "is_number (decimal v)"
proof -
  have "is_digit (of_nat (48 + d))" if "d \<in> set (digits 10 v)" for d
    using unat_digit [OF digits_less [OF _ that]] digits_less [OF _ that]
    by (simp add: is_digit_def word_le_nat_alt word_less_nat_alt)
  then have 1: "list_all is_digit (decimal v)"
    by (auto simp: decimal_eq list_all_iff)
  have "v = 0 \<or> hd (decimal v) \<noteq> ch_0"
  proof (rule disjCI)
    assume h: "\<not> hd (decimal v) \<noteq> ch_0"
    have "hd (digits 10 v) < 10" by (rule digits_less [of _ _ v]) simp_all
    from unat_digit [OF this] h have "48 + hd (digits 10 v) = 48"
      by (simp add: decimal_eq hd_map)
    then show "v = 0" using digits_hd [of 10 v] by auto
  qed
  moreover have "decimal 0 = [ch_0]" by (simp add: decimal_eq digits_small)
  ultimately show ?thesis using 1 by (auto simp: is_number_def decimal_def)
qed

section \<open>What print\_amount writes\<close>

lemma unat64_times_10: "unat w * 10 < 2 ^ 64 \<Longrightarrow> unat (w * 10) = unat w * 10" for w :: u64
  by (simp only: unat_word_ariths) simp

lemma base_loop_ok:
  assumes "unat base = 10 ^ j" "unat base \<le> unat amount"
  shows "\<exists>k b. base_loop amount base n = Some (b, n + of_nat k) \<and> unat b = 10 ^ (j + k) \<and>
    10 ^ (j + k) \<le> unat amount \<and> unat amount < 10 ^ Suc (j + k)"
  using assms
proof (induction "unat amount - unat base" arbitrary: base j n rule: less_induct)
  case less
  show ?case
  proof (cases "base \<le> amount div 10")
    case True
    then have le: "unat base * 10 \<le> unat amount"
      by (simp add: word_le_nat_alt unat_div less_eq_div_iff_mult_less_eq)
    then have b: "unat (base * 10) = unat base * 10"
      using unat64_less [of amount] by (intro unat64_times_10) linarith
    have "0 < unat base" using less.prems(1) by simp
    then have "unat amount - unat (base * 10) < unat amount - unat base"
      unfolding b using le by (intro diff_less_mono2) linarith+
    then have "\<exists>k b. base_loop amount (base * 10) (n + 1) = Some (b, n + 1 + of_nat k) \<and>
        unat b = 10 ^ (Suc j + k) \<and> 10 ^ (Suc j + k) \<le> unat amount \<and> unat amount < 10 ^ Suc (Suc j + k)"
      using b le less.prems by (intro less.hyps) simp_all
    then obtain k b' where k: "base_loop amount (base * 10) (n + 1) = Some (b', n + 1 + of_nat k)"
        "unat b' = 10 ^ (Suc j + k)" "10 ^ (Suc j + k) \<le> unat amount" "unat amount < 10 ^ Suc (Suc j + k)"
      by blast
    have "base_loop amount base n = Some (b', n + of_nat (Suc k))"
      using True k(1) by (subst base_loop.simps) (simp add: ac_simps)
    with k(2-) show ?thesis by (metis add_Suc_right add_Suc)
  next
    case False
    then have "unat amount < unat base * 10"
      by (simp add: word_le_nat_alt unat_div not_le div_less_iff_less_mult)
    moreover have "base_loop amount base n = Some (base, n)"
      using False by (subst base_loop.simps) simp
    ultimately show ?thesis using less.prems by (intro exI [of _ 0] exI [of _ base]) simp
  qed
qed

text \<open>The digits by position, most significant first.\<close>

primrec pdigits :: "nat \<Rightarrow> nat \<Rightarrow> nat list" where
  "pdigits 0 v = []"
| "pdigits (Suc n) v = (v div 10 ^ n mod 10) # pdigits n v"

lemma pdigits_snoc: "pdigits (Suc n) v = pdigits n (v div 10) @ [v mod 10]"
  by (induction n) (simp_all add: div_mult2_eq)

lemma length_pdigits [simp]: "length (pdigits n v) = n"
  by (induction n) simp_all

lemma digits_pdigits: "v < 10 ^ Suc n \<Longrightarrow> n = 0 \<or> 10 ^ n \<le> v \<Longrightarrow> digits 10 v = pdigits (Suc n) v"
proof (induction n arbitrary: v)
  case (Suc n)
  have "10 ^ n \<le> v div 10" "v div 10 < 10 ^ Suc n"
    using Suc.prems by (simp_all add: less_eq_div_iff_mult_less_eq div_less_iff_less_mult)
  then have "digits 10 (v div 10) = pdigits (Suc n) (v div 10)" by (intro Suc.IH) simp_all
  moreover have "(10::nat) \<le> 10 ^ Suc n" by simp
  then have "10 \<le> v" using Suc.prems(2) by linarith
  ultimately show ?case by (simp only: digits_step [of 10 v] pdigits_snoc [of "Suc n" v])
qed (simp add: digits_small)

lemma digit_loop_eq:
  assumes "n = 0 \<or> unat base = 10 ^ (n - 1)" "i + n \<le> length tmp"
  shows "digit_loop amount base tmp i n =
    buf_write tmp i (map (\<lambda>d. of_nat (48 + d)) (pdigits n (unat amount)))"
  using assms
proof (induction n arbitrary: base i tmp)
  case (Suc n)
  have b: "unat base = 10 ^ n" using Suc.prems(1) by simp
  have "unat (base div 10) = 10 ^ n div 10" by (simp add: unat_div b)
  then have next_base: "n = 0 \<or> unat (base div 10) = 10 ^ (n - 1)" by (cases n) simp_all
  have "unat (amount div base mod 10) = unat amount div 10 ^ n mod 10"
    by (simp add: unat_div unat_mod b)
  then have "amount div base mod 10 = of_nat (unat amount div 10 ^ n mod 10)"
    by (metis of_nat_unat ucast_id)
  then have "ch_0 + ucast (amount div base mod 10) = of_nat (48 + unat amount div 10 ^ n mod 10)"
    by (simp add: unsigned_of_nat take_bit_nat_eq_self)
  with Suc.IH [OF next_base, of "Suc i"] Suc.prems(2) show ?case
    by (simp add: length_buf_set buf_write_Cons)
qed simp

lemma print_digits:
  assumes "0 < unat amount" "unat amount < 10 ^ 19"
  obtains base n where "unat n \<le> 19" "unat n = length (decimal (unat amount))"
    "map_option (\<lambda>(base, n). (base, n + 1)) (base_loop amount 1 0) = Some (base, n)"
    "buf_set (digit_loop amount base (replicate 20 0) 0 (unat n)) (unat n) 0 =
       decimal (unat amount) @ 0 # replicate (19 - unat n) 0"
proof -
  obtain k b where k: "base_loop amount 1 0 = Some (b, of_nat k)" "unat b = 10 ^ k"
      "10 ^ k \<le> unat amount" "unat amount < 10 ^ Suc k"
    using base_loop_ok [of 1 0 amount 0] assms(1) by auto
  have "(10::nat) ^ k < 10 ^ 19" using k(3) assms(2) by linarith
  then have "k < 19" by (rule power_less_imp_less_exp [rotated]) simp
  then have n: "unat (of_nat k + 1 :: u32) = Suc k" by (simp add: unat_word_ariths unat_of_nat)
  have d: "decimal (unat amount) = map (\<lambda>d. of_nat (48 + d)) (pdigits (Suc k) (unat amount))"
    using digits_pdigits [OF k(4)] k(3) by (simp add: decimal_eq)
  then have len: "length (decimal (unat amount)) = Suc k" by (simp del: pdigits.simps)
  have "digit_loop amount b (replicate 20 0) 0 (Suc k) = buf_write (replicate 20 0) 0 (decimal (unat amount))"
    using digit_loop_eq [of "Suc k" b 0 "replicate 20 0" amount] k(2) \<open>k < 19\<close> by (simp only: d) simp
  moreover have "buf_set (buf_write (replicate 20 0) 0 (decimal (unat amount))) (Suc k) 0 =
      decimal (unat amount) @ 0 # replicate (19 - Suc k) 0"
    using \<open>k < 19\<close> len by (simp add: buf_set_def buf_write_def)
  ultimately show thesis using that [of "of_nat k + 1" b] n k(1) len \<open>k < 19\<close> by simp
qed

lemma length_decimal_text:
  "length (decimal_text s d) \<le> (if length s \<le> d then d + 2 else length s + 1)"
  using length_strip0_le [of "frac_part s d"] by (auto simp: decimal_text_def int_part_def)

definition fit_text :: "bytes \<Rightarrow> nat \<Rightarrow> bytes" where
  "fit_text t n = (if Suc (length t) < n then t else [])"

lemma print_amount_out:
  assumes "adjustDecimals tmp n (replicate 25 0) 25 sun = (True, t2)" "length t2 = 25"
    "0 < unat (outlen :: u32)" "unat outlen \<le> length out"
  defines "out' \<equiv> if of_nat (strlen t2) < outlen - 1 then strlcpy out t2 (unat outlen) else buf_set out 0 0"
  shows "cstr out' = fit_text (cstr t2) (unat outlen)" "length out' = length out"
proof -
  have "strlen t2 \<le> 25" using strlen_le [of t2] assms(2) by simp
  then have "unat (of_nat (strlen t2) :: u32) = strlen t2" by (simp add: unat_of_nat)
  moreover have "unat (outlen - 1) = unat outlen - 1"
    using assms(3) by (simp add: unat_sub word_le_nat_alt)
  ultimately have c: "of_nat (strlen t2) < outlen - 1 \<longleftrightarrow> Suc (strlen t2) < unat outlen"
    by (auto simp: word_less_nat_alt)
  obtain a r where "out = a # r" using assms(3,4) by (cases out) auto
  then have e: "cstr (buf_set out 0 0) = []" by (simp add: buf_set_def buf_write_def)
  show "cstr out' = fit_text (cstr t2) (unat outlen)"
    unfolding out'_def c fit_text_def using assms(3) e by (auto simp: cstr_strlcpy strlen_def)
  show "length out' = length out"
    unfolding out'_def using assms(3,4) \<open>out = a # r\<close> by (auto simp: length_strlcpy length_buf_set)
qed

lemma print_amount_eq:
  assumes "(if amount > 0 then map_option (\<lambda>(base, n). (base, n + 1)) (base_loop amount 1 0) else Some (1, 0)) =
      Some (base, n)"
    "\<not> n > 19"
    "buf_set (digit_loop amount base (replicate 20 0) 0 (unat n)) (unat n) 0 = tmp"
    "adjustDecimals tmp n (replicate 25 0) 25 sun = (True, t2)" "length t2 = 25"
    "0 < unat outlen" "unat outlen \<le> length out"
  shows "\<exists>out'. print_amount amount out outlen sun = Some (Inr (out', of_nat (strlen out'))) \<and>
    length out' = length out \<and> cstr out' = fit_text (cstr t2) (unat outlen)"
proof -
  let ?o = "if of_nat (strlen t2) < outlen - 1 then strlcpy out t2 (unat outlen) else buf_set out 0 0"
  have "print_amount amount out outlen sun = Some (Inr (?o, of_nat (strlen ?o)))"
    unfolding print_amount_def assms(1) bind.simps prod.case if_not_P [OF assms(2)] assms(3) Let_def assms(4)
    by simp
  with print_amount_out [OF assms(4-7)] show ?thesis by blast
qed

theorem print_amount_positive:
  assumes "0 < unat amount" "unat amount < 10 ^ 19" "unat sun \<le> 22"
    "0 < unat outlen" "unat outlen \<le> length out"
  shows "\<exists>out'. print_amount amount out outlen sun = Some (Inr (out', of_nat (strlen out'))) \<and>
    length out' = length out \<and>
    cstr out' = fit_text (decimal_text (decimal (unat amount)) (unat sun)) (unat outlen)"
proof -
  let ?s = "decimal (unat amount)"
  obtain base n where n: "unat n \<le> 19" "unat n = length ?s"
      "map_option (\<lambda>(base, n). (base, n + 1)) (base_loop amount 1 0) = Some (base, n)"
      "buf_set (digit_loop amount base (replicate 20 0) 0 (unat n)) (unat n) 0 = ?s @ 0 # replicate (19 - unat n) 0"
    using print_digits [OF assms(1,2)] by blast
  let ?tmp = "?s @ 0 # replicate (19 - unat n) 0"
  have "text_fits ?s (unat sun) (unat (25 :: u32))"
    using n(1,2) assms(3) by (auto simp: text_fits_def)
  then have "\<exists>t2. adjustDecimals ?tmp n (replicate 25 0) 25 sun = (True, t2) \<and>
      length t2 = length (replicate 25 (0 :: u8)) \<and> cstr t2 = decimal_text ?s (unat sun)"
    by (intro adjustDecimals_ok is_number_decimal) (simp_all add: n(2))
  then obtain t2 where t2: "adjustDecimals ?tmp n (replicate 25 0) 25 sun = (True, t2)" "length t2 = 25"
      "cstr t2 = decimal_text ?s (unat sun)"
    by (metis length_replicate)
  have "\<not> n > 19" using n(1) by (simp add: word_less_nat_alt)
  moreover have "0 < amount" using assms(1) by (simp add: word_less_nat_alt)
  ultimately show ?thesis
    using print_amount_eq [OF _ _ n(4) t2(1,2) assms(4,5)] n(3) t2(3) by simp
qed

theorem print_amount_zero:
  assumes "unat sun \<le> 22" "0 < unat outlen" "unat outlen \<le> length out"
  shows "\<exists>out'. print_amount 0 out outlen sun = Some (Inr (out', of_nat (strlen out'))) \<and>
    length out' = length out \<and>
    cstr out' = fit_text (ch_0 # ch_dot # replicate (unat sun) ch_0) (unat outlen)"
proof -
  let ?t2 = "ch_0 # ch_dot # replicate (unat sun) ch_0 @ replicate (23 - unat sun) 0"
  have "buf_set (buf_set (replicate 25 0) 0 ch_0) 1 ch_dot = ch_0 # ch_dot # replicate 23 0"
    by (simp add: buf_set_def buf_write_def)
  moreover have "fill_loop (ch_0 # ch_dot # replicate 23 0) 2 ch_0 (unat sun) = ?t2"
    using assms(1) by (simp add: fill_loop_eq buf_write_def)
  moreover have "buf_set ?t2 (2 + unat sun) 0 = ?t2"
    using assms(1) by (simp add: buf_set_def buf_write_def Cons_replicate_eq)
  moreover have "\<not> 25 < (0 :: u32) + 1 + 2 + (ucast sun - 0)"
    using assms(1) by (simp add: word_less_nat_alt unat_word_ariths unat_ucast_8_32)
  ultimately have a: "adjustDecimals (buf_set (replicate 20 0) 0 0) 0 (replicate 25 0) 25 sun = (True, ?t2)"
    by (simp add: adjustDecimals_def Let_def unat_ucast_8_32 trim_zeros_def)
  have len: "length ?t2 = 25" using assms(1) by simp
  have cstr: "cstr ?t2 = ch_0 # ch_dot # replicate (unat sun) ch_0"
    using assms(1) by (cases "23 - unat sun") simp_all
  have "buf_set (digit_loop 0 1 (replicate 20 0) 0 (unat 0)) (unat 0) 0 = buf_set (replicate 20 0) 0 0"
    by simp
  from print_amount_eq [OF _ _ this a len assms(2,3)] cstr show ?thesis by simp
qed

section \<open>Properties\<close>

lemma denotes_zero_text: "denotes (ch_0 # ch_dot # replicate n ch_0) 0 n"
proof -
  have "dval (ch_0 # replicate n ch_0) = 0" using dval_zeros [of "Suc n"] by simp
  then show ?thesis by (simp add: denotes_def is_digit_def list_all_iff)
qed

lemma length_decimal_le: "v < 10 ^ 19 \<Longrightarrow> length (decimal v) \<le> 19"
  using length_digits_le [of 10 v 18] by (simp add: decimal_def)

lemma print_amount_fits:
  assumes "unat amount < 10 ^ 19" "unat sun \<le> 22" "0 < unat outlen" "unat outlen \<le> length out"
  shows "\<exists>t out'. denotes t (unat amount) (unat sun) \<and> length t \<le> 24 \<and>
    print_amount amount out outlen sun = Some (Inr (out', of_nat (strlen out'))) \<and>
    length out' = length out \<and> cstr out' = (if length t + 1 < unat outlen then t else [])"
proof (cases "unat amount = 0")
  case True
  then have "amount = 0" by (simp add: unat_eq_0)
  then obtain out' where "print_amount amount out outlen sun = Some (Inr (out', of_nat (strlen out')))" "length out' = length out"
      "cstr out' = fit_text (ch_0 # ch_dot # replicate (unat sun) ch_0) (unat outlen)"
    using print_amount_zero [of sun outlen out] assms(2-4) by auto
  then show ?thesis
    using True assms(2) denotes_zero_text [of "unat sun"]
    by (intro exI [of _ "ch_0 # ch_dot # replicate (unat sun) ch_0"] exI [of _ out']) (simp add: fit_text_def)
next
  case False
  let ?t = "decimal_text (decimal (unat amount)) (unat sun)"
  have "length ?t \<le> 24"
    using length_decimal_text [of "decimal (unat amount)" "unat sun"] length_decimal_le [OF assms(1)] assms(2)
    by (simp split: if_splits)
  moreover have "denotes ?t (unat amount) (unat sun)"
    using decimal_text_denotes [OF is_number_decimal, of "unat amount" "unat sun"] by (simp add: dval_decimal)
  moreover have "0 < unat amount" using False by simp
  then obtain out' where "print_amount amount out outlen sun = Some (Inr (out', of_nat (strlen out')))" "length out' = length out"
      "cstr out' = fit_text ?t (unat outlen)"
    using print_amount_positive [of amount sun outlen out] assms(1-4) by blast
  ultimately show ?thesis by (intro exI [of _ ?t] exI [of _ out']) (simp add: fit_text_def)
qed

lemma print_amount_denotes:
  assumes "unat amount < 10 ^ 19" "unat sun \<le> 22" "26 < unat outlen" "unat outlen \<le> length out"
  shows "\<exists>out'. print_amount amount out outlen sun = Some (Inr (out', of_nat (strlen out'))) \<and>
    length out' = length out \<and> denotes (cstr out') (unat amount) (unat sun)"
  using print_amount_fits [OF assms(1,2) _ assms(4)] assms(3) by fastforce

lemma print_amount_20_digits:
  assumes "10 ^ 19 \<le> unat amount"
  shows "print_amount amount out outlen sun = Some (Inl E_INCORRECT_LENGTH)"
proof -
  obtain k b where k: "base_loop amount 1 0 = Some (b, of_nat k)"
      "10 ^ k \<le> unat amount" "unat amount < 10 ^ Suc k"
    using base_loop_ok [of 1 0 amount 0] assms by auto
  have "(10::nat) ^ 19 < 10 ^ Suc k" using k(3) assms by linarith
  then have "19 < Suc k" by (rule power_less_imp_less_exp [rotated]) simp
  moreover have "(10::nat) ^ k < 10 ^ 20" using k(2) unat64_less [of amount] by simp
  then have "k < 20" by (rule power_less_imp_less_exp [rotated]) simp
  ultimately have "k = 19" by simp
  moreover have "0 < amount" using assms by (auto simp: word_less_nat_alt)
  ultimately show ?thesis by (simp add: print_amount_def k(1))
qed

text \<open>C20: \<^verbatim>\<open>print_amount\<close> never shows a wrong amount: for every amount below \<open>10 ^ 19\<close>, every precision up to 22 and
  every buffer, there is a decimal text of at most 24 characters that denotes exactly \<open>amount / 10 ^ sun\<close>; what is
  written, inside the buffer, is this text when it leaves a byte of the buffer free beside its NUL, and the empty text
  otherwise. For an amount of \<open>10 ^ 19\<close> or more the status word for a bad length is thrown before anything is written.\<close>

theorem print_amount_exact:
  assumes "unat sun \<le> 22" "0 < unat outlen" "unat outlen \<le> length out"
  shows "if unat amount < 10 ^ 19
    then \<exists>t out'. denotes t (unat amount) (unat sun) \<and> length t \<le> 24 \<and>
      print_amount amount out outlen sun = Some (Inr (out', of_nat (strlen out'))) \<and>
      length out' = length out \<and> cstr out' = (if length t + 1 < unat outlen then t else [])
    else print_amount amount out outlen sun = Some (Inl E_INCORRECT_LENGTH)"
proof (cases "unat amount < 10 ^ 19")
  case True
  from print_amount_fits [OF True assms] show ?thesis unfolding if_P [OF True] .
next
  case False
  then show ?thesis using print_amount_20_digits by simp
qed

theorem print_amount_exact_witness:
  "(\<exists>out' t. print_amount 1234500 (replicate 100 0) 100 6 = Some (Inr (out', of_nat (strlen out'))) \<and>
     cstr out' = t \<and> denotes t 1234500 6) \<and>
   print_amount 0xFFFFFFFFFFFFFFFF (replicate 100 0) 100 6 = Some (Inl E_INCORRECT_LENGTH)"
  using print_amount_exact [of 6 100 "replicate 100 0" 1234500] print_amount_exact [of 6 100 "replicate 100 0" "0xFFFFFFFFFFFFFFFF"]
  by fastforce

lemma trc20_amount_text:
  assumes "length amt = 32" "100 \<le> length buf" "100 \<le> length tgt" "unat d \<le> 97"
  shows "\<exists>x digs t. convertUint256BE amt 32 = Some x \<and> tostring256 x 10 buf 100 = Some (True, digs) \<and>
    length digs = length buf \<and> adjustDecimals digs (of_nat (strlen digs)) tgt 100 d = (True, t) \<and>
    length t = length tgt \<and> cstr t = decimal_text (decimal (be_val amt)) (unat d)"
proof -
  obtain x where x: "convertUint256BE amt 32 = Some x" "val256 x = be_val amt"
    using val256_convertUint256BE [of 32 amt] assms(1) by auto
  let ?s = "decimal (be_val amt)"
  have "be_val amt < 256 ^ 32" using be_val_less [of amt] assms(1) by simp
  also have "(256::nat) ^ 32 < 10 ^ Suc 77" by simp
  finally have len: "length ?s \<le> 78"
    using length_digits_le [of 10 "be_val amt" 77] by (simp add: decimal_def)
  let ?digs = "?s @ 0 # drop (Suc (length ?s)) buf"
  have ts: "tostring256 x 10 buf 100 = Some (True, ?digs)"
    using p256.tostring_ok [of 10 x 100 buf] len assms(2) by (simp add: x(2) decimal_def)
  have ld: "length ?digs = length buf" using len assms(2) by simp
  have "cstr ?digs = ?s" using is_number_chars [OF is_number_decimal] by (intro cstr_append_NUL) blast
  then have sl: "strlen ?digs = length ?s" by (simp add: strlen_def)
  then have n: "unat (of_nat (strlen ?digs) :: u32) = length ?s" using len by (simp add: unat_of_nat)
  have "text_fits ?s (unat d) (unat (100 :: u32))" using len assms(4) by (simp add: text_fits_def)
  then have "\<exists>t. adjustDecimals ?digs (of_nat (strlen ?digs)) tgt 100 d = (True, t) \<and>
      length t = length tgt \<and> cstr t = decimal_text ?s (unat d)"
    by (intro adjustDecimals_ok is_number_decimal) (simp_all only: n, simp_all add: assms(3))
  then show ?thesis using x(1) ts ld by auto
qed

text \<open>C19: A 256-bit token amount is shown exactly: the big-endian amount of a TRC20 call, printed by
  \<^verbatim>\<open>tostring256\<close> and given its decimal point by \<^verbatim>\<open>adjustDecimals\<close> in the 100-byte halves of the
  APDU buffer as the signing handler does, denotes the amount divided by \<open>10 ^ decimals\<close>, for every
  32-byte amount and every precision up to 97; no byte outside the buffers is written.\<close>

theorem trc20_amount_exact:
  assumes "length amt = 32" "100 \<le> length buf" "100 \<le> length tgt" "unat d \<le> 97"
  shows "\<exists>x digs t. convertUint256BE amt 32 = Some x \<and> tostring256 x 10 buf 100 = Some (True, digs) \<and>
    length digs = length buf \<and> adjustDecimals digs (of_nat (strlen digs)) tgt 100 d = (True, t) \<and>
    length t = length tgt \<and> denotes (cstr t) (be_val amt) (unat d)"
proof -
  have "denotes (decimal_text (decimal (be_val amt)) (unat d)) (be_val amt) (unat d)"
    using decimal_text_denotes [OF is_number_decimal, of "be_val amt" "unat d"] by (simp add: dval_decimal)
  then show ?thesis using trc20_amount_text [OF assms] by metis
qed

theorem trc20_amount_exact_witness:
  "\<exists>x digs t. convertUint256BE (replicate 31 0 @ [7]) 32 = Some x \<and>
     tostring256 x 10 (replicate 100 0) 100 = Some (True, digs) \<and>
     adjustDecimals digs (of_nat (strlen digs)) (replicate 100 0) 100 6 = (True, t) \<and>
     denotes (cstr t) (be_val (replicate 31 0 @ [7])) 6"
  using trc20_amount_exact [of "replicate 31 0 @ [7]" "replicate 100 0" "replicate 100 0" 6] by auto

end
