(* ===== verification/Nanopb.thy ===== *)
theory Nanopb
  imports Tron_Prelude "HOL-Library.Monad_Syntax"
begin

text \<open>
  The protocol-buffer decoder the application is built with: \<^verbatim>\<open>src/nanopb/pb_decode.c\<close> and
  \<^verbatim>\<open>pb_default_field_callback\<close> of \<^verbatim>\<open>src/nanopb/pb_common.c\<close>, in the configuration of the build (no
  malloc, no error messages). Streams carry their position in the input, so that a callback that
  keeps a pointer into the input is modelled too. A decoder that returns false is \<^const>\<open>None\<close>: the
  message it was filling is never looked at afterwards.
\<close>

unbundle bit_operations_syntax

section \<open>Input streams\<close>

text \<open>
  \<^verbatim>\<open>state\<close> points either into the buffer the stream was made from, at an offset, or into the local
  buffer of \<^verbatim>\<open>decode_callback_field\<close>.
\<close>

datatype region = RInput | RLocal

datatype pb_istream_t = IStream (s_region: region) (s_pos: nat) (s_left: bytes)

definition bytes_left :: "pb_istream_t \<Rightarrow> nat" where
  "bytes_left s = length (s_left s)"

definition buf_read :: "pb_istream_t \<Rightarrow> nat \<Rightarrow> bytes \<times> pb_istream_t" where
  "buf_read s count = (take count (s_left s), IStream (s_region s) (s_pos s + count) (drop count (s_left s)))"

definition pb_read :: "pb_istream_t \<Rightarrow> nat \<Rightarrow> (bytes \<times> pb_istream_t) option" where
  "pb_read s count =
     (if count = 0 then Some ([], s)
      else if bytes_left s < count then None
      else Some (buf_read s count))"

definition pb_readbyte :: "pb_istream_t \<Rightarrow> (u8 \<times> pb_istream_t) option" where
  "pb_readbyte s =
     (if bytes_left s = 0 then None
      else case buf_read s 1 of (bs, s') \<Rightarrow> Some (hd bs, s'))"

definition pb_istream_from_buffer :: "region \<Rightarrow> nat \<Rightarrow> bytes \<Rightarrow> pb_istream_t" where
  "pb_istream_from_buffer r off buf = IStream r off buf"

text \<open>
  What every reader does to a stream: it moves forward in the same buffer and never past its end.
\<close>

definition consumes :: "pb_istream_t \<Rightarrow> pb_istream_t \<Rightarrow> bool" where
  "consumes s s' \<longleftrightarrow> (\<exists>k \<le> bytes_left s. s' = IStream (s_region s) (s_pos s + k) (drop k (s_left s)))"

lemma consumes_refl [simp, intro]: "consumes s s"
  by (cases s) (auto simp: consumes_def intro!: exI [of _ 0])

lemma consumes_trans [trans]: "consumes s s' \<Longrightarrow> consumes s' s'' \<Longrightarrow> consumes s s''"
proof -
  assume "consumes s s'" "consumes s' s''"
  then obtain k k' where "k \<le> bytes_left s" "s' = IStream (s_region s) (s_pos s + k) (drop k (s_left s))"
      "k' \<le> bytes_left s'" "s'' = IStream (s_region s') (s_pos s' + k') (drop k' (s_left s'))"
    by (auto simp: consumes_def)
  then show ?thesis by (auto simp: consumes_def bytes_left_def add.assoc add.commute intro!: exI [of _ "k + k'"])
qed

lemma consumes_bytes_left: "consumes s s' \<Longrightarrow> bytes_left s' \<le> bytes_left s"
  by (auto simp: consumes_def bytes_left_def)

lemma consumes_end: "consumes s s' \<Longrightarrow> s_region s' = s_region s \<and> s_pos s' + bytes_left s' = s_pos s + bytes_left s"
  by (auto simp: consumes_def bytes_left_def)

lemma consumes_pos: "consumes s s' \<Longrightarrow> s_pos s \<le> s_pos s'"
  by (auto simp: consumes_def)

text \<open>The contract of the readers, and what follows from it for each of them.\<close>

locale pb_reader =
  fixes rd :: "pb_istream_t \<Rightarrow> ('a \<times> pb_istream_t) option"
  assumes rd_consumes: "rd s = Some (x, s') \<Longrightarrow> consumes s s'"
begin

lemma rd_le: "rd s = Some (x, s') \<Longrightarrow> bytes_left s' \<le> bytes_left s"
  by (rule consumes_bytes_left) (rule rd_consumes)

lemma rd_end:
  "rd s = Some (x, s') \<Longrightarrow> s_region s' = s_region s \<and> s_pos s' + bytes_left s' = s_pos s + bytes_left s"
  by (rule consumes_end) (rule rd_consumes)

end

lemma pb_read_consumes: "pb_read s count = Some (x, s') \<Longrightarrow> consumes s s'"
  by (auto simp: pb_read_def buf_read_def consumes_def split: if_splits)

lemma pb_readbyte_consumes: "pb_readbyte s = Some (x, s') \<Longrightarrow> consumes s s'"
  by (auto simp: pb_readbyte_def buf_read_def consumes_def Suc_le_eq split: if_splits)

lemma pb_readbyte_less: "pb_readbyte s = Some (x, s') \<Longrightarrow> bytes_left s' < bytes_left s"
  by (auto simp: pb_readbyte_def buf_read_def bytes_left_def split: if_splits)

lemma pb_readbyte_eq:
  "pb_readbyte (IStream r p (b # bs)) = Some (b, IStream r (Suc p) bs)"
  by (simp add: pb_readbyte_def buf_read_def bytes_left_def)

interpretation readbyte: pb_reader pb_readbyte
  by unfold_locales (rule pb_readbyte_consumes)

interpretation read: pb_reader "\<lambda>s. pb_read s count" for count
  by unfold_locales (rule pb_read_consumes)

section \<open>Variable-length integers\<close>

text \<open>
  \<^verbatim>\<open>pb_decode_varint32_eof\<close>: \<open>Inl eof\<close> is the result false with the given value of \<^verbatim>\<open>*eof\<close>. The bit
  position is below 71 throughout, so a natural number stands for \<^verbatim>\<open>uint_fast8_t\<close>.
\<close>

function varint32_loop :: "u32 \<Rightarrow> nat \<Rightarrow> pb_istream_t \<Rightarrow> (u32 \<times> pb_istream_t) option" where
  "varint32_loop result bitpos s =
     (case pb_readbyte s of
        None \<Rightarrow> None
      | Some (byte, s') \<Rightarrow>
          let sign_extension = (if bitpos < 63 then 0xFF else 0x01);
              valid_extension = (byte AND 0x7F = 0 \<or> (drop_bit 31 result \<noteq> 0 \<and> byte = sign_extension)) in
          if bitpos \<ge> 32 \<and> (bitpos \<ge> 64 \<or> \<not> valid_extension) then None
          else
            let result' = (if bitpos \<ge> 32 then result
                           else result OR push_bit bitpos (ucast (byte AND 0x7F))) in
            if byte AND 0x80 \<noteq> 0 then varint32_loop result' (bitpos + 7) s'
            else if bitpos + 7 = 35 \<and> byte AND 0x70 \<noteq> 0 then None
            else Some (result', s'))"
  by pat_completeness auto
termination
  by (relation "measure (\<lambda>(_, _, s). bytes_left s)") (auto dest: pb_readbyte_less)

definition pb_decode_varint32_eof :: "pb_istream_t \<Rightarrow> bool + (u32 \<times> pb_istream_t)" where
  "pb_decode_varint32_eof s =
     (case pb_readbyte s of
        None \<Rightarrow> Inl (bytes_left s = 0)
      | Some (byte, s') \<Rightarrow>
          if byte AND 0x80 = 0 then Inr (ucast byte, s')
          else case varint32_loop (ucast (byte AND 0x7F)) 7 s' of
                 None \<Rightarrow> Inl False
               | Some r \<Rightarrow> Inr r)"

definition pb_decode_varint32 :: "pb_istream_t \<Rightarrow> (u32 \<times> pb_istream_t) option" where
  "pb_decode_varint32 s = (case pb_decode_varint32_eof s of Inl _ \<Rightarrow> None | Inr r \<Rightarrow> Some r)"

function varint_loop :: "u64 \<Rightarrow> nat \<Rightarrow> pb_istream_t \<Rightarrow> (u64 \<times> pb_istream_t) option" where
  "varint_loop result bitpos s =
     (if bitpos \<ge> 64 then None
      else case pb_readbyte s of
        None \<Rightarrow> None
      | Some (byte, s') \<Rightarrow>
          let result' = result OR push_bit bitpos (ucast (byte AND 0x7F)) in
          if byte AND 0x80 \<noteq> 0 then varint_loop result' (bitpos + 7) s'
          else Some (result', s'))"
  by pat_completeness auto
termination
  by (relation "measure (\<lambda>(_, _, s). bytes_left s)") (auto dest: pb_readbyte_less)

definition pb_decode_varint :: "pb_istream_t \<Rightarrow> (u64 \<times> pb_istream_t) option" where
  "pb_decode_varint s = varint_loop 0 0 s"

function pb_skip_varint :: "pb_istream_t \<Rightarrow> pb_istream_t option" where
  "pb_skip_varint s =
     (case pb_read s 1 of
        None \<Rightarrow> None
      | Some (bs, s') \<Rightarrow> if hd bs AND 0x80 \<noteq> 0 then pb_skip_varint s' else Some s')"
  by pat_completeness auto
termination
  by (relation "measure bytes_left")
    (auto simp: pb_read_def buf_read_def bytes_left_def split: if_splits)

declare varint32_loop.simps [simp del] varint_loop.simps [simp del] pb_skip_varint.simps [simp del]

definition pb_skip_string :: "pb_istream_t \<Rightarrow> pb_istream_t option" where
  "pb_skip_string s =
     do { (len, s1) \<leftarrow> pb_decode_varint32 s;
          (_, s2) \<leftarrow> pb_read s1 (unat len);
          Some s2 }"

datatype tag_result = TagOk u32 u32 pb_istream_t | TagFail bool

text \<open>\<^verbatim>\<open>pb_decode_tag\<close>: wire type and tag, or false with the value of \<^verbatim>\<open>*eof\<close>.\<close>

definition pb_decode_tag :: "pb_istream_t \<Rightarrow> tag_result" where
  "pb_decode_tag s =
     (case pb_decode_varint32_eof s of
        Inl eof \<Rightarrow> TagFail eof
      | Inr (temp, s') \<Rightarrow> TagOk (temp AND 7) (drop_bit 3 temp) s')"

abbreviation (input) "PB_WT_VARINT \<equiv> (0 :: u32)"
abbreviation (input) "PB_WT_64BIT \<equiv> (1 :: u32)"
abbreviation (input) "PB_WT_STRING \<equiv> (2 :: u32)"
abbreviation (input) "PB_WT_32BIT \<equiv> (5 :: u32)"
abbreviation (input) "PB_WT_PACKED \<equiv> (0xFF :: u32)"

definition pb_skip_field :: "pb_istream_t \<Rightarrow> u32 \<Rightarrow> pb_istream_t option" where
  "pb_skip_field s wire_type =
     (if wire_type = PB_WT_VARINT then pb_skip_varint s
      else if wire_type = PB_WT_64BIT then map_option snd (pb_read s 8)
      else if wire_type = PB_WT_STRING then pb_skip_string s
      else if wire_type = PB_WT_32BIT then map_option snd (pb_read s 4)
      else None)"

text \<open>\<^verbatim>\<open>read_raw_value\<close> with the 10-byte buffer of its caller.\<close>

function raw_varint_loop :: "nat \<Rightarrow> bytes \<Rightarrow> pb_istream_t \<Rightarrow> (bytes \<times> pb_istream_t) option" where
  "raw_varint_loop max_size buf s =
     (if length buf + 1 > max_size then None
      else case pb_read s 1 of
        None \<Rightarrow> None
      | Some (bs, s') \<Rightarrow>
          if hd bs AND 0x80 \<noteq> 0 then raw_varint_loop max_size (buf @ [hd bs]) s'
          else Some (buf @ [hd bs], s'))"
  by pat_completeness auto
termination
  by (relation "measure (\<lambda>(_, _, s). bytes_left s)")
    (auto simp: pb_read_def buf_read_def bytes_left_def split: if_splits)

declare raw_varint_loop.simps [simp del]

definition read_raw_value :: "pb_istream_t \<Rightarrow> u32 \<Rightarrow> (bytes \<times> pb_istream_t) option" where
  "read_raw_value s wire_type =
     (if wire_type = PB_WT_VARINT then raw_varint_loop 10 [] s
      else if wire_type = PB_WT_64BIT then pb_read s 8
      else if wire_type = PB_WT_32BIT then pb_read s 4
      else None)"

text \<open>
  \<^verbatim>\<open>pb_make_string_substream\<close> returns the substream and the parent stream as it stands after
  \<^verbatim>\<open>pb_close_string_substream\<close>: closing reads what is left of the substream and moves the parent to
  its end, whatever was read of the substream in between. The substream has as many bytes as it announces; those past
  the end of the memory of its parent would be zeros here, so that a stream too long for its buffer is one in the model too.
\<close>

definition window :: "nat \<Rightarrow> bytes \<Rightarrow> bytes" where
  "window n bs = take n (bs @ replicate n 0)"

lemma window_take: "n \<le> length bs \<Longrightarrow> window n bs = take n bs"
  by (simp add: window_def)

definition pb_make_string_substream :: "pb_istream_t \<Rightarrow> (pb_istream_t \<times> pb_istream_t) option" where
  "pb_make_string_substream s =
     do { (sz, s1) \<leftarrow> pb_decode_varint32 s;
          if bytes_left s1 < unat sz then None
          else Some (IStream (s_region s1) (s_pos s1) (window (unat sz) (s_left s1)),
                     IStream (s_region s1) (s_pos s1 + unat sz) (drop (unat sz) (s_left s1))) }"

lemma pb_make_string_substream_eq:
  "pb_make_string_substream s =
     do { (sz, s1) \<leftarrow> pb_decode_varint32 s;
          if bytes_left s1 < unat sz then None
          else Some (IStream (s_region s1) (s_pos s1) (take (unat sz) (s_left s1)),
                     IStream (s_region s1) (s_pos s1 + unat sz) (drop (unat sz) (s_left s1))) }"
  by (cases "pb_decode_varint32 s") (auto simp: pb_make_string_substream_def bytes_left_def window_take)

section \<open>Descriptors and messages\<close>

text \<open>
  The field types that occur in the application's messages, with the size of the C member; a
  submessage carries the fields of its descriptor. A callback field carries a number that selects
  its decode function.
\<close>

datatype htype = SINGULAR | OPTIONAL | REPEATED nat

datatype atype = STATIC | CALLBACK nat

datatype ltype = LT_BOOL | LT_VARINT nat | LT_UVARINT nat | LT_BYTES nat | LT_STRING nat
  | LT_FIXED_LENGTH_BYTES nat | LT_SUBMESSAGE "pb_field list"
and pb_field = Field (f_tag: u32) (f_atype: atype) (f_htype: htype) (f_ltype: ltype)

text \<open>
  The memory of a message: per static field its \<^verbatim>\<open>has_\<close> flag and its elements, as many as the
  \<^verbatim>\<open>_count\<close> member says when the field is repeated. Integers are kept in 64 bits, as sign- or
  zero-extended; a bytes array keeps its size and all of its memory.
\<close>

datatype pval = VInt u64 | VBytes nat bytes | VBuf bytes | VMsg "slot list"
and slot = Slot (s_tag: u32) (s_has: bool) (s_vals: "pval list")

fun default_val :: "ltype \<Rightarrow> pval" and default_slot :: "pb_field \<Rightarrow> slot" where
  "default_val LT_BOOL = VInt 0"
| "default_val (LT_VARINT n) = VInt 0"
| "default_val (LT_UVARINT n) = VInt 0"
| "default_val (LT_BYTES n) = VBytes 0 (replicate n 0)"
| "default_val (LT_STRING n) = VBuf (replicate n 0)"
| "default_val (LT_FIXED_LENGTH_BYTES n) = VBuf (replicate n 0)"
| "default_val (LT_SUBMESSAGE fs) = VMsg (map default_slot fs)"
| "default_slot (Field tag atype htype lt) =
     Slot tag False
       (case atype of
          CALLBACK _ \<Rightarrow> []
        | STATIC \<Rightarrow> (case htype of REPEATED _ \<Rightarrow> [] | _ \<Rightarrow> [default_val lt]))"

text \<open>\<^verbatim>\<open>pb_message_set_to_defaults\<close> on zeroed memory; no message of the application has default values.\<close>

definition pb_message_set_to_defaults :: "pb_field list \<Rightarrow> slot list" where
  "pb_message_set_to_defaults fields = map default_slot fields"

definition pb_field_iter_find :: "pb_field list \<Rightarrow> u32 \<Rightarrow> pb_field option" where
  "pb_field_iter_find fields tag = find (\<lambda>f. f_tag f = tag) fields"

definition get_slot :: "slot list \<Rightarrow> u32 \<Rightarrow> slot" where
  "get_slot m tag = (case find (\<lambda>s. s_tag s = tag) m of Some s \<Rightarrow> s | None \<Rightarrow> Slot tag False [])"

definition set_slot :: "slot list \<Rightarrow> slot \<Rightarrow> slot list" where
  "set_slot m s = map (\<lambda>t. if s_tag t = s_tag s then s else t) m"

section \<open>Decoding one field\<close>

definition pb_decode_bool :: "pb_istream_t \<Rightarrow> (pval \<times> pb_istream_t) option" where
  "pb_decode_bool s =
     do { (value, s') \<leftarrow> pb_decode_varint32 s;
          Some (VInt (if value \<noteq> 0 then 1 else 0), s') }"

definition pb_dec_uvarint :: "nat \<Rightarrow> pb_istream_t \<Rightarrow> (pval \<times> pb_istream_t) option" where
  "pb_dec_uvarint data_size s =
     do { (value, s') \<leftarrow> pb_decode_varint s;
          clamped \<leftarrow>
            (if data_size = 8 then Some value
             else if data_size = 4 then Some (ucast (ucast value :: u32))
             else if data_size = 2 then Some (ucast (ucast value :: u16))
             else if data_size = 1 then Some (ucast (ucast value :: u8))
             else None);
          if clamped \<noteq> value then None else Some (VInt clamped, s') }"

definition pb_dec_svarint :: "nat \<Rightarrow> pb_istream_t \<Rightarrow> (pval \<times> pb_istream_t) option" where
  "pb_dec_svarint data_size s =
     do { (value, s') \<leftarrow> pb_decode_varint s;
          let svalue = (if data_size = 8 then value else scast (ucast value :: u32));
          clamped \<leftarrow>
            (if data_size = 8 then Some svalue
             else if data_size = 4 then Some (scast (ucast svalue :: u32))
             else if data_size = 2 then Some (scast (ucast svalue :: u16))
             else if data_size = 1 then Some (scast (ucast svalue :: u8))
             else None);
          if clamped \<noteq> svalue then None else Some (VInt clamped, s') }"

text \<open>
  \<^verbatim>\<open>pb_size_t\<close> has 16 bits. Of a bytes array only the bytes read are overwritten.
\<close>

definition pb_dec_bytes :: "nat \<Rightarrow> bytes \<Rightarrow> pb_istream_t \<Rightarrow> (pval \<times> pb_istream_t) option" where
  "pb_dec_bytes n old s =
     do { (sz, s1) \<leftarrow> pb_decode_varint32 s;
          if sz > 0xFFFF then None
          else if unat sz > n then None
          else do { (bs, s2) \<leftarrow> pb_read s1 (unat sz);
                    Some (VBytes (unat sz) (buf_write old 0 bs), s2) } }"

definition pb_dec_string :: "nat \<Rightarrow> bytes \<Rightarrow> pb_istream_t \<Rightarrow> (pval \<times> pb_istream_t) option" where
  "pb_dec_string n old s =
     do { (sz, s1) \<leftarrow> pb_decode_varint32 s;
          if sz = 0xFFFFFFFF then None
          else if unat sz + 1 > n then None
          else do { (bs, s2) \<leftarrow> pb_read s1 (unat sz);
                    Some (VBuf (buf_write (buf_set old (unat sz) 0) 0 bs), s2) } }"

definition pb_dec_fixed_length_bytes :: "nat \<Rightarrow> pb_istream_t \<Rightarrow> (pval \<times> pb_istream_t) option" where
  "pb_dec_fixed_length_bytes n s =
     do { (sz, s1) \<leftarrow> pb_decode_varint32 s;
          if sz > 0xFFFF then None
          else if sz = 0 then Some (VBuf (replicate n 0), s1)
          else if unat sz \<noteq> n then None
          else do { (bs, s2) \<leftarrow> pb_read s1 n;
                    Some (VBuf bs, s2) } }"

text \<open>\<^verbatim>\<open>decode_basic_field\<close> for the types other than submessages; \<open>old\<close> is the memory of the field.\<close>

definition decode_basic_field :: "ltype \<Rightarrow> u32 \<Rightarrow> pval \<Rightarrow> pb_istream_t \<Rightarrow> (pval \<times> pb_istream_t) option" where
  "decode_basic_field lt wire_type old s =
     (case lt of
        LT_BOOL \<Rightarrow> if wire_type \<noteq> PB_WT_VARINT \<and> wire_type \<noteq> PB_WT_PACKED then None else pb_decode_bool s
      | LT_VARINT n \<Rightarrow>
          if wire_type \<noteq> PB_WT_VARINT \<and> wire_type \<noteq> PB_WT_PACKED then None else pb_dec_svarint n s
      | LT_UVARINT n \<Rightarrow>
          if wire_type \<noteq> PB_WT_VARINT \<and> wire_type \<noteq> PB_WT_PACKED then None else pb_dec_uvarint n s
      | LT_BYTES n \<Rightarrow>
          if wire_type \<noteq> PB_WT_STRING then None
          else pb_dec_bytes n (case old of VBytes _ b \<Rightarrow> b | _ \<Rightarrow> replicate n 0) s
      | LT_STRING n \<Rightarrow>
          if wire_type \<noteq> PB_WT_STRING then None
          else pb_dec_string n (case old of VBuf b \<Rightarrow> b | _ \<Rightarrow> replicate n 0) s
      | LT_FIXED_LENGTH_BYTES n \<Rightarrow>
          if wire_type \<noteq> PB_WT_STRING then None else pb_dec_fixed_length_bytes n s
      | LT_SUBMESSAGE _ \<Rightarrow> None)"

text \<open>The elements of a packed array, until the substream or the array is exhausted.\<close>

function packed_loop :: "ltype \<Rightarrow> nat \<Rightarrow> pval list \<Rightarrow> pb_istream_t \<Rightarrow> (pval list \<times> pb_istream_t) option" where
  "packed_loop lt array_size vals s =
     (if bytes_left s > 0 \<and> length vals < array_size
      then (case decode_basic_field lt PB_WT_PACKED (default_val lt) s of
              None \<Rightarrow> None
            | Some (v, s') \<Rightarrow> packed_loop lt array_size (vals @ [v]) s')
      else Some (vals, s))"
  by pat_completeness auto
termination by (relation "measure (\<lambda>(_, n, vals, _). n - length vals)") auto

declare packed_loop.simps [simp del]

fun packable :: "ltype \<Rightarrow> bool" where
  "packable LT_BOOL = True"
| "packable (LT_VARINT _) = True"
| "packable (LT_UVARINT _) = True"
| "packable _ = False"

definition decode_static_field :: "pb_field \<Rightarrow> u32 \<Rightarrow> slot \<Rightarrow> pb_istream_t \<Rightarrow> (slot \<times> pb_istream_t) option" where
  "decode_static_field f wire_type sl s =
     (case f_htype f of
        SINGULAR \<Rightarrow>
          do { (v, s') \<leftarrow> decode_basic_field (f_ltype f) wire_type (hd (s_vals sl)) s;
               Some (Slot (s_tag sl) (s_has sl) [v], s') }
      | OPTIONAL \<Rightarrow>
          do { (v, s') \<leftarrow> decode_basic_field (f_ltype f) wire_type (hd (s_vals sl)) s;
               Some (Slot (s_tag sl) True [v], s') }
      | REPEATED n \<Rightarrow>
          if wire_type = PB_WT_STRING \<and> packable (f_ltype f) then
            do { (sub, s') \<leftarrow> pb_make_string_substream s;
                 (vals, sub') \<leftarrow> packed_loop (f_ltype f) n (s_vals sl) sub;
                 if bytes_left sub' \<noteq> 0 then None
                 else Some (Slot (s_tag sl) (s_has sl) vals, s') }
          else if length (s_vals sl) \<ge> n then None
          else
            do { (v, s') \<leftarrow> decode_basic_field (f_ltype f) wire_type (default_val (f_ltype f)) s;
                 Some (Slot (s_tag sl) (s_has sl) (s_vals sl @ [v]), s') })"

text \<open>
  Callback fields. The decode functions work on a state of the caller (what their \<^verbatim>\<open>arg\<close> points to);
  \<^const>\<open>None\<close> stands for a callback whose \<^verbatim>\<open>funcs.decode\<close> is null.
\<close>

type_synonym 's pb_callback = "nat \<Rightarrow> (pb_istream_t \<Rightarrow> 's \<Rightarrow> (pb_istream_t \<times> 's) option) option"

definition pb_default_field_callback ::
  "'s pb_callback \<Rightarrow> nat \<Rightarrow> pb_istream_t \<Rightarrow> 's \<Rightarrow> (pb_istream_t \<times> 's) option" where
  "pb_default_field_callback cb i s u = (case cb i of None \<Rightarrow> Some (s, u) | Some f \<Rightarrow> f s u)"

function callback_loop :: "'s pb_callback \<Rightarrow> nat \<Rightarrow> pb_istream_t \<Rightarrow> 's \<Rightarrow> 's option" where
  "callback_loop cb i sub u =
     (case pb_default_field_callback cb i sub u of
        None \<Rightarrow> None
      | Some (sub', u') \<Rightarrow>
          if bytes_left sub' > 0 \<and> bytes_left sub' < bytes_left sub then callback_loop cb i sub' u'
          else Some u')"
  by pat_completeness auto
termination by (relation "measure (\<lambda>(_, _, sub, _). bytes_left sub)") auto

declare callback_loop.simps [simp del]

definition decode_callback_field ::
  "'s pb_callback \<Rightarrow> nat \<Rightarrow> u32 \<Rightarrow> pb_istream_t \<Rightarrow> 's \<Rightarrow> ('s \<times> pb_istream_t) option" where
  "decode_callback_field cb i wire_type s u =
     (if wire_type = PB_WT_STRING then
        do { (sub, s') \<leftarrow> pb_make_string_substream s;
             u' \<leftarrow> callback_loop cb i sub u;
             Some (u', s') }
      else
        do { (raw, s') \<leftarrow> read_raw_value s wire_type;
             (_, u') \<leftarrow> pb_default_field_callback cb i (pb_istream_from_buffer RLocal 0 raw) u;
             Some (u', s') })"

text \<open>\<^verbatim>\<open>decode_field\<close> for everything but static submessages.\<close>

definition decode_field ::
  "'s pb_callback \<Rightarrow> pb_field \<Rightarrow> u32 \<Rightarrow> slot list \<Rightarrow> 's \<Rightarrow> pb_istream_t \<Rightarrow>
     (slot list \<times> 's \<times> pb_istream_t) option" where
  "decode_field cb f wire_type m u s =
     (case f_atype f of
        STATIC \<Rightarrow>
          do { (sl, s') \<leftarrow> decode_static_field f wire_type (get_slot m (f_tag f)) s;
               Some (set_slot m sl, u, s') }
      | CALLBACK i \<Rightarrow>
          do { (u', s') \<leftarrow> decode_callback_field cb i wire_type s u;
               Some (m, u', s') })"

section \<open>Readers move forward\<close>

lemma varint32_loop_consumes: "varint32_loop r b s = Some (x, s') \<Longrightarrow> consumes s s'"
proof (induction r b s rule: varint32_loop.induct)
  case (1 r b s)
  from "1.prems" obtain byte s1 where s1: "pb_readbyte s = Some (byte, s1)"
    by (subst (asm) varint32_loop.simps) (auto split: option.splits)
  have "consumes s1 s'"
    using "1.prems" "1.IH" [OF s1 refl refl refl]
    by (subst (asm) varint32_loop.simps) (auto simp: s1 Let_def split: if_splits)
  with pb_readbyte_consumes [OF s1] show ?case by (rule consumes_trans)
qed

lemma pb_decode_varint32_eof_consumes:
  "pb_decode_varint32_eof s = Inr (x, s') \<Longrightarrow> consumes s s' \<and> bytes_left s' < bytes_left s"
proof -
  assume a: "pb_decode_varint32_eof s = Inr (x, s')"
  then obtain byte s1 where s1: "pb_readbyte s = Some (byte, s1)"
    by (auto simp: pb_decode_varint32_eof_def split: option.splits)
  with a have "consumes s1 s'"
    by (auto simp: pb_decode_varint32_eof_def varint32_loop_consumes split: option.splits if_splits)
  moreover from this have "bytes_left s' < bytes_left s"
    using pb_readbyte_less [OF s1] consumes_bytes_left le_less_trans by blast
  ultimately show ?thesis using pb_readbyte_consumes [OF s1] consumes_trans by blast
qed

lemma pb_decode_varint32_consumes: "pb_decode_varint32 s = Some (x, s') \<Longrightarrow> consumes s s'"
  by (auto simp: pb_decode_varint32_def pb_decode_varint32_eof_consumes split: sum.splits)

lemma pb_decode_tag_less: "pb_decode_tag s = TagOk wt tag s' \<Longrightarrow> bytes_left s' < bytes_left s \<and> consumes s s'"
  by (auto simp: pb_decode_tag_def dest: pb_decode_varint32_eof_consumes split: sum.splits)

lemma varint_loop_consumes: "varint_loop r b s = Some (x, s') \<Longrightarrow> consumes s s'"
proof (induction r b s rule: varint_loop.induct)
  case (1 r b s)
  from "1.prems" obtain byte s1 where s1: "\<not> 64 \<le> b" "pb_readbyte s = Some (byte, s1)"
    by (subst (asm) varint_loop.simps) (auto split: option.splits if_splits)
  have "consumes s1 s'"
    using "1.prems" "1.IH" [OF s1(1) s1(2) refl refl]
    by (subst (asm) varint_loop.simps) (auto simp: s1 Let_def split: if_splits)
  with pb_readbyte_consumes [OF s1(2)] show ?case by (rule consumes_trans)
qed

lemma pb_decode_varint_consumes: "pb_decode_varint s = Some (x, s') \<Longrightarrow> consumes s s'"
  unfolding pb_decode_varint_def by (rule varint_loop_consumes)

lemma pb_skip_varint_consumes: "pb_skip_varint s = Some s' \<Longrightarrow> consumes s s'"
proof (induction s rule: pb_skip_varint.induct)
  case (1 s)
  from "1.prems" obtain bs s1 where s1: "pb_read s 1 = Some (bs, s1)"
    by (subst (asm) pb_skip_varint.simps) (auto split: option.splits)
  have "consumes s1 s'"
    using "1.prems" "1.IH" [OF s1 refl]
    by (subst (asm) pb_skip_varint.simps) (auto simp: s1 simp del: One_nat_def split: if_splits)
  with pb_read_consumes [OF s1] show ?case by (rule consumes_trans)
qed

lemma pb_skip_string_consumes: "pb_skip_string s = Some s' \<Longrightarrow> consumes s s'"
  by (auto simp: pb_skip_string_def split: bind_splits)
    (blast intro: consumes_trans dest: pb_read_consumes pb_decode_varint32_consumes)

lemma pb_skip_field_consumes: "pb_skip_field s wt = Some s' \<Longrightarrow> consumes s s'"
  by (auto simp: pb_skip_field_def split: if_splits
      dest: pb_skip_varint_consumes pb_skip_string_consumes pb_read_consumes)

lemma raw_varint_loop_consumes: "raw_varint_loop n buf s = Some (x, s') \<Longrightarrow> consumes s s'"
proof (induction n buf s rule: raw_varint_loop.induct)
  case (1 n buf s)
  from "1.prems" obtain bs s1 where s1: "\<not> n < length buf + 1" "pb_read s 1 = Some (bs, s1)"
    by (subst (asm) raw_varint_loop.simps) (auto split: option.splits if_splits)
  have "consumes s1 s'"
    using "1.prems" "1.IH" [OF s1 refl]
    by (subst (asm) raw_varint_loop.simps) (auto simp: s1 simp del: One_nat_def split: if_splits)
  with pb_read_consumes [OF s1(2)] show ?case by (rule consumes_trans)
qed

lemma read_raw_value_consumes: "read_raw_value s wt = Some (x, s') \<Longrightarrow> consumes s s'"
  by (auto simp: read_raw_value_def split: if_splits dest: raw_varint_loop_consumes pb_read_consumes)

lemma pb_make_string_substream_consumes:
  "pb_make_string_substream s = Some (sub, s') \<Longrightarrow> consumes s s' \<and> bytes_left sub \<le> bytes_left s"
proof -
  assume "pb_make_string_substream s = Some (sub, s')"
  then obtain n s1 where 1: "pb_decode_varint32 s = Some (n, s1)" "unat n \<le> bytes_left s1"
      "sub = IStream (s_region s1) (s_pos s1) (take (unat n) (s_left s1))"
      "s' = IStream (s_region s1) (s_pos s1 + unat n) (drop (unat n) (s_left s1))"
    by (auto simp: pb_make_string_substream_eq split: bind_splits if_splits)
  then have "consumes s1 s'" by (auto simp: consumes_def)
  moreover have "bytes_left sub \<le> bytes_left s1" using 1 by (simp add: bytes_left_def)
  ultimately show ?thesis
    using pb_decode_varint32_consumes [OF 1(1)] by (auto intro: consumes_trans dest: consumes_bytes_left)
qed

lemma pb_decode_bool_consumes: "pb_decode_bool s = Some (v, s') \<Longrightarrow> consumes s s'"
  by (auto simp: pb_decode_bool_def dest: pb_decode_varint32_consumes split: bind_splits)

lemma pb_dec_uvarint_consumes: "pb_dec_uvarint n s = Some (v, s') \<Longrightarrow> consumes s s'"
  by (auto simp: pb_dec_uvarint_def dest: pb_decode_varint_consumes split: bind_splits if_splits)

lemma pb_dec_svarint_consumes: "pb_dec_svarint n s = Some (v, s') \<Longrightarrow> consumes s s'"
  by (auto simp: pb_dec_svarint_def Let_def dest: pb_decode_varint_consumes split: bind_splits if_splits)

lemma pb_dec_bytes_consumes: "pb_dec_bytes n old s = Some (v, s') \<Longrightarrow> consumes s s'"
  by (auto simp: pb_dec_bytes_def split: bind_splits if_splits)
    (blast intro: consumes_trans dest: pb_read_consumes pb_decode_varint32_consumes)

lemma pb_dec_string_consumes: "pb_dec_string n old s = Some (v, s') \<Longrightarrow> consumes s s'"
  by (auto simp: pb_dec_string_def split: bind_splits if_splits)
    (blast intro: consumes_trans dest: pb_read_consumes pb_decode_varint32_consumes)

lemma pb_dec_fixed_length_bytes_consumes: "pb_dec_fixed_length_bytes n s = Some (v, s') \<Longrightarrow> consumes s s'"
  by (auto simp: pb_dec_fixed_length_bytes_def split: bind_splits if_splits)
    (blast intro: consumes_trans dest: pb_read_consumes pb_decode_varint32_consumes)+

lemmas basic_consumes = pb_decode_bool_consumes pb_dec_uvarint_consumes pb_dec_svarint_consumes
  pb_dec_bytes_consumes pb_dec_string_consumes pb_dec_fixed_length_bytes_consumes

lemma decode_basic_field_consumes: "decode_basic_field lt wt old s = Some (v, s') \<Longrightarrow> consumes s s'"
  by (cases lt) (auto simp: decode_basic_field_def basic_consumes split: if_splits)

lemma decode_static_field_consumes: "decode_static_field f wt sl s = Some (sl', s') \<Longrightarrow> consumes s s'"
  by (auto simp: decode_static_field_def split: htype.splits if_splits bind_splits
      dest!: decode_basic_field_consumes pb_make_string_substream_consumes)

lemma decode_callback_field_consumes: "decode_callback_field cb i wt s u = Some (u', s') \<Longrightarrow> consumes s s'"
  by (auto simp: decode_callback_field_def dest: read_raw_value_consumes pb_make_string_substream_consumes
      split: if_splits bind_splits)

lemma decode_field_consumes: "decode_field cb f wt m u s = Some (m', u', s') \<Longrightarrow> consumes s s'"
  by (auto simp: decode_field_def dest: decode_static_field_consumes decode_callback_field_consumes
      split: atype.splits bind_splits)

interpretation varint32: pb_reader pb_decode_varint32
  by unfold_locales (rule pb_decode_varint32_consumes)

interpretation varint: pb_reader pb_decode_varint
  by unfold_locales (rule pb_decode_varint_consumes)

interpretation basic_field: pb_reader "decode_basic_field lt wt old" for lt wt old
  by unfold_locales (rule decode_basic_field_consumes)

interpretation static_field: pb_reader "decode_static_field f wt sl" for f wt sl
  by unfold_locales (rule decode_static_field_consumes)

interpretation callback_field: pb_reader "\<lambda>s. decode_callback_field cb i wt s u" for cb i wt u
  by unfold_locales (rule decode_callback_field_consumes)

section \<open>Decoding a message\<close>

fun submessage :: "pb_field \<Rightarrow> pb_field list option" where
  "submessage (Field _ STATIC _ (LT_SUBMESSAGE fs)) = Some fs"
| "submessage _ = None"

text \<open>
  The memory \<^verbatim>\<open>pb_dec_submessage\<close> decodes into: the message already there, or for a repeated field a
  fresh element, if the array has room; and the field afterwards.
\<close>

definition submessage_target :: "pb_field \<Rightarrow> pb_field list \<Rightarrow> slot \<Rightarrow> slot list option" where
  "submessage_target f fs sl =
     (case f_htype f of
        REPEATED n \<Rightarrow> if length (s_vals sl) \<ge> n then None else Some (pb_message_set_to_defaults fs)
      | _ \<Rightarrow> Some (case s_vals sl of [VMsg m] \<Rightarrow> m | _ \<Rightarrow> pb_message_set_to_defaults fs))"

definition submessage_store :: "pb_field \<Rightarrow> slot \<Rightarrow> slot list \<Rightarrow> slot" where
  "submessage_store f sl m =
     (case f_htype f of
        SINGULAR \<Rightarrow> Slot (s_tag sl) (s_has sl) [VMsg m]
      | OPTIONAL \<Rightarrow> Slot (s_tag sl) True [VMsg m]
      | REPEATED n \<Rightarrow> Slot (s_tag sl) (s_has sl) (s_vals sl @ [VMsg m]))"

text \<open>
  \<^verbatim>\<open>pb_decode_inner\<close>, with \<^verbatim>\<open>pb_dec_submessage\<close> inlined since the two call each other. None of the
  messages has extension, required, oneof or fixed-count fields, so the code for these is not
  reached.
\<close>

function pb_decode_inner ::
  "'s pb_callback \<Rightarrow> pb_field list \<Rightarrow> pb_istream_t \<Rightarrow> slot list \<Rightarrow> 's \<Rightarrow> (slot list \<times> 's) option" where
  "pb_decode_inner cb fields s m u =
     (if bytes_left s = 0 then Some (m, u)
      else
        case pb_decode_tag s of
          TagFail eof \<Rightarrow> if eof then Some (m, u) else None
        | TagOk wire_type tag s1 \<Rightarrow>
            if tag = 0 then None
            else
              case pb_field_iter_find fields tag of
                None \<Rightarrow>
                  (case pb_skip_field s1 wire_type of
                     None \<Rightarrow> None
                   | Some s2 \<Rightarrow> pb_decode_inner cb fields s2 m u)
              | Some f \<Rightarrow>
                  (case submessage f of
                     None \<Rightarrow>
                       (case decode_field cb f wire_type m u s1 of
                          None \<Rightarrow> None
                        | Some (m', u', s2) \<Rightarrow> pb_decode_inner cb fields s2 m' u')
                   | Some fs \<Rightarrow>
                       let sl = get_slot m tag in
                       case submessage_target f fs sl of
                         None \<Rightarrow> None
                       | Some sub_m \<Rightarrow>
                           if wire_type \<noteq> PB_WT_STRING then None
                           else
                             case pb_make_string_substream s1 of
                               None \<Rightarrow> None
                             | Some (sub, s2) \<Rightarrow>
                                 (case pb_decode_inner cb fs sub sub_m u of
                                    None \<Rightarrow> None
                                  | Some (sub_m', u') \<Rightarrow>
                                      pb_decode_inner cb fields s2
                                        (set_slot m (submessage_store f sl sub_m')) u')))"
  by pat_completeness auto
termination
  by (relation "measure (\<lambda>(_, _, s, _, _). bytes_left s)")
    (auto dest!: pb_decode_tag_less pb_skip_field_consumes decode_field_consumes
      pb_make_string_substream_consumes consumes_bytes_left)

declare pb_decode_inner.simps [simp del]

definition pb_decode ::
  "'s pb_callback \<Rightarrow> pb_field list \<Rightarrow> pb_istream_t \<Rightarrow> 's \<Rightarrow> (slot list \<times> 's) option" where
  "pb_decode cb fields s u = pb_decode_inner cb fields s (pb_message_set_to_defaults fields) u"

section \<open>Types of decoded messages\<close>

text \<open>
  What the C types promise of the memory of a message: arrays keep their size, a bytes array never
  holds more than it has room for, a string is NUL-terminated inside its array, a repeated field never
  counts more elements than its array has.
\<close>

primrec wf_val :: "ltype \<Rightarrow> pval \<Rightarrow> bool" and wf_slot :: "pb_field \<Rightarrow> slot \<Rightarrow> bool" where
  "wf_val LT_BOOL = (\<lambda>v. v = VInt 0 \<or> v = VInt 1)"
| "wf_val (LT_VARINT n) = (\<lambda>v. \<exists>w. v = VInt w)"
| "wf_val (LT_UVARINT n) = (\<lambda>v. \<exists>w. v = VInt w \<and> unat w < 2 ^ (8 * n))"
| "wf_val (LT_BYTES n) = (\<lambda>v. \<exists>k b. v = VBytes k b \<and> k \<le> n \<and> length b = n)"
| "wf_val (LT_STRING n) = (\<lambda>v. \<exists>b. v = VBuf b \<and> length b = n \<and> 0 \<in> set b)"
| "wf_val (LT_FIXED_LENGTH_BYTES n) = (\<lambda>v. \<exists>b. v = VBuf b \<and> length b = n)"
| "wf_val (LT_SUBMESSAGE fs) = (\<lambda>v. \<exists>m. v = VMsg m \<and> list_all2 (\<lambda>p s. p s) (map wf_slot fs) m)"
| "wf_slot (Field tag atype htype lt) =
     (\<lambda>sl. s_tag sl = tag \<and> list_all (wf_val lt) (s_vals sl) \<and>
       (case atype of
          CALLBACK _ \<Rightarrow> s_vals sl = []
        | STATIC \<Rightarrow> (case htype of REPEATED n \<Rightarrow> length (s_vals sl) \<le> n | _ \<Rightarrow> length (s_vals sl) = 1)))"

primrec wf_ltype :: "ltype \<Rightarrow> bool" and wf_field :: "pb_field \<Rightarrow> bool" where
  "wf_ltype LT_BOOL = True"
| "wf_ltype (LT_VARINT n) = True"
| "wf_ltype (LT_UVARINT n) = True"
| "wf_ltype (LT_BYTES n) = True"
| "wf_ltype (LT_STRING n) = (0 < n)"
| "wf_ltype (LT_FIXED_LENGTH_BYTES n) = True"
| "wf_ltype (LT_SUBMESSAGE fs) = (distinct (map f_tag fs) \<and> list_all id (map wf_field fs))"
| "wf_field (Field tag atype htype lt) = (atype = STATIC \<longrightarrow> wf_ltype lt)"

definition wf_fields :: "pb_field list \<Rightarrow> bool" where
  "wf_fields fs \<longleftrightarrow> distinct (map f_tag fs) \<and> (\<forall>f \<in> set fs. wf_field f)"

definition wf_msg :: "pb_field list \<Rightarrow> slot list \<Rightarrow> bool" where
  "wf_msg fs m \<longleftrightarrow> list_all2 wf_slot fs m"

lemma wf_val_submessage [simp]: "wf_val (LT_SUBMESSAGE fs) v \<longleftrightarrow> (\<exists>m. v = VMsg m \<and> wf_msg fs m)"
  by (simp add: wf_msg_def list_all2_map1)

lemma wf_ltype_submessage [simp]: "wf_ltype (LT_SUBMESSAGE fs) \<longleftrightarrow> wf_fields fs"
  by (simp add: wf_fields_def list_all_iff)

declare wf_val.simps(7) [simp del] wf_ltype.simps(7) [simp del]

lemma wf_slot_tag: "wf_slot f sl \<Longrightarrow> s_tag sl = f_tag f"
  by (cases f) simp

lemma wf_default:
  "wf_ltype lt \<Longrightarrow> wf_val lt (default_val lt)" "wf_field f \<Longrightarrow> wf_slot f (default_slot f)"
proof (induction lt and f)
  case (LT_SUBMESSAGE fs)
  then show ?case by (auto simp: wf_msg_def wf_fields_def list_all2_conv_all_nth)
next
  case (Field tag a h lt)
  then show ?case by (auto split: atype.splits htype.splits)
qed auto

lemma wf_defaults: "wf_fields fs \<Longrightarrow> wf_msg fs (pb_message_set_to_defaults fs)"
  using wf_default(1) [of "LT_SUBMESSAGE fs"] by (simp add: pb_message_set_to_defaults_def)

lemma wf_find:
  assumes "wf_msg fs m" "pb_field_iter_find fs tag = Some f"
  shows "f \<in> set fs \<and> f_tag f = tag \<and> wf_slot f (get_slot m tag)"
  using assms unfolding wf_msg_def
proof (induction fs m rule: list_all2_induct)
  case (Cons g fs sl m)
  then show ?case by (cases g) (auto simp: pb_field_iter_find_def get_slot_def split: if_splits)
qed (simp add: pb_field_iter_find_def)

lemma wf_set_slot:
  assumes "wf_msg fs m" "distinct (map f_tag fs)" "f \<in> set fs" "wf_slot f sl"
  shows "wf_msg fs (set_slot m sl)"
  using assms unfolding wf_msg_def
proof (induction fs m rule: list_all2_induct)
  case (Cons g fs t m)
  have t: "s_tag t = f_tag g" using Cons.hyps(1) by (rule wf_slot_tag)
  have sl: "s_tag sl = f_tag f" using Cons.prems(3) by (rule wf_slot_tag)
  show ?case
  proof (cases "f = g")
    case True
    then have "f \<notin> set fs" using Cons.prems by auto
    have "map (\<lambda>t. if s_tag t = s_tag sl then sl else t) m = m"
    proof (rule map_idI)
      fix x assume "x \<in> set m"
      then obtain h where "h \<in> set fs" "wf_slot h x"
        using Cons.hyps(2) by (metis in_set_conv_nth list_all2_conv_all_nth)
      then have "s_tag x = f_tag h" by (intro wf_slot_tag)
      moreover have "f_tag h \<noteq> f_tag g" using Cons.prems(1) \<open>h \<in> set fs\<close> by (metis distinct.simps(2) image_eqI list.set_map list.simps(9))
      ultimately show "(if s_tag x = s_tag sl then sl else x) = x" using sl True by simp
    qed
    with True Cons t sl show ?thesis by (simp add: set_slot_def)
  next
    case False
    then have "f \<in> set fs" using Cons.prems by auto
    then have "f_tag f \<noteq> f_tag g" using Cons.prems(1) by (metis distinct.simps(2) image_eqI list.set_map list.simps(9))
    with Cons t sl \<open>f \<in> set fs\<close> show ?thesis by (simp add: set_slot_def)
  qed
qed simp

lemma pb_read_length: "pb_read s n = Some (bs, s') \<Longrightarrow> length bs = n"
  by (auto simp: pb_read_def buf_read_def bytes_left_def split: if_splits)

lemma unat_ucast_less: "unat (ucast (w :: 'a::len word) :: 'b::len word) < 2 ^ LENGTH('a)"
proof -
  have "take_bit LENGTH('b) (unat w) \<le> unat w" by (rule take_bit_nat_less_eq_self)
  also have "unat w < 2 ^ LENGTH('a)" by (rule unsigned_less)
  finally show ?thesis by (simp add: unsigned_ucast_eq)
qed

lemma clamped_less: "(ucast (ucast (a :: u64) :: 'b::len word) :: u64) = a \<Longrightarrow> unat a < 2 ^ LENGTH('b)"
  by (metis unat_ucast_less)

lemma wf_dec_uvarint: "pb_dec_uvarint n s = Some (v, s') \<Longrightarrow> wf_val (LT_UVARINT n) v"
  using unsigned_less [where 'b = 64 and 'a = nat]
  by (auto simp: pb_dec_uvarint_def dest!: clamped_less split: bind_splits if_splits)

lemma wf_dec_bytes:
  "pb_dec_bytes n old s = Some (v, s') \<Longrightarrow> length old = n \<Longrightarrow> wf_val (LT_BYTES n) v"
  by (auto simp: pb_dec_bytes_def length_buf_write dest!: pb_read_length split: bind_splits if_splits)

lemma wf_dec_string:
  assumes "pb_dec_string n old s = Some (v, s')" "length old = n"
  shows "wf_val (LT_STRING n) v"
proof -
  obtain sz s1 bs where 1: "pb_read s1 (unat (sz :: u32)) = Some (bs, s')" "Suc (unat sz) \<le> n"
      "v = VBuf (buf_write (buf_set old (unat sz) 0) 0 bs)"
    using assms(1) by (auto simp: pb_dec_string_def split: bind_splits if_splits)
  have "buf_write (buf_set old (unat sz) 0) 0 bs = bs @ 0 # drop (Suc (unat sz)) old"
    using pb_read_length [OF 1(1)] 1(2) assms(2) by (simp add: buf_write_def buf_set_def)
  then show ?thesis using pb_read_length [OF 1(1)] 1(2,3) assms(2) by simp
qed

lemma wf_dec_fixed: "pb_dec_fixed_length_bytes n s = Some (v, s') \<Longrightarrow> wf_val (LT_FIXED_LENGTH_BYTES n) v"
  by (auto simp: pb_dec_fixed_length_bytes_def dest!: pb_read_length split: bind_splits if_splits)

lemma wf_decode_basic:
  assumes "decode_basic_field lt wt old s = Some (v, s')" "wf_val lt old"
  shows "wf_val lt v"
proof (cases lt)
  case LT_BOOL
  with assms show ?thesis by (auto simp: decode_basic_field_def pb_decode_bool_def split: if_splits bind_splits)
next
  case (LT_VARINT n)
  with assms show ?thesis
    by (auto simp: decode_basic_field_def pb_dec_svarint_def Let_def split: if_splits bind_splits)
next
  case (LT_UVARINT n)
  with assms wf_dec_uvarint show ?thesis by (auto simp: decode_basic_field_def split: if_splits)
next
  case (LT_BYTES n)
  with assms wf_dec_bytes [of n] show ?thesis by (auto simp: decode_basic_field_def split: if_splits)
next
  case (LT_STRING n)
  with assms wf_dec_string [of n] show ?thesis by (auto simp: decode_basic_field_def split: if_splits)
next
  case (LT_FIXED_LENGTH_BYTES n)
  with assms wf_dec_fixed [of n] show ?thesis by (auto simp: decode_basic_field_def split: if_splits)
next
  case (LT_SUBMESSAGE fs)
  with assms show ?thesis by (simp add: decode_basic_field_def)
qed

lemma wf_packed_loop:
  assumes "packed_loop lt n vals s = Some (vals', s')" "wf_ltype lt" "list_all (wf_val lt) vals" "length vals \<le> n"
  shows "list_all (wf_val lt) vals' \<and> length vals' \<le> n"
  using assms
proof (induction lt n vals s rule: packed_loop.induct)
  case (1 lt n vals s)
  show ?case
  proof (cases "bytes_left s > 0 \<and> length vals < n")
    case True
    then obtain v s1 where v: "decode_basic_field lt PB_WT_PACKED (default_val lt) s = Some (v, s1)"
        "packed_loop lt n (vals @ [v]) s1 = Some (vals', s')"
      using "1.prems"(1) by (subst (asm) packed_loop.simps) (auto split: option.splits)
    have "wf_val lt v" using wf_decode_basic [OF v(1)] wf_default(1) "1.prems"(2) by blast
    with "1.IH" [OF True v(1) refl v(2)] "1.prems" True show ?thesis by simp
  next
    case False
    with "1.prems" show ?thesis by (subst (asm) packed_loop.simps) auto
  qed
qed

lemma wf_decode_static:
  assumes "decode_static_field f wt sl s = Some (sl', s')" "wf_slot f sl" "wf_field f" "f_atype f = STATIC"
  shows "wf_slot f sl'"
proof (cases f)
  case (Field tag a h lt)
  have hd: "(\<forall>k. h \<noteq> REPEATED k) \<Longrightarrow> wf_val lt (hd (s_vals sl))"
    using assms(2,4) Field by (cases h; cases "s_vals sl") auto
  show ?thesis
  proof (cases h)
    case (REPEATED n)
    with assms Field wf_default(1) [of lt] show ?thesis
      by (auto simp: decode_static_field_def dest!: wf_packed_loop wf_decode_basic split: if_splits bind_splits)
  qed (use assms Field hd in \<open>auto simp: decode_static_field_def dest!: wf_decode_basic split: bind_splits\<close>)
qed

lemma wf_submessage:
  assumes "submessage f = Some fs" "wf_slot f sl" "wf_field f" "submessage_target f fs sl = Some m"
  shows "wf_fields fs \<and> wf_msg fs m \<and> (\<forall>m'. wf_msg fs m' \<longrightarrow> wf_slot f (submessage_store f sl m'))"
proof (cases f rule: submessage.cases)
  case (1 tag h fs')
  with assms wf_defaults [of fs] show ?thesis
    by (cases h) (auto simp: submessage_target_def submessage_store_def length_Suc_conv split: if_splits)
qed (use assms in auto)

lemma pb_decode_inner_cases [consumes 1, case_names finished eof skip field submessage]:
  assumes "pb_decode_inner cb fs s m u = Some (m', u')"
  obtains "bytes_left s = 0" "m' = m" "u' = u"
  | "bytes_left s \<noteq> 0" "pb_decode_tag s = TagFail True" "m' = m" "u' = u"
  | wt tag s1 s2 where "bytes_left s \<noteq> 0" "pb_decode_tag s = TagOk wt tag s1" "tag \<noteq> 0"
      "pb_field_iter_find fs tag = None" "pb_skip_field s1 wt = Some s2"
      "pb_decode_inner cb fs s2 m u = Some (m', u')"
  | wt tag s1 f m1 u1 s2 where "bytes_left s \<noteq> 0" "pb_decode_tag s = TagOk wt tag s1" "tag \<noteq> 0"
      "pb_field_iter_find fs tag = Some f" "submessage f = None"
      "decode_field cb f wt m u s1 = Some (m1, u1, s2)" "pb_decode_inner cb fs s2 m1 u1 = Some (m', u')"
  | wt tag s1 f gs sm sub s2 sm' u1 where "bytes_left s \<noteq> 0" "pb_decode_tag s = TagOk wt tag s1" "tag \<noteq> 0"
      "pb_field_iter_find fs tag = Some f" "submessage f = Some gs"
      "submessage_target f gs (get_slot m tag) = Some sm" "wt = PB_WT_STRING"
      "pb_make_string_substream s1 = Some (sub, s2)" "pb_decode_inner cb gs sub sm u = Some (sm', u1)"
      "pb_decode_inner cb fs s2 (set_slot m (submessage_store f (get_slot m tag) sm')) u1 = Some (m', u')"
  using assms
  by (subst (asm) pb_decode_inner.simps)
    (auto simp: Let_def split: if_splits option.splits tag_result.splits)

theorem wf_pb_decode_inner:
  assumes "pb_decode_inner cb fs s m u = Some (m', u')" "wf_fields fs" "wf_msg fs m"
  shows "wf_msg fs m'"
  using assms
proof (induction cb fs s m u arbitrary: m' u' rule: pb_decode_inner.induct)
  case (1 cb fs s m u)
  from "1.prems"(1) show ?case
  proof (cases rule: pb_decode_inner_cases)
    case (skip wt tag s1 s2)
    then show ?thesis using "1.IH"(1) [of wt tag s1 s2] "1.prems" by blast
  next
    case (field wt tag s1 f m1 u1 s2)
    note f = wf_find [OF "1.prems"(3) field(4)]
    have "wf_msg fs m1"
    proof (cases "f_atype f")
      case STATIC
      with field(6) obtain sl where sl: "decode_static_field f wt (get_slot m tag) s1 = Some (sl, s2)"
          "m1 = set_slot m sl"
        using f by (auto simp: decode_field_def split: bind_splits)
      have "wf_slot f sl"
        using wf_decode_static [OF sl(1)] f STATIC "1.prems"(2) by (auto simp: wf_fields_def)
      from wf_set_slot [OF "1.prems"(3) _ _ this] f sl(2) "1.prems"(2) show ?thesis
        by (auto simp: wf_fields_def)
    next
      case (CALLBACK i)
      with field(6) "1.prems"(3) show ?thesis by (auto simp: decode_field_def split: bind_splits)
    qed
    then show ?thesis
      using "1.IH"(2) [of wt tag s1 f "(m1, u1, s2)" m1 "(u1, s2)" u1 s2 m' u'] field "1.prems"(2) by simp
  next
    case (submessage wt tag s1 f gs sm sub s2 sm' u1)
    note f = wf_find [OF "1.prems"(3) submessage(4)]
    have "wf_field f" using f "1.prems"(2) by (auto simp: wf_fields_def)
    note sub = wf_submessage [OF submessage(5) _ this submessage(6)]
    have "wf_msg gs sm'"
      using "1.IH"(3) [of wt tag s1 f gs "get_slot m tag" sm "(sub, s2)" sub s2 sm' u1] submessage sub f by simp
    then have "wf_msg fs (set_slot m (submessage_store f (get_slot m tag) sm'))"
      using sub f "1.prems"(2,3) by (auto simp: wf_fields_def intro: wf_set_slot)
    then show ?thesis
      using "1.IH"(4) [of wt tag s1 f gs "get_slot m tag" sm "(sub, s2)" sub s2 "(sm', u1)" sm' u1 m' u']
        submessage "1.prems"(2) by simp
  qed (use "1.prems" in simp_all)
qed

end
