(* ===== verification/Wire.thy ===== *)
theory Wire
  imports Nanopb
begin

text \<open>
  A reference encoder of the protocol-buffer wire format, and the round trips that tie the decoder to
  it: what the decoder returns on an encoded integer, key, byte string or message. They let the later
  theories state what the application extracts from a well-formed transaction.
\<close>

unbundle bit_operations_syntax

section \<open>The reference encoder\<close>

function enc_varint :: "nat \<Rightarrow> bytes" where
  "enc_varint v = (if v < 128 then [of_nat v] else of_nat (128 + v mod 128) # enc_varint (v div 128))"
  by pat_completeness auto
termination by (relation "measure id") auto

declare enc_varint.simps [simp del]

definition enc_key :: "nat \<Rightarrow> nat \<Rightarrow> bytes" where
  "enc_key tag wt = enc_varint (8 * tag + wt)"

definition enc_int :: "nat \<Rightarrow> nat \<Rightarrow> bytes" where
  "enc_int tag v = enc_key tag 0 @ enc_varint v"

definition enc_len :: "nat \<Rightarrow> bytes \<Rightarrow> bytes" where
  "enc_len tag bs = enc_key tag 2 @ enc_varint (length bs) @ bs"

section \<open>Bytes of a varint\<close>

lemma and_80_iff: "(b :: u8) AND 0x80 = 0 \<longleftrightarrow> unat b < 128"
proof -
  have "b AND 0x80 = 0 \<longleftrightarrow> unat (b AND 0x80) = 0" by (simp add: unat_eq_0)
  also have "unat (b AND 0x80) = unat b AND 128" by (simp add: unsigned_and_eq)
  also have "(unat b AND 128 = 0) \<longleftrightarrow> \<not> bit (unat b) 7"
    using and_exp_eq_0_iff_not_bit [of "unat b" 7] by simp
  also have "\<dots> \<longleftrightarrow> unat b div 128 mod 2 = 0" by (simp add: bit_iff_odd even_iff_mod_2_eq_zero)
  also have "unat b div 128 mod 2 = unat b div 128"
    using unsigned_less [of b, where 'a = nat] by (intro mod_less) simp
  also have "unat b div 128 = 0 \<longleftrightarrow> unat b < 128" by (simp add: div_eq_0_iff)
  finally show ?thesis .
qed

lemma unat_and_7F: "unat ((b :: u8) AND 0x7F) = unat b mod 128"
proof -
  have "unat (b AND 0x7F) = unat b AND mask 7" by (simp add: unsigned_and_eq mask_eq_exp_minus_1)
  then show ?thesis by (simp add: take_bit_eq_mask [symmetric] take_bit_eq_mod)
qed

lemma or_chunk:
  fixes r :: "'a::len word" and x :: u8
  assumes "unat r < 2 ^ b" "unat x * 2 ^ b < 2 ^ LENGTH('a)"
  shows "unat (r OR push_bit b (ucast x)) = unat r + unat x * 2 ^ b"
proof -
  have "unat x * 1 \<le> unat x * 2 ^ b" by (intro mult_le_mono2) simp
  with assms(2) have "unat x < 2 ^ LENGTH('a)" by linarith
  then have "unat (ucast x :: 'a word) = unat x" by (simp add: unsigned_ucast_eq take_bit_nat_eq_self)
  then have "unat (push_bit b (ucast x :: 'a word)) = push_bit b (unat x)"
    using assms(2) by (simp add: unsigned_push_bit_eq) (simp add: push_bit_eq_mult take_bit_nat_eq_self)
  then have "unat (r OR push_bit b (ucast x)) = unat r OR push_bit b (unat x)"
    by (simp only: unsigned_or_eq)
  with or_byte [OF assms(1), of "unat x"] show ?thesis by (simp add: or.commute add.commute)
qed

lemma unat_varint_byte: "unat (of_nat (128 + v mod 128) :: u8) = 128 + v mod 128"
proof -
  have "128 + v mod 128 < 256" by simp
  then show ?thesis by (simp only: unat_of_nat) simp
qed

lemma chunk_le: "v * 2 ^ b < M \<Longrightarrow> v mod 128 * 2 ^ b < M \<and> v div 128 * 2 ^ (b + 7) < M" for v b M :: nat
proof -
  assume v: "v * 2 ^ b < M"
  have "v mod 128 * 2 ^ b \<le> v * 2 ^ b" by (intro mult_le_mono1) simp
  moreover have "v div 128 * 128 * 2 ^ b \<le> v * 2 ^ b" by (intro mult_le_mono1) simp
  moreover have "v div 128 * 2 ^ (b + 7) = v div 128 * 128 * 2 ^ b" by (simp add: power_add)
  ultimately show ?thesis using v by linarith
qed

lemma chunk_sum: "v mod 128 * 2 ^ b + v div 128 * 2 ^ (b + 7) = v * 2 ^ b" for v b :: nat
proof -
  have p: "(2::nat) ^ (b + 7) = 128 * 2 ^ b" by (simp add: power_add)
  have "v mod 128 * 2 ^ b + v div 128 * 2 ^ (b + 7) = (v mod 128 + v div 128 * 128) * 2 ^ b"
    by (simp only: p distrib_right mult.assoc)
  then show ?thesis by (simp only: mod_div_mult_eq)
qed

lemma chunk_shift: "128 \<le> v \<Longrightarrow> v * 2 ^ b < 2 ^ n \<Longrightarrow> b + 7 < n" for v b n :: nat
proof -
  assume "128 \<le> v" "v * 2 ^ b < 2 ^ n"
  then have "128 * 2 ^ b < (2::nat) ^ n" by (meson le_less_trans mult_le_mono1)
  then have "(2::nat) ^ (b + 7) < 2 ^ n" by (simp add: power_add)
  then show ?thesis by (rule power_less_imp_less_exp [rotated]) simp
qed

lemma chunk_bound: "r < 2 ^ b \<Longrightarrow> r + v mod 128 * 2 ^ b < 2 ^ (b + 7)" for r v b :: nat
proof -
  assume "r < 2 ^ b"
  then have "r + v mod 128 * 2 ^ b < (v mod 128 + 1) * 2 ^ b" by simp
  also have "\<dots> \<le> 128 * 2 ^ b" by (intro mult_le_mono1) (simp add: Suc_leI)
  finally show ?thesis by (simp add: power_add)
qed

section \<open>Round trips of integers\<close>

lemma varint_loop_enc:
  assumes "v * 2 ^ b < 2 ^ 64" "b < 64" "unat r < 2 ^ b"
  shows "\<exists>w. varint_loop r b (IStream g p (enc_varint v @ rest)) =
      Some (w, IStream g (p + length (enc_varint v)) rest) \<and> unat w = unat r + v * 2 ^ b"
  using assms
proof (induction v arbitrary: r b p rule: enc_varint.induct)
  case (1 v)
  show ?case
  proof (cases "v < 128")
    case True
    let ?x = "(of_nat v :: u8) AND 0x7F"
    have x: "unat ?x = v" "(of_nat v :: u8) AND 0x80 = 0"
      using True by (simp_all add: unat_and_7F and_80_iff unat_of_nat)
    have "unat (r OR push_bit b (ucast ?x)) = unat r + v * 2 ^ b"
      using or_chunk [of r b ?x] "1.prems" by (simp only: x) simp
    then show ?thesis
      using True "1.prems"(2) x(2)
      by (subst varint_loop.simps) (simp add: enc_varint.simps [of v] pb_readbyte_eq Let_def)
  next
    case False
    let ?y = "of_nat (128 + v mod 128) :: u8"
    let ?r = "r OR push_bit b (ucast (?y AND 0x7F))"
    have y: "unat (?y AND 0x7F) = v mod 128" "?y AND 0x80 \<noteq> 0"
      by (simp_all only: unat_and_7F and_80_iff unat_varint_byte) simp_all
    have r: "unat ?r = unat r + v mod 128 * 2 ^ b"
      using or_chunk [of r b "?y AND 0x7F"] "1.prems" chunk_le [of v b "2 ^ 64"] by (simp only: y) simp
    have "unat ?r < 2 ^ (b + 7)" unfolding r using "1.prems"(3) by (rule chunk_bound)
    moreover have "v div 128 * 2 ^ (b + 7) < 2 ^ 64" using "1.prems"(1) by (blast dest: chunk_le)
    moreover have "b + 7 < 64" using False "1.prems"(1) by (intro chunk_shift [of v]) simp_all
    ultimately obtain w where w: "varint_loop ?r (b + 7) (IStream g (Suc p) (enc_varint (v div 128) @ rest)) =
        Some (w, IStream g (Suc p + length (enc_varint (v div 128))) rest)"
        "unat w = unat ?r + v div 128 * 2 ^ (b + 7)"
      using "1.IH" [OF False] by blast
    have "unat w = unat r + v * 2 ^ b" using w(2) chunk_sum [of v b] unfolding r by linarith
    moreover have "varint_loop r b (IStream g p (enc_varint v @ rest)) =
        Some (w, IStream g (p + length (enc_varint v)) rest)"
      using w(1) "1.prems"(2) y(2) False
      by (subst varint_loop.simps) (simp add: enc_varint.simps [of v] pb_readbyte_eq Let_def)
    ultimately show ?thesis by blast
  qed
qed

lemma pb_decode_varint_enc:
  assumes "v < 2 ^ 64"
  shows "pb_decode_varint (IStream g p (enc_varint v @ rest)) =
    Some (of_nat v, IStream g (p + length (enc_varint v)) rest)"
proof -
  obtain w where w: "pb_decode_varint (IStream g p (enc_varint v @ rest)) =
      Some (w, IStream g (p + length (enc_varint v)) rest)" "unat w = v"
    using varint_loop_enc [of v 0 0 g p rest] assms by (auto simp: pb_decode_varint_def)
  from w(2) have "w = of_nat v" by (metis of_nat_unat ucast_id)
  with w(1) show ?thesis by simp
qed

lemma and_70_0: "unat (b :: u8) < 16 \<Longrightarrow> b AND 0x70 = 0"
proof -
  assume "unat b < 16"
  then have "unat b = take_bit 4 (unat b)" by (simp add: take_bit_nat_eq_self)
  then have "unat b AND 112 = unat b AND (mask 4 AND 112)" by (metis take_bit_eq_mask and.assoc)
  also have "(mask 4 AND 112 :: nat) = 0" by (simp add: mask_eq_exp_minus_1)
  finally have "unat (b AND 0x70) = 0" by (simp add: unsigned_and_eq)
  then show ?thesis by (simp add: unat_eq_0)
qed

lemma varint32_loop_enc:
  assumes "v * 2 ^ b < 2 ^ 32" "b < 32" "unat r < 2 ^ b"
  shows "\<exists>w. varint32_loop r b (IStream g p (enc_varint v @ rest)) =
      Some (w, IStream g (p + length (enc_varint v)) rest) \<and> unat w = unat r + v * 2 ^ b"
  using assms
proof (induction v arbitrary: r b p rule: enc_varint.induct)
  case (1 v)
  show ?case
  proof (cases "v < 128")
    case True
    let ?x = "(of_nat v :: u8) AND 0x7F"
    have x: "unat ?x = v" "(of_nat v :: u8) AND 0x80 = 0"
      using True by (simp_all add: unat_and_7F and_80_iff unat_of_nat)
    have r: "unat (r OR push_bit b (ucast ?x)) = unat r + v * 2 ^ b"
      using or_chunk [of r b ?x] "1.prems" by (simp only: x) simp
    have "(of_nat v :: u8) AND 0x70 = 0" if "b = 28"
      using "1.prems"(1) that True by (intro and_70_0) (simp add: unat_of_nat)
    then show ?thesis
      using True "1.prems"(2) x(2) r
      by (subst varint32_loop.simps) (auto simp: enc_varint.simps [of v] pb_readbyte_eq Let_def)
  next
    case False
    let ?y = "of_nat (128 + v mod 128) :: u8"
    let ?r = "r OR push_bit b (ucast (?y AND 0x7F))"
    have y: "unat (?y AND 0x7F) = v mod 128" "?y AND 0x80 \<noteq> 0"
      by (simp_all only: unat_and_7F and_80_iff unat_varint_byte) simp_all
    have r: "unat ?r = unat r + v mod 128 * 2 ^ b"
      using or_chunk [of r b "?y AND 0x7F"] "1.prems" chunk_le [of v b "2 ^ 32"] by (simp only: y) simp
    have "unat ?r < 2 ^ (b + 7)" unfolding r using "1.prems"(3) by (rule chunk_bound)
    moreover have "v div 128 * 2 ^ (b + 7) < 2 ^ 32" using "1.prems"(1) by (blast dest: chunk_le)
    moreover have "b + 7 < 32" using False "1.prems"(1) by (intro chunk_shift [of v]) simp_all
    ultimately obtain w where w: "varint32_loop ?r (b + 7) (IStream g (Suc p) (enc_varint (v div 128) @ rest)) =
        Some (w, IStream g (Suc p + length (enc_varint (v div 128))) rest)"
        "unat w = unat ?r + v div 128 * 2 ^ (b + 7)"
      using "1.IH" [OF False] by blast
    have "unat w = unat r + v * 2 ^ b" using w(2) chunk_sum [of v b] unfolding r by linarith
    moreover have "varint32_loop r b (IStream g p (enc_varint v @ rest)) =
        Some (w, IStream g (p + length (enc_varint v)) rest)"
      using w(1) "1.prems"(2) y(2) False
      by (subst varint32_loop.simps) (simp add: enc_varint.simps [of v] pb_readbyte_eq Let_def)
    ultimately show ?thesis by blast
  qed
qed

lemma pb_decode_varint32_eof_enc:
  assumes "v < 2 ^ 32"
  shows "pb_decode_varint32_eof (IStream g p (enc_varint v @ rest)) =
    Inr (of_nat v, IStream g (p + length (enc_varint v)) rest)"
proof (cases "v < 128")
  case True
  then have "(of_nat v :: u8) AND 0x80 = 0" by (simp add: and_80_iff unat_of_nat)
  moreover have "ucast (of_nat v :: u8) = (of_nat v :: u32)"
    using True by (simp add: unsigned_of_nat take_bit_nat_eq_self)
  ultimately show ?thesis
    using True by (simp add: pb_decode_varint32_eof_def enc_varint.simps [of v] pb_readbyte_eq)
next
  case False
  let ?y = "of_nat (128 + v mod 128) :: u8"
  have y: "unat (?y AND 0x7F) = v mod 128" "?y AND 0x80 \<noteq> 0"
    by (simp_all only: unat_and_7F and_80_iff unat_varint_byte) simp_all
  have u: "unat (ucast (?y AND 0x7F) :: u32) = v mod 128"
    by (simp only: unsigned_ucast_eq y) (simp add: take_bit_nat_eq_self order.strict_trans)
  have "v div 128 * 2 ^ 7 < 2 ^ 32" using chunk_le [of v 0 "2 ^ 32"] assms by simp
  then obtain w where w: "varint32_loop (ucast (?y AND 0x7F)) 7 (IStream g (Suc p) (enc_varint (v div 128) @ rest)) =
      Some (w, IStream g (Suc p + length (enc_varint (v div 128))) rest)"
      "unat w = v mod 128 + v div 128 * 2 ^ 7"
    using varint32_loop_enc [of "v div 128" 7 "ucast (?y AND 0x7F)" g "Suc p" rest] by (simp only: u) auto
  have "unat w = v" using w(2) by simp
  then have "w = of_nat v" by (metis of_nat_unat ucast_id)
  with w(1) y(2) False show ?thesis
    by (simp add: pb_decode_varint32_eof_def enc_varint.simps [of v] pb_readbyte_eq)
qed

lemma pb_decode_varint32_enc:
  "v < 2 ^ 32 \<Longrightarrow> pb_decode_varint32 (IStream g p (enc_varint v @ rest)) =
    Some (of_nat v, IStream g (p + length (enc_varint v)) rest)"
  by (simp add: pb_decode_varint32_def pb_decode_varint32_eof_enc)

lemma pb_decode_tag_enc:
  assumes "tag < 2 ^ 29" "wt < 8"
  shows "pb_decode_tag (IStream g p (enc_key tag wt @ rest)) =
    TagOk (of_nat wt) (of_nat tag) (IStream g (p + length (enc_key tag wt)) rest)"
proof -
  have lt: "8 * tag + wt < 2 ^ 32" using assms by simp
  then have u: "unat (of_nat (8 * tag + wt) :: u32) = 8 * tag + wt"
    by (simp only: unat_of_nat) simp
  have "unat (of_nat (8 * tag + wt) AND 7 :: u32) = (8 * tag + wt) AND mask 3"
    by (simp only: unsigned_and_eq u) (simp add: mask_eq_exp_minus_1)
  also have "\<dots> = wt" using assms(2) by (simp add: take_bit_eq_mask [symmetric] take_bit_eq_mod)
  finally have 1: "of_nat (8 * tag + wt) AND 7 = (of_nat wt :: u32)" by (metis of_nat_unat ucast_id)
  have "unat (drop_bit 3 (of_nat (8 * tag + wt) :: u32)) = (8 * tag + wt) div 2 ^ 3"
    by (simp only: drop_bit_eq_div unat_div u) simp
  also have "\<dots> = tag" using assms(2) by simp
  finally have 2: "drop_bit 3 (of_nat (8 * tag + wt) :: u32) = of_nat tag" by (metis of_nat_unat ucast_id)
  show ?thesis
    unfolding pb_decode_tag_def enc_key_def pb_decode_varint32_eof_enc [OF lt] using 1 2 by simp
qed

section \<open>Decoding encoded fields\<close>

text \<open>
  One step of \<^verbatim>\<open>pb_decode_inner\<close> on an encoded field, per kind of field. Together they evaluate the
  decoder on a message built by the encoder, whatever the values in it.
\<close>

lemma enc_varint_nonempty [simp]: "enc_varint v \<noteq> []"
  by (subst enc_varint.simps) simp

lemma enc_key_nonempty [simp]: "enc_key tag wt \<noteq> []"
  by (simp add: enc_key_def)

lemma get_slot_tag [simp]: "s_tag (get_slot m tag) = tag"
  by (auto simp: get_slot_def find_Some_iff split: option.splits)

lemma of_nat_tag: "0 < tag \<Longrightarrow> tag < 2 ^ 29 \<Longrightarrow> (of_nat tag :: u32) \<noteq> 0"
proof -
  assume "0 < tag" "tag < 2 ^ 29"
  then have "unat (of_nat tag :: u32) = tag" by (simp only: unat_of_nat) simp
  with \<open>0 < tag\<close> show ?thesis by (metis unat_0 less_irrefl)
qed

lemma substream_enc:
  assumes "length bs < 2 ^ 32"
  shows "pb_make_string_substream (IStream g p (enc_varint (length bs) @ bs @ rest)) =
    Some (IStream g (p + length (enc_varint (length bs))) bs,
          IStream g (p + length (enc_varint (length bs)) + length bs) rest)"
proof -
  have "unat (of_nat (length bs) :: u32) = length bs" using assms by (simp only: unat_of_nat) simp
  then show ?thesis
    by (simp add: pb_make_string_substream_eq pb_decode_varint32_enc [OF assms] bytes_left_def)
qed

lemma inner_key:
  assumes "0 < tag" "tag < 2 ^ 29" "wt < 8"
  shows "bytes_left (IStream g p (enc_key tag wt @ rest)) \<noteq> 0 \<and>
    pb_decode_tag (IStream g p (enc_key tag wt @ rest)) =
       TagOk (of_nat wt) (of_nat tag) (IStream g (p + length (enc_key tag wt)) rest) \<and>
    (of_nat tag :: u32) \<noteq> 0"
  using pb_decode_tag_enc [OF assms(2,3)] of_nat_tag [OF assms(1,2)] by (simp_all add: bytes_left_def)

lemma inner_field:
  assumes "0 < tag" "tag < 2 ^ 29" "wt < 8" "pb_field_iter_find fs (of_nat tag) = Some f" "submessage f = None"
    "decode_field cb f (of_nat wt) m u (IStream g (p + length (enc_key tag wt)) rest) = Some (m', u', s')"
  shows "pb_decode_inner cb fs (IStream g p (enc_key tag wt @ rest)) m u = pb_decode_inner cb fs s' m' u'"
  using assms(4-) inner_key [OF assms(1-3), of g p rest] by (subst pb_decode_inner.simps) simp

lemma inner_fixed:
  assumes "pb_field_iter_find fs (of_nat tag) = Some (Field (of_nat tag) STATIC SINGULAR (LT_FIXED_LENGTH_BYTES n))"
    "0 < tag" "tag < 2 ^ 29" "length bs = n" "0 < n" "n \<le> 0xFFFF"
  shows "pb_decode_inner cb fs (IStream g p (enc_len tag bs @ rest)) m u =
    pb_decode_inner cb fs (IStream g (p + length (enc_len tag bs)) rest)
      (set_slot m (Slot (of_nat tag) (s_has (get_slot m (of_nat tag))) [VBuf bs])) u"
proof -
  have n: "unat (of_nat (length bs) :: u32) = length bs" using assms(4,6) by (simp only: unat_of_nat) simp
  have n32: "length bs < 2 ^ 32" using assms(4,6) by simp
  have "\<not> (of_nat (length bs) :: u32) > 0xFFFF" using assms(4,6) n by (simp add: word_less_nat_alt)
  moreover have "(of_nat (length bs) :: u32) \<noteq> 0" using assms(4,5) n by (metis unat_0 less_irrefl)
  moreover have "pb_read (IStream g q (bs @ rest)) n = Some (bs, IStream g (q + n) rest)" for q
    using assms(4,5) by (simp add: pb_read_def buf_read_def bytes_left_def)
  ultimately have "pb_dec_fixed_length_bytes n (IStream g q (enc_varint (length bs) @ bs @ rest)) =
      Some (VBuf bs, IStream g (q + length (enc_varint (length bs)) + n) rest)" for q
    using assms(4) n by (simp add: pb_dec_fixed_length_bytes_def pb_decode_varint32_enc [OF n32 [unfolded assms(4)]])
  then show ?thesis
    unfolding enc_len_def append_assoc
    by (subst inner_field [OF assms(2,3) _ assms(1)])
      (simp_all add: decode_field_def decode_static_field_def decode_basic_field_def assms(4) add.assoc)
qed

lemma inner_int64:
  assumes "pb_field_iter_find fs (of_nat tag) = Some (Field (of_nat tag) STATIC SINGULAR (LT_VARINT 8))"
    "0 < tag" "tag < 2 ^ 29" "v < 2 ^ 64"
  shows "pb_decode_inner cb fs (IStream g p (enc_int tag v @ rest)) m u =
    pb_decode_inner cb fs (IStream g (p + length (enc_int tag v)) rest)
      (set_slot m (Slot (of_nat tag) (s_has (get_slot m (of_nat tag))) [VInt (of_nat v)])) u"
  unfolding enc_int_def append_assoc
  by (subst inner_field [OF assms(2,3) _ assms(1)])
    (simp_all add: decode_field_def decode_static_field_def decode_basic_field_def pb_dec_svarint_def
      pb_decode_varint_enc [OF assms(4)] add.assoc)

lemma inner_uint:
  assumes "pb_field_iter_find fs (of_nat tag) = Some (Field (of_nat tag) STATIC SINGULAR (LT_UVARINT n))"
    "0 < tag" "tag < 2 ^ 29" "v < 2 ^ (8 * n)" "n \<in> {1, 2, 4, 8}"
  shows "pb_decode_inner cb fs (IStream g p (enc_int tag v @ rest)) m u =
    pb_decode_inner cb fs (IStream g (p + length (enc_int tag v)) rest)
      (set_slot m (Slot (of_nat tag) (s_has (get_slot m (of_nat tag))) [VInt (of_nat v)])) u"
proof -
  have v: "v < 2 ^ 64" using assms(4,5) by auto
  have "pb_dec_uvarint n (IStream g q (enc_varint v @ rest)) =
      Some (VInt (of_nat v), IStream g (q + length (enc_varint v)) rest)" for q
    using assms(4,5) by (auto simp: pb_dec_uvarint_def pb_decode_varint_enc [OF v] unsigned_of_nat take_bit_nat_eq_self)
  then show ?thesis
    unfolding enc_int_def append_assoc
    by (subst inner_field [OF assms(2,3) _ assms(1)])
      (simp_all add: decode_field_def decode_static_field_def decode_basic_field_def add.assoc)
qed

lemma inner_callback:
  assumes "pb_field_iter_find fs (of_nat tag) = Some (Field (of_nat tag) (CALLBACK i) h lt)"
    "0 < tag" "tag < 2 ^ 29" "length bs < 2 ^ 32"
    "callback_loop cb i (IStream g (p + length (enc_key tag 2) + length (enc_varint (length bs))) bs) u = Some u'"
  shows "pb_decode_inner cb fs (IStream g p (enc_len tag bs @ rest)) m u =
    pb_decode_inner cb fs (IStream g (p + length (enc_len tag bs)) rest) m u'"
  unfolding enc_len_def append_assoc
  by (subst inner_field [OF assms(2,3) _ assms(1)])
    (simp_all add: decode_field_def decode_callback_field_def substream_enc [OF assms(4)] assms(5) [unfolded add.assoc] add.assoc)

lemma inner_submessage:
  assumes "pb_field_iter_find fs (of_nat tag) = Some f" "submessage f = Some gs"
    "0 < tag" "tag < 2 ^ 29" "length bs < 2 ^ 32" "submessage_target f gs (get_slot m (of_nat tag)) = Some sm"
    "pb_decode_inner cb gs (IStream g (p + length (enc_key tag 2) + length (enc_varint (length bs))) bs) sm u =
       Some (sm', u')"
  shows "pb_decode_inner cb fs (IStream g p (enc_len tag bs @ rest)) m u =
    pb_decode_inner cb fs (IStream g (p + length (enc_len tag bs)) rest)
      (set_slot m (submessage_store f (get_slot m (of_nat tag)) sm')) u'"
  using assms(1,2,6) assms(7) [unfolded add.assoc] inner_key [OF assms(3,4), of 2 g p "enc_varint (length bs) @ bs @ rest"]
  unfolding enc_len_def append_assoc
  by (subst pb_decode_inner.simps) (simp add: Let_def substream_enc [OF assms(5)] add.assoc)

lemma inner_skip_len:
  assumes "pb_field_iter_find fs (of_nat tag) = None" "0 < tag" "tag < 2 ^ 29" "length bs < 2 ^ 32"
  shows "pb_decode_inner cb fs (IStream g p (enc_len tag bs @ rest)) m u =
    pb_decode_inner cb fs (IStream g (p + length (enc_len tag bs)) rest) m u"
proof -
  have n: "unat (of_nat (length bs) :: u32) = length bs" using assms(4) by (simp only: unat_of_nat) simp
  have "pb_read (IStream g q (bs @ rest)) (length bs) = Some (bs, IStream g (q + length bs) rest)" for q
    by (auto simp: pb_read_def buf_read_def bytes_left_def)
  then show ?thesis
    using assms(1) inner_key [OF assms(2,3), of 2 g p "enc_varint (length bs) @ bs @ rest"]
    unfolding enc_len_def append_assoc
    by (subst pb_decode_inner.simps)
      (simp add: pb_skip_field_def pb_skip_string_def pb_decode_varint32_enc [OF assms(4)] n add.assoc)
qed

lemma skip_varint_enc:
  "pb_skip_varint (IStream g p (enc_varint v @ rest)) = Some (IStream g (p + length (enc_varint v)) rest)"
proof (induction v arbitrary: p rule: enc_varint.induct)
  case (1 v)
  have rd: "pb_read (IStream g p (b # r)) 1 = Some ([b], IStream g (Suc p) r)" for b r
    by (simp add: pb_read_def buf_read_def bytes_left_def)
  show ?case
  proof (cases "v < 128")
    case True
    then have "(of_nat v :: u8) AND 0x80 = 0" by (simp add: and_80_iff unat_of_nat)
    with True show ?thesis
      by (subst pb_skip_varint.simps) (simp add: enc_varint.simps [of v] rd [simplified])
  next
    case False
    have "(of_nat (128 + v mod 128) :: u8) AND 0x80 \<noteq> 0"
      by (simp only: and_80_iff unat_varint_byte)
    with False 1 [OF False, of "Suc p"] show ?thesis
      by (subst pb_skip_varint.simps) (simp add: enc_varint.simps [of v] rd [simplified])
  qed
qed

lemma inner_skip_int:
  assumes "pb_field_iter_find fs (of_nat tag) = None" "0 < tag" "tag < 2 ^ 29"
  shows "pb_decode_inner cb fs (IStream g p (enc_int tag v @ rest)) m u =
    pb_decode_inner cb fs (IStream g (p + length (enc_int tag v)) rest) m u"
  using assms(1) inner_key [OF assms(2,3), of 0 g p "enc_varint v @ rest"]
  unfolding enc_int_def append_assoc
  by (subst pb_decode_inner.simps) (simp add: pb_skip_field_def skip_varint_enc add.assoc)

lemma inner_end: "pb_decode_inner cb fs (IStream g p []) m u = Some (m, u)"
  by (subst pb_decode_inner.simps) (simp add: bytes_left_def)

end
