(* ===== verification/Messages.thy ===== *)
theory Messages
  imports Wire
begin

text \<open>
  The message descriptors of \<^verbatim>\<open>src/proto\<close>: the \<^verbatim>\<open>FIELDLIST\<close> of every message the application
  decodes, in the order of the generated headers. The size of an enumeration member depends on the
  compiler (\<^verbatim>\<open>-fshort-enums\<close>), so descriptors with an enumeration take it as a parameter \<open>es\<close>.
  Callback fields are numbered: 0 \<^verbatim>\<open>custom_data\<close>, 1 \<^verbatim>\<open>type_url\<close>, 2 \<^verbatim>\<open>Any.value\<close>, 3 \<^verbatim>\<open>provider\<close>,
  4 \<^verbatim>\<open>ContractName\<close>, 5 \<^verbatim>\<open>account_name\<close>, 6 \<^verbatim>\<open>TriggerSmartContract.data\<close>, 7 \<^verbatim>\<open>permission_name\<close>.
\<close>

section \<open>Descriptors\<close>

definition google_protobuf_Any :: "pb_field list" where
  "google_protobuf_Any =
     [Field 1 (CALLBACK 1) SINGULAR (LT_STRING 0),
      Field 2 (CALLBACK 2) SINGULAR (LT_BYTES 0)]"

definition protocol_Transaction_Contract :: "nat \<Rightarrow> pb_field list" where
  "protocol_Transaction_Contract es =
     [Field 1 STATIC SINGULAR (LT_UVARINT es),
      Field 2 STATIC OPTIONAL (LT_SUBMESSAGE google_protobuf_Any),
      Field 3 (CALLBACK 3) SINGULAR (LT_BYTES 0),
      Field 4 (CALLBACK 4) SINGULAR (LT_BYTES 0),
      Field 5 STATIC SINGULAR (LT_VARINT 4)]"

definition protocol_Transaction_raw :: "nat \<Rightarrow> pb_field list" where
  "protocol_Transaction_raw es =
     [Field 10 (CALLBACK 0) SINGULAR (LT_BYTES 0),
      Field 11 STATIC (REPEATED 1) (LT_SUBMESSAGE (protocol_Transaction_Contract es)),
      Field 18 STATIC SINGULAR (LT_VARINT 8)]"

definition protocol_Key :: "pb_field list" where
  "protocol_Key =
     [Field 1 STATIC SINGULAR (LT_FIXED_LENGTH_BYTES 21),
      Field 2 STATIC SINGULAR (LT_VARINT 8)]"

definition protocol_Permission :: "nat \<Rightarrow> pb_field list" where
  "protocol_Permission es =
     [Field 1 STATIC SINGULAR (LT_UVARINT es),
      Field 2 STATIC SINGULAR (LT_VARINT 4),
      Field 3 (CALLBACK 7) SINGULAR (LT_STRING 0),
      Field 4 STATIC SINGULAR (LT_VARINT 8),
      Field 5 STATIC SINGULAR (LT_VARINT 4),
      Field 6 STATIC SINGULAR (LT_FIXED_LENGTH_BYTES 32),
      Field 7 STATIC (REPEATED 3) (LT_SUBMESSAGE protocol_Key)]"

definition protocol_AccountUpdateContract :: "pb_field list" where
  "protocol_AccountUpdateContract =
     [Field 1 (CALLBACK 5) SINGULAR (LT_BYTES 0),
      Field 2 STATIC SINGULAR (LT_FIXED_LENGTH_BYTES 21)]"

definition protocol_TransferContract :: "pb_field list" where
  "protocol_TransferContract =
     [Field 1 STATIC SINGULAR (LT_FIXED_LENGTH_BYTES 21),
      Field 2 STATIC SINGULAR (LT_FIXED_LENGTH_BYTES 21),
      Field 3 STATIC SINGULAR (LT_VARINT 8)]"

definition protocol_TransferAssetContract :: "pb_field list" where
  "protocol_TransferAssetContract =
     [Field 1 STATIC SINGULAR (LT_BYTES 16),
      Field 2 STATIC SINGULAR (LT_FIXED_LENGTH_BYTES 21),
      Field 3 STATIC SINGULAR (LT_FIXED_LENGTH_BYTES 21),
      Field 4 STATIC SINGULAR (LT_VARINT 8)]"

definition protocol_VoteWitnessContract_Vote :: "pb_field list" where
  "protocol_VoteWitnessContract_Vote =
     [Field 1 STATIC SINGULAR (LT_FIXED_LENGTH_BYTES 21),
      Field 2 STATIC SINGULAR (LT_VARINT 8)]"

definition protocol_VoteWitnessContract :: "pb_field list" where
  "protocol_VoteWitnessContract =
     [Field 1 STATIC SINGULAR (LT_FIXED_LENGTH_BYTES 21),
      Field 2 STATIC (REPEATED 5) (LT_SUBMESSAGE protocol_VoteWitnessContract_Vote)]"

definition protocol_FreezeBalanceContract :: "nat \<Rightarrow> pb_field list" where
  "protocol_FreezeBalanceContract es =
     [Field 1 STATIC SINGULAR (LT_FIXED_LENGTH_BYTES 21),
      Field 2 STATIC SINGULAR (LT_VARINT 8),
      Field 3 STATIC SINGULAR (LT_VARINT 8),
      Field 10 STATIC SINGULAR (LT_UVARINT es),
      Field 15 STATIC SINGULAR (LT_FIXED_LENGTH_BYTES 21)]"

definition protocol_UnfreezeBalanceContract :: "nat \<Rightarrow> pb_field list" where
  "protocol_UnfreezeBalanceContract es =
     [Field 1 STATIC SINGULAR (LT_FIXED_LENGTH_BYTES 21),
      Field 10 STATIC SINGULAR (LT_UVARINT es),
      Field 15 STATIC SINGULAR (LT_FIXED_LENGTH_BYTES 21)]"

definition protocol_FreezeBalanceV2Contract :: "nat \<Rightarrow> pb_field list" where
  "protocol_FreezeBalanceV2Contract es =
     [Field 1 STATIC SINGULAR (LT_FIXED_LENGTH_BYTES 21),
      Field 2 STATIC SINGULAR (LT_VARINT 8),
      Field 3 STATIC SINGULAR (LT_UVARINT es)]"

definition protocol_UnfreezeBalanceV2Contract :: "nat \<Rightarrow> pb_field list" where
  "protocol_UnfreezeBalanceV2Contract es =
     [Field 1 STATIC SINGULAR (LT_FIXED_LENGTH_BYTES 21),
      Field 2 STATIC SINGULAR (LT_VARINT 8),
      Field 3 STATIC SINGULAR (LT_UVARINT es)]"

definition protocol_WithdrawExpireUnfreezeContract :: "pb_field list" where
  "protocol_WithdrawExpireUnfreezeContract =
     [Field 1 STATIC SINGULAR (LT_FIXED_LENGTH_BYTES 21)]"

definition protocol_DelegateResourceContract :: "nat \<Rightarrow> pb_field list" where
  "protocol_DelegateResourceContract es =
     [Field 1 STATIC SINGULAR (LT_FIXED_LENGTH_BYTES 21),
      Field 2 STATIC SINGULAR (LT_UVARINT es),
      Field 3 STATIC SINGULAR (LT_VARINT 8),
      Field 4 STATIC SINGULAR (LT_FIXED_LENGTH_BYTES 21),
      Field 5 STATIC SINGULAR LT_BOOL]"

definition protocol_UnDelegateResourceContract :: "nat \<Rightarrow> pb_field list" where
  "protocol_UnDelegateResourceContract es =
     [Field 1 STATIC SINGULAR (LT_FIXED_LENGTH_BYTES 21),
      Field 2 STATIC SINGULAR (LT_UVARINT es),
      Field 3 STATIC SINGULAR (LT_VARINT 8),
      Field 4 STATIC SINGULAR (LT_FIXED_LENGTH_BYTES 21)]"

definition protocol_WithdrawBalanceContract :: "pb_field list" where
  "protocol_WithdrawBalanceContract =
     [Field 1 STATIC SINGULAR (LT_FIXED_LENGTH_BYTES 21)]"

definition protocol_ProposalCreateContract_ParametersEntry :: "pb_field list" where
  "protocol_ProposalCreateContract_ParametersEntry =
     [Field 1 STATIC SINGULAR (LT_VARINT 8),
      Field 2 STATIC SINGULAR (LT_VARINT 8)]"

definition protocol_ProposalCreateContract :: "pb_field list" where
  "protocol_ProposalCreateContract =
     [Field 1 STATIC SINGULAR (LT_FIXED_LENGTH_BYTES 21),
      Field 2 STATIC (REPEATED 10) (LT_SUBMESSAGE protocol_ProposalCreateContract_ParametersEntry)]"

definition protocol_ProposalApproveContract :: "pb_field list" where
  "protocol_ProposalApproveContract =
     [Field 1 STATIC SINGULAR (LT_FIXED_LENGTH_BYTES 21),
      Field 2 STATIC SINGULAR (LT_VARINT 8),
      Field 3 STATIC SINGULAR LT_BOOL]"

definition protocol_ProposalDeleteContract :: "pb_field list" where
  "protocol_ProposalDeleteContract =
     [Field 1 STATIC SINGULAR (LT_FIXED_LENGTH_BYTES 21),
      Field 2 STATIC SINGULAR (LT_VARINT 8)]"

definition protocol_TriggerSmartContract :: "pb_field list" where
  "protocol_TriggerSmartContract =
     [Field 1 STATIC SINGULAR (LT_FIXED_LENGTH_BYTES 21),
      Field 2 STATIC SINGULAR (LT_FIXED_LENGTH_BYTES 21),
      Field 3 STATIC SINGULAR (LT_VARINT 8),
      Field 4 (CALLBACK 6) SINGULAR (LT_BYTES 0),
      Field 5 STATIC SINGULAR (LT_VARINT 8),
      Field 6 STATIC SINGULAR (LT_VARINT 8)]"

definition protocol_ExchangeCreateContract :: "pb_field list" where
  "protocol_ExchangeCreateContract =
     [Field 1 STATIC SINGULAR (LT_FIXED_LENGTH_BYTES 21),
      Field 2 STATIC SINGULAR (LT_BYTES 8),
      Field 3 STATIC SINGULAR (LT_VARINT 8),
      Field 4 STATIC SINGULAR (LT_BYTES 8),
      Field 5 STATIC SINGULAR (LT_VARINT 8)]"

definition protocol_ExchangeInjectContract :: "pb_field list" where
  "protocol_ExchangeInjectContract =
     [Field 1 STATIC SINGULAR (LT_FIXED_LENGTH_BYTES 21),
      Field 2 STATIC SINGULAR (LT_VARINT 8),
      Field 3 STATIC SINGULAR (LT_BYTES 8),
      Field 4 STATIC SINGULAR (LT_VARINT 8)]"

definition protocol_ExchangeWithdrawContract :: "pb_field list" where
  "protocol_ExchangeWithdrawContract =
     [Field 1 STATIC SINGULAR (LT_FIXED_LENGTH_BYTES 21),
      Field 2 STATIC SINGULAR (LT_VARINT 8),
      Field 3 STATIC SINGULAR (LT_BYTES 8),
      Field 4 STATIC SINGULAR (LT_VARINT 8)]"

definition protocol_ExchangeTransactionContract :: "pb_field list" where
  "protocol_ExchangeTransactionContract =
     [Field 1 STATIC SINGULAR (LT_FIXED_LENGTH_BYTES 21),
      Field 2 STATIC SINGULAR (LT_VARINT 8),
      Field 3 STATIC SINGULAR (LT_BYTES 8),
      Field 4 STATIC SINGULAR (LT_VARINT 8),
      Field 5 STATIC SINGULAR (LT_VARINT 8)]"

definition protocol_AccountPermissionUpdateContract :: "nat \<Rightarrow> pb_field list" where
  "protocol_AccountPermissionUpdateContract es =
     [Field 1 STATIC SINGULAR (LT_FIXED_LENGTH_BYTES 21),
      Field 2 STATIC OPTIONAL (LT_SUBMESSAGE (protocol_Permission es)),
      Field 3 STATIC OPTIONAL (LT_SUBMESSAGE (protocol_Permission es)),
      Field 4 STATIC (REPEATED 2) (LT_SUBMESSAGE (protocol_Permission es))]"

definition ExchangeDetails :: "pb_field list" where
  "ExchangeDetails =
     [Field 1 STATIC SINGULAR (LT_UVARINT 8),
      Field 2 STATIC SINGULAR (LT_STRING 8),
      Field 3 STATIC SINGULAR (LT_STRING 32),
      Field 4 STATIC SINGULAR (LT_UVARINT 4),
      Field 5 STATIC SINGULAR (LT_STRING 8),
      Field 6 STATIC SINGULAR (LT_STRING 32),
      Field 7 STATIC SINGULAR (LT_UVARINT 4),
      Field 8 STATIC SINGULAR (LT_BYTES 72)]"

definition TokenDetails :: "pb_field list" where
  "TokenDetails =
     [Field 1 STATIC SINGULAR (LT_STRING 32),
      Field 2 STATIC SINGULAR (LT_UVARINT 4),
      Field 3 STATIC SINGULAR (LT_BYTES 72)]"

lemmas descriptor_defs =
  google_protobuf_Any_def protocol_Transaction_Contract_def protocol_Transaction_raw_def
  protocol_Key_def protocol_Permission_def protocol_AccountUpdateContract_def
  protocol_TransferContract_def protocol_TransferAssetContract_def protocol_VoteWitnessContract_Vote_def
  protocol_VoteWitnessContract_def protocol_FreezeBalanceContract_def protocol_UnfreezeBalanceContract_def
  protocol_FreezeBalanceV2Contract_def protocol_UnfreezeBalanceV2Contract_def protocol_WithdrawExpireUnfreezeContract_def
  protocol_DelegateResourceContract_def protocol_UnDelegateResourceContract_def protocol_WithdrawBalanceContract_def
  protocol_ProposalCreateContract_ParametersEntry_def protocol_ProposalCreateContract_def protocol_ProposalApproveContract_def
  protocol_ProposalDeleteContract_def protocol_TriggerSmartContract_def protocol_ExchangeCreateContract_def
  protocol_ExchangeInjectContract_def protocol_ExchangeWithdrawContract_def protocol_ExchangeTransactionContract_def
  protocol_AccountPermissionUpdateContract_def ExchangeDetails_def TokenDetails_def

section \<open>Reading a decoded message\<close>

definition m_int :: "slot list \<Rightarrow> u32 \<Rightarrow> u64" where
  "m_int m tag = (case s_vals (get_slot m tag) of VInt v # _ \<Rightarrow> v | _ \<Rightarrow> 0)"

definition m_buf :: "slot list \<Rightarrow> u32 \<Rightarrow> bytes" where
  "m_buf m tag = (case s_vals (get_slot m tag) of VBuf b # _ \<Rightarrow> b | VBytes _ b # _ \<Rightarrow> b | _ \<Rightarrow> [])"

definition m_size :: "slot list \<Rightarrow> u32 \<Rightarrow> nat" where
  "m_size m tag = (case s_vals (get_slot m tag) of VBytes n _ # _ \<Rightarrow> n | _ \<Rightarrow> 0)"

definition m_has :: "slot list \<Rightarrow> u32 \<Rightarrow> bool" where
  "m_has m tag = s_has (get_slot m tag)"

definition m_msgs :: "slot list \<Rightarrow> u32 \<Rightarrow> slot list list" where
  "m_msgs m tag = map (\<lambda>v. case v of VMsg x \<Rightarrow> x | _ \<Rightarrow> []) (s_vals (get_slot m tag))"

definition m_msg :: "slot list \<Rightarrow> u32 \<Rightarrow> slot list" where
  "m_msg m tag = (case m_msgs m tag of x # _ \<Rightarrow> x | [] \<Rightarrow> [])"

end
