(* ===== verification/Tokens.thy ===== *)
theory Tokens
  imports Errors
begin

text \<open>
  The TRC20 tokens the application knows, \<^verbatim>\<open>TOKENS_TRC20\<close> of \<^verbatim>\<open>src/src/tokens.c\<close>, the function
  selectors it recognises, and the checks of signed token and exchange descriptions. The table is split
  into blocks of consecutive entries. An address is written as the number its 21 bytes stand for.
\<close>

section \<open>Data\<close>

primrec be_bytes :: "nat \<Rightarrow> nat \<Rightarrow> bytes" where
  "be_bytes 0 v = []"
| "be_bytes (Suc n) v = be_bytes n (v div 256) @ [of_nat (v mod 256)]"

record tokenDefinition_t =
  td_address :: bytes
  td_ticker :: bytes
  td_decimals :: u8

definition token :: "nat \<Rightarrow> string \<Rightarrow> u8 \<Rightarrow> tokenDefinition_t" where
  "token a t d = \<lparr>td_address = be_bytes 21 a, td_ticker = chars t, td_decimals = d\<rparr>"

definition SELECTOR_transfer :: bytes where
  "SELECTOR_transfer = [0xA9, 0x05, 0x9C, 0xBB]"

definition SELECTOR_approve :: bytes where
  "SELECTOR_approve = [0x09, 0x5E, 0xA7, 0xB3]"

section \<open>The table\<close>

definition TOKENS_TRC20_1 :: "tokenDefinition_t list" where
  "TOKENS_TRC20_1 =
    [token 0x41DBF2B73DF123ED12899951A1382548245E52B8F9 ''PKT'' 6,
     token 0x41B88AECB926A854C1A180E5E2949E0123BDDCA499 ''ZTR'' 18,
     token 0x415CA8D13E63E329704DA906BD8CB9D0FE22173DC7 ''1UP'' 8,
     token 0x4162FCF12E166CE427757ADCA31AF0E59E92A2E166 ''PCB'' 18,
     token 0x411A32D57D10D3052E43B4EB67208F446976E40209 ''6KPEN'' 18,
     token 0x41FEF3F2BB377108590F36C0198598F1B8F933379C ''SVN'' 6,
     token 0x417818637395075A1AAA82927801DAB4117B99FC3F ''888'' 6,
     token 0x418A8102D7E24830676F5285F4B28FAEEEB4D8708D ''AB'' 6,
     token 0x41ECB0012D84EB8DDC81A62B2780E5F93A4AA63CE2 ''APL'' 6,
     token 0x41DB118376DA50723CFC35AA2BA98C36C6220FB745 ''ATT'' 6,
     token 0x4151739CBD5EBDE2427B759E1384736A14FEC29C54 ''ADC'' 6,
     token 0x41D53B62C1F081EA5C2A06209835F1FB3EE4D3D13A ''AEON'' 6,
     token 0x4165EA4CAF93BE572045A92360299DB61DDF92B559 ''AFG'' 2,
     token 0x41D3998A3D9510E35BF483B14F8C516493B9F453BA ''AIT'' 0,
     token 0x41594D2C8F1BE0F7E9CE5395F7A4867D7C6F893D0D ''AMI'' 6,
     token 0x41C32DE2E98330230AB2C2C07C8E6A03A7EFB5A4AA ''AIAB'' 0,
     token 0x4150EE24C4F9DF63B4B2AE2A402B3CF5524F87330C ''AIAC'' 0,
     token 0x413694337C91F5CAD16F0D7C4130DEBD2CE88C9B8F ''ATS'' 6,
     token 0x41E99A7E35BD0BA3D7C418C1215F6B529DA0C47C4C ''AFC'' 6,
     token 0x4168D93FC6E8B470A5149E26229DCC235683768344 ''APF'' 6,
     token 0x413DCCED142303A2A67E3297E925FDD96540AF4589 ''ARC'' 18,
     token 0x41EC87B6C767FC70408D83D85112D09B296D68BDF6 ''XBGI'' 6,
     token 0x41422AFCAE9053ADFFFE8845BC6684B5BBCA6B3F87 ''BCAB'' 6,
     token 0x412D7160894C2EF060D94E36DD3E23FE601B2BB56C ''BCN'' 6,
     token 0x4132968E93DC3A56EECFF13EDCC4009AF4EF21B07E ''BFB'' 8,
     token 0x41BF65C5CDD869807DECE245D4AE2A0256A8D21DAB ''BJ'' 6,
     token 0x4189C8853B49AF3CFFE9759778278355460F962FB1 ''BLAZE'' 6,
     token 0x411429F3BEF499242C2A346E3220FA3F94F6DD46C9 ''BOG'' 4,
     token 0x419F66D0554E8BBA2B310397009F3B9C6C7D6FBCFB ''BOMB'' 6,
     token 0x41DB32FB5FF8759083BE2F2E01A67932A9D1F49183 ''BTL'' 6,
     token 0x412C00479032420E995567DD388D61EC32ABDDB1ED ''BUTK'' 6,
     token 0x41DAB137E09D23F855AF0CC42E336DADA254352C16 ''BNKR'' 6,
     token 0x418CAEEA9C7EBB8840EE4B49D10542B99CEC6FFBC6 ''BNKR'' 6,
     token 0x412C088CCBA5F2148BFDED09C1E53C10FD7A761632 ''BHN'' 0,
     token 0x414B4AB118AB2C3BEBF99B4CB7B20E08E4DE78367A ''BR'' 0,
     token 0x4133513F7226A7115F915DA676261C21ACFD3C66C3 ''BOR'' 6,
     token 0x416F7661E7CA8B49BF8F06CAA8B945D491F7EEA007 ''BBN'' 0]"

definition TOKENS_TRC20_2 :: "tokenDefinition_t list" where
  "TOKENS_TRC20_2 =
    [token 0x41B7CB2440B87349791CFF6E10D60F42A028C69EBC ''BBK'' 0,
     token 0x411AA1CFE7A5374A12DD2AAE8C9852A49140F5B196 ''BD'' 0,
     token 0x41C6C70CBD6C77AC1CB533B6E88FF73EF4BD5D6195 ''BFWW'' 0,
     token 0x41E02E5BCCC0F9CBEC57F4121A66B27E0AE7855DDD ''BG'' 0,
     token 0x41145DC2DA94EB3EF08F948BB69F923355D24E8152 ''BH'' 0,
     token 0x4193DD6387269CA67D32201CBF1586FA502B532983 ''BS'' 0,
     token 0x41BF152EBB011728F6BBCA3EBFBAC7357FE2066D59 ''TCB'' 0,
     token 0x414364C9E1BB31AB815AD13C41684EA29623B88FAB ''Bee'' 8,
     token 0x419E9B004C4BF1B9C55B364D011F00A893EF5B7AB8 ''BHC'' 6,
     token 0x41F6E1FEF44C47DFF0AB57A3A57F7FC3862E0D852E ''BFC'' 6,
     token 0x41957164ADBD1D7F333C32D71E37C512261763C405 ''BFG'' 6,
     token 0x41428E0CA345BD7B43040EE2840083D8CD96ADD760 ''PLAT'' 6,
     token 0x41C2A9BCC8C473299ED1A4BDB8111D0EF49AEDA712 ''BkOn'' 18,
     token 0x419E9487F52B913CD06793936ACAE7D8863FC4CF45 ''BLKT'' 18,
     token 0x41E4AFB89BCE4331673BEE381E270CF84EAD66356C ''BPC'' 6,
     token 0x414106BBA560EDA894A51C4C9E804642AEB1E5524D ''BHT'' 18,
     token 0x413AF37729A73A4510DA6B202F8D5FC55B19783BFD ''BBL'' 0,
     token 0x416A8C5D65FD540061DBB8D967FE5E39C4B9BB00E5 ''BC'' 0,
     token 0x41B9D0D3CC416C44B396E989E295B5982EA2CADBA3 ''BPT'' 6,
     token 0x41F7E2413021FBBE0DA81D6AB76B92FFE569BDC4D3 ''CCV'' 6,
     token 0x411DF7A27FB560DF6F998F9591A13158B5438E714B ''CTT'' 0,
     token 0x41E5F723B79737A8C17665C61CBF23CB48379CA2C1 ''CASINO'' 8,
     token 0x41A6C56AF75E748F54A628506FC8369E14E8187CD6 ''CND'' 6,
     token 0x4170A0F1A9A2DFE718E1D85AF00C7080F1FBFE17AC ''CHB'' 6,
     token 0x41B95D3FDE7CB3CC7256D50EC700645DA707E83E2F ''CHB'' 6,
     token 0x4158217438F77F082FA6B9A16C0528F6AA8D8C8172 ''Chain20'' 6,
     token 0x41F34224D4CD138F922F6545D6849F1D00607B7F54 ''ChainT20'' 6,
     token 0x41DB665B0CB9D30296E8DA708EC1B4079082A0BE4F ''ChainTok'' 6,
     token 0x414F176501FFF943CEFADD24FB680DD7B67AE73C96 ''CBE'' 0,
     token 0x417B7064459E7DED2E87919FC0791E71BE93C3C26D ''FCF'' 0,
     token 0x416737D575ECAEEBF65059D75B771CFDDF4756C319 ''CDT'' 6,
     token 0x413DB3685C097AD9D2A35A8A8AA7E401F56FC6357E ''CGT'' 6,
     token 0x41F0DF0BE469F56D04F218292050F486E2B97A1327 ''CTT'' 6,
     token 0x4125DC15DA96D2DA6419A1F199302A9497858A76E6 ''CEC'' 6,
     token 0x4126DCDF3EBB17E44BD424CB1E04C4E72475ACC9B2 ''CIP'' 6,
     token 0x412E910D396210C40D7931F1B5420A26CE364F4955 ''CIP'' 6,
     token 0x4152EDB123CBEE986315B0CAEA83CA6A775B4229E3 ''CMC'' 6]"

definition TOKENS_TRC20_3 :: "tokenDefinition_t list" where
  "TOKENS_TRC20_3 =
    [token 0x41B8075B0FB52B7A8DF8122DDA49787829529A4AB7 ''CFT'' 6,
     token 0x41BF33B26EEA5A29A7FA1DEFABD399CCC082299A94 ''DOG'' 6,
     token 0x4139600AD341928EC687CBBC5D1B326E164EF39693 ''CCC'' 6,
     token 0x41A4FE37751CD86C232AB6E722FFD32F8F177F3807 ''CCGX'' 6,
     token 0x41D8CBC94CF1FBEE445E665C09D59EF0DC0163BEA9 ''CCGX'' 8,
     token 0x41119DE40EA5B5B39DA2BE96EAB6158558564ED850 ''PZT'' 6,
     token 0x418147DADAEB8312A76792F69620BD3C6015D0E174 ''SPIN'' 6,
     token 0x41DDFD3C1E028EEEBCBDA0E7F37D6BD0AB8FBC1538 ''TYCO'' 6,
     token 0x418A8ECFCA16AD51712AC1F35BF92EEFEC924CBD2E ''CVS'' 8,
     token 0x41CDD0ACB66DBC200D49AC390F95237672505CD5F1 ''CRC'' 6,
     token 0x41C10C84ED98AC970906A7120BE485DB10A4B71358 ''CNC'' 6,
     token 0x41A8F28075460D27F634B1BAA9387184C99813F687 ''DAO'' 18,
     token 0x41C0D551354445252C48F2B8C51C257B8955DB8D47 ''DCI'' 6,
     token 0x41C80B3CDCAF4C560EAA79AE66CB98C225A3A59860 ''DDOS'' 6,
     token 0x41C172090A8855736FCD6A03BA6C394575DF19172A ''DECP'' 6,
     token 0x41EEAB9312864DECDA9CEBD1D38CD53E306B816433 ''DEX'' 8,
     token 0x413843C8ECF7312F5DBC17B92265D77CB673212E7A ''DEX'' 8,
     token 0x41EDF82CECAE135A146BD5B48A0AE315DABB5EFADC ''DLI'' 6,
     token 0x4180B463B499AE9F0AC24A9CF2261388A64A5FA563 ''DLN'' 6,
     token 0x41151D7418F5C2C9F90898CFB6D3010C78AA140699 ''DNFT'' 6,
     token 0x41650AFDF54A3F3DEF2CB847D52400B7D6320727FD ''DRS'' 6,
     token 0x41FADE417B7CB304D7F763756DD02499668EB5026C ''DTF'' 18,
     token 0x415BE4C4277DB031B4783EA92B82935354A5456EBA ''DTI'' 6,
     token 0x41D108A16D16EF4C54ECCC575495796DCF84176684 ''DXA'' 6,
     token 0x418A1F15F1EF714914B8994C38DFB4EAF1EF027321 ''DXN'' 6,
     token 0x410A706988ABA85953D1346A56BF44697972C4931B ''DYI'' 6,
     token 0x4160ED9F7007AEFFFB27921AE7C0F3EDA2BBFB8E96 ''DZG'' 6,
     token 0x41EA19970441C394F00F47BE27BCD03810D9BD2D87 ''DST'' 1,
     token 0x41C2BCF0C0B8820DE8DABD51E6A474255FA4DA6A35 ''DRA'' 6,
     token 0x419A1F83164394BCB358EF40398BD00292300F3229 ''DRA'' 18,
     token 0x41D4B9AA6A5878BF65FAA2370B1EEF275E00EC09A1 ''DRA'' 6,
     token 0x4159E0DCA594D0318E73862DBE816F81729D80C1B2 ''DASH'' 6,
     token 0x41B944889597565514114EF0D93563CC42A55BE658 ''Desc20'' 6,
     token 0x41EFAA2DD6B8B71B828BC0A2F5965003565111134E ''DVS'' 6,
     token 0x4196F8E26E6A181622A6E5772A0AF91B82A38EBDA1 ''DINF'' 10,
     token 0x41851A5F90207D9B16E91BE97B55A5C03F75EA038B ''DOA'' 6,
     token 0x41B6B4CBF582D31E03A039FE6360F9785B01CBB6AD ''DOO'' 6]"

definition TOKENS_TRC20_4 :: "tokenDefinition_t list" where
  "TOKENS_TRC20_4 =
    [token 0x415D256FB549B39495030DDC5460F2364955AAC4E3 ''DC'' 6,
     token 0x4199ADF4C8FAD94A6C928EEA4E436088CA5C65C32E ''DUEL'' 6,
     token 0x41533ABAC4CA0ACF8E4BFF9613C58A3D80906578EE ''EEE'' 6,
     token 0x41C5F7E0F173F8101E937E6C8D386A5596EB1ECE93 ''EMS'' 8,
     token 0x417EB410B0E23C224805A1CF46B4D7EEE6126A1F50 ''ENGY'' 6,
     token 0x41D8B74E1D651A235D269456C5F1AC335A57FB1BBF ''TET'' 7,
     token 0x41F28DE531696B79D0E503B5320520C6E48BAF2194 ''ET'' 7,
     token 0x411AF2D8946944035538D8C13833D2C3F59D456AB1 ''EME'' 6,
     token 0x4144425CE1EEBE14E0C317BDFCE859F9B3ADA677B9 ''EST'' 6,
     token 0x416E0D26ADF5323F5B82D5714354DC3C6870ADEE7C ''RING'' 18,
     token 0x4140CA638F96F1CAE9D42F6B6486C5FA2EBF0970E6 ''EXC'' 6,
     token 0x41FC371E5CB62C1C09431278E36004CBDF7772B03C ''FF'' 6,
     token 0x416A650E98823779F44B3EF6D42D26FA1725705451 ''FOMO'' 6,
     token 0x4197E47E0C1C2AC0E87F4E17FACA01BE854B2569C8 ''FRAG'' 18,
     token 0x4196F20B5E97BF026D099D867BBF97D319F6F6A048 ''FUNC'' 6,
     token 0x41BCD9112C92B0C655C1ECA5C6A96BF2FA49138F10 ''FAC'' 8,
     token 0x4111C43F6CEBD28649FAEA0C5CB92632A7AFD43AA7 ''FARM'' 6,
     token 0x41F89652C7DB58E14ED1AD33CB52F24985EA708AAF ''FSC'' 6,
     token 0x4192ED0834B4D2D4456AA260AA5E8ED3EBFE6CA308 ''FOP'' 6,
     token 0x41CEF51AA1C2DF3EFA95AF64839CD3CF1AB836D349 ''BONDS'' 6,
     token 0x41AFA7B7D8AC6D559917B5701CD432123BC5457B4B ''GAC'' 6,
     token 0x4104B0CEA2FB000308BD1159CDBFD5FBC81C2C2065 ''GEX'' 6,
     token 0x411D35FE3CEA5F86D316A08C183C08BD56A82D1493 ''GEX'' 6,
     token 0x41F5E0AEC53995FB93588CA656A959AC467523DB83 ''GAME'' 18,
     token 0x413220CE3748B947DFCB594EE6E2E36A8398B2A1C4 ''GEMS'' 6,
     token 0x41F6F20CCC7B6A99943C951D71EE4560E309F52C23 ''GEMS'' 6,
     token 0x414A177AA27DE79F60908404C0148AFE9ACBAC6231 ''GEMS'' 6,
     token 0x41D66B798D45F3870787E46658162141BED4C03FAD ''GLGT'' 2,
     token 0x4114E3683D8A4937E42C8B0857CF83683D5607D88F ''GLC'' 8,
     token 0x412321B9830F505841B8EEC850D7A5D1069D725D31 ''GML'' 6,
     token 0x410C7965F28E411F22276861E335F84962AF1287CC ''AIGL'' 0,
     token 0x4152FBFBDB4CAAC8E62E2F7A0B4497B7848D4D1522 ''AIGL'' 0,
     token 0x41DBCC925C24D6A692B0DC7E749B8F08E2D2B3B258 ''GF'' 6,
     token 0x410CD5CFC52BA20822F32BA4E5C96CCC5BDD467D16 ''GGC'' 6,
     token 0x4193AB45EE7403E40B693DF6718201F048046393F9 ''GOAL'' 6,
     token 0x4106DFC19970C8A4B919CCF7E9155CF05EB62965F4 ''GWT'' 8,
     token 0x4121C1D0D57D4B988A268268A75DDC714512742D40 ''GT'' 6]"

definition TOKENS_TRC20_5 :: "tokenDefinition_t list" where
  "TOKENS_TRC20_5 =
    [token 0x41CFB17ED2FF16B91E702F8E7FCD6E5347AFB82EA4 ''HW'' 6,
     token 0x418C146EFD88C9B7A62732D4D5D9798D17C43CBEEB ''HORA'' 6,
     token 0x41824F0D174C94D1870845F8AB73B7B19757AE9315 ''tst'' 8,
     token 0x4154C1ABDFCC92739B63D88A857394A83F2B4300AA ''HRX'' 6,
     token 0x41B543B06A0DC4337408F1E42AA25D4A5B42CC23B0 ''HRX'' 6,
     token 0x4193A63A849977514375FAD45D937A17E7A1E54086 ''ICD'' 18,
     token 0x41D51F8E9D2EF0A7317B758541B0A552706BEDB3E8 ''IGG'' 6,
     token 0x419D844C5EF6BECF29C51D53871C6240607D51FA9E ''ORB'' 2,
     token 0x41CED89E3B8A3B52632ED666D46B529F8C690A41C5 ''IOS'' 8,
     token 0x41F27F778E4D2227FB729D5C1CD4F0931B8F73E81F ''IRS'' 6,
     token 0x4153B9E048179389E8CF5544C0B52B8B31DB846889 ''IRC'' 18,
     token 0x419F7080990DD167EDEAA2748768C4A2E85C8EA865 ''JT'' 0,
     token 0x41EDA13B8C8FB188045ED97EE016A57C6DEFB34FBC ''KT'' 6,
     token 0x4110D40EFADEDDAD4ABFF21B8764F0311EFD81A166 ''KCD'' 0,
     token 0x416C89E84CF5937C5617D934E15BAF30F51B75AD1E ''KGT'' 9,
     token 0x417B30BCED015FCD05B9C9929FEDFB7DE10DA94245 ''KGT'' 9,
     token 0x419F599605D971F2D686439784EB57F76654DF974C ''KGTP'' 9,
     token 0x41590BF312D8DE938EA333312EE6ED2F3EB09C0696 ''LIME'' 6,
     token 0x41529F5E88F706A7F546191288C8E7F34D6381B5A7 ''LUCKY'' 6,
     token 0x416E1B53E56B99A617E438CE73E67494C9F91CE288 ''LUCKY'' 6,
     token 0x41FFDA8B1E83205D5A3852C490FB6EEDC07073198A ''LIBRA'' 8,
     token 0x410C3BE140EA611D59DD7BA0B825D6F17C167D55ED ''TLT'' 10,
     token 0x41346BF1271988C277ED94B86507B7B9BFF31BB39C ''TLT'' 10,
     token 0x418033432847EEB2F05F9A2B045091B52135D37496 ''TLT'' 10,
     token 0x416D0E69A41A8505143B4131F9BAEC8044BE3EA17C ''TLT'' 10,
     token 0x4148B79DF4C6BD81E7E3910731ABF64CD1DB873056 ''LVH'' 6,
     token 0x41E117E34E522AAF7A5FF619D3BAD022CE3BB229D6 ''LUCK'' 18,
     token 0x411DBC4A43490AB9D39C4D6C6695E3C2302CB05B51 ''Lucky'' 6,
     token 0x416836EECB808AE2FFE1EB53B65AD9D5B890F0BE72 ''LuckyCoi'' 6,
     token 0x416B676128ADD2886F2AE3AB7DB83BDEA013C79044 ''LuckyCo2'' 6,
     token 0x41C82FEE33827605E708F0830A990BAE8A173FDCAF ''MATest20'' 6,
     token 0x41200FF39251E8B86F13C35FFC22CFF8166B3F59FE ''Main'' 6,
     token 0x413885C83DA952258CD4FD79BE0554F1398E249669 ''AIMI'' 0,
     token 0x4182CD8B6D857AE9B6BECD7DDFC6495FCB450D39C5 ''MLT'' 6,
     token 0x411A22567294098140839B1205DEFC4A538F8EA8FE ''MLT'' 6,
     token 0x4120E0C2ED03745F205E4BBA306A0CA9F131643FB9 ''MUSE'' 6,
     token 0x410DC059D0906E9E945D413BEEB03A58F016BCE435 ''TRONISH'' 6]"

definition TOKENS_TRC20_6 :: "tokenDefinition_t list" where
  "TOKENS_TRC20_6 =
    [token 0x417435A239F5D4477B2B68BC9BBC35A5893DDFA0E3 ''NEP'' 2,
     token 0x417F0A35EDF363B26833B4B6A25815BBA6AAC3DC37 ''NSG'' 6,
     token 0x41E5CB2DC8793EE21EF3E339C271B1CC5475B04037 ''NFUN'' 6,
     token 0x41989BAF8D41CFDB3C81B15A2228E09AB7D7B5DCDE ''NOLE'' 6,
     token 0x4174E2BAF628A64DE9C79D5FF7D47CA654CD35DCA3 ''NB'' 0,
     token 0x4164DB48149081898E0F34DEBBED6408C968D385EF ''ND'' 0,
     token 0x417FFB8AEB51F098255218154BAC6D54533040708D ''OODICE'' 18,
     token 0x417D14F7C71F63D68911EA882BE64E01037833FAC6 ''OODICE'' 6,
     token 0x41BE0375700B7417901D98C5BF5E12C8CDFDFD175E ''OODICE'' 6,
     token 0x41F26BB3B5A652E8182689AC4BFA36A6C02F5E09B4 ''OODICE'' 6,
     token 0x413A53AE592D56B0EDB6CA3FD75CFDAB8BC1134214 ''ORY'' 8,
     token 0x41425744244CA8FA650E91B42A5C73527418FBF1FA ''AIOI'' 0,
     token 0x413FABA6B9BC8F8E1A92A6486F698FD2BCA56863A6 ''OCV'' 6,
     token 0x419B94133F0E1799F4DE52B61D8C40F8C677CE70AF ''OXI'' 6,
     token 0x41C71652AD01CD769D0D1691732869FCDA65B38690 ''PERL'' 6,
     token 0x41F82D6D398A9BA0DA8C7384AEA37230D268CA2845 ''PLAY'' 6,
     token 0x41F7909106ACF0B4CE0F250A40E22B112AF31F9FB3 ''POT'' 6,
     token 0x411881560C5EFD3E8BDACC02BBEE45E8889CF2CA0E ''POT'' 6,
     token 0x41573045486590CB9855AC017C27538213AB01C973 ''POWER'' 6,
     token 0x418E1289491AA288B8DE22339DC0F43B12B3D5FF7B ''POWER'' 6,
     token 0x417CD1293A656753057FD2DC9563FC7960B5DD5253 ''PTT'' 6,
     token 0x4131906BCB318E4D78EFFFFD31E8B8418A273CB360 ''PD'' 0,
     token 0x41F0EFCE63F8329A741B69A7F8412100B4B5AB3586 ''PH'' 0,
     token 0x41A9E60498F7913FD724DA1DF810A983BF3A92AD2F ''PLACE'' 8,
     token 0x41F423B9866BC909657574B1FEDE2DC7878367DBD8 ''PLT'' 0,
     token 0x4115E1059C016A3453414F74A3A2BC92E9D87FC0B5 ''POL'' 6,
     token 0x411ADEAEA4C395E4190BA39AF560448878A31461AC ''PRT'' 6,
     token 0x414A2262FBB81AA0435A93EA72F64FA91556E24E13 ''POM'' 6,
     token 0x41D965809AA1FCF1E948EE74C59747B2191DC4C187 ''PRK'' 6,
     token 0x41D3A55BF434C50A24843370034E5DEFD11458C59C ''PW'' 6,
     token 0x414130294D754FA309ACA652C531C5B1FC4E243A70 ''Proc20'' 6,
     token 0x415069A2E708589DD8BCD35FB50825AD5C5C33B7C3 ''PGS'' 6,
     token 0x41E262177F0FD5281A27261FE074314E9E5226BDFC ''POL'' 8,
     token 0x41E0FC581A59EF76FE89646E6819A0D1CC3AA8EC12 ''QST'' 6,
     token 0x41703F3B26D30E10826733B730C1186C37F54D0A93 ''RET'' 6,
     token 0x41F31B4CD9E3D6F3375233887D555E3F19250C7D07 ''REX'' 6,
     token 0x417EA07B5BE5A0FE26A64ACAF451C8D8653FDB56B6 ''REY'' 6]"

definition TOKENS_TRC20_7 :: "tokenDefinition_t list" where
  "TOKENS_TRC20_7 =
    [token 0x418BB66EA15A21226F982F9B4401A5AD08F9600920 ''ROLL'' 2,
     token 0x418C7EBA8D591EFDCEA225B050C9DFCAF9E1EEF6AE ''RSC'' 6,
     token 0x41DA8874682741489D5238F33DD3685B20B3C0BD0C ''REAL'' 18,
     token 0x411E0E8E46298249B86BAF3790C4E8FA522965A91A ''AIRI'' 0,
     token 0x41A281B52F8CA50803811EA3DCAF88D5CA6C8A0282 ''RIRH'' 0,
     token 0x411ADD97F52D8D8176300F9A87E982CB91BD3BB54E ''RIRR'' 0,
     token 0x41387B90B7A68DEEBDFD317394246EAB830EEE0967 ''Rocket'' 6,
     token 0x410B94EB133EF95F465F2518927A9EEA11F916FB64 ''ROCK'' 6,
     token 0x4117FF1BA04135111352C001E247D0796B24114370 ''ROCK'' 6,
     token 0x41DEB90F41E2ACB66ED4D8A771252022DFAC59B1C2 ''ROP'' 6,
     token 0x41C83F39973AA6D47B76C77CC53BF435E9E4F4204E ''TMEV'' 6,
     token 0x41C6629E6916D15162B996898077F6A126A392BF4A ''RPT'' 8,
     token 0x414CF46DBE9A72070CFD38ED1A3F6EED20E638C411 ''RBB'' 0,
     token 0x41AE9812524180B20A91D1989F53C0786D384EFD0F ''RBD'' 0,
     token 0x4152FC7D65DCFE14138562367C028F6FC3F2BBD1FB ''SG'' 6,
     token 0x41EFA8D5B46DC9CE1FFE1B12EDBC559AE59D153795 ''SPOK'' 6,
     token 0x41B67FB03AE8CEDFF1D25B26C9DCFE701E52DB186B ''STPC'' 4,
     token 0x41A53B30FE24CB62A3016DD4719AD5B6ACEA6AE52D ''STONE'' 6,
     token 0x41DF02BED8AAE8CF6E923E822B04AD32A678A45DD9 ''Santa'' 6,
     token 0x4181AFD49DB6BA53154E2940E5263023214006D328 ''SCC'' 2,
     token 0x41BEFFF58BD7943AF49261F520D823AC3487BB60E2 ''SCCN'' 2,
     token 0x416AB85355EA03D9E66DE175221B08759AA3F3B429 ''SHL'' 6,
     token 0x41C8655A3C55CD4DB366860A2DB5702AE8209156E9 ''SHL'' 6,
     token 0x4170B06E8B2518D7257CD7F11023B38BF62375F717 ''SOCIALIS'' 6,
     token 0x410E28C93F4111D699560F0345249D7DBDF7EEBCF5 ''SOL'' 6,
     token 0x41C1340A51FF256325F49E7B5A929321BAA9CD0FEF ''stkn'' 8,
     token 0x4162C1AE914FBB446DCEA7DDFCA9C02D325CCB9BDB ''SFT'' 6,
     token 0x411452302E1E5EFFEF9033CA024E4E015DB44F207C ''TSWL'' 8,
     token 0x41D6DED61DFF48DC64042CE1B1B4E292BD8887D353 ''TAC'' 6,
     token 0x4133EA80A2BFEC4EB0919C5FBADC5D8765808A2DD2 ''TALC'' 6,
     token 0x41C8F7904E2FAE13B54B6EE358CAD3E3799971BC19 ''TAO'' 6,
     token 0x413A8A6025075C0BBE21F177FA09DB3186F4C1E276 ''TAT'' 6,
     token 0x412B3471D21B95041013D100A987DA1145919067A5 ''TBT'' 18,
     token 0x416F189875B48774A5E0F7346BB69720631B2A7D11 ''TEST'' 8,
     token 0x41FFFE20A96A6FD1C366743BEBC8BD1DA3687F3C8C ''TEUR'' 4,
     token 0x41D5738E7FF6FCBC24B37C9EB15BC867750056644E ''TGOLDE'' 6,
     token 0x4152C02F815B34F9CF7DB49752DE965745726C8B8D ''TIS'' 18]"

definition TOKENS_TRC20_8 :: "tokenDefinition_t list" where
  "TOKENS_TRC20_8 =
    [token 0x41270B0F0BE9ADD3057428AA43E8CBDE6263FCAB28 ''TRA'' 18,
     token 0x4119753A62419416388FCC3054FEBB8600CE467BAC ''TRE'' 6,
     token 0x41FFBE7A7C1D42B4ED237239791F80B70FFA672849 ''GO'' 6,
     token 0x41FF8B65F332984E28E25FF6625856B1257B7D4EA2 ''UP'' 6,
     token 0x4189E707191BD5AF4EE41E394ABC2C21B60E02B04A ''ACE'' 6,
     token 0x41AF343EE4CEF33492CD6B8675F99C4C53A7DAAF91 ''TGAME'' 8,
     token 0x413B3F5FBED4DE30391E9DCC3279901EB77E682410 ''GAME'' 6,
     token 0x415959355EA8367F4B0D834E792A4D7747F6AA917D ''TIR'' 6,
     token 0x41AD6B5EC768873B0CC1E433F8E0469D7E63A0641D ''TM'' 6,
     token 0x4176D77E1AE8EF4296CD0EA79B272D552654B4C7B0 ''TMK'' 6,
     token 0x41681886EB59E6F0C544A2AE7122EEA7B6C6B08D97 ''TWX'' 6,
     token 0x411A44E676D4864660D984F6D1F4EB06D0F5CC5208 ''ANTE'' 6,
     token 0x41D829659F0F7661F29F12F07A5BE33C13B6C9DD59 ''LIVE'' 6,
     token 0x41574138562CA8BD1D35068C5B21279610C1F583C4 ''DICE'' 6,
     token 0x41C5DB4674062CEC2067560CBD5B1B76B84AC42A60 ''TWEET'' 8,
     token 0x418B1D679C9277DCC864D5F1800D506BDE1D91E337 ''TRUE'' 6,
     token 0x41F5D4304DA3FF20B6A14AEF2D1893025D959EDF31 ''TRXD'' 18,
     token 0x4196FDEA7EE6822F72D025C36CD164058FA319DC38 ''TSR'' 6,
     token 0x4101BE7A0C9AB7543A95C06DF403E79117C0612C0E ''TSR'' 6,
     token 0x410B3439F60ACBDE0FF82950C3A1CDDD23BDFA06C0 ''TST'' 6,
     token 0x41DB967A89E43D0BD20B5B1440BA66E043115BF2EA ''TTT'' 6,
     token 0x41CC1B574DB8EB8D12A3EB74B172136CD84C0754F8 ''TWN'' 6,
     token 0x414001ECF3B1225F35C04C9360D7D07D66A5080A3E ''TWN'' 6,
     token 0x41D8A7AD240E9A0F51537322B17CDF3C8EA441D56C ''TAS'' 6,
     token 0x415B75FC0CFC9D3A390FF8E50E5F84AE1F18A7E606 ''Test24'' 6,
     token 0x416464A7F145397A398AAF1709C03E814393F5986C ''TK'' 6,
     token 0x41A1A91E7AD3A7EA04AFE983BE462D015EC7875780 ''TK'' 6,
     token 0x41DCBFE67FBEBB1D903B5EBE5168044D77D41C372D ''TT'' 0,
     token 0x41A614F803B6FD780986A42C78EC9C7F77E6DED13C ''USDT'' 6,
     token 0x4103C6E08D49A38F074BBB6A8A863A96B916200567 ''TD'' 6,
     token 0x416DA6CFC9F54355C13D5A38288D3612D0D8AEC3C1 ''TOC'' 6,
     token 0x414B1D9A3F835CC8ECCE58B66D0670D5FCAF038C4F ''TOPIA'' 8,
     token 0x411220BBCC5248E80348D01E9B410388852B02A6EE ''TSHARE'' 6,
     token 0x41F80E8DEA758F641680AF41415DEA29B7F2B0F03C ''TRDST'' 6,
     token 0x414E0B7845B03857229F5CAECA89677186DECBC1ED ''TPS'' 8,
     token 0x41A19992476C3CC43ABB7DD0C9046BFD340A239129 ''TRVx'' 6,
     token 0x41B935F5A2C74B67D27676EC8A727023A3B9CA9263 ''T2M'' 6]"

definition TOKENS_TRC20_9 :: "tokenDefinition_t list" where
  "TOKENS_TRC20_9 =
    [token 0x41E80FBE57B748D7A8CFCE47595E4F2233F92538F9 ''TATM'' 8,
     token 0x418CB6301B8BBF24C2A9EFD46F49E39BBEF76E0BF3 ''CAT'' 6,
     token 0x41AEBB4D958A38A0F0902A908E05340A3A6D556A1E ''TCC'' 6,
     token 0x410CE5CD41768E8550B6900775CBB62685B27D5F91 ''TDH'' 6,
     token 0x419FC6E2D070D01E73474D473B32E418C7CD9D5D5B ''FUN'' 6,
     token 0x41E7F441E47A781CF4037CFB4FF5F7DBAF1964851F ''OWL'' 6,
     token 0x41BDC6E0264A2B744624D154B2A77DE2EFB12F8612 ''RUBY'' 6,
     token 0x4159C3F4B60F1516D4FB9ACB0CD32ED0B0B2C277C7 ''TSCHYBRI'' 2,
     token 0x41D04D1E320FF647C8957383C2883F88AD8E258BA9 ''SPORT'' 6,
     token 0x418BE385C9C3716E286370AA5DB4B6F397241DFDE6 ''VCOIN'' 6,
     token 0x418D0FF42A82CA54541C98759A99951D9736A5DE9F ''TWJ'' 8,
     token 0x41905AA0EEEF9032F32E802EA9752ED7F467947FD4 ''TWIN'' 6,
     token 0x41E164776CECC2641AA98E860F12CD955CA8F23938 ''TWN'' 6,
     token 0x4105AD43952386FF1591575F21FFD9F9184555008C ''WOW'' 9,
     token 0x41B48A2A84BF19AB11307B006EBF922E356A4219FE ''BABA'' 6,
     token 0x415002724B47579DCF35FB45D80021DEF05BF3378B ''TRL'' 6,
     token 0x41C012D428C9E46ABBE271745019A5E70A9917EEBC ''TNX'' 6,
     token 0x41E00F3BE64DBBDA5FF7FBF6E5ECECEE5EEA349D6C ''KOI'' 6,
     token 0x4182D6685EBCC574C91FD66A49AB24A08A062E9E6E ''TDS'' 6,
     token 0x414DDDEEA2DF254B191DF28769411E4F4E62DB3EA7 ''TWRLD'' 18,
     token 0x413B1FE156A3C97FA686D64D76E263EA41C42BAABC ''TBX'' 18,
     token 0x41137A7AAE3F3107478EAA5AD45FA8D0606AF55A74 ''TBX'' 18,
     token 0x41BB6373C0C52A31F7FDC71446C29D6D9A32F17299 ''USXT'' 6,
     token 0x41159735E7B0AFED51255E25F3891B921089AC4717 ''URT'' 18,
     token 0x41CCF8A19A826C2166B476CBEF19EDBFA7BD9AF676 ''UPDC'' 8,
     token 0x41820DC9F137BCB78003E23CF5F7A6E6B62886F135 ''VAE'' 6,
     token 0x4159D2157DDE2475B67C3C070B50344337F349B946 ''VT'' 6,
     token 0x41AE52BEDA18F64CAA31ACB751A9197AA9B8440B52 ''VET'' 6,
     token 0x41C96523DF8A26BD4107B664D9A0C6CA8472C0ACFF ''vena'' 6,
     token 0x41F98787E167517A90BFA73BEDC18C58AB46A8C44B ''VCT'' 6,
     token 0x418020B966D8C982B49D12884159B9D56C51A41A3D ''VIC'' 6,
     token 0x41EBF34837ADB3E2D93624B0130611230658E8C3F3 ''VOID'' 18,
     token 0x41CB0981E34A2BD3166951FE6EEE7BE34A747845D7 ''VB'' 6,
     token 0x4174472E7D35395A6B5ADD427EECB7F4B62AD2B071 ''WIN'' 6,
     token 0x41085016ABAB7A4376CF34E0DD925D00413281AB7D ''WINNA'' 6,
     token 0x41D3102336ECCE90F6F5E73E4F1B2CCD2B26DFDD6A ''WUXN'' 6,
     token 0x415ED41B2049E042ED0681050624B6344089D3B0CF ''WXN'' 6]"

definition TOKENS_TRC20_10 :: "tokenDefinition_t list" where
  "TOKENS_TRC20_10 =
    [token 0x413BF9FAC6424D5F711FBE6140B9B871366C2AEFE6 ''WNKR'' 6,
     token 0x41C1521A7428F9B5A9F8B5925BE7CB9A0E06C93C7B ''WAR'' 18,
     token 0x410C93D984CCD73DE34B94EBCFF9673C24CABFBE41 ''WarToken'' 6,
     token 0x41F87102FBDAB4CDB11CE12A28730682E726D9C9E2 ''RTTB'' 6,
     token 0x414C71427B46D3E66E40F2AF3FD12AA6F9D72CC3DE ''wBNKR'' 6,
     token 0x41E6D9E5A15C0D596A1897323253319FF580B13084 ''XGO'' 6,
     token 0x411F0A37466C7B28276B5D00C825FF3CE8D7E016D7 ''XGO'' 6,
     token 0x41978D3F71976803A41D515A7354E25363309224A1 ''XIO'' 6,
     token 0x419BC84FF1C528DBBD7848E6726A82A9AAB85C3425 ''Xiao'' 0,
     token 0x414872905AD4D079A9258DF390A6C98A0C6DC6E18D ''YHWH'' 6,
     token 0x41FD41347CA521936DE4C347A3DC99C854F215DFD1 ''MAN'' 3,
     token 0x41F5C395D566ADD2326AC750FFC6AD647EE2D02D25 ''YL'' 6,
     token 0x4142C1A105C8E5D9354AB81EDBB516371770A74317 ''BGG'' 18,
     token 0x418F5D8C3D3C38BC5DCAD2903CC205BE40DCEA69AA ''bruce20'' 6,
     token 0x41DF337950283D730987BA86683CFE8937DC8D8DCF ''btrt'' 6,
     token 0x410A5A39F5F9A79D8EBAC358EF5CBD90C03DEF5816 ''CHK'' 18,
     token 0x415CFA8B36DBC83C7DE31AF37C167E94CC8A81F6B7 ''jiaolo20'' 6,
     token 0x412663007E17BA5D0E0171105D133088F63A99CCCB ''NBB'' 6,
     token 0x4111B9E5894D0C74991A9F88FD0EB4C4A52DBAB241 ''ree'' 6,
     token 0x4170E9845B531956EFDA9FB4BDA5DC6FF984535B6C ''TST'' 8,
     token 0x41F6A5E76E7B212D44916659E7EBA98EDD0EA765F4 ''tGame'' 10,
     token 0x415BE5C9741B5EA8E1BE63CE72FD42F06181241D39 ''tGame'' 5,
     token 0x41302D8DFDDFF5DBAE1DD9231CC1678EFDF6C22F7F ''tGA'' 0,
     token 0x4110A13DCE33F2A780EF00A16C42801F646DC11854 ''trf'' 6,
     token 0x4154F91B1F0F6A1FF85D8E7503D8B060A371BC3A50 ''tst'' 6,
     token 0x4145E42B63FDD63C3AD6C666473A920720D3AD8ED9 ''wxn'' 6,
     token 0x41719000EC858B37991E4BFD6A60824043F04B5A36 ''WVR'' 6,
     token 0x41D4EFF5FDD951D10E3E8678055FF2BC3FDB9185CA ''GFT'' 0,
     token 0x41DEAA5F32963C919C2A5A8F8482CC8C92F504B8B2 ''BET'' 6,
     token 0x41F8ADE63F6294B1E3256C469C05A7E08AE6F1532C ''GOC'' 6,
     token 0x4160464F3A6ACCD31F9FC87C615B89B8449D5A8A25 ''BTCT'' 8,
     token 0x41AD766F594424821EF26D57B45D960860E2120CE6 ''BOOM!'' 6,
     token 0x418D222468CA88A8BDC59D0336E66CB44CE793B910 ''REWARD'' 6,
     token 0x4198F4DB2F433E98F6D897D6945747EEA27FB5979D ''FREE'' 6,
     token 0x4114183F3BBCA4AE9FC1DE55B9BBE2D071942DC1A6 ''CCT'' 6,
     token 0x41834295921A488D9D42B4B3021ED1A3C39FB0F03E ''USDJ'' 18,
     token 0x4118FD0626DAF3AF02389AEF3ED87DB9C33F638FFA ''JST'' 18]"

definition TOKENS_TRC20_11 :: "tokenDefinition_t list" where
  "TOKENS_TRC20_11 =
    [token 0x41D8B8089856CED3038601CBEB1E3F765CABC12A41 ''KLV'' 6,
     token 0x41E11CDC164A9D8C1AE19D95B0165278690D39D84B ''OKS'' 18,
     token 0x41891CDB91D149F23B1A45D9C5CA78A88D0CB44C18 ''WTRX'' 6,
     token 0x416B5151320359EC18B08607C70A3B7439AF626AA3 ''SUNOLD'' 18,
     token 0x416A6337AE47A09AEA0BBD4FAEB23CA94349C7B774 ''WBTT'' 6,
     token 0x41B4A428AB7092C2F1395F376CE297033B3BB446C1 ''SUN'' 18,
     token 0x413DFE637B2B9AE4190A458B5F3EFC1969AFE27819 ''NFT'' 6,
     token 0x413487B63D30B5B2C87FB7FFA8BCFADE38EAAC1ABE ''USDC'' 6,
     token 0x41CEBDE71077B830B958C8DA17BCDDEEB85D0BCF25 ''TUSD'' 18,
     token 0x41032017411F4663B317FE77C257D28D5CD1B26E3D ''BTT'' 18,
     token 0x4194F24E992CA04B49C6F2A2753076EF8938ED4DAA ''USDD'' 18]"

definition TOKENS_TRC20 :: "tokenDefinition_t list" where
  "TOKENS_TRC20 =
     TOKENS_TRC20_1 @ TOKENS_TRC20_2 @ TOKENS_TRC20_3 @ TOKENS_TRC20_4 @ TOKENS_TRC20_5 @ TOKENS_TRC20_6 @ TOKENS_TRC20_7 @ TOKENS_TRC20_8 @ TOKENS_TRC20_9 @ TOKENS_TRC20_10 @ TOKENS_TRC20_11"

lemmas token_blocks =
  TOKENS_TRC20_1_def TOKENS_TRC20_2_def TOKENS_TRC20_3_def TOKENS_TRC20_4_def TOKENS_TRC20_5_def TOKENS_TRC20_6_def TOKENS_TRC20_7_def TOKENS_TRC20_8_def TOKENS_TRC20_9_def TOKENS_TRC20_10_def TOKENS_TRC20_11_def

definition token_public_key :: bytes where
  "token_public_key =
    [0x04, 0x92, 0x49, 0x1c, 0x3f, 0x95, 0x4d, 0x0a, 0x2a, 0x71, 0xe7, 0xf4, 0x75,
     0xe3, 0x0f, 0xfb, 0xeb, 0x96, 0x7a, 0xaf, 0xde, 0x67, 0x8f, 0x44, 0xa3, 0xa3,
     0x26, 0x4d, 0x81, 0x3f, 0x49, 0x8d, 0x95, 0x4b, 0x3e, 0x00, 0x0f, 0x4a, 0x71,
     0xcb, 0xcd, 0xf4, 0xc9, 0x7c, 0x60, 0x9d, 0x3d, 0x20, 0x7b, 0x75, 0x13, 0x2a,
     0xee, 0x66, 0xc0, 0x84, 0x2d, 0xd8, 0xd0, 0xf6, 0xdd, 0x50, 0x54, 0xaa, 0x6c]"

section \<open>Looking a token up\<close>

text \<open>The loop of \<^verbatim>\<open>getKnownToken\<close> (\<^verbatim>\<open>src/src/parse.c\<close>), over the entries not yet tried.\<close>

primrec known_token_loop :: "tokenDefinition_t list \<Rightarrow> bytes \<Rightarrow> tokenDefinition_t option" where
  "known_token_loop [] contractAddress = None"
| "known_token_loop (t # ts) contractAddress =
     (if memeq (td_address t) contractAddress 21 then Some t else known_token_loop ts contractAddress)"

definition getKnownToken :: "bytes \<Rightarrow> tokenDefinition_t option" where
  "getKnownToken contractAddress = known_token_loop TOKENS_TRC20 contractAddress"

lemma known_token_loop_find: "known_token_loop ts a = find (\<lambda>t. memeq (td_address t) a 21) ts"
  by (induction ts) auto

interpretation tokens: address_table TOKENS_TRC20 td_address getKnownToken
  by unfold_locales (simp add: getKnownToken_def known_token_loop_find)

section \<open>What the table promises\<close>

text \<open>
  The members of an entry fit the struct: 21 bytes of address, a ticker that leaves room for its NUL in
  \<^verbatim>\<open>char ticker[10]\<close>, and a precision no larger than \<^verbatim>\<open>MAX_TOKEN_PRECISION\<close>.
\<close>

definition wf_token :: "tokenDefinition_t \<Rightarrow> bool" where
  "wf_token t \<longleftrightarrow> length (td_address t) = 21 \<and> length (td_ticker t) \<le> 9 \<and> 0 \<notin> set (td_ticker t) \<and>
     unat (td_decimals t) \<le> 18"

lemma length_be_bytes [simp]: "length (be_bytes n v) = n"
  by (induction n arbitrary: v) simp_all

lemma be_val_be_bytes: "v < 256 ^ n \<Longrightarrow> be_val (be_bytes n v) = v"
proof (induction n arbitrary: v)
  case (Suc n)
  have "v div 256 < 256 ^ n" using Suc.prems by (simp add: div_less_iff_less_mult)
  moreover have "unat (of_nat (v mod 256) :: u8) = v mod 256" by (simp add: unat_of_nat)
  ultimately show ?case using Suc.IH [of "v div 256"] by simp
qed simp

lemma wf_token_entry:
  "wf_token (token a t d) \<longleftrightarrow> length t \<le> 9 \<and> 0 \<notin> set (chars t) \<and> unat d \<le> 18"
  by (simp add: wf_token_def token_def)

lemma wf_tokens_1: "\<forall>t \<in> set TOKENS_TRC20_1. wf_token t"
  by (simp add: TOKENS_TRC20_1_def wf_token_entry chars_def)

lemma wf_tokens_2: "\<forall>t \<in> set TOKENS_TRC20_2. wf_token t"
  by (simp add: TOKENS_TRC20_2_def wf_token_entry chars_def)

lemma wf_tokens_3: "\<forall>t \<in> set TOKENS_TRC20_3. wf_token t"
  by (simp add: TOKENS_TRC20_3_def wf_token_entry chars_def)

lemma wf_tokens_4: "\<forall>t \<in> set TOKENS_TRC20_4. wf_token t"
  by (simp add: TOKENS_TRC20_4_def wf_token_entry chars_def)

lemma wf_tokens_5: "\<forall>t \<in> set TOKENS_TRC20_5. wf_token t"
  by (simp add: TOKENS_TRC20_5_def wf_token_entry chars_def)

lemma wf_tokens_6: "\<forall>t \<in> set TOKENS_TRC20_6. wf_token t"
  by (simp add: TOKENS_TRC20_6_def wf_token_entry chars_def)

lemma wf_tokens_7: "\<forall>t \<in> set TOKENS_TRC20_7. wf_token t"
  by (simp add: TOKENS_TRC20_7_def wf_token_entry chars_def)

lemma wf_tokens_8: "\<forall>t \<in> set TOKENS_TRC20_8. wf_token t"
  by (simp add: TOKENS_TRC20_8_def wf_token_entry chars_def)

lemma wf_tokens_9: "\<forall>t \<in> set TOKENS_TRC20_9. wf_token t"
  by (simp add: TOKENS_TRC20_9_def wf_token_entry chars_def)

lemma wf_tokens_10: "\<forall>t \<in> set TOKENS_TRC20_10. wf_token t"
  by (simp add: TOKENS_TRC20_10_def wf_token_entry chars_def)

lemma wf_tokens_11: "\<forall>t \<in> set TOKENS_TRC20_11. wf_token t"
  by (simp add: TOKENS_TRC20_11_def wf_token_entry chars_def)

lemma wf_tokens: "t \<in> set TOKENS_TRC20 \<Longrightarrow> wf_token t"
  unfolding TOKENS_TRC20_def set_append Un_iff
  using wf_tokens_1 wf_tokens_2 wf_tokens_3 wf_tokens_4 wf_tokens_5 wf_tokens_6 wf_tokens_7 wf_tokens_8 wf_tokens_9 wf_tokens_10 wf_tokens_11
  by blast

lemma getKnownToken_wf: "getKnownToken a = Some t \<Longrightarrow> wf_token t \<and> memeq (td_address t) a 21"
  using tokens.lookup_sound wf_tokens by blast

end
