(* ===== verification/Known_Services.thy ===== *)
theory Known_Services
  imports Tokens
begin

text \<open>
  The addresses the application labels on the screen, \<^verbatim>\<open>src/src/known_services.c\<close>.
\<close>

record s_known_service =
  ks_addresses :: "bytes list"
  ks_label :: bytes

definition TRONIFY_ADDRESSES :: "bytes list" where
  "TRONIFY_ADDRESSES =
    map (be_bytes 21)
    [0x4129228E5D382B7A2C2A0DBC05E6D6507F4DBB3BBE,
     0x4199AA4FB789B27F45C9C5293260F922DDA046014B,
     0x41E18346770A4409732B63E57ABE70D347114E49BC,
     0x41EB7CA810D10C589EE078597F13B1C22954E31DF1,
     0x41EA9CE6DB8F7DF44100D6F8524AC2FC3392631A84,
     0x41DFE0AF787123BD13E4A7A3EC99E985D31241ADFD,
     0x41E65CF71BA0BF890220375EBE86E75963F82BF5E9,
     0x4164711525D0966EFA58F1FD3D3F25A6B70B2FE2CD,
     0x41A77E8341237A1716955E1F743511AF1683380F39,
     0x41032EC34A19866A1238E70804BCAE0C205E65C37C,
     0x411FC485359EC5C145F890AA8A835CDAF113E7A17F,
     0x41ECB6EDFFB5ED8CBDB5FA1B81D4700F748C62151F,
     0x41E7697A99C30037DAAB107CD4E9674063954EBE74,
     0x41074AA564A07D0C457E3D877163B6A1570E90B704,
     0x41C888B36E17958E39140051EB5D8CBC1B5C109D6D,
     0x41ED2957992C1D99691ACDD3E6D0E8716F5D59329C,
     0x41316849C2DC74F3063108D8E5C92F7C71B8B37E9F,
     0x419120B519CE1B8C555C03C8C0B5531F6C152BDD88,
     0x41B0CEE39B9A432660942E7C4553B97177733333C1,
     0x415FF9F9A19ACA9181EE4827CCDA5F0312F2A87C03,
     0x41D3F5DA305DE26DCADA4F1769B61EDDFA76177868,
     0x41F451E86257BC9B64B6EBC5AEFD1CB93576C7C7AB,
     0x41356230B6BFCB9A39E48FA09F5F025D92DAE8AEE1,
     0x417DAF06FF4A8E6AD0726BECC558BF444F31AD543C,
     0x4165CCCBC41A3E2155476B22C5089E75CF4322DA1C,
     0x41F3944D500F000E284035EEA8F938621DDCF23F9E,
     0x4110D7190FAB176462ABFF6205D47569BA659FC038,
     0x4106CD93C19DCB15A87076551B81EB6EAB6A793E9B,
     0x41F3D8A81CD8475D264B1291F81BBB1FED123F0FEC,
     0x4168D49AB988623E8C70D560DCBF9BF0A6556FF79F,
     0x415099AD752A7CA01A210F9B8A84DAAD9228ACB4C3,
     0x411BC404572F7B26728B71F22B65EB3E64D73FE51B,
     0x41693D9E8E1793C2F8BAA0A3D7A747F0B56DAFEA65,
     0x419049DAB8C6CDEB35C1F9353F64092C95DC14953B,
     0x413DF9FE0691DB2006380F2172D5A638515DC13292,
     0x41AE89EC61160EA246C62EE335694CFA013397D701,
     0x41ED23F1799B39518E27A1CAB5C69EA47F604A8CD5,
     0x413B038A44B133FA8E05A1FD80D0E3F96372BEA442,
     0x4154EF76739BDA48DDA2C47402D88E9BFB352DA507,
     0x41AD9F638BFE3CD672F6977CECD03E415AC66894B7,
     0x41996B90BC2BDC5BCFDF154AE6DD34988C17CCAF78,
     0x417B642ED6913AF0CB77B7FA094C647613CE196E34,
     0x41E4D291485A1FBD308454F9310289EDEF963E90FA,
     0x41CD6D9F6B6A0E33D51D84ADF0F2BD782673D6A86D,
     0x41357AEBEB705FC005D461F97258B8E8A40E03F7E8,
     0x418218E3E50AD6D75B1D0560DA39E59BA11803A86E,
     0x41CA9DDCE47B18D52210D702FFBBB2DFF816C47F04]"

definition KNOWN_SERVICES :: "s_known_service list" where
  "KNOWN_SERVICES =
    [\<lparr>ks_addresses = TRONIFY_ADDRESSES, ks_label = chars ''Energy rental - Tronify''\<rparr>]"

primrec service_addresses_loop :: "bytes list \<Rightarrow> bytes \<Rightarrow> bool" where
  "service_addresses_loop [] raw_address = False"
| "service_addresses_loop (a # as) raw_address = (memeq raw_address a 21 \<or> service_addresses_loop as raw_address)"

primrec known_services_loop :: "s_known_service list \<Rightarrow> bytes \<Rightarrow> bytes option" where
  "known_services_loop [] raw_address = None"
| "known_services_loop (s # ss) raw_address =
     (if service_addresses_loop (ks_addresses s) raw_address then Some (ks_label s)
      else known_services_loop ss raw_address)"

text \<open>The callers never pass a null pointer.\<close>

definition get_known_service_label :: "bytes \<Rightarrow> bytes option" where
  "get_known_service_label raw_address = known_services_loop KNOWN_SERVICES raw_address"

section \<open>The services as a table of addresses\<close>

definition service_entries :: "(bytes \<times> bytes) list" where
  "service_entries = concat (map (\<lambda>s. map (\<lambda>a. (a, ks_label s)) (ks_addresses s)) KNOWN_SERVICES)"

lemma service_addresses_loop_iff: "service_addresses_loop as r \<longleftrightarrow> (\<exists>a \<in> set as. memeq r a 21)"
  by (induction as) auto

lemma find_append: "find P (xs @ ys) = (case find P xs of None \<Rightarrow> find P ys | Some x \<Rightarrow> Some x)"
  by (induction xs) auto

lemma find_service_block:
  "map_option snd (find (\<lambda>e. memeq (fst e) r 21) (map (\<lambda>a. (a, l)) as)) =
     (if service_addresses_loop as r then Some l else None)"
  by (induction as) (auto simp: memeq_def)

lemma known_services_loop_find:
  "known_services_loop ss r =
     map_option snd (find (\<lambda>e. memeq (fst e) r 21) (concat (map (\<lambda>s. map (\<lambda>a. (a, ks_label s)) (ks_addresses s)) ss)))"
proof (induction ss)
  case (Cons s ss)
  then show ?case
    using find_service_block [of r "ks_label s" "ks_addresses s"]
    by (auto simp: find_append split: option.splits if_splits)
qed simp

definition get_known_service :: "bytes \<Rightarrow> (bytes \<times> bytes) option" where
  "get_known_service r = find (\<lambda>e. memeq (fst e) r 21) service_entries"

lemma get_known_service_label_eq: "get_known_service_label r = map_option snd (get_known_service r)"
  by (simp add: get_known_service_label_def get_known_service_def service_entries_def known_services_loop_find)

interpretation services: address_table service_entries fst get_known_service
  by unfold_locales (simp add: get_known_service_def)

lemma known_service_label_sound:
  "get_known_service_label r = Some l \<Longrightarrow> (\<exists>a \<in> set TRONIFY_ADDRESSES. memeq a r 21) \<and> l = chars ''Energy rental - Tronify''"
  using services.lookup_sound [of r]
  by (auto simp: get_known_service_label_eq service_entries_def KNOWN_SERVICES_def)

end
