(* ===== verification/Contacts.thy ===== *)
theory Contacts
  imports Known_Services
begin

text \<open>
  The contact store of the address book: \<^verbatim>\<open>src/src/addr_book/handle_contacts.c\<close> and the entry points of
  \<^verbatim>\<open>handle_identity.c\<close> and \<^verbatim>\<open>handle_ledger_account.c\<close> that change it. The linked list is the list of its
  nodes. Whether an allocation succeeds is decided by the caller of the model (\<open>mem\<close>); the sizes of the
  name members are those of the SDK's headers and a parameter too.
\<close>

section \<open>Data\<close>

datatype ab_contact_type_e = AB_CONTACT_IDENTITY | AB_CONTACT_LEDGER_ACCOUNT

record s_ab_contact =
  ab_type :: ab_contact_type_e
  ab_contact_name :: bytes
  ab_scope :: bytes
  ab_identifier :: bytes

type_synonym contact_list = "s_ab_contact list"

text \<open>The members of the SDK's \<^verbatim>\<open>identity_t\<close> and \<^verbatim>\<open>ledger_account_t\<close> that the code reads.\<close>

record identity_t =
  id_family_tron :: bool
  id_contact_name :: bytes
  id_scope :: bytes
  id_identifier_len :: nat
  id_identifier :: bytes

record ledger_account_t =
  la_family_tron :: bool
  la_account_name :: bytes
  la_path :: "u32 list"

record ab_sizes =
  CONTACT_NAME_LENGTH :: nat
  SCOPE_LENGTH :: nat

section \<open>The store\<close>

definition ab_contact_list_push :: "contact_list \<Rightarrow> s_ab_contact \<Rightarrow> contact_list" where
  "ab_contact_list_push l node = l @ [node]"

definition address_book_contact_cleanup :: "contact_list \<Rightarrow> contact_list" where
  "address_book_contact_cleanup l = []"

primrec get_address_book_contact :: "contact_list \<Rightarrow> bytes \<Rightarrow> s_ab_contact option" where
  "get_address_book_contact [] addr = None"
| "get_address_book_contact (tmp # l) addr =
     (if memeq (ab_identifier tmp) addr 21 then Some tmp else get_address_book_contact l addr)"

text \<open>\<^verbatim>\<open>strncmp(a, b, n) == 0\<close>.\<close>

definition strneq :: "bytes \<Rightarrow> bytes \<Rightarrow> nat \<Rightarrow> bool" where
  "strneq a b n \<longleftrightarrow> take n (cstr a) = take n (cstr b)"

primrec update_contact_name :: "ab_sizes \<Rightarrow> contact_list \<Rightarrow> bytes \<Rightarrow> bytes \<Rightarrow> contact_list" where
  "update_contact_name sz [] old_name new_name = []"
| "update_contact_name sz (node # l) old_name new_name =
     (if ab_type node = AB_CONTACT_IDENTITY \<and> strneq (ab_contact_name node) old_name (CONTACT_NAME_LENGTH sz)
      then node\<lparr>ab_contact_name := strlcpy (ab_contact_name node) new_name (CONTACT_NAME_LENGTH sz)\<rparr>
      else node) # update_contact_name sz l old_name new_name"

primrec update_contact_identifier :: "contact_list \<Rightarrow> bytes \<Rightarrow> bytes \<Rightarrow> contact_list" where
  "update_contact_identifier [] old_addr new_addr = []"
| "update_contact_identifier (node # l) old_addr new_addr =
     (if ab_type node = AB_CONTACT_IDENTITY \<and> memeq (ab_identifier node) old_addr 21
      then node\<lparr>ab_identifier := buf_write (ab_identifier node) 0 (take 21 new_addr)\<rparr> # l
      else node # update_contact_identifier l old_addr new_addr)"

primrec update_contact_scope :: "ab_sizes \<Rightarrow> contact_list \<Rightarrow> bytes \<Rightarrow> bytes \<Rightarrow> contact_list" where
  "update_contact_scope sz [] addr new_scope = []"
| "update_contact_scope sz (node # l) addr new_scope =
     (if ab_type node = AB_CONTACT_IDENTITY \<and> memeq (ab_identifier node) addr 21
      then node\<lparr>ab_scope := strlcpy (ab_scope node) new_scope (SCOPE_LENGTH sz)\<rparr> # l
      else node # update_contact_scope sz l addr new_scope)"

primrec update_ledger_account_contact_name :: "ab_sizes \<Rightarrow> contact_list \<Rightarrow> bytes \<Rightarrow> bytes \<Rightarrow> contact_list" where
  "update_ledger_account_contact_name sz [] addr new_name = []"
| "update_ledger_account_contact_name sz (node # l) addr new_name =
     (if ab_type node = AB_CONTACT_LEDGER_ACCOUNT \<and> memeq (ab_identifier node) addr 21
      then node\<lparr>ab_contact_name := strlcpy (ab_contact_name node) new_name (CONTACT_NAME_LENGTH sz)\<rparr> # l
      else node # update_ledger_account_contact_name sz l addr new_name)"

section \<open>Entry points\<close>

definition is_valid_tron_identifier :: "identity_t \<Rightarrow> bool" where
  "is_valid_tron_identifier i \<longleftrightarrow>
     id_family_tron i \<and> id_identifier_len i = 21 \<and> id_identifier i ! 0 = 0x41"

text \<open>The memory the SDK returns for a node is zeroed.\<close>

definition handle_provide_identity ::
  "ab_sizes \<Rightarrow> bool \<Rightarrow> contact_list \<Rightarrow> identity_t \<Rightarrow> bool \<times> contact_list" where
  "handle_provide_identity sz mem l contact =
     (if \<not> is_valid_tron_identifier contact then (False, l)
      else if get_address_book_contact l (id_identifier contact) \<noteq> None then (True, l)
      else if \<not> mem then (False, l)
      else
        (True, ab_contact_list_push l
           \<lparr>ab_type = AB_CONTACT_IDENTITY,
            ab_contact_name =
              strlcpy (replicate (CONTACT_NAME_LENGTH sz) 0) (id_contact_name contact) (CONTACT_NAME_LENGTH sz),
            ab_scope = strlcpy (replicate (SCOPE_LENGTH sz) 0) (id_scope contact) (SCOPE_LENGTH sz),
            ab_identifier = take 21 (id_identifier contact)\<rparr>))"

text \<open>\<^verbatim>\<open>derive_tron_address\<close> is a parameter: it returns the 21-byte address of a path, or fails.\<close>

definition handle_provide_ledger_account ::
  "ab_sizes \<Rightarrow> (u32 list \<Rightarrow> bytes option) \<Rightarrow> bool \<Rightarrow> contact_list \<Rightarrow> ledger_account_t \<Rightarrow> bool \<times> contact_list" where
  "handle_provide_ledger_account sz derive_tron_address mem l account =
     (if \<not> la_family_tron account then (False, l)
      else
        case derive_tron_address (la_path account) of
          None \<Rightarrow> (False, l)
        | Some address \<Rightarrow>
            if (case get_address_book_contact l address of
                  Some existing \<Rightarrow> ab_type existing = AB_CONTACT_LEDGER_ACCOUNT
                | None \<Rightarrow> False)
            then (True, l)
            else if \<not> mem then (False, l)
            else
              (True, ab_contact_list_push l
                 \<lparr>ab_type = AB_CONTACT_LEDGER_ACCOUNT,
                  ab_contact_name =
                    strlcpy (replicate (CONTACT_NAME_LENGTH sz) 0) (la_account_name account) (CONTACT_NAME_LENGTH sz),
                  ab_scope = replicate (SCOPE_LENGTH sz) 0,
                  ab_identifier = take 21 address\<rparr>))"

section \<open>The store as a table of addresses\<close>

lemma get_address_book_contact_find:
  "get_address_book_contact l a = find (\<lambda>c. memeq (ab_identifier c) a 21) l"
  by (induction l) auto

interpretation contacts: address_table l ab_identifier "get_address_book_contact l" for l
  by unfold_locales (rule get_address_book_contact_find)

text \<open>Every address in the store has 21 bytes and every text is NUL-terminated in its array.\<close>

definition wf_contact :: "ab_sizes \<Rightarrow> s_ab_contact \<Rightarrow> bool" where
  "wf_contact sz c \<longleftrightarrow> length (ab_identifier c) = 21 \<and>
     length (ab_contact_name c) = CONTACT_NAME_LENGTH sz \<and> 0 \<in> set (ab_contact_name c) \<and>
     length (ab_scope c) = SCOPE_LENGTH sz \<and> 0 \<in> set (ab_scope c)"

lemma strlcpy_NUL: "0 < n \<Longrightarrow> 0 \<in> set (strlcpy out src n)"
  by (simp add: strlcpy_def buf_write_def)

abbreviation wf_contacts :: "ab_sizes \<Rightarrow> contact_list \<Rightarrow> bool" where
  "wf_contacts sz l \<equiv> list_all (wf_contact sz) l"

lemma wf_contact_rename:
  "wf_contact sz c \<Longrightarrow> 0 < CONTACT_NAME_LENGTH sz \<Longrightarrow>
   wf_contact sz (c\<lparr>ab_contact_name := strlcpy (ab_contact_name c) new (CONTACT_NAME_LENGTH sz)\<rparr>)"
  by (simp add: wf_contact_def length_strlcpy strlcpy_NUL)

lemma wf_contact_rescope:
  "wf_contact sz c \<Longrightarrow> 0 < SCOPE_LENGTH sz \<Longrightarrow>
   wf_contact sz (c\<lparr>ab_scope := strlcpy (ab_scope c) new (SCOPE_LENGTH sz)\<rparr>)"
  by (simp add: wf_contact_def length_strlcpy strlcpy_NUL)

lemma wf_contact_move:
  "wf_contact sz c \<Longrightarrow> length new = 21 \<Longrightarrow>
   wf_contact sz (c\<lparr>ab_identifier := buf_write (ab_identifier c) 0 new\<rparr>)"
  by (simp add: wf_contact_def buf_write_def)

lemma wf_update_contact_name:
  "0 < CONTACT_NAME_LENGTH sz \<Longrightarrow> wf_contacts sz l \<Longrightarrow> wf_contacts sz (update_contact_name sz l old new)"
  by (induction l) (simp_all add: wf_contact_rename)

lemma wf_update_contact_identifier:
  "21 \<le> length new \<Longrightarrow> wf_contacts sz l \<Longrightarrow> wf_contacts sz (update_contact_identifier l old new)"
  by (induction l) (simp_all add: wf_contact_move)

lemma wf_update_contact_scope:
  "0 < SCOPE_LENGTH sz \<Longrightarrow> wf_contacts sz l \<Longrightarrow> wf_contacts sz (update_contact_scope sz l a new)"
  by (induction l) (simp_all add: wf_contact_rescope)

lemma wf_update_ledger_account_contact_name:
  "0 < CONTACT_NAME_LENGTH sz \<Longrightarrow> wf_contacts sz l \<Longrightarrow>
   wf_contacts sz (update_ledger_account_contact_name sz l a new)"
  by (induction l) (simp_all add: wf_contact_rename)

lemma lookup_push_old: "get_address_book_contact l a = Some c \<Longrightarrow> get_address_book_contact (l @ [n]) a = Some c"
  by (induction l) (auto split: if_splits)

lemma lookup_push_new:
  "get_address_book_contact l a = None \<Longrightarrow>
   get_address_book_contact (l @ [n]) a = (if memeq (ab_identifier n) a 21 then Some n else None)"
  by (induction l) (auto split: if_splits)

section \<open>Properties\<close>

text \<open>C29: Providing an identity stores its address once and changes nothing else: the store keeps its nodes in their
  order and gains at most one; a call that succeeds for an address that is not in the store adds exactly one node,
  with this address, the provided name and the provided scope, each cut to its member, and from then on the lookup
  finds it; for an address in the store, by an identity or by an account, nothing is added. Every address already in
  the store stands for the same contact as before. A call is refused exactly for an identifier of another chain, of a
  wrong length or without the mainnet prefix, or when there is no memory for a new node, and then leaves the store as
  it was.\<close>

theorem provide_identity_correct:
  assumes "handle_provide_identity sz mem l i = (ok, l')" "21 \<le> length (id_identifier i)"
    "0 < CONTACT_NAME_LENGTH sz" "0 < SCOPE_LENGTH sz"
  defines "stored \<equiv> \<lambda>l. length (filter (\<lambda>n. memeq (ab_identifier n) (id_identifier i) 21) l)"
  shows "(ok \<and> stored l = 0 \<longrightarrow>
      (\<exists>n. l' = l @ [n] \<and> stored l' = 1 \<and> get_address_book_contact l' (id_identifier i) = Some n \<and>
         ab_type n = AB_CONTACT_IDENTITY \<and> ab_identifier n = take 21 (id_identifier i) \<and>
         cstr (ab_contact_name n) = take (CONTACT_NAME_LENGTH sz - 1) (cstr (id_contact_name i)) \<and>
         cstr (ab_scope n) = take (SCOPE_LENGTH sz - 1) (cstr (id_scope i)))) \<and>
    (\<not> ok \<or> stored l \<noteq> 0 \<longrightarrow> l' = l) \<and>
    (ok \<longleftrightarrow> is_valid_tron_identifier i \<and> (stored l \<noteq> 0 \<or> mem)) \<and>
    (ok \<longrightarrow> get_address_book_contact l' (id_identifier i) \<noteq> None) \<and>
    (\<forall>a c. get_address_book_contact l a = Some c \<longrightarrow> get_address_book_contact l' a = Some c)"
proof -
  have none: "stored l = 0 \<longleftrightarrow> get_address_book_contact l (id_identifier i) = None"
    unfolding stored_def by (induction l) auto
  consider (bad) "\<not> is_valid_tron_identifier i" | (known) c where "is_valid_tron_identifier i"
      "get_address_book_contact l (id_identifier i) = Some c"
    | (nomem) "is_valid_tron_identifier i" "get_address_book_contact l (id_identifier i) = None" "\<not> mem"
    | (push) "is_valid_tron_identifier i" "get_address_book_contact l (id_identifier i) = None" mem
    by (cases "get_address_book_contact l (id_identifier i)") auto
  then show ?thesis
  proof cases
    case push
    define n where "n = \<lparr>ab_type = AB_CONTACT_IDENTITY,
            ab_contact_name =
              strlcpy (replicate (CONTACT_NAME_LENGTH sz) 0) (id_contact_name i) (CONTACT_NAME_LENGTH sz),
            ab_scope = strlcpy (replicate (SCOPE_LENGTH sz) 0) (id_scope i) (SCOPE_LENGTH sz),
            ab_identifier = take 21 (id_identifier i)\<rparr>"
    have l': "ok" "l' = l @ [n]"
      using assms(1) push by (simp_all add: handle_provide_identity_def ab_contact_list_push_def n_def)
    have n: "ab_identifier n = take 21 (id_identifier i)"
      "cstr (ab_contact_name n) = take (CONTACT_NAME_LENGTH sz - 1) (cstr (id_contact_name i))"
      "cstr (ab_scope n) = take (SCOPE_LENGTH sz - 1) (cstr (id_scope i))" "ab_type n = AB_CONTACT_IDENTITY"
      using assms(2-4) by (simp_all add: n_def cstr_strlcpy)
    have "get_address_book_contact l' (id_identifier i) = Some n"
      using lookup_push_new [OF push(2), of n] n(1) by (simp add: l'(2) memeq_def)
    moreover have "stored l' = Suc (stored l)" using n(1) by (simp add: l'(2) stored_def memeq_def)
    ultimately show ?thesis using push n l' lookup_push_old [of l _ _ n] none by simp
  qed (use assms(1) none in \<open>simp_all add: handle_provide_identity_def\<close>)
qed

theorem provide_identity_correct_witness:
  "get_address_book_contact
     (snd (handle_provide_identity \<lparr>CONTACT_NAME_LENGTH = 33, SCOPE_LENGTH = 33\<rparr> True []
        \<lparr>id_family_tron = True, id_contact_name = chars ''Bob'', id_scope = [], id_identifier_len = 21,
         id_identifier = replicate 21 0x41\<rparr>)) (replicate 21 0x41) \<noteq> None"
proof -
  let ?sz = "\<lparr>CONTACT_NAME_LENGTH = 33, SCOPE_LENGTH = 33\<rparr>"
  let ?i = "\<lparr>id_family_tron = True, id_contact_name = chars ''Bob'', id_scope = [], id_identifier_len = 21,
         id_identifier = replicate 21 0x41\<rparr>"
  have ok: "fst (handle_provide_identity ?sz True [] ?i)"
    by (simp add: handle_provide_identity_def is_valid_tron_identifier_def)
  have "handle_provide_identity ?sz True [] ?i =
      (fst (handle_provide_identity ?sz True [] ?i), snd (handle_provide_identity ?sz True [] ?i))" by simp
  from provide_identity_correct [OF this] ok show ?thesis by simp
qed

text \<open>C33: The address is not unique in the contact list, although the update functions stop at the
  first match because they rely on it: when an identity is stored for one of the device's own addresses,
  every further \<^verbatim>\<open>handle_provide_ledger_account\<close> for that address stores another node, since the
  duplicate test only looks at the type of the first match.\<close>

theorem ledger_account_duplicates:
  assumes "get_address_book_contact l a = Some c" "ab_type c = AB_CONTACT_IDENTITY"
    "la_family_tron acc" "derive (la_path acc) = Some a" "length a = 21"
  shows "fst (handle_provide_ledger_account sz derive True l acc) \<and>
    length (filter (\<lambda>n. memeq (ab_identifier n) a 21) (snd (handle_provide_ledger_account sz derive True l acc))) =
      Suc (length (filter (\<lambda>n. memeq (ab_identifier n) a 21) l)) \<and>
    get_address_book_contact (snd (handle_provide_ledger_account sz derive True l acc)) a = Some c"
  using assms lookup_push_old [OF assms(1)]
  by (simp add: handle_provide_ledger_account_def ab_contact_list_push_def memeq_def)

theorem ledger_account_duplicates_witness:
  "\<exists>l acc. length (filter (\<lambda>n. memeq (ab_identifier n) (replicate 21 0x41) 21)
     (snd (handle_provide_ledger_account \<lparr>CONTACT_NAME_LENGTH = 33, SCOPE_LENGTH = 33\<rparr>
        (\<lambda>_. Some (replicate 21 0x41)) True l acc))) = 2"
proof -
  let ?c = "\<lparr>ab_type = AB_CONTACT_IDENTITY, ab_contact_name = replicate 33 0, ab_scope = replicate 33 0,
      ab_identifier = replicate 21 0x41\<rparr>"
  let ?acc = "\<lparr>la_family_tron = True, la_account_name = [], la_path = []\<rparr>"
  have "length (filter (\<lambda>n. memeq (ab_identifier n) (replicate 21 0x41) 21)
     (snd (handle_provide_ledger_account \<lparr>CONTACT_NAME_LENGTH = 33, SCOPE_LENGTH = 33\<rparr>
        (\<lambda>_. Some (replicate 21 0x41)) True [?c] ?acc))) =
      Suc (length (filter (\<lambda>n. memeq (ab_identifier n) (replicate 21 0x41) 21) [?c]))"
    using ledger_account_duplicates [of "[?c]" "replicate 21 0x41" ?c ?acc "\<lambda>_. Some (replicate 21 0x41)"]
    by (simp add: memeq_def)
  then show ?thesis by (intro exI [of _ "[?c]"] exI [of _ ?acc]) (simp add: memeq_def)
qed

end
