(* ===== verification/App_State.thy ===== *)
theory App_State
  imports Amount Messages Known_Services Contacts
begin

text \<open>
  The global state of the application: the structures of \<^verbatim>\<open>src/src/parse.h\<close>, the globals of
  \<^verbatim>\<open>src/src/ui/ui_globals.c\<close>, \<^verbatim>\<open>app_main.c\<close> and the handlers, the settings byte of \<^verbatim>\<open>settings.h\<close>, and the
  functions of the Ledger SDK the application calls, which are a parameter of the model.
\<close>

section \<open>The SDK\<close>

text \<open>
  One member per SDK service. A hash function takes everything hashed since its initialisation;
  \<open>base58_encode\<close> and \<open>format_hex\<close> return the characters written for an input and the size of the
  output buffer, or fail; signing and key derivation take the path and may fail. \<open>cx_keccak_call\<close> says of the pieces
  hashed so far whether the last of these calls, the initialisation when there is none, returned \<^verbatim>\<open>CX_OK\<close>; it is asked only
  where the code tests the result itself. \<open>enum_size\<close> is the size
  the compiler gives to the enumerations of the protocol-buffer headers, \<open>max_printable_amount_size\<close> the
  SDK's \<^verbatim>\<open>MAX_PRINTABLE_AMOUNT_SIZE\<close>.
\<close>

record sdk =
  cx_sha256 :: "bytes \<Rightarrow> bytes"
  cx_keccak256 :: "bytes \<Rightarrow> bytes"
  cx_keccak_call :: "bytes list \<Rightarrow> bool"
  base58_encode :: "bytes \<Rightarrow> nat \<Rightarrow> bytes option"
  format_hex :: "bytes \<Rightarrow> nat \<Rightarrow> bytes option"
  cx_ecdsa_verify :: "bytes \<Rightarrow> bytes \<Rightarrow> bytes \<Rightarrow> bool"
  bip32_derive_get_pubkey :: "u32 list \<Rightarrow> (bytes \<times> bytes) option"
  bip32_derive_ecdsa_sign_rs :: "u32 list \<Rightarrow> bytes \<Rightarrow> (bytes \<times> bytes \<times> bool) option"
  ecdsa_sign_der :: "u32 list \<Rightarrow> bytes \<Rightarrow> (bytes \<times> bool) option"
  cx_ecdh :: "u32 list \<Rightarrow> bytes \<Rightarrow> bytes option"
  swap_parse_config :: "bytes \<Rightarrow> nat \<Rightarrow> (bytes \<times> u8) option"
  max_printable_amount_size :: nat
  enum_size :: nat
  app_version :: bytes
  ab_sizes_of :: ab_sizes

text \<open>
  A DER signature: two integers of at most 32 significant bytes, each with a leading zero byte if it
  needs 33.
\<close>

definition der_int :: "bytes \<Rightarrow> bool" where
  "der_int x \<longleftrightarrow> x \<noteq> [] \<and> (length x \<le> 32 \<or> length x = 33 \<and> hd x = 0)"

definition der_signature :: "bytes \<Rightarrow> bytes \<Rightarrow> bytes" where
  "der_signature r s =
     [0x30, of_nat (length r + length s + 4), 0x02, of_nat (length r)] @ r @ [0x02, of_nat (length s)] @ s"

text \<open>
  What the application relies on: digests have 32 bytes, encoded text fits its buffer and has no NUL in
  it, a mainnet address with its checksum has exactly 34 base58 characters, hexadecimal text has two
  characters per byte and is written if it fits with its NUL, key material has its documented size, ECDSA signatures are DER, the
  members for the names of contacts have room for a NUL, and the size of printable amounts is a positive
  31-bit number.
\<close>

definition sdk_ok :: "sdk \<Rightarrow> bool" where
  "sdk_ok k \<longleftrightarrow>
     (\<forall>m. length (cx_sha256 k m) = 32) \<and> (\<forall>m. length (cx_keccak256 k m) = 32) \<and>
     (\<forall>m n t. base58_encode k m n = Some t \<longrightarrow> length t \<le> n \<and> 0 \<notin> set t) \<and>
     (\<forall>m. length m = 25 \<and> m ! 0 = 0x41 \<longrightarrow> (\<exists>t. base58_encode k m 34 = Some t \<and> length t = 34)) \<and>
     (\<forall>m n t. format_hex k m n = Some t \<longrightarrow> length t < n \<and> 0 \<notin> set t) \<and>
     (\<forall>m n. 2 * length m < n \<longrightarrow> (\<exists>t. format_hex k m n = Some t)) \<and>
     (\<forall>p pub chain. bip32_derive_get_pubkey k p = Some (pub, chain) \<longrightarrow> length pub = 65 \<and> length chain = 32) \<and>
     (\<forall>p h r s par. bip32_derive_ecdsa_sign_rs k p h = Some (r, s, par) \<longrightarrow> length r = 32 \<and> length s = 32) \<and>
     (\<forall>p q x. cx_ecdh k p q = Some x \<longrightarrow> length x = 65) \<and>
     (\<forall>p h sig par. ecdsa_sign_der k p h = Some (sig, par) \<longrightarrow> (\<exists>r s. der_int r \<and> der_int s \<and> sig = der_signature r s)) \<and>
     0 < CONTACT_NAME_LENGTH (ab_sizes_of k) \<and> 0 < SCOPE_LENGTH (ab_sizes_of k) \<and>
     0 < max_printable_amount_size k \<and> max_printable_amount_size k < 2 ^ 31 \<and>
     enum_size k \<in> {1, 4} \<and> length (app_version k) = 3"

lemma sdk_laws:
  assumes "sdk_ok k"
  shows "\<forall>m. length (cx_sha256 k m) = 32"
    "\<forall>m. length (cx_keccak256 k m) = 32"
    "\<forall>m n t. base58_encode k m n = Some t \<longrightarrow> length t \<le> n \<and> 0 \<notin> set t"
    "\<forall>m. length m = 25 \<and> m ! 0 = 0x41 \<longrightarrow> (\<exists>t. base58_encode k m 34 = Some t \<and> length t = 34)"
    "\<forall>m n t. format_hex k m n = Some t \<longrightarrow> length t < n \<and> 0 \<notin> set t"
    "\<forall>m n. 2 * length m < n \<longrightarrow> (\<exists>t. format_hex k m n = Some t)"
    "\<forall>p pub chain. bip32_derive_get_pubkey k p = Some (pub, chain) \<longrightarrow> length pub = 65 \<and> length chain = 32"
    "\<forall>p h r s par. bip32_derive_ecdsa_sign_rs k p h = Some (r, s, par) \<longrightarrow> length r = 32 \<and> length s = 32"
    "\<forall>p q x. cx_ecdh k p q = Some x \<longrightarrow> length x = 65"
    "\<forall>p h sig par. ecdsa_sign_der k p h = Some (sig, par) \<longrightarrow> (\<exists>r s. der_int r \<and> der_int s \<and> sig = der_signature r s)"
    "0 < CONTACT_NAME_LENGTH (ab_sizes_of k)"
    "0 < SCOPE_LENGTH (ab_sizes_of k)"
    "0 < max_printable_amount_size k" "max_printable_amount_size k < 2 ^ 31"
    "enum_size k \<in> {1, 4}"
    "length (app_version k) = 3"
  using assms unfolding sdk_ok_def by - (elim conjE, assumption)+

lemma sdk_sha256 [simp]: "sdk_ok k \<Longrightarrow> length (cx_sha256 k m) = 32"
  using sdk_laws(1) by blast

lemma sdk_keccak256 [simp]: "sdk_ok k \<Longrightarrow> length (cx_keccak256 k m) = 32"
  using sdk_laws(2) by blast

lemma sdk_base58: "sdk_ok k \<Longrightarrow> base58_encode k m n = Some t \<Longrightarrow> length t \<le> n \<and> 0 \<notin> set t"
  using sdk_laws(3) by blast

lemma sdk_base58_mainnet:
  "sdk_ok k \<Longrightarrow> length m = 25 \<Longrightarrow> m ! 0 = 0x41 \<Longrightarrow> \<exists>t. base58_encode k m 34 = Some t \<and> length t = 34"
  using sdk_laws(4) by blast

lemma sdk_hex: "sdk_ok k \<Longrightarrow> format_hex k m n = Some t \<Longrightarrow> length t < n \<and> 0 \<notin> set t"
  using sdk_laws(5) by blast

lemma sdk_hex_fits: "sdk_ok k \<Longrightarrow> 2 * length m < n \<Longrightarrow> \<exists>t. format_hex k m n = Some t"
  using sdk_laws(6) by blast

lemma sdk_pubkey: "sdk_ok k \<Longrightarrow> bip32_derive_get_pubkey k p = Some (pub, chain) \<Longrightarrow> length pub = 65 \<and> length chain = 32"
  using sdk_laws(7) by blast

lemma sdk_sign: "sdk_ok k \<Longrightarrow> bip32_derive_ecdsa_sign_rs k p h = Some (r, s, par) \<Longrightarrow> length r = 32 \<and> length s = 32"
  using sdk_laws(8) by blast

lemma sdk_ecdh: "sdk_ok k \<Longrightarrow> cx_ecdh k p q = Some x \<Longrightarrow> length x = 65"
  using sdk_laws(9) by blast

lemma sdk_der:
  "sdk_ok k \<Longrightarrow> ecdsa_sign_der k p h = Some (sig, par) \<Longrightarrow> \<exists>r s. der_int r \<and> der_int s \<and> sig = der_signature r s"
  using sdk_laws(10) by blast

lemma sdk_names: "sdk_ok k \<Longrightarrow> 0 < CONTACT_NAME_LENGTH (ab_sizes_of k) \<and> 0 < SCOPE_LENGTH (ab_sizes_of k)"
  using sdk_laws(11,12) by blast

lemma sdk_printable: "sdk_ok k \<Longrightarrow> 0 < max_printable_amount_size k \<and> max_printable_amount_size k < 2 ^ 31"
  using sdk_laws(13,14) by blast

lemma sdk_enum: "sdk_ok k \<Longrightarrow> enum_size k = 1 \<or> enum_size k = 4"
  using sdk_laws(15) by blast

section \<open>Constants of the headers\<close>

definition MAX_BIP32_PATH :: nat where "MAX_BIP32_PATH = 10"
definition ADDRESS_SIZE :: nat where "ADDRESS_SIZE = 21"
definition BASE58CHECK_ADDRESS_SIZE :: nat where "BASE58CHECK_ADDRESS_SIZE = 34"
definition PUBLIC_KEY_SIZE :: nat where "PUBLIC_KEY_SIZE = 65"
definition HASH_SIZE :: nat where "HASH_SIZE = 32"
definition SUN_DIG :: u8 where "SUN_DIG = 6"
definition MAX_TOKEN_PRECISION :: nat where "MAX_TOKEN_PRECISION = 18"
definition ADD_PRE_FIX_BYTE_MAINNET :: u8 where "ADD_PRE_FIX_BYTE_MAINNET = 0x41"
definition MAX_TOKEN_LENGTH :: nat where "MAX_TOKEN_LENGTH = 67"
definition TOKENID_SIZE :: nat where "TOKENID_SIZE = 7"
definition MAX_VOTES :: nat where "MAX_VOTES = 5"

lemmas header_constants = MAX_BIP32_PATH_def ADDRESS_SIZE_def BASE58CHECK_ADDRESS_SIZE_def
  PUBLIC_KEY_SIZE_def HASH_SIZE_def SUN_DIG_def MAX_TOKEN_PRECISION_def
  ADD_PRE_FIX_BYTE_MAINNET_def MAX_TOKEN_LENGTH_def TOKENID_SIZE_def MAX_VOTES_def

text \<open>\<^verbatim>\<open>contractType_e\<close>: a number, since the wire may carry any value of its width.\<close>

type_synonym contractType_e = u32

abbreviation (input) "ACCOUNTCREATECONTRACT \<equiv> (0 :: contractType_e)"
abbreviation (input) "TRANSFERCONTRACT \<equiv> (1 :: contractType_e)"
abbreviation (input) "TRANSFERASSETCONTRACT \<equiv> (2 :: contractType_e)"
abbreviation (input) "VOTEASSETCONTRACT \<equiv> (3 :: contractType_e)"
abbreviation (input) "VOTEWITNESSCONTRACT \<equiv> (4 :: contractType_e)"
abbreviation (input) "WITNESSCREATECONTRACT \<equiv> (5 :: contractType_e)"
abbreviation (input) "ASSETISSUECONTRACT \<equiv> (6 :: contractType_e)"
abbreviation (input) "WITNESSUPDATECONTRACT \<equiv> (8 :: contractType_e)"
abbreviation (input) "PARTICIPATEASSETISSUECONTRACT \<equiv> (9 :: contractType_e)"
abbreviation (input) "ACCOUNTUPDATECONTRACT \<equiv> (10 :: contractType_e)"
abbreviation (input) "FREEZEBALANCECONTRACT \<equiv> (11 :: contractType_e)"
abbreviation (input) "UNFREEZEBALANCECONTRACT \<equiv> (12 :: contractType_e)"
abbreviation (input) "WITHDRAWBALANCECONTRACT \<equiv> (13 :: contractType_e)"
abbreviation (input) "UNFREEZEASSETCONTRACT \<equiv> (14 :: contractType_e)"
abbreviation (input) "UPDATEASSETCONTRACT \<equiv> (15 :: contractType_e)"
abbreviation (input) "PROPOSALCREATECONTRACT \<equiv> (16 :: contractType_e)"
abbreviation (input) "PROPOSALAPPROVECONTRACT \<equiv> (17 :: contractType_e)"
abbreviation (input) "PROPOSALDELETECONTRACT \<equiv> (18 :: contractType_e)"
abbreviation (input) "TRIGGERSMARTCONTRACT \<equiv> (31 :: contractType_e)"
abbreviation (input) "EXCHANGECREATECONTRACT \<equiv> (41 :: contractType_e)"
abbreviation (input) "EXCHANGEINJECTCONTRACT \<equiv> (42 :: contractType_e)"
abbreviation (input) "EXCHANGEWITHDRAWCONTRACT \<equiv> (43 :: contractType_e)"
abbreviation (input) "EXCHANGETRANSACTIONCONTRACT \<equiv> (44 :: contractType_e)"
abbreviation (input) "ACCOUNTPERMISSIONUPDATECONTRACT \<equiv> (46 :: contractType_e)"
abbreviation (input) "FREEZEBALANCEV2CONTRACT \<equiv> (54 :: contractType_e)"
abbreviation (input) "UNFREEZEBALANCEV2CONTRACT \<equiv> (55 :: contractType_e)"
abbreviation (input) "WITHDRAWEXPIREUNFREEZECONTRACT \<equiv> (56 :: contractType_e)"
abbreviation (input) "DELEGATERESOURCECONTRACT \<equiv> (57 :: contractType_e)"
abbreviation (input) "UNDELEGATERESOURCECONTRACT \<equiv> (58 :: contractType_e)"
abbreviation (input) "UNKNOWN_CONTRACT \<equiv> (254 :: contractType_e)"
abbreviation (input) "INVALID_CONTRACT \<equiv> (255 :: contractType_e)"

section \<open>Structures\<close>

record txContent_t =
  tc_amount :: "u64 list"
  tc_exchangeID :: u64
  tc_account :: bytes
  tc_destination :: bytes
  tc_contractAddress :: bytes
  tc_TRC20Amount :: bytes
  tc_decimals :: "u8 list"
  tc_tokenNames :: "bytes list"
  tc_tokenNamesLength :: "u8 list"
  tc_tokenIsTrx :: "bool list"
  tc_resource :: u8
  tc_TRC20Method :: u8
  tc_customSelector :: u32
  tc_callTokenValue :: u64
  tc_callTokenId :: u64
  tc_contractType :: contractType_e
  tc_dataBytes :: u64
  tc_feeLimit :: u64
  tc_permission_id :: u32
  tc_customData :: u32
  tc_contractSeen :: bool
  tc_feeLimitSeen :: bool
  tc_votesCount :: u8
  tc_votes :: "(bytes \<times> u64) list"

text \<open>A hash context stands for the bytes hashed since it was initialised.\<close>

record txContext_t =
  tx_sha2 :: bytes
  tx_initialized :: bool

record bip32_path_t =
  bp_indices :: "u32 list"
  bp_length :: nat

record transactionContext_t =
  tr_bip32_path :: bip32_path_t
  tr_hash :: bytes
  tr_signature :: bytes
  tr_signatureLength :: u8

record publicKeyContext_t =
  pk_publicKey :: bytes
  pk_address58 :: bytes
  pk_chainCode :: bytes
  pk_getChaincode :: bool

record messageSigningContext712_t =
  m7_pathLength :: nat
  m7_bip32Path :: "u32 list"
  m7_domainHash :: bytes
  m7_messageHash :: bytes

record personal_msg_ctx_t =
  pm_sha3 :: bytes
  pm_initialized :: bool

record permissionEntry_t =
  pe_present :: bool
  pe_threshold :: bytes
  pe_keysCount :: nat
  pe_keys :: "bytes list"
  pe_operations :: bytes

record swap_validated_t =
  sv_initialized :: bool
  sv_decimals :: u8
  sv_ticker :: bytes
  sv_amount :: uint256_t
  sv_recipient :: bytes

text \<open>The path a key is derived from.\<close>

definition path_of :: "bip32_path_t \<Rightarrow> u32 list" where
  "path_of p = take (bp_length p) (bp_indices p)"

section \<open>Screens\<close>

datatype ui_approval_state_t =
    APPROVAL_TRANSFER | APPROVAL_SIMPLE_TRANSACTION | APPROVAL_PERMISSION_UPDATE
  | APPROVAL_EXCHANGE_CREATE | APPROVAL_EXCHANGE_TRANSACTION | APPROVAL_EXCHANGE_WITHDRAW_INJECT
  | APPROVAL_WITNESSVOTE_TRANSACTION | APPROVAL_FREEZEASSET_TRANSACTION
  | APPROVAL_UNFREEZEASSET_TRANSACTION | APPROVAL_WITHDRAWBALANCE_TRANSACTION
  | APPROVAL_SIGN_PERSONAL_MESSAGE | APPROVAL_CUSTOM_CONTRACT | APPROVAL_SHARED_ECDH_SECRET
  | APPROVAL_VERIFY_ADDRESS | APPROVAL_FREEZEASSETV2_TRANSACTION
  | APPROVAL_UNFREEZEASSETV2_TRANSACTION | APPROVAL_DELEGATE_RESOURCE_TRANSACTION
  | APPROVAL_UNDELEGATE_RESOURCE_TRANSACTION | APPROVAL_WITHDRAWEXPIREUNFREEZE_TRANSACTION
  | APPROVAL_SIGN_TIP72_TRANSACTION

text \<open>
  A field of a review holds pointers to the strings it shows. \<^verbatim>\<open>prepareTxInfos\<close> compares them as
  pointers, and they are read when the screen is drawn, so the model keeps them as references.
\<close>

datatype strref =
    Literal string
  | FromAddress
  | ToAddress
  | FullContract
  | FullHash
  | ActionText
  | SendAllowText
  | ApduAt nat
  | StringsAt nat
  | PermThreshold nat
  | PermKey nat nat
  | PermOperations nat
  | ServiceLabel
  | RecipientName
  | SenderName
  | RecipientScope
  | SenderScope

text \<open>
  An aliased field keeps in its extension the full address and the sub-name of the contact, if it has one.
\<close>

record tag_value =
  tv_item :: strref
  tv_value :: strref
  tv_alias :: "(strref \<times> strref option) option"

record nbgl_tx_infos_t =
  ti_fields :: "tag_value list"
  ti_data_warning :: bool
  ti_custom_warning :: bool
  ti_state :: ui_approval_state_t
  ti_flowTitle :: string
  ti_flowSubtitle :: string
  ti_longPress :: string

datatype screen = IdleScreen | DataWarningScreen | CustomWarningScreen | TransactionScreen | AddressScreen
  | StatusScreen

section \<open>The state\<close>

datatype io_event = SendSW u16 | SendData bytes u16

record app_state =
  N_settings :: u8
  txContent :: txContent_t
  txContext :: txContext_t
  transactionContext :: transactionContext_t
  publicKeyContext :: publicKeyContext_t
  messageSigningContext712 :: messageSigningContext712_t
  personal_msg_ctx :: personal_msg_ctx_t
  msg :: "slot list"
  customContractField :: u8
  fromAddress :: bytes
  toAddress :: bytes
  fullContract :: bytes
  TRC20Action :: bytes
  TRC20ActionSendAllow :: bytes
  fullHash :: bytes
  strings :: bytes
  votes_count :: nat
  permissionEntries :: "permissionEntry_t list"
  g_recipient_contact :: "s_ab_contact option"
  g_sender_contact :: "s_ab_contact option"
  g_recipient_service :: "bytes option"
  G_io_apdu_buffer :: bytes
  G_called_from_swap :: bool
  G_swap_response_ready :: bool
  G_swap_validated :: swap_validated_t
  ab_contacts :: contact_list
  txInfos :: nbgl_tx_infos_t
  the_screen :: screen
  outputs :: "io_event list"

text \<open>
  A handler returns, throws a status word to the main loop, leaves the application, or gets stuck: in a
  loop that does not end or in a store outside of the memory the model represents.
\<close>

datatype outcome = Returned | Thrown u16 | Exited | Stuck

type_synonym result = "outcome \<times> app_state"

section \<open>Settings\<close>

abbreviation (input) "S_DATA_ALLOWED \<equiv> (0 :: nat)"
abbreviation (input) "S_CUSTOM_CONTRACT \<equiv> (1 :: nat)"
abbreviation (input) "S_SIGN_BY_HASH \<equiv> (2 :: nat)"
abbreviation (input) "S_INITIALIZED \<equiv> (7 :: nat)"

definition FLIP_BIT :: "u8 \<Rightarrow> nat \<Rightarrow> u8" where
  "FLIP_BIT n k = n XOR push_bit k 1"

definition SETTING_TOGGLE :: "nat \<Rightarrow> app_state \<Rightarrow> app_state" where
  "SETTING_TOGGLE i s = s\<lparr>N_settings := FLIP_BIT (N_settings s) i\<rparr>"

definition HAS_SETTING :: "app_state \<Rightarrow> nat \<Rightarrow> bool" where
  "HAS_SETTING s k \<longleftrightarrow> drop_bit k (N_settings s AND push_bit k 1) \<noteq> 0"

lemma HAS_SETTING_bit: "k < 8 \<Longrightarrow> HAS_SETTING s k \<longleftrightarrow> bit (N_settings s) k"
proof -
  assume "k < 8"
  have "drop_bit k (N_settings s AND push_bit k 1) = of_bool (bit (N_settings s) k)"
    using \<open>k < 8\<close> by (intro bit_word_eqI) (auto simp: bit_simps)
  then show ?thesis by (simp add: HAS_SETTING_def)
qed

section \<open>Sending\<close>

definition io_send_sw :: "u16 \<Rightarrow> app_state \<Rightarrow> app_state" where
  "io_send_sw sw s = s\<lparr>outputs := outputs s @ [SendSW sw]\<rparr>"

definition io_send_response_pointer :: "bytes \<Rightarrow> u16 \<Rightarrow> app_state \<Rightarrow> app_state" where
  "io_send_response_pointer data sw s = s\<lparr>outputs := outputs s @ [SendData data sw]\<rparr>"

text \<open>\<^verbatim>\<open>return io_send_sw(sw)\<close>\<close>

definition ret_sw :: "u16 \<Rightarrow> app_state \<Rightarrow> result" where
  "ret_sw sw s = (Returned, io_send_sw sw s)"

end
