(* ===== verification/Helpers.thy ===== *)
theory Helpers
  imports App_State
begin

text \<open>
  \<^verbatim>\<open>src/src/helpers.c\<close>: addresses, key derivation paths, the signature of the transaction context and the
  reply with a public key; and the session functions and small printers of \<^verbatim>\<open>src/src/parse.c\<close> that every
  handler uses.
\<close>

section \<open>Addresses\<close>

definition getAddressFromPublicKey :: "sdk \<Rightarrow> bytes \<Rightarrow> bytes" where
  "getAddressFromPublicKey k publicKey =
     (let hashAddress = cx_keccak256 k (take (PUBLIC_KEY_SIZE - 1) (drop 1 publicKey))
      in buf_set (take ADDRESS_SIZE (drop 11 hashAddress)) 0 ADD_PRE_FIX_BYTE_MAINNET)"

text \<open>The address with its four checksum bytes, as it is encoded.\<close>

definition addchecksum :: "sdk \<Rightarrow> bytes \<Rightarrow> bytes" where
  "addchecksum k address =
     take ADDRESS_SIZE address @ take 4 (cx_sha256 k (cx_sha256 k (take ADDRESS_SIZE address)))"

text \<open>
  The text is written at \<^verbatim>\<open>out + off\<close>. The result of \<^verbatim>\<open>base58_encode\<close> is ignored: when it fails, the
  buffer keeps its old contents up to the NUL.
\<close>

definition getBase58FromAddress :: "sdk \<Rightarrow> bytes \<Rightarrow> bytes \<Rightarrow> nat \<Rightarrow> bytes" where
  "getBase58FromAddress k address out off =
     (let out' = (case base58_encode k (addchecksum k address) BASE58CHECK_ADDRESS_SIZE of
                    Some t \<Rightarrow> buf_write out off t
                  | None \<Rightarrow> out)
      in buf_set out' (off + BASE58CHECK_ADDRESS_SIZE) 0)"

definition getBase58FromPublicKey :: "sdk \<Rightarrow> bytes \<Rightarrow> bytes \<Rightarrow> bytes" where
  "getBase58FromPublicKey k publicKey address58 =
     getBase58FromAddress k (getAddressFromPublicKey k publicKey) address58 0"

section \<open>Key derivation paths\<close>

definition U4BE :: "bytes \<Rightarrow> nat \<Rightarrow> u32" where
  "U4BE buf off = of_nat (be_val (take 4 (drop off buf)))"

definition TRON_BIP32_PREFIX_0 :: u32 where "TRON_BIP32_PREFIX_0 = 0x8000002C"
definition TRON_BIP32_PREFIX_1 :: u32 where "TRON_BIP32_PREFIX_1 = 0x800000C3"

primrec read_indices :: "bytes \<Rightarrow> u32 list \<Rightarrow> nat \<Rightarrow> nat \<Rightarrow> u32 list" where
  "read_indices buffer indices i 0 = indices"
| "read_indices buffer indices i (Suc n) =
     read_indices (drop 4 buffer) (buf_set indices i (U4BE buffer 0)) (Suc i) n"

text \<open>The result is the number of bytes read, or \<^const>\<open>None\<close> for -1, and the path as it is left.\<close>

definition read_bip32_path :: "bytes \<Rightarrow> bip32_path_t \<Rightarrow> nat option \<times> bip32_path_t" where
  "read_bip32_path buffer path =
     (if length buffer < 1 then (None, path)
      else
        let path_length = unat (buffer ! 0) in
        if path_length < 1 \<or> path_length > MAX_BIP32_PATH then (None, path)
        else if length buffer < 1 + 4 * path_length then (None, path)
        else
          let path' = path\<lparr>bp_length := path_length,
                           bp_indices := read_indices (drop 1 buffer) (bp_indices path) 0 path_length\<rparr> in
          if path_length < 2 \<or> bp_indices path' ! 0 \<noteq> TRON_BIP32_PREFIX_0
             \<or> bp_indices path' ! 1 \<noteq> TRON_BIP32_PREFIX_1
          then (None, path')
          else (Some (1 + 4 * path_length), path'))"

section \<open>Keys and signatures\<close>

text \<open>The address is written to \<^verbatim>\<open>address58\<close>, which is one of the global buffers.\<close>

definition initPublicKeyContext ::
  "sdk \<Rightarrow> bip32_path_t \<Rightarrow> bytes \<Rightarrow> publicKeyContext_t \<Rightarrow> (publicKeyContext_t \<times> bytes) option" where
  "initPublicKeyContext k path address58 pkc =
     (case bip32_derive_get_pubkey k (path_of path) of
        None \<Rightarrow> None
      | Some (pub, chain) \<Rightarrow>
          Some (pkc\<lparr>pk_publicKey := pub, pk_chainCode := chain\<rparr>, getBase58FromPublicKey k pub address58))"

definition signTransaction :: "sdk \<Rightarrow> transactionContext_t \<Rightarrow> bool \<times> transactionContext_t" where
  "signTransaction k t =
     (case bip32_derive_ecdsa_sign_rs k (path_of (tr_bip32_path t)) (tr_hash t) of
        None \<Rightarrow> (False, t)
      | Some (r, s, parity_odd) \<Rightarrow>
          (True, t\<lparr>tr_signature :=
                     buf_set (buf_write (buf_write (tr_signature t) 0 r) 32 s) 64 (if parity_odd then 1 else 0),
                   tr_signatureLength := 65\<rparr>))"

definition helper_send_response_pubkey :: "app_state \<Rightarrow> app_state" where
  "helper_send_response_pubkey s =
     (let pkc = publicKeyContext s;
          b1 = buf_set (G_io_apdu_buffer s) 0 (of_nat PUBLIC_KEY_SIZE);
          b2 = buf_write b1 1 (take PUBLIC_KEY_SIZE (pk_publicKey pkc));
          b3 = buf_set b2 66 (of_nat BASE58CHECK_ADDRESS_SIZE);
          b4 = buf_write b3 67 (take BASE58CHECK_ADDRESS_SIZE (pk_address58 pkc));
          (b5, tx) = (if pk_getChaincode pkc then (buf_write b4 101 (take 32 (pk_chainCode pkc)), 133)
                      else (b4, 101))
      in io_send_response_pointer (take tx b5) E_OK (s\<lparr>G_io_apdu_buffer := b5\<rparr>))"

section \<open>The signing session\<close>

definition zero_content :: txContent_t where
  "zero_content =
     \<lparr>tc_amount = [0, 0], tc_exchangeID = 0, tc_account = replicate 21 0, tc_destination = replicate 21 0,
      tc_contractAddress = replicate 21 0, tc_TRC20Amount = replicate 32 0, tc_decimals = [0, 0],
      tc_tokenNames = [replicate 67 0, replicate 67 0], tc_tokenNamesLength = [0, 0],
      tc_tokenIsTrx = [False, False], tc_resource = 0, tc_TRC20Method = 0, tc_customSelector = 0,
      tc_callTokenValue = 0, tc_callTokenId = 0, tc_contractType = 0, tc_dataBytes = 0, tc_feeLimit = 0,
      tc_permission_id = 0, tc_customData = 0, tc_contractSeen = False, tc_feeLimitSeen = False,
      tc_votesCount = 0, tc_votes = replicate 5 (replicate 21 0, 0)\<rparr>"

definition initTx :: "app_state \<Rightarrow> app_state" where
  "initTx s =
     s\<lparr>txContext := \<lparr>tx_sha2 = [], tx_initialized = True\<rparr>,
       txContent := zero_content\<lparr>tc_contractType := INVALID_CONTRACT\<rparr>\<rparr>"

definition terminate_signing_session :: "app_state \<Rightarrow> app_state" where
  "terminate_signing_session s =
     s\<lparr>txContext := \<lparr>tx_sha2 = [], tx_initialized = False\<rparr>,
       txContent := zero_content\<lparr>tc_contractType := INVALID_CONTRACT\<rparr>\<rparr>"

section \<open>Small printers\<close>

text \<open>\<^verbatim>\<open>bytes_to_string\<close> at an offset of a buffer, with \<open>outl\<close> bytes to write to.\<close>

definition bytes_to_string :: "sdk \<Rightarrow> bytes \<Rightarrow> nat \<Rightarrow> nat \<Rightarrow> bytes \<Rightarrow> bytes" where
  "bytes_to_string k out off outl v =
     (if outl \<le> 2 then out
      else
        let out1 = buf_write out off (chars ''0x'' @ [0]) in
        case format_hex k v (outl - 2) of
          Some t \<Rightarrow> buf_write out1 (off + 2) (t @ [0])
        | None \<Rightarrow> buf_set out1 off 0)"

definition setContractType :: "contractType_e \<Rightarrow> bytes \<Rightarrow> nat \<Rightarrow> bool \<times> bytes" where
  "setContractType type out outlen =
     (if type = ACCOUNTCREATECONTRACT then (True, strlcpy out (chars ''Account Create'') outlen)
      else if type = VOTEASSETCONTRACT then (True, strlcpy out (chars ''Vote Asset'') outlen)
      else if type = WITNESSCREATECONTRACT then (True, strlcpy out (chars ''Witness Create'') outlen)
      else if type = ASSETISSUECONTRACT then (True, strlcpy out (chars ''Asset Issue'') outlen)
      else if type = WITNESSUPDATECONTRACT then (True, strlcpy out (chars ''Witness Update'') outlen)
      else if type = PARTICIPATEASSETISSUECONTRACT then (True, strlcpy out (chars ''Participate Asset'') outlen)
      else if type = ACCOUNTUPDATECONTRACT then (True, strlcpy out (chars ''Account Update'') outlen)
      else if type = UNFREEZEBALANCECONTRACT then (True, strlcpy out (chars ''Unfreeze Balance'') outlen)
      else if type = UNFREEZEBALANCEV2CONTRACT then (True, strlcpy out (chars ''UnfreezeV2 Balance'') outlen)
      else if type = WITHDRAWBALANCECONTRACT then (True, strlcpy out (chars ''Claim Rewards'') outlen)
      else if type = UNFREEZEASSETCONTRACT then (True, strlcpy out (chars ''Unfreeze Asset'') outlen)
      else if type = WITHDRAWEXPIREUNFREEZECONTRACT then (True, strlcpy out (chars ''Withdraw Unfreeze'') outlen)
      else if type = UPDATEASSETCONTRACT then (True, strlcpy out (chars ''Update Asset'') outlen)
      else if type = PROPOSALCREATECONTRACT then (True, strlcpy out (chars ''Proposal Create'') outlen)
      else if type = PROPOSALAPPROVECONTRACT then (True, strlcpy out (chars ''Proposal Approve'') outlen)
      else if type = PROPOSALDELETECONTRACT then (True, strlcpy out (chars ''Proposal Delete'') outlen)
      else if type = ACCOUNTPERMISSIONUPDATECONTRACT then (True, strlcpy out (chars ''Permission Update'') outlen)
      else if type = UNKNOWN_CONTRACT then (True, strlcpy out (chars ''Unknown Type'') outlen)
      else (False, out))"

definition setExchangeContractDetail :: "contractType_e \<Rightarrow> bytes \<Rightarrow> nat \<Rightarrow> bool \<times> bytes" where
  "setExchangeContractDetail type out outlen =
     (if type = EXCHANGECREATECONTRACT then (True, strlcpy out (chars ''create'') outlen)
      else if type = EXCHANGEINJECTCONTRACT then (True, strlcpy out (chars ''inject'') outlen)
      else if type = EXCHANGEWITHDRAWCONTRACT then (True, strlcpy out (chars ''withdraw'') outlen)
      else if type = EXCHANGETRANSACTIONCONTRACT then (True, strlcpy out (chars ''transaction'') outlen)
      else (False, out))"

text \<open>Decimal and hexadecimal conversions of \<^verbatim>\<open>snprintf\<close>: \<open>%d\<close>, \<open>%lld\<close>, \<open>%llu\<close> and \<open>%08x\<close>.\<close>

definition fmt_signed :: "int \<Rightarrow> bytes" where
  "fmt_signed i = (if i < 0 then chars ''-'' @ decimal (nat (- i)) else decimal (nat i))"

definition hexdigit :: "nat \<Rightarrow> u8" where
  "hexdigit n = HEXDIGITS ! n"

definition fmt_08x :: "u32 \<Rightarrow> bytes" where
  "fmt_08x w = map (\<lambda>i. hexdigit (unat w div 16 ^ (7 - i) mod 16)) [0..<8]"

section \<open>Facts\<close>

lemma length_getBase58FromAddress [buf_simps]:
  assumes "sdk_ok k" "off + 35 \<le> length out"
  shows "length (getBase58FromAddress k a out off) = length out"
proof -
  have "base58_encode k (addchecksum k a) 34 = Some t \<Longrightarrow> length t \<le> 34" for t
    using sdk_base58 [OF assms(1)] by blast
  then show ?thesis
    using assms(2)
    by (auto simp: getBase58FromAddress_def header_constants Let_def length_buf_set length_buf_write
        split: option.splits)
qed

lemma length_addchecksum: "sdk_ok k \<Longrightarrow> length a = 21 \<Longrightarrow> length (addchecksum k a) = 25"
  by (simp add: addchecksum_def header_constants)

text \<open>The base58 text of a mainnet address.\<close>

definition base58 :: "sdk \<Rightarrow> bytes \<Rightarrow> bytes" where
  "base58 k a = the (base58_encode k (addchecksum k a) 34)"

lemma base58_mainnet:
  assumes "sdk_ok k" "length a = 21" "a ! 0 = 0x41"
  shows "base58_encode k (addchecksum k a) 34 = Some (base58 k a) \<and> length (base58 k a) = 34 \<and>
    0 \<notin> set (base58 k a)"
proof -
  have "length (addchecksum k a) = 25" "addchecksum k a ! 0 = 0x41"
    using length_addchecksum [OF assms(1,2)] assms(2,3) by (simp_all add: addchecksum_def header_constants nth_append)
  then obtain t where "base58_encode k (addchecksum k a) 34 = Some t" "length t = 34"
    using sdk_base58_mainnet [OF assms(1)] by blast
  moreover from this have "0 \<notin> set t" using sdk_base58 [OF assms(1)] by blast
  ultimately show ?thesis by (simp add: base58_def)
qed

lemma cstr_getBase58FromAddress:
  assumes "sdk_ok k" "length a = 21" "a ! 0 = 0x41" "off + 35 \<le> length out"
  shows "cstr (drop off (getBase58FromAddress k a out off)) = base58 k a"
    "take off (getBase58FromAddress k a out off) = take off out"
  using base58_mainnet [OF assms(1-3)] assms(4)
  by (simp_all add: getBase58FromAddress_def header_constants Let_def buf_set_def buf_write_def)

lemma length_read_indices: "i + n \<le> length ind \<Longrightarrow> length (read_indices b ind i n) = length ind"
  by (induction n arbitrary: b ind i) (simp_all add: length_buf_set)

text \<open>A path that \<^verbatim>\<open>read_bip32_path\<close> accepts is under \<open>44'/195'\<close>, and its array keeps its size.\<close>

definition tron_path :: "bip32_path_t \<Rightarrow> bool" where
  "tron_path p \<longleftrightarrow> 2 \<le> bp_length p \<and> bp_length p \<le> MAX_BIP32_PATH \<and>
     take 2 (path_of p) = [TRON_BIP32_PREFIX_0, TRON_BIP32_PREFIX_1]"

definition wf_path :: "bip32_path_t \<Rightarrow> bool" where
  "wf_path p \<longleftrightarrow> length (bp_indices p) = MAX_BIP32_PATH \<and> bp_length p \<le> MAX_BIP32_PATH"

lemma wf_read_bip32_path: "wf_path p \<Longrightarrow> wf_path (snd (read_bip32_path b p))"
  by (auto simp: read_bip32_path_def Let_def wf_path_def length_read_indices header_constants)

lemma take_2_nth: "2 \<le> length xs \<Longrightarrow> take 2 xs = [xs ! 0, xs ! 1]"
  by (cases xs; cases "tl xs") (auto simp: numeral_2_eq_2)

lemma read_bip32_path_tron:
  assumes "read_bip32_path b p = (Some n, p')" "wf_path p"
  shows "tron_path p' \<and> n = 1 + 4 * bp_length p' \<and> n \<le> length b"
proof -
  have "wf_path p'" using wf_read_bip32_path [OF assms(2), of b] assms(1) by simp
  moreover have "2 \<le> bp_length p'" "bp_length p' \<le> 10" "bp_indices p' ! 0 = TRON_BIP32_PREFIX_0"
      "bp_indices p' ! 1 = TRON_BIP32_PREFIX_1" "n = 1 + 4 * bp_length p'" "n \<le> length b"
    using assms(1) by (auto simp: read_bip32_path_def Let_def header_constants split: if_splits)
  ultimately show ?thesis
    using take_2_nth [of "path_of p'"]
    by (simp add: tron_path_def path_of_def wf_path_def header_constants)
qed

lemma signTransaction_ok:
  assumes "sdk_ok k" "bip32_derive_ecdsa_sign_rs k (path_of (tr_bip32_path t)) (tr_hash t) = Some (r, s, par)"
    "length (tr_signature t) = 65"
  shows "signTransaction k t =
    (True, t\<lparr>tr_signature := r @ s @ [if par then 1 else 0], tr_signatureLength := 65\<rparr>)"
proof -
  have "length r = 32" "length s = 32" using sdk_sign [OF assms(1,2)] by auto
  then show ?thesis using assms(2,3) by (simp add: signTransaction_def buf_set_def buf_write_def)
qed

end
