(* ===== verification/Parse.thy ===== *)
theory Parse
  imports Helpers
begin

text \<open>
  The transaction parser of \<^verbatim>\<open>src/src/parse.c\<close> and the signature checks of \<^verbatim>\<open>src/src/tokens.c\<close>. Each
  function on a contract takes the stream of the contract's bytes and returns the C result, the content
  and the decoded message. A failed \<^verbatim>\<open>pb_decode\<close> leaves both as they were: what its callbacks stored
  before the failure is not represented, and the caller clears the content in that case.
\<close>

section \<open>Signed token and exchange descriptions\<close>

definition verifyTokenNameID :: "sdk \<Rightarrow> bytes \<Rightarrow> bytes \<Rightarrow> u8 \<Rightarrow> bytes \<Rightarrow> bool" where
  "verifyTokenNameID k tokenId tokenName decimals signature =
     (if strlen tokenId + strlen tokenName + 2 > 65 then False
      else
        let buffer = take 64 (cstr tokenId @ cstr tokenName @ [decimals]) @ [0];
            hash = cx_sha256 k (take (strlen tokenId + strlen tokenName + 1) buffer)
        in cx_ecdsa_verify k token_public_key hash signature)"

definition verifyExchangeID :: "sdk \<Rightarrow> bytes \<Rightarrow> nat \<Rightarrow> bytes \<Rightarrow> bool" where
  "verifyExchangeID k exchangeValidation datLength signature =
     cx_ecdsa_verify k token_public_key (cx_sha256 k (take datLength exchangeValidation)) signature"

abbreviation (input) no_callbacks :: "'s pb_callback" where
  "no_callbacks \<equiv> (\<lambda>_. None)"

definition parseTokenName :: "sdk \<Rightarrow> nat \<Rightarrow> bytes \<Rightarrow> txContent_t \<Rightarrow> bool \<times> txContent_t" where
  "parseTokenName k token_id data content =
     (case pb_decode no_callbacks TokenDetails (pb_istream_from_buffer RInput 0 data) () of
        None \<Rightarrow> (False, content)
      | Some (details, _) \<Rightarrow>
          let name = m_buf details 1; precision = m_int details 2;
              signature = take (m_size details 3) (m_buf details 3);
              tokenName = tc_tokenNames content ! token_id in
          if \<not> verifyTokenNameID k tokenName name (ucast precision) signature then (False, content)
          else if unat precision > MAX_TOKEN_PRECISION then (False, content)
          else
            let tmp = snprintf (replicate MAX_TOKEN_LENGTH 0) MAX_TOKEN_LENGTH
                        (cstr name @ chars ''['' @ cstr tokenName @ chars '']'') in
            (True, content
               \<lparr>tc_tokenNamesLength := (tc_tokenNamesLength content)[token_id := of_nat (strlen tmp)],
                tc_tokenNames := (tc_tokenNames content)[token_id := strlcpy tokenName tmp MAX_TOKEN_LENGTH],
                tc_decimals := (tc_decimals content)[token_id := ucast precision]\<rparr>))"

text \<open>
  \<open>data\<close> is the memory from the token id to the end of the structure: the id is copied as a string, so
  the copy runs on to the first NUL.
\<close>

definition printTokenFromID :: "txContent_t \<Rightarrow> nat \<Rightarrow> bytes \<Rightarrow> nat \<Rightarrow> bool \<times> txContent_t" where
  "printTokenFromID content token_index data size' =
     (let out = tc_tokenNames content ! token_index in
      if size' \<noteq> TOKENID_SIZE \<and> size' \<noteq> 1 then (False, content)
      else if size' = 1 then
        if data ! 0 \<noteq> 0x5F then (False, content)
        else (True, content
                \<lparr>tc_tokenNames := (tc_tokenNames content)[token_index := strlcpy out (chars ''TRX'') MAX_TOKEN_LENGTH],
                 tc_tokenIsTrx := (tc_tokenIsTrx content)[token_index := True]\<rparr>)
      else (True, content
              \<lparr>tc_tokenNames := (tc_tokenNames content)[token_index := strlcpy out data MAX_TOKEN_LENGTH],
               tc_tokenIsTrx := (tc_tokenIsTrx content)[token_index := False]\<rparr>))"

definition set_token_info :: "txContent_t \<Rightarrow> nat \<Rightarrow> bytes \<Rightarrow> bytes \<Rightarrow> u32 \<Rightarrow> bool \<times> txContent_t" where
  "set_token_info content token_index name id' precision =
     (if token_index \<ge> 2 then (False, content)
      else if sint precision < 0 \<or> sint precision > int MAX_TOKEN_PRECISION then (False, content)
      else
        let out = snprintf (tc_tokenNames content ! token_index) MAX_TOKEN_LENGTH
                    (cstr name @ chars ''['' @ cstr id' @ chars '']'') in
        (True, content
           \<lparr>tc_tokenNames := (tc_tokenNames content)[token_index := out],
            tc_tokenNamesLength := (tc_tokenNamesLength content)[token_index := of_nat (strlen out)],
            tc_decimals := (tc_decimals content)[token_index := ucast precision]\<rparr>))"

text \<open>
  The message an exchange description is signed under: the identifier is printed as a 32-bit integer.
  The 90-byte buffer holds the longest message, 89 bytes, and its NUL.
\<close>

definition exchange_message :: "slot list \<Rightarrow> bytes" where
  "exchange_message details =
     take 89 (fmt_signed (sint (ucast (m_int details 1) :: u32)) @ cstr (m_buf details 2) @
       cstr (m_buf details 3) @ [ucast (m_int details 4)] @ cstr (m_buf details 5) @
       cstr (m_buf details 6) @ [ucast (m_int details 7)])"

definition parseExchange :: "sdk \<Rightarrow> bytes \<Rightarrow> txContent_t \<Rightarrow> bool \<times> txContent_t" where
  "parseExchange k data content =
     (case pb_decode no_callbacks ExchangeDetails (pb_istream_from_buffer RInput 0 data) () of
        None \<Rightarrow> (False, content)
      | Some (details, _) \<Rightarrow>
          let exchangeId = m_int details 1;
              token1Id = m_buf details 2; token1Name = m_buf details 3; token1Precision = ucast (m_int details 4);
              token2Id = m_buf details 5; token2Name = m_buf details 6; token2Precision = ucast (m_int details 7);
              signature = take (m_size details 8) (m_buf details 8) in
          if tc_exchangeID content \<noteq> exchangeId then (False, content)
          else if strlen token1Id \<noteq> 1 \<and> strlen token1Id \<noteq> 7 then (False, content)
          else if strlen token2Id \<noteq> 1 \<and> strlen token2Id \<noteq> 7 then (False, content)
          else
            let msg_size = strlen (fmt_signed (sint (ucast exchangeId :: u32)))
                  + (strlen token1Id + strlen token1Name + 1) + (strlen token2Id + strlen token2Name + 1) in
            if \<not> verifyExchangeID k (exchange_message details @ [0]) msg_size signature then (False, content)
            else
              let name0 = cstr (tc_tokenNames content ! 0) in
              case (if name0 = cstr token1Id then Some (0, 1)
                    else if name0 = cstr token2Id then Some (1, 0) else None) of
                None \<Rightarrow> (False, content)
              | Some (first_token, second_token) \<Rightarrow>
                  (case set_token_info content first_token token1Name token1Id token1Precision of
                     (False, content') \<Rightarrow> (False, content')
                   | (True, content') \<Rightarrow>
                       set_token_info content' second_token token2Name token2Id token2Precision))"

section \<open>Contracts\<close>

type_synonym contract_result = "bool \<times> txContent_t \<times> slot list"

text \<open>\<^verbatim>\<open>pb_decode(stream, fields, &msg)\<close> followed by the code that reads \<^verbatim>\<open>msg\<close>.\<close>

definition decode_msg ::
  "pb_field list \<Rightarrow> pb_istream_t \<Rightarrow> txContent_t \<Rightarrow> (slot list \<Rightarrow> bool \<times> txContent_t) \<Rightarrow> contract_result" where
  "decode_msg fs stream content body =
     (case pb_decode no_callbacks fs stream () of
        None \<Rightarrow> (False, content, [])
      | Some (m, _) \<Rightarrow> (case body m of (ret, content') \<Rightarrow> (ret, content', m)))"

abbreviation set_amount :: "nat \<Rightarrow> u64 \<Rightarrow> txContent_t \<Rightarrow> txContent_t" where
  "set_amount i v c \<equiv> c\<lparr>tc_amount := (tc_amount c)[i := v]\<rparr>"

abbreviation set_name_length :: "nat \<Rightarrow> nat \<Rightarrow> txContent_t \<Rightarrow> txContent_t" where
  "set_name_length i n c \<equiv> c\<lparr>tc_tokenNamesLength := (tc_tokenNamesLength c)[i := of_nat n]\<rparr>"

definition transfer_contract :: "pb_istream_t \<Rightarrow> txContent_t \<Rightarrow> contract_result" where
  "transfer_contract stream content =
     decode_msg protocol_TransferContract stream content (\<lambda>m.
       (True, set_name_length 0 4 (set_amount 0 (m_int m 3) content)
          \<lparr>tc_account := m_buf m 1, tc_destination := m_buf m 2,
           tc_tokenNames := (tc_tokenNames content)[0 := buf_write (tc_tokenNames content ! 0) 0 (chars ''TRX'' @ [0])],
           tc_tokenIsTrx := (tc_tokenIsTrx content)[0 := True]\<rparr>))"

text \<open>
  The memory behind a token id: in \<^verbatim>\<open>protocol_TransferAssetContract\<close> the two addresses and four bytes of
  padding, in \<^verbatim>\<open>protocol_ExchangeCreateContract\<close> the first balance and the second token, in the other
  exchange contracts six bytes of padding. Padding is zero, since \<^verbatim>\<open>processTx\<close> clears \<^verbatim>\<open>msg\<close>.
\<close>

definition le_bytes :: "nat \<Rightarrow> nat \<Rightarrow> bytes" where
  "le_bytes n v = rev (be_bytes n v)"

definition transfer_asset_contract :: "pb_istream_t \<Rightarrow> txContent_t \<Rightarrow> contract_result" where
  "transfer_asset_contract stream content =
     decode_msg protocol_TransferAssetContract stream content (\<lambda>m.
       let c1 = set_amount 0 (m_int m 4) content in
       case printTokenFromID c1 0 (m_buf m 1 @ m_buf m 2 @ m_buf m 3 @ replicate 4 0) (m_size m 1) of
         (False, c2) \<Rightarrow> (False, c2)
       | (True, c2) \<Rightarrow>
           (True, set_name_length 0 (strlen (tc_tokenNames c2 ! 0)) c2
              \<lparr>tc_account := m_buf m 2, tc_destination := m_buf m 3\<rparr>))"

definition vote_witness_contract :: "pb_istream_t \<Rightarrow> txContent_t \<Rightarrow> contract_result" where
  "vote_witness_contract stream content =
     decode_msg protocol_VoteWitnessContract stream content (\<lambda>m.
       let votes = m_msgs m 2 in
       if length votes > MAX_VOTES then (False, content)
       else (True, content
               \<lparr>tc_account := m_buf m 1, tc_votesCount := of_nat (length votes),
                tc_votes := buf_write (tc_votes content) 0 (map (\<lambda>v. (m_buf v 1, m_int v 2)) votes)\<rparr>))"

definition freeze_balance_contract :: "sdk \<Rightarrow> pb_istream_t \<Rightarrow> txContent_t \<Rightarrow> contract_result" where
  "freeze_balance_contract k stream content =
     decode_msg (protocol_FreezeBalanceContract (enum_size k)) stream content (\<lambda>m.
       if m_int m 3 \<noteq> 3 then (False, content)
       else (True, set_amount 0 (m_int m 2) content
               \<lparr>tc_account := m_buf m 1, tc_destination := m_buf m 15, tc_resource := ucast (m_int m 10)\<rparr>))"

definition unfreeze_balance_contract :: "sdk \<Rightarrow> pb_istream_t \<Rightarrow> txContent_t \<Rightarrow> contract_result" where
  "unfreeze_balance_contract k stream content =
     decode_msg (protocol_UnfreezeBalanceContract (enum_size k)) stream content (\<lambda>m.
       (True, content\<lparr>tc_resource := ucast (m_int m 10), tc_account := m_buf m 1, tc_destination := m_buf m 15\<rparr>))"

definition freeze_balance_v2_contract :: "sdk \<Rightarrow> pb_istream_t \<Rightarrow> txContent_t \<Rightarrow> contract_result" where
  "freeze_balance_v2_contract k stream content =
     decode_msg (protocol_FreezeBalanceV2Contract (enum_size k)) stream content (\<lambda>m.
       (True, set_amount 0 (m_int m 2) content
          \<lparr>tc_account := m_buf m 1, tc_destination := m_buf m 1, tc_resource := ucast (m_int m 3)\<rparr>))"

definition unfreeze_balance_v2_contract :: "sdk \<Rightarrow> pb_istream_t \<Rightarrow> txContent_t \<Rightarrow> contract_result" where
  "unfreeze_balance_v2_contract k stream content =
     decode_msg (protocol_UnfreezeBalanceV2Contract (enum_size k)) stream content (\<lambda>m.
       (True, set_amount 0 (m_int m 2) content
          \<lparr>tc_resource := ucast (m_int m 3), tc_account := m_buf m 1, tc_destination := m_buf m 1\<rparr>))"

definition withdraw_expire_unfreeze_contract :: "pb_istream_t \<Rightarrow> txContent_t \<Rightarrow> contract_result" where
  "withdraw_expire_unfreeze_contract stream content =
     decode_msg protocol_WithdrawExpireUnfreezeContract stream content (\<lambda>m.
       (True, content\<lparr>tc_account := m_buf m 1\<rparr>))"

definition delegate_resource_contract :: "sdk \<Rightarrow> pb_istream_t \<Rightarrow> txContent_t \<Rightarrow> contract_result" where
  "delegate_resource_contract k stream content =
     decode_msg (protocol_DelegateResourceContract (enum_size k)) stream content (\<lambda>m.
       (True, set_amount 0 (m_int m 3) content
          \<lparr>tc_resource := ucast (m_int m 2), tc_customData := ucast (m_int m 5),
           tc_account := m_buf m 1, tc_destination := m_buf m 4\<rparr>))"

definition undelegate_resource_contrace :: "sdk \<Rightarrow> pb_istream_t \<Rightarrow> txContent_t \<Rightarrow> contract_result" where
  "undelegate_resource_contrace k stream content =
     decode_msg (protocol_UnDelegateResourceContract (enum_size k)) stream content (\<lambda>m.
       (True, set_amount 0 (m_int m 3) content
          \<lparr>tc_resource := ucast (m_int m 2), tc_account := m_buf m 1, tc_destination := m_buf m 4\<rparr>))"

definition withdraw_balance_contract :: "pb_istream_t \<Rightarrow> txContent_t \<Rightarrow> contract_result" where
  "withdraw_balance_contract stream content =
     decode_msg protocol_WithdrawBalanceContract stream content (\<lambda>m.
       (True, content\<lparr>tc_account := m_buf m 1\<rparr>))"

definition proposal_create_contract :: "pb_istream_t \<Rightarrow> txContent_t \<Rightarrow> contract_result" where
  "proposal_create_contract stream content =
     decode_msg protocol_ProposalCreateContract stream content (\<lambda>m.
       (True, set_amount 0 (of_nat (length (m_msgs m 2))) content\<lparr>tc_account := m_buf m 1\<rparr>))"

definition proposal_approve_contract :: "pb_istream_t \<Rightarrow> txContent_t \<Rightarrow> contract_result" where
  "proposal_approve_contract stream content =
     decode_msg protocol_ProposalApproveContract stream content (\<lambda>m.
       (True, content\<lparr>tc_account := m_buf m 1\<rparr>))"

definition proposal_delete_contract :: "pb_istream_t \<Rightarrow> txContent_t \<Rightarrow> contract_result" where
  "proposal_delete_contract stream content =
     decode_msg protocol_ProposalDeleteContract stream content (\<lambda>m.
       (True, content\<lparr>tc_exchangeID := m_int m 2, tc_account := m_buf m 1\<rparr>))"

definition account_update_contract :: "pb_istream_t \<Rightarrow> txContent_t \<Rightarrow> contract_result" where
  "account_update_contract stream content =
     decode_msg protocol_AccountUpdateContract stream content (\<lambda>m.
       (True, content\<lparr>tc_account := m_buf m 2\<rparr>))"

section \<open>Smart contract calls\<close>

definition pb_decode_trigger_smart_contract_data ::
  "pb_istream_t \<Rightarrow> txContent_t \<Rightarrow> (pb_istream_t \<times> txContent_t) option" where
  "pb_decode_trigger_smart_contract_data stream content =
     (if bytes_left stream < 4 then None
      else
        do { (sel, s1) \<leftarrow> pb_read stream 4;
             let content1 = content\<lparr>tc_customSelector := U4BE sel 0\<rparr>;
             if sel \<noteq> SELECTOR_transfer \<and> sel \<noteq> SELECTOR_approve then
               (if bytes_left s1 mod 32 \<noteq> 0 then None
                else do { (_, s2) \<leftarrow> pb_read s1 (bytes_left s1);
                          Some (s2, content1\<lparr>tc_TRC20Method := 0\<rparr>) })
             else
               (let content2 = content1\<lparr>tc_TRC20Method := (if sel = SELECTOR_transfer then 1 else 2)\<rparr> in
                if bytes_left s1 \<noteq> 32 + 32 then None
                else
                  do { (to, s2) \<leftarrow> pb_read s1 32;
                       (amount, s3) \<leftarrow> pb_read s2 32;
                       Some (s3, content2
                         \<lparr>tc_destination := buf_set (take ADDRESS_SIZE (drop (32 - 21) to)) 0 ADD_PRE_FIX_BYTE_MAINNET,
                          tc_TRC20Amount := amount\<rparr>) }) })"

definition trigger_callbacks :: "txContent_t pb_callback" where
  "trigger_callbacks i = (if i = 6 then Some pb_decode_trigger_smart_contract_data else None)"

definition trigger_smart_contract :: "pb_istream_t \<Rightarrow> txContent_t \<Rightarrow> contract_result" where
  "trigger_smart_contract stream content =
     (case pb_decode trigger_callbacks protocol_TriggerSmartContract stream content of
        None \<Rightarrow> (False, content, [])
      | Some (m, c0) \<Rightarrow>
          let c1 = set_amount 0 (m_int m 3) c0
                \<lparr>tc_account := m_buf m 1, tc_contractAddress := m_buf m 2,
                 tc_callTokenValue := m_int m 5, tc_callTokenId := m_int m 6\<rparr> in
          case getKnownToken (tc_contractAddress c1) of
            None \<Rightarrow> (True, c1\<lparr>tc_TRC20Method := 0\<rparr>, m)
          | Some trc20 \<Rightarrow>
              let n = strlen (td_ticker trc20) + 1 in
              (True, set_name_length 0 n c1
                 \<lparr>tc_decimals := (tc_decimals c1)[0 := td_decimals trc20],
                  tc_tokenNames := (tc_tokenNames c1)
                    [0 := buf_write (tc_tokenNames c1 ! 0) 0 (take n (td_ticker trc20 @ [0]))]\<rparr>, m))"

section \<open>Exchanges\<close>

definition exchange_create_contract :: "pb_istream_t \<Rightarrow> txContent_t \<Rightarrow> contract_result" where
  "exchange_create_contract stream content =
     decode_msg protocol_ExchangeCreateContract stream content (\<lambda>m.
       let c1 = content\<lparr>tc_account := m_buf m 1\<rparr>;
           first = m_buf m 2 @ le_bytes 8 (unat (m_int m 3)) @ le_bytes 2 (m_size m 4) @ m_buf m 4 @ replicate 6 0 in
       case printTokenFromID c1 0 first (m_size m 2) of
         (False, c2) \<Rightarrow> (False, c2)
       | (True, c2) \<Rightarrow>
           let c3 = set_name_length 0 (strlen (tc_tokenNames c2 ! 0)) c2 in
           case printTokenFromID c3 1 (m_buf m 4 @ replicate 6 0) (m_size m 4) of
             (False, c4) \<Rightarrow> (False, c4)
           | (True, c4) \<Rightarrow>
               (True, set_amount 1 (m_int m 5) (set_amount 0 (m_int m 3)
                        (set_name_length 1 (strlen (tc_tokenNames c4 ! 1)) c4))))"

text \<open>The three contracts on an existing exchange start in the same way.\<close>

definition exchange_token :: "slot list \<Rightarrow> txContent_t \<Rightarrow> bool \<times> txContent_t" where
  "exchange_token m content =
     (let c1 = content\<lparr>tc_account := m_buf m 1, tc_exchangeID := m_int m 2\<rparr> in
      case printTokenFromID c1 0 (m_buf m 3 @ replicate 6 0) (m_size m 3) of
        (False, c2) \<Rightarrow> (False, c2)
      | (True, c2) \<Rightarrow> (True, set_name_length 0 (strlen (tc_tokenNames c2 ! 0)) c2))"

definition exchange_inject_contract :: "pb_istream_t \<Rightarrow> txContent_t \<Rightarrow> contract_result" where
  "exchange_inject_contract stream content =
     decode_msg protocol_ExchangeInjectContract stream content (\<lambda>m.
       case exchange_token m content of
         (False, c) \<Rightarrow> (False, c)
       | (True, c) \<Rightarrow> (True, set_amount 0 (m_int m 4) c))"

definition exchange_withdraw_contract :: "pb_istream_t \<Rightarrow> txContent_t \<Rightarrow> contract_result" where
  "exchange_withdraw_contract stream content =
     decode_msg protocol_ExchangeWithdrawContract stream content (\<lambda>m.
       case exchange_token m content of
         (False, c) \<Rightarrow> (False, c)
       | (True, c) \<Rightarrow> (True, set_amount 0 (m_int m 4) c))"

definition exchange_transaction_contract :: "pb_istream_t \<Rightarrow> txContent_t \<Rightarrow> contract_result" where
  "exchange_transaction_contract stream content =
     decode_msg protocol_ExchangeTransactionContract stream content (\<lambda>m.
       case exchange_token m content of
         (False, c) \<Rightarrow> (False, c)
       | (True, c) \<Rightarrow> (True, set_amount 1 (m_int m 5) (set_amount 0 (m_int m 4) c)))"

definition account_permission_update_contract :: "sdk \<Rightarrow> pb_istream_t \<Rightarrow> txContent_t \<Rightarrow> contract_result" where
  "account_permission_update_contract k stream content =
     decode_msg (protocol_AccountPermissionUpdateContract (enum_size k)) stream content (\<lambda>m.
       (True, content\<lparr>tc_account := m_buf m 1\<rparr>))"

section \<open>The transaction\<close>

text \<open>\<^verbatim>\<open>buffer_t\<close>: the captured stream; \<^const>\<open>None\<close> is the initial value with \<^verbatim>\<open>captured\<close> false.\<close>

record tx_callback_state =
  cs_dataBytes :: u64
  cs_contract_buffer :: "pb_istream_t option"

definition pb_decode_contract_parameter ::
  "pb_istream_t \<Rightarrow> tx_callback_state \<Rightarrow> (pb_istream_t \<times> tx_callback_state) option" where
  "pb_decode_contract_parameter stream u =
     (if cs_contract_buffer u \<noteq> None then None
      else Some (stream, u\<lparr>cs_contract_buffer := Some stream\<rparr>))"

definition pb_get_tx_data_size ::
  "pb_istream_t \<Rightarrow> tx_callback_state \<Rightarrow> (pb_istream_t \<times> tx_callback_state) option" where
  "pb_get_tx_data_size stream u = Some (stream, u\<lparr>cs_dataBytes := of_nat (bytes_left stream)\<rparr>)"

definition tx_callbacks :: "tx_callback_state pb_callback" where
  "tx_callbacks i =
     (if i = 2 then Some pb_decode_contract_parameter
      else if i = 0 then Some pb_get_tx_data_size else None)"

datatype parserStatus_e = USTREAM_PROCESSING | USTREAM_FINISHED | USTREAM_FAULT
  | USTREAM_MISSING_SETTING_DATA_ALLOWED

definition contract_switch :: "sdk \<Rightarrow> u32 \<Rightarrow> (pb_istream_t \<Rightarrow> txContent_t \<Rightarrow> contract_result) option" where
  "contract_switch k type =
     (if type = TRANSFERCONTRACT then Some transfer_contract
      else if type = TRANSFERASSETCONTRACT then Some transfer_asset_contract
      else if type = VOTEWITNESSCONTRACT then Some vote_witness_contract
      else if type = FREEZEBALANCECONTRACT then Some (freeze_balance_contract k)
      else if type = UNFREEZEBALANCECONTRACT then Some (unfreeze_balance_contract k)
      else if type = FREEZEBALANCEV2CONTRACT then Some (freeze_balance_v2_contract k)
      else if type = UNFREEZEBALANCEV2CONTRACT then Some (unfreeze_balance_v2_contract k)
      else if type = WITHDRAWEXPIREUNFREEZECONTRACT then Some withdraw_expire_unfreeze_contract
      else if type = DELEGATERESOURCECONTRACT then Some (delegate_resource_contract k)
      else if type = UNDELEGATERESOURCECONTRACT then Some (undelegate_resource_contrace k)
      else if type = WITHDRAWBALANCECONTRACT then Some withdraw_balance_contract
      else if type = PROPOSALCREATECONTRACT then Some proposal_create_contract
      else if type = PROPOSALAPPROVECONTRACT then Some proposal_approve_contract
      else if type = PROPOSALDELETECONTRACT then Some proposal_delete_contract
      else if type = ACCOUNTUPDATECONTRACT then Some account_update_contract
      else if type = TRIGGERSMARTCONTRACT then Some trigger_smart_contract
      else if type = EXCHANGECREATECONTRACT then Some exchange_create_contract
      else if type = EXCHANGEINJECTCONTRACT then Some exchange_inject_contract
      else if type = EXCHANGEWITHDRAWCONTRACT then Some exchange_withdraw_contract
      else if type = EXCHANGETRANSACTIONCONTRACT then Some exchange_transaction_contract
      else if type = ACCOUNTPERMISSIONUPDATECONTRACT then Some (account_permission_update_contract k)
      else None)"

text \<open>The part of \<^verbatim>\<open>processTx\<close> under \<^verbatim>\<open>if (transaction.contract->has_parameter)\<close>.\<close>

definition process_contract ::
  "sdk \<Rightarrow> bytes \<Rightarrow> slot list \<Rightarrow> pb_istream_t option \<Rightarrow> app_state \<Rightarrow> parserStatus_e \<times> app_state" where
  "process_contract k buffer contract contract_buffer s =
     (let content = txContent s in
      if tc_contractSeen content then (USTREAM_FAULT, s)
      else
        let content1 = content\<lparr>tc_contractSeen := True\<rparr>; s1 = s\<lparr>txContent := content1\<rparr> in
        case contract_buffer of
          None \<Rightarrow> (USTREAM_FAULT, s1)
        | Some b \<Rightarrow>
            if bytes_left b = 0 then (USTREAM_FAULT, s1)
            else if s_region b \<noteq> RInput \<or> s_pos b > length buffer \<or> bytes_left b > length buffer - s_pos b
            then (USTREAM_FAULT, s1)
            else
              let type = ucast (m_int contract 1);
                  content2 = content1\<lparr>tc_permission_id := ucast (m_int contract 5), tc_contractType := type\<rparr>;
                  tx_stream = pb_istream_from_buffer RInput (s_pos b) (take (bytes_left b) (drop (s_pos b) buffer)) in
              case contract_switch k type of
                None \<Rightarrow> (USTREAM_FAULT, s1\<lparr>txContent := content2\<rparr>)
              | Some f \<Rightarrow>
                  (case f tx_stream content2 of
                     (ret, content3, m) \<Rightarrow>
                       (if ret then USTREAM_PROCESSING else USTREAM_FAULT, s1\<lparr>txContent := content3, msg := m\<rparr>)))"

definition processTx :: "sdk \<Rightarrow> bytes \<Rightarrow> app_state \<Rightarrow> parserStatus_e \<times> app_state" where
  "processTx k buffer s =
     (if length buffer = 0 then (USTREAM_FINISHED, s)
      else
        let s0 = s\<lparr>msg := []\<rparr>; content = txContent s0 in
        case pb_decode tx_callbacks (protocol_Transaction_raw (enum_size k)) (pb_istream_from_buffer RInput 0 buffer)
               \<lparr>cs_dataBytes = tc_dataBytes content, cs_contract_buffer = None\<rparr> of
          None \<Rightarrow> (USTREAM_FAULT, s0)
        | Some (transaction, u) \<Rightarrow>
            let content1 = content\<lparr>tc_dataBytes := cs_dataBytes u\<rparr>;
                feeLimit = m_int transaction 18 in
            if feeLimit \<noteq> 0 \<and> tc_feeLimitSeen content1 \<and> tc_feeLimit content1 \<noteq> feeLimit
            then (USTREAM_FAULT, s0\<lparr>txContent := content1\<rparr>)
            else
              let content2 = (if feeLimit \<noteq> 0 then content1\<lparr>tc_feeLimit := feeLimit, tc_feeLimitSeen := True\<rparr>
                              else content1);
                  s2 = s0\<lparr>txContent := content2\<rparr> in
              if \<not> HAS_SETTING s S_DATA_ALLOWED \<and> tc_dataBytes content2 \<noteq> 0
              then (USTREAM_MISSING_SETTING_DATA_ALLOWED, s2)
              else
                let contract = m_msg transaction 11 in
                if m_has contract 2 then process_contract k buffer contract (cs_contract_buffer u) s2
                else (USTREAM_PROCESSING, s2))"

end
