(* ===== verification/Callbacks.thy ===== *)
theory Callbacks
  imports Parse
begin

text \<open>
  What the decoder does with the state its callbacks work on. A stream contract is a predicate of streams that reading
  keeps. A callback contract says, beside it, what each call of a callback keeps true of the state; decoding a whole
  message then keeps it. The two sets of callbacks of the parser satisfy it: the one that reads the data of a contract
  call, and the one that captures the contract of a transaction.
\<close>

locale stream_contract =
  fixes ok_stream :: "pb_istream_t \<Rightarrow> bool"
  assumes ok_consumes: "ok_stream s \<Longrightarrow> consumes s s' \<Longrightarrow> ok_stream s'"
    and ok_prefix: "ok_stream (IStream r p bs) \<Longrightarrow> ok_stream (IStream r p (take n bs))"
    and ok_local: "length raw \<le> 10 \<Longrightarrow> ok_stream (IStream RLocal 0 raw)"
begin

lemma substream_ok:
  assumes "pb_make_string_substream s = Some (sub, s')" "ok_stream s"
  shows "ok_stream sub \<and> ok_stream s'"
proof -
  obtain sz s1 where s1: "pb_decode_varint32 s = Some (sz, s1)"
      "sub = IStream (s_region s1) (s_pos s1) (take (unat sz) (s_left s1))"
      "s' = IStream (s_region s1) (s_pos s1 + unat sz) (drop (unat sz) (s_left s1))" "\<not> bytes_left s1 < unat sz"
    using assms(1) by (auto simp: pb_make_string_substream_eq split: bind_splits if_splits)
  then have "ok_stream s1" using varint32.rd_consumes ok_consumes assms(2) by blast
  moreover have "consumes s1 s'" using s1(3,4) by (auto simp: consumes_def)
  ultimately show ?thesis
    using ok_consumes ok_prefix [of "s_region s1" "s_pos s1" "s_left s1" "unat sz"] s1(2) by auto
qed

end

lemma raw_varint_length: "raw_varint_loop n buf s = Some (raw, s') \<Longrightarrow> length raw \<le> n"
proof (induction n buf s rule: raw_varint_loop.induct)
  case (1 n buf s)
  from "1.prems" have "\<not> n < length buf + 1"
    "case pb_read s 1 of None \<Rightarrow> False | Some (bs, s1) \<Rightarrow>
       if hd bs AND 0x80 \<noteq> 0 then raw_varint_loop n (buf @ [hd bs]) s1 = Some (raw, s') else raw = buf @ [hd bs]"
    by (subst (asm) raw_varint_loop.simps; auto split: option.splits if_splits)+
  with "1.IH" show ?case by (auto split: option.splits if_splits)
qed

lemma read_raw_length: "read_raw_value s wt = Some (raw, s') \<Longrightarrow> length raw \<le> 10"
  by (auto simp: read_raw_value_def pb_read_def buf_read_def split: if_splits dest: raw_varint_length)

locale callback_contract = stream_contract ok_stream
  for ok_stream :: "pb_istream_t \<Rightarrow> bool" +
  fixes cb :: "'s pb_callback"
    and inv :: "'s \<Rightarrow> bool"
  assumes callback_keeps:
      "cb i = Some f \<Longrightarrow> ok_stream s \<Longrightarrow> inv u \<Longrightarrow> f s u = Some (s', u') \<Longrightarrow> ok_stream s' \<and> inv u'"
begin

lemma default_callback_keeps:
  "ok_stream s \<Longrightarrow> inv u \<Longrightarrow> pb_default_field_callback cb i s u = Some (s', u') \<Longrightarrow> ok_stream s' \<and> inv u'"
  by (auto simp: pb_default_field_callback_def split: option.splits dest: callback_keeps)

lemma callback_loop_keeps:
  "callback_loop cb i sub u = Some u' \<Longrightarrow> ok_stream sub \<Longrightarrow> inv u \<Longrightarrow> inv u'"
proof (induction "bytes_left sub" arbitrary: sub u rule: less_induct)
  case less
  from less.prems(1) obtain a b where ab: "pb_default_field_callback cb i sub u = Some (a, b)"
      "0 < bytes_left a \<and> bytes_left a < bytes_left sub \<and> callback_loop cb i a b = Some u' \<or> b = u'"
    by (subst (asm) callback_loop.simps) (auto split: option.splits if_splits)
  from default_callback_keeps [OF less.prems(2,3) ab(1)] ab(2) less.hyps [of a b] show ?case by blast
qed

lemma callback_field_keeps:
  assumes "decode_callback_field cb i wt s u = Some (u', s')" "ok_stream s" "inv u"
  shows "inv u'"
proof (cases "wt = PB_WT_STRING")
  case True
  then obtain sub where "pb_make_string_substream s = Some (sub, s')" "callback_loop cb i sub u = Some u'"
    using assms(1) by (auto simp: decode_callback_field_def split: bind_splits)
  then show ?thesis using substream_ok callback_loop_keeps assms(2,3) by blast
next
  case False
  then obtain raw s2 where "pb_default_field_callback cb i (IStream RLocal 0 raw) u = Some (s2, u')" "length raw \<le> 10"
    using assms(1) read_raw_length by (fastforce simp: decode_callback_field_def pb_istream_from_buffer_def split: bind_splits)
  then show ?thesis using default_callback_keeps ok_local assms(3) by blast
qed

lemma decode_field_keeps:
  "decode_field cb f wt m u s = Some (m', u', s') \<Longrightarrow> ok_stream s \<Longrightarrow> inv u \<Longrightarrow> inv u' \<and> ok_stream s'"
  using decode_field_consumes [of cb f wt m u s m' u' s'] ok_consumes
  by (auto simp: decode_field_def split: atype.splits bind_splits dest: callback_field_keeps)

theorem decode_inner_keeps:
  "pb_decode_inner cb fs s m u = Some (m', u') \<Longrightarrow> ok_stream s \<Longrightarrow> inv u \<Longrightarrow> inv u'"
proof (induction "bytes_left s" arbitrary: fs s m u m' u' rule: less_induct)
  case less
  from less.prems(1) show ?case
  proof (cases rule: pb_decode_inner_cases)
    case (skip wt tag s1 s2)
    note tag = pb_decode_tag_less [OF skip(2)] and skipped = pb_skip_field_consumes [OF skip(5)]
    then have "ok_stream s2" using ok_consumes less.prems(2) by blast
    with tag consumes_bytes_left [OF skipped] less.hyps [of s2 fs m u] skip(6) less.prems(3) show ?thesis by simp
  next
    case (field wt tag s1 f m1 u1 s2)
    note tag = pb_decode_tag_less [OF field(2)]
    then have "inv u1 \<and> ok_stream s2"
      using decode_field_keeps [OF field(6)] ok_consumes less.prems(2,3) by blast
    with tag consumes_bytes_left [OF decode_field_consumes [OF field(6)]] less.hyps [of s2 fs m1 u1] field(7)
    show ?thesis by simp
  next
    case (submessage wt tag s1 f gs sm sub s2 sm' u1)
    note tag = pb_decode_tag_less [OF submessage(2)] and sub = pb_make_string_substream_consumes [OF submessage(8)]
    then have ok: "ok_stream sub \<and> ok_stream s2"
      using substream_ok [OF submessage(8)] ok_consumes less.prems(2) by blast
    then have "inv u1" using less.hyps [of sub gs sm u] submessage(9) tag sub less.prems(3) by simp
    with ok tag sub consumes_bytes_left [of s1 s2] less.hyps [of s2 fs _ u1] submessage(10) show ?thesis by simp
  qed (use less.prems in simp_all)
qed

end

section \<open>The captured contract\<close>

text \<open>A stream over the received buffer reads the buffer at its own position.\<close>

definition in_buffer :: "bytes \<Rightarrow> pb_istream_t \<Rightarrow> bool" where
  "in_buffer buf s \<longleftrightarrow> (s_region s = RInput \<longrightarrow>
     s_pos s + bytes_left s \<le> length buf \<and> s_left s = take (bytes_left s) (drop (s_pos s) buf))"

lemma in_buffer_consumes: "in_buffer buf s \<Longrightarrow> consumes s s' \<Longrightarrow> in_buffer buf s'"
proof -
  assume b: "in_buffer buf s" and c: "consumes s s'"
  from c obtain n where n: "n \<le> bytes_left s" "s' = IStream (s_region s) (s_pos s + n) (drop n (s_left s))"
    by (auto simp: consumes_def)
  show ?thesis
  proof (cases "s_region s")
    case RInput
    then have "s_left s = take (bytes_left s) (drop (s_pos s) buf)" "s_pos s + bytes_left s \<le> length buf"
      using b by (simp_all add: in_buffer_def)
    then have "drop n (s_left s) = take (bytes_left s - n) (drop (s_pos s + n) buf)"
      by (metis add.commute drop_drop drop_take)
    then show ?thesis using n RInput b by (auto simp: in_buffer_def bytes_left_def min_def)
  qed (use n in \<open>simp add: in_buffer_def\<close>)
qed

lemma in_buffer_prefix: "in_buffer buf (IStream r p bs) \<Longrightarrow> in_buffer buf (IStream r p (take n bs))"
proof -
  assume "in_buffer buf (IStream r p bs)"
  then have *: "r = RInput \<Longrightarrow> p + length bs \<le> length buf" "r = RInput \<Longrightarrow> bs = take (length bs) (drop p buf)"
    by (simp_all add: in_buffer_def bytes_left_def)
  have "r = RInput \<Longrightarrow> take n bs = take (min (length bs) n) (drop p buf)"
    using *(2) by (metis min.commute take_take)
  with *(1) show ?thesis by (auto simp: in_buffer_def bytes_left_def)
qed

definition captured_in :: "bytes \<Rightarrow> tx_callback_state \<Rightarrow> bool" where
  "captured_in buf u \<longleftrightarrow> (\<forall>b. cs_contract_buffer u = Some b \<longrightarrow> in_buffer buf b)"

interpretation tx_contract: callback_contract "in_buffer buf" tx_callbacks "captured_in buf" for buf
proof
  fix i f and s s' :: pb_istream_t and u u' :: tx_callback_state
  assume "tx_callbacks i = Some f" "in_buffer buf s" "captured_in buf u" "f s u = Some (s', u')"
  then show "in_buffer buf s' \<and> captured_in buf u'"
    by (auto simp: tx_callbacks_def pb_decode_contract_parameter_def pb_get_tx_data_size_def captured_in_def
        split: if_splits)
next
  show "in_buffer buf (IStream RLocal 0 raw)" for raw by (simp add: in_buffer_def)
qed (fact in_buffer_consumes in_buffer_prefix)+

text \<open>C16: The contract whose fields are shown is part of the bytes that are hashed, whatever the chunk contains: when
  decoding a chunk captures a contract, the captured range lies inside the received buffer and holds exactly the bytes
  of the buffer there; or the field had another wire type, the capture
  points into the decoder's own frame, and the contract is refused. Nothing captured is refused too.\<close>

theorem captured_contract_in_chunk:
  assumes "pb_decode tx_callbacks (protocol_Transaction_raw es) (pb_istream_from_buffer RInput 0 buffer)
      \<lparr>cs_dataBytes = n, cs_contract_buffer = None\<rparr> = Some (transaction, u)"
  shows "case cs_contract_buffer u of
      None \<Rightarrow> \<forall>k c s. fst (process_contract k buffer c None s) = USTREAM_FAULT
    | Some b \<Rightarrow>
        s_region b = RInput \<and> s_pos b + bytes_left b \<le> length buffer \<and> s_left b = take (bytes_left b) (drop (s_pos b) buffer) \<or>
        s_region b = RLocal \<and> (\<forall>k c s. fst (process_contract k buffer c (Some b) s) = USTREAM_FAULT)"
proof -
  have "in_buffer buffer (pb_istream_from_buffer RInput 0 buffer)"
    by (simp add: in_buffer_def pb_istream_from_buffer_def bytes_left_def)
  from tx_contract.decode_inner_keeps [OF assms(1) [unfolded pb_decode_def] this]
  have c: "captured_in buffer u" by (simp add: captured_in_def)
  show ?thesis
  proof (cases "cs_contract_buffer u")
    case None
    then show ?thesis by (simp add: process_contract_def Let_def)
  next
    case (Some b)
    then have "in_buffer buffer b" using c by (simp add: captured_in_def)
    with Some show ?thesis by (cases "s_region b") (simp_all add: in_buffer_def process_contract_def Let_def)
  qed
qed

end
