(* ===== verification/Review.thy ===== *)
theory Review
  imports Parse
begin

text \<open>
  The review screens, \<^verbatim>\<open>src/src/ui/ui_review_menu_nbgl.c\<close>: which strings each review shows, the label of a
  known service, the contact names of the address book, and the order of the warnings.
\<close>

section \<open>What a field shows\<close>

definition deref :: "app_state \<Rightarrow> strref \<Rightarrow> bytes" where
  "deref s r =
     (case r of
        Literal t \<Rightarrow> chars t
      | FromAddress \<Rightarrow> cstr (fromAddress s)
      | ToAddress \<Rightarrow> cstr (toAddress s)
      | FullContract \<Rightarrow> cstr (fullContract s)
      | FullHash \<Rightarrow> cstr (fullHash s)
      | ActionText \<Rightarrow> cstr (TRC20Action s)
      | SendAllowText \<Rightarrow> cstr (TRC20ActionSendAllow s)
      | ApduAt off \<Rightarrow> cstr (drop off (G_io_apdu_buffer s))
      | StringsAt off \<Rightarrow> cstr (drop off (strings s))
      | PermThreshold e \<Rightarrow> cstr (pe_threshold (permissionEntries s ! e))
      | PermKey e i \<Rightarrow> cstr (pe_keys (permissionEntries s ! e) ! i)
      | PermOperations e \<Rightarrow> cstr (pe_operations (permissionEntries s ! e))
      | ServiceLabel \<Rightarrow> (case g_recipient_service s of Some l \<Rightarrow> l | None \<Rightarrow> [])
      | RecipientName \<Rightarrow> (case g_recipient_contact s of Some c \<Rightarrow> cstr (ab_contact_name c) | None \<Rightarrow> [])
      | SenderName \<Rightarrow> (case g_sender_contact s of Some c \<Rightarrow> cstr (ab_contact_name c) | None \<Rightarrow> [])
      | RecipientScope \<Rightarrow> (case g_recipient_contact s of Some c \<Rightarrow> cstr (ab_scope c) | None \<Rightarrow> [])
      | SenderScope \<Rightarrow> (case g_sender_contact s of Some c \<Rightarrow> cstr (ab_scope c) | None \<Rightarrow> []))"

text \<open>
  The pairs of texts on the transaction screen. Under a contact name the device keeps the full address and
  the sub-name of the contact, which are the third component.
\<close>

type_synonym row = "bytes \<times> bytes \<times> (bytes \<times> bytes option) option"

definition shown :: "app_state \<Rightarrow> row list" where
  "shown s =
     map (\<lambda>f. (deref s (tv_item f), deref s (tv_value f),
               map_option (\<lambda>(full, sub). (deref s full, map_option (deref s) sub)) (tv_alias f)))
       (ti_fields (txInfos s))"

abbreviation (input) field :: "strref \<Rightarrow> strref \<Rightarrow> tag_value" where
  "field i v \<equiv> \<lparr>tv_item = i, tv_value = v, tv_alias = None\<rparr>"

definition MAX_TX_FIELDS :: nat where "MAX_TX_FIELDS = 21"
definition maxFee_offset :: nat where "maxFee_offset = 122"

text \<open>Offsets of the vote slots in the APDU buffer: 35 bytes of address and 15 of amount.\<close>

definition VOTE_ADDRESS_slot :: "nat \<Rightarrow> nat" where "VOTE_ADDRESS_slot i = i * 50"
definition VOTE_AMOUNT_slot :: "nat \<Rightarrow> nat" where "VOTE_AMOUNT_slot i = i * 50 + 35"

section \<open>The fields of each review\<close>

definition permissionThresholdLabel :: "string list" where
  "permissionThresholdLabel =
     [''Owner Threshold'', ''Witness Threshold'', ''Active 1 Threshold'', ''Active 2 Threshold'']"

definition permissionOperationsLabel :: "string list" where
  "permissionOperationsLabel =
     [''Owner Operations'', ''Witness Operations'', ''Active 1 Operations'', ''Active 2 Operations'']"

definition permissionKeyLabel :: "string list list" where
  "permissionKeyLabel =
     [[''Owner Key 1'', ''Owner Key 2'', ''Owner Key 3''],
      [''Witness Key 1'', ''Witness Key 2'', ''Witness Key 3''],
      [''Active 1 Key 1'', ''Active 1 Key 2'', ''Active 1 Key 3''],
      [''Active 2 Key 1'', ''Active 2 Key 2'', ''Active 2 Key 3'']]"

definition permission_fields :: "app_state \<Rightarrow> nat \<Rightarrow> tag_value list" where
  "permission_fields s e =
     (if \<not> pe_present (permissionEntries s ! e) then []
      else
        [field (Literal (permissionThresholdLabel ! e)) (PermThreshold e)] @
        map (\<lambda>i. field (Literal (permissionKeyLabel ! e ! i)) (PermKey e i)) [0..<pe_keysCount (permissionEntries s ! e)] @
        [field (Literal (permissionOperationsLabel ! e)) (PermOperations e)])"

abbreviation (input) fresh_infos :: "ui_approval_state_t \<Rightarrow> bool \<Rightarrow> nbgl_tx_infos_t" where
  "fresh_infos st data_warning \<equiv>
     \<lparr>ti_fields = [], ti_data_warning = data_warning, ti_custom_warning = False, ti_state = st,
      ti_flowTitle = ''Review transaction'', ti_flowSubtitle = [], ti_longPress = ''Sign transaction''\<rparr>"

abbreviation (input) titled :: "string \<Rightarrow> string \<Rightarrow> nbgl_tx_infos_t \<Rightarrow> nbgl_tx_infos_t" where
  "titled t l i \<equiv> i\<lparr>ti_flowTitle := t, ti_longPress := l\<rparr>"

definition two_lines :: "string \<Rightarrow> string \<Rightarrow> string" where
  "two_lines a b = a @ CHR 0x0A # b"

abbreviation (input) from_field :: tag_value where
  "from_field \<equiv> field (Literal ''From'') FromAddress"

text \<open>
  The switch of \<^verbatim>\<open>prepareTxInfos\<close>, first half.
\<close>

definition tx_infos_1 :: "ui_approval_state_t \<Rightarrow> app_state \<Rightarrow> nbgl_tx_infos_t \<Rightarrow> nbgl_tx_infos_t" where
  "tx_infos_1 st s i =
     (case st of
        APPROVAL_TRANSFER \<Rightarrow>
          titled ''Review Transaction'' ''Sign Transaction'' (i
            \<lparr>ti_fields :=
               [field (Literal ''Amount'') (ApduAt 0), field (Literal ''Token'') FullContract,
                field SendAllowText ToAddress, from_field] @
               (if tc_contractType (txContent s) = TRIGGERSMARTCONTRACT
                then [field (Literal ''Max Fee'') (StringsAt maxFee_offset)] else [])\<rparr>)
      | APPROVAL_SIMPLE_TRANSACTION \<Rightarrow>
          i\<lparr>ti_fields := [field (Literal ''Hash'') FullHash, from_field]\<rparr>
      | APPROVAL_PERMISSION_UPDATE \<Rightarrow>
          titled (two_lines ''Review transaction to'' ''Update Permission'') (two_lines ''Sign transaction to'' ''Update Permission'') (i
            \<lparr>ti_fields := from_field # concat (map (permission_fields s) [0..<4])\<rparr>)
      | APPROVAL_EXCHANGE_CREATE \<Rightarrow>
          titled (two_lines ''Review transaction to'' ''Exchange'') (two_lines ''Sign transaction to'' ''Exchange'') (i
            \<lparr>ti_fields :=
               [field (Literal ''Token 1'') FullContract, field (Literal ''Amount 1'') (ApduAt 0),
                field (Literal ''Token 2'') ToAddress, field (Literal ''Amount 2'') (ApduAt 100), from_field]\<rparr>)
      | APPROVAL_EXCHANGE_TRANSACTION \<Rightarrow>
          i\<lparr>ti_fields :=
               [field (Literal ''Exchange ID'') ToAddress, field (Literal ''Token pair'') FullContract,
                field (Literal ''Amount'') (ApduAt 0), field (Literal ''Expected'') (ApduAt 100), from_field]\<rparr>
      | APPROVAL_EXCHANGE_WITHDRAW_INJECT \<Rightarrow>
          i\<lparr>ti_fields :=
               [field (Literal ''Action'') (ApduAt 100), field (Literal ''Exchange ID'') ToAddress,
                field (Literal ''Token Name'') FullContract, field (Literal ''Amount'') (ApduAt 0), from_field]\<rparr>
      | APPROVAL_WITNESSVOTE_TRANSACTION \<Rightarrow>
          titled (two_lines ''Review transaction to'' ''Vote'') (two_lines ''Sign transaction to'' ''Vote'') (i
            \<lparr>ti_fields :=
               map (\<lambda>j. field (ApduAt (VOTE_ADDRESS_slot j)) (ApduAt (VOTE_AMOUNT_slot j))) [0..<votes_count s] @
               [field (Literal ''Total Vote Count'') FullContract, from_field]\<rparr>)
      | APPROVAL_FREEZEASSET_TRANSACTION \<Rightarrow>
          titled (two_lines ''Review transaction to'' ''Freeze'') (two_lines ''Sign transaction to'' ''Freeze'') (i
            \<lparr>ti_fields :=
               [field (Literal ''Gain'') FullContract, field (Literal ''Amount'') (ApduAt 0),
                field (Literal ''Freeze To'') ToAddress, from_field]\<rparr>)
      | APPROVAL_UNFREEZEASSET_TRANSACTION \<Rightarrow>
          titled (two_lines ''Review transaction to'' ''Unfreeze'') (two_lines ''Sign transaction to'' ''Unfreeze'') (i
            \<lparr>ti_fields :=
               [field (Literal ''Resource'') FullContract, field (Literal ''Delegated To'') ToAddress, from_field]\<rparr>)
      | _ \<Rightarrow> i)"

text \<open>The switch of \<^verbatim>\<open>prepareTxInfos\<close>, second half.\<close>

definition tx_infos_2 :: "ui_approval_state_t \<Rightarrow> nbgl_tx_infos_t \<Rightarrow> nbgl_tx_infos_t" where
  "tx_infos_2 st i =
     (case st of
        APPROVAL_WITHDRAWBALANCE_TRANSACTION \<Rightarrow>
          titled (two_lines ''Review transaction to'' ''Claim Rewards'') (two_lines ''Sign transaction to'' ''Claim Rewards'') (i
            \<lparr>ti_fields := [from_field]\<rparr>)
      | APPROVAL_SIGN_PERSONAL_MESSAGE \<Rightarrow>
          titled ''Review message'' ''Sign message'' (i
            \<lparr>ti_fields := [field (Literal ''Message hash'') FullContract, field (Literal ''Sign with'') FromAddress]\<rparr>)
      | APPROVAL_SIGN_TIP72_TRANSACTION \<Rightarrow>
          titled ''Review message'' ''Sign message'' (i
            \<lparr>ti_fields :=
               [field (Literal ''Domain hash'') (StringsAt 0), field (Literal ''Message hash'') (StringsAt 70),
                field (Literal ''Sign with'') FromAddress]\<rparr>)
      | APPROVAL_CUSTOM_CONTRACT \<Rightarrow>
          i\<lparr>ti_custom_warning := True,
            ti_fields :=
               [field (Literal ''Contract'') FullContract, field (Literal ''Selector'') ActionText,
                field (Literal ''Pay Token'') ToAddress, field (Literal ''Call Amount'') (ApduAt 0), from_field,
                field (Literal ''Max Fee'') (StringsAt maxFee_offset)],
            ti_flowSubtitle := ''Custom Contract''\<rparr>
      | APPROVAL_SHARED_ECDH_SECRET \<Rightarrow>
          titled (two_lines ''Review transaction to'' ''Share ECDH Secret'') (two_lines ''Sign transaction to'' ''Share ECDH Secret'') (i
            \<lparr>ti_fields := [field (Literal ''ECDH Address'') FromAddress, field (Literal ''Shared With'') ToAddress]\<rparr>)
      | APPROVAL_FREEZEASSETV2_TRANSACTION \<Rightarrow>
          titled (two_lines ''Review transaction to'' ''FreezeV2'') (two_lines ''Sign transaction to'' ''FreezeV2'') (i
            \<lparr>ti_fields :=
               [field (Literal ''Gain'') FullContract, field (Literal ''Amount'') (ApduAt 0),
                field (Literal ''To'') ToAddress, from_field]\<rparr>)
      | APPROVAL_UNFREEZEASSETV2_TRANSACTION \<Rightarrow>
          titled (two_lines ''Review transaction to'' ''UnfreezeV2'') (two_lines ''Sign transaction to'' ''UnfreezeV2'') (i
            \<lparr>ti_fields :=
               [field (Literal ''Resource'') FullContract, field (Literal ''Amount'') (ApduAt 0),
                field (Literal ''To'') ToAddress, from_field]\<rparr>)
      | APPROVAL_DELEGATE_RESOURCE_TRANSACTION \<Rightarrow>
          titled (two_lines ''Review transaction to'' ''Delegate Resource'') (two_lines ''Sign transaction to'' ''Delegate'') (i
            \<lparr>ti_fields :=
               [field (Literal ''Resource'') FullContract, field (Literal ''Amount'') (ApduAt 0),
                field (Literal ''Lock'') (ApduAt 100), field (Literal ''To'') ToAddress, from_field]\<rparr>)
      | APPROVAL_UNDELEGATE_RESOURCE_TRANSACTION \<Rightarrow>
          titled (two_lines ''Review transaction to'' ''Undelegate Resource'') (two_lines ''Sign transaction to'' ''Undelegate'') (i
            \<lparr>ti_fields :=
               [field (Literal ''Resource'') FullContract, field (Literal ''Amount'') (ApduAt 0),
                field (Literal ''To'') FromAddress, field (Literal ''From'') ToAddress]\<rparr>)
      | APPROVAL_WITHDRAWEXPIREUNFREEZE_TRANSACTION \<Rightarrow>
          titled (two_lines ''Review transaction to'' ''Withdraw Unfreeze'') (two_lines ''Sign transaction to'' ''Withdraw'') (i
            \<lparr>ti_fields := [from_field]\<rparr>)
      | _ \<Rightarrow> i)"

section \<open>Service label and contact names\<close>

text \<open>The loop inserts in front of the first field that points to the recipient address.\<close>

fun insert_before_recipient :: "tag_value list \<Rightarrow> tag_value list" where
  "insert_before_recipient [] = []"
| "insert_before_recipient (f # fs) =
     (if tv_value f = ToAddress then field (Literal ''Service'') ServiceLabel # f # fs
      else f # insert_before_recipient fs)"

definition insert_known_service_label :: "app_state \<Rightarrow> bool \<times> app_state" where
  "insert_known_service_label s =
     (let fs = ti_fields (txInfos s) in
      if g_recipient_service s = None then (True, s)
      else if \<not> (\<exists>f \<in> set fs. tv_value f = ToAddress) then (True, s)
      else if length fs \<ge> MAX_TX_FIELDS then (False, s)
      else (True, s\<lparr>txInfos := (txInfos s)\<lparr>ti_fields := insert_before_recipient fs\<rparr>\<rparr>))"

text \<open>The contact is passed with references to its name and its sub-name.\<close>

definition apply_contact_alias :: "s_ab_contact \<Rightarrow> strref \<Rightarrow> strref \<Rightarrow> strref \<Rightarrow> tag_value \<Rightarrow> tag_value" where
  "apply_contact_alias contact name scope full_address f =
     f\<lparr>tv_value := name,
       tv_alias := Some (full_address, if cstr (ab_scope contact) \<noteq> [] then Some scope else None)\<rparr>"

definition sender_alias :: "app_state \<Rightarrow> tag_value \<Rightarrow> tag_value" where
  "sender_alias s f =
     (case g_sender_contact s of
        Some c \<Rightarrow>
          if tv_value f = FromAddress then apply_contact_alias c SenderName SenderScope FromAddress f else f
      | None \<Rightarrow> f)"

definition apply_address_book_aliases :: "app_state \<Rightarrow> app_state" where
  "apply_address_book_aliases s =
     s\<lparr>txInfos := (txInfos s)
         \<lparr>ti_fields :=
            map (\<lambda>f.
              case g_recipient_contact s of
                Some c \<Rightarrow>
                  if tv_value f = ToAddress then apply_contact_alias c RecipientName RecipientScope ToAddress f
                  else sender_alias s f
              | None \<Rightarrow> sender_alias s f) (ti_fields (txInfos s))\<rparr>\<rparr>"

section \<open>Starting a review\<close>

definition format_hash :: "sdk \<Rightarrow> bytes \<Rightarrow> nat \<Rightarrow> app_state \<Rightarrow> app_state" where
  "format_hash k hash offset s = s\<lparr>strings := bytes_to_string k (strings s) offset (256 - offset) (take 32 hash)\<rparr>"

text \<open>The result is the status word thrown, or the boolean returned.\<close>

definition prepareTxInfos ::
  "sdk \<Rightarrow> ui_approval_state_t \<Rightarrow> bool \<Rightarrow> app_state \<Rightarrow> (u16 + bool) \<times> app_state" where
  "prepareTxInfos k st data_warning s =
     (if st = APPROVAL_WITNESSVOTE_TRANSACTION \<and> votes_count s > MAX_TX_FIELDS - 2
      then (Inl E_INCORRECT_DATA, s\<lparr>txInfos := fresh_infos st data_warning\<rparr>)
      else
        let s1 = (if st = APPROVAL_SIGN_TIP72_TRANSACTION
                  then format_hash k (m7_messageHash (messageSigningContext712 s)) 70
                         (format_hash k (m7_domainHash (messageSigningContext712 s)) 0 s)
                  else s);
            s2 = s1\<lparr>txInfos := tx_infos_2 st (tx_infos_1 st s1 (fresh_infos st data_warning))\<rparr> in
        case insert_known_service_label s2 of
          (False, s3) \<Rightarrow> (Inr False, s3)
        | (True, s3) \<Rightarrow> (Inr True, apply_address_book_aliases s3))"

definition reviewStart :: "app_state \<Rightarrow> app_state" where
  "reviewStart s =
     s\<lparr>the_screen :=
         (if ti_data_warning (txInfos s) then DataWarningScreen
          else if ti_custom_warning (txInfos s) then CustomWarningScreen
          else TransactionScreen)\<rparr>"

definition ui_idle :: "app_state \<Rightarrow> app_state" where
  "ui_idle s = s\<lparr>the_screen := IdleScreen\<rparr>"

definition ux_flow_display :: "sdk \<Rightarrow> ui_approval_state_t \<Rightarrow> bool \<Rightarrow> app_state \<Rightarrow> result" where
  "ux_flow_display k st data_warning s =
     (if st = APPROVAL_VERIFY_ADDRESS then (Returned, s\<lparr>the_screen := AddressScreen\<rparr>)
      else
        case prepareTxInfos k st data_warning s of
          (Inl e, s1) \<Rightarrow> (Thrown e, s1)
        | (Inr False, s1) \<Rightarrow> (Returned, ui_idle (io_send_sw E_INCORRECT_DATA (terminate_signing_session s1)))
        | (Inr True, s1) \<Rightarrow> (Returned, reviewStart s1))"

end
