(* ===== verification/Swap.thy ===== *)
theory Swap
  imports Review
begin

text \<open>
  The swap library, \<^verbatim>\<open>src/src/swap\<close>: the parameters the Exchange application validated are copied before
  the application is started to sign, and the transaction it is asked to sign is compared with them. The
  parameter structures of the SDK are records; a null pointer is \<^const>\<open>None\<close>.
\<close>

section \<open>Parameters\<close>

record create_transaction_parameters_t =
  cp_coin_configuration :: "bytes option"
  cp_amount :: "bytes option"
  cp_destination_address :: "bytes option"
  cp_destination_address_extra_id :: "bytes option"

record check_address_parameters_t =
  ca_address_parameters :: "bytes option"
  ca_address_to_check :: "bytes option"
  ca_extra_id_to_check :: "bytes option"

record get_printable_amount_parameters_t =
  ga_coin_configuration :: "bytes option"
  ga_amount :: bytes
  ga_is_fee :: bool

definition MAX_SWAP_TOKEN_LENGTH :: nat where "MAX_SWAP_TOKEN_LENGTH = 15"
definition MAX_SWAP_FEE_LIMIT :: u64 where "MAX_SWAP_FEE_LIMIT = 100000000"

text \<open>Ticker and decimals: those of the configuration, or TRX without one.\<close>

definition coin_of :: "sdk \<Rightarrow> bytes option \<Rightarrow> (bytes \<times> u8) option" where
  "coin_of k config =
     (let ticker = replicate MAX_SWAP_TOKEN_LENGTH 0 in
      case config of
        None \<Rightarrow> Some (buf_write ticker 0 (chars ''TRX'' @ [0]), SUN_DIG)
      | Some cfg \<Rightarrow>
          (case swap_parse_config k cfg MAX_SWAP_TOKEN_LENGTH of
             None \<Rightarrow> None
           | Some (t, d) \<Rightarrow> Some (strlcpy ticker t MAX_SWAP_TOKEN_LENGTH, d)))"

section \<open>Starting a swap\<close>

definition zero_validated :: swap_validated_t where
  "zero_validated =
     \<lparr>sv_initialized = False, sv_decimals = 0, sv_ticker = replicate 15 0, sv_amount = clear256,
      sv_recipient = replicate 35 0\<rparr>"

definition zero_path :: bip32_path_t where
  "zero_path = \<lparr>bp_indices = replicate 10 0, bp_length = 0\<rparr>"

definition zero_entry :: permissionEntry_t where
  "zero_entry = \<lparr>pe_present = False, pe_threshold = replicate 24 0, pe_keysCount = 0,
     pe_keys = replicate 3 (replicate 65 0), pe_operations = replicate 68 0\<rparr>"

text \<open>
  The globals as the loader leaves them, all zero; \<open>n\<close> is the size of the APDU buffer. The settings are in
  NVRAM and survive. \<^verbatim>\<open>os_explicit_zero_BSS_segment\<close> restores this state.
\<close>

definition zero_state :: "nat \<Rightarrow> u8 \<Rightarrow> app_state" where
  "zero_state n settings =
     \<lparr>N_settings = settings, txContent = zero_content, txContext = \<lparr>tx_sha2 = [], tx_initialized = False\<rparr>,
      transactionContext = \<lparr>tr_bip32_path = zero_path, tr_hash = replicate 32 0, tr_signature = replicate 65 0,
        tr_signatureLength = 0\<rparr>,
      publicKeyContext = \<lparr>pk_publicKey = replicate 65 0, pk_address58 = replicate 35 0,
        pk_chainCode = replicate 32 0, pk_getChaincode = False\<rparr>,
      messageSigningContext712 = \<lparr>m7_pathLength = 0, m7_bip32Path = replicate 10 0,
        m7_domainHash = replicate 32 0, m7_messageHash = replicate 32 0\<rparr>,
      personal_msg_ctx = \<lparr>pm_sha3 = [], pm_initialized = False\<rparr>,
      msg = [], customContractField = 0, fromAddress = replicate 40 0, toAddress = replicate 35 0,
      fullContract = replicate 67 0, TRC20Action = replicate 9 0, TRC20ActionSendAllow = replicate 8 0,
      fullHash = replicate 65 0, strings = replicate 296 0, votes_count = 0,
      permissionEntries = replicate 4 zero_entry, g_recipient_contact = None, g_sender_contact = None,
      g_recipient_service = None, G_io_apdu_buffer = replicate n 0, G_called_from_swap = False,
      G_swap_response_ready = False, G_swap_validated = zero_validated, ab_contacts = [],
      txInfos = \<lparr>ti_fields = [], ti_data_warning = False, ti_custom_warning = False,
        ti_state = APPROVAL_TRANSFER, ti_flowTitle = [], ti_flowSubtitle = [], ti_longPress = []\<rparr>,
      the_screen = IdleScreen, outputs = []\<rparr>"

text \<open>\<^const>\<open>None\<close>: an amount of more than 32 bytes is copied past the stack buffer of \<^verbatim>\<open>convertUint256BE\<close>.\<close>

definition swap_copy_transaction_parameters ::
  "sdk \<Rightarrow> create_transaction_parameters_t \<Rightarrow> app_state \<Rightarrow> (bool \<times> app_state) option" where
  "swap_copy_transaction_parameters k params s =
     (case cp_destination_address_extra_id params of
        None \<Rightarrow> Some (False, s)
      | Some extra \<Rightarrow>
          if cstr extra \<noteq> [] then Some (False, s)
          else
            case (cp_destination_address params, cp_amount params) of
              (Some destination, Some amount) \<Rightarrow>
                (case coin_of k (cp_coin_configuration params) of
                   None \<Rightarrow> Some (False, s)
                 | Some (ticker, decimals) \<Rightarrow>
                     if strlen (take (BASE58CHECK_ADDRESS_SIZE + 1) destination) \<noteq> BASE58CHECK_ADDRESS_SIZE
                     then Some (False, s)
                     else
                       do { amount' \<leftarrow> convertUint256BE amount (length amount);
                            Some (True, (zero_state (length (G_io_apdu_buffer s)) (N_settings s))
                              \<lparr>G_swap_validated :=
                                 \<lparr>sv_initialized = True, sv_decimals = decimals, sv_ticker = ticker,
                                  sv_amount = amount',
                                  sv_recipient = strlcpy (replicate 35 0) destination 35\<rparr>\<rparr>) })
            | _ \<Rightarrow> Some (False, s))"

section \<open>Checking the transaction\<close>

text \<open>
  The amount validated, as text. The result of \<^verbatim>\<open>tostring256\<close> is ignored; \<^const>\<open>None\<close> would be a division
  that does not end.
\<close>

definition printable_of :: "sdk \<Rightarrow> uint256_t \<Rightarrow> u8 \<Rightarrow> (bool \<times> bytes) option" where
  "printable_of k amount decimals =
     (let size' = max_printable_amount_size k; zeros = replicate size' 0 in
      do { (_, raw) \<leftarrow> tostring256 amount 10 zeros (of_nat size');
           Some (adjustDecimals raw (of_nat (strlen (take size' raw))) zeros (of_nat size') decimals) })"

definition check_swap_amount :: "sdk \<Rightarrow> app_state \<Rightarrow> bytes \<Rightarrow> u8 \<Rightarrow> bool option" where
  "check_swap_amount k s amount decimals =
     do { (ok, validated_amount) \<leftarrow> printable_of k (sv_amount (G_swap_validated s)) decimals;
          Some (ok \<and> strneq amount validated_amount (max_printable_amount_size k)) }"

definition swap_check_validity ::
  "sdk \<Rightarrow> app_state \<Rightarrow> bytes \<Rightarrow> bytes \<Rightarrow> bytes \<Rightarrow> bytes \<Rightarrow> bool option" where
  "swap_check_validity k s amount tokenName action to_address =
     (let v = G_swap_validated s in
      if \<not> sv_initialized v then Some False
      else
        do { ok \<leftarrow> check_swap_amount k s amount (sv_decimals v);
             Some (ok \<and> strneq tokenName (sv_ticker v) MAX_SWAP_TOKEN_LENGTH \<and>
                   strneq action (chars ''To'') 3 \<and>
                   strneq (sv_recipient v) to_address (BASE58CHECK_ADDRESS_SIZE + 1)) })"

text \<open>The byte the Exchange application reads, set just before the library returns to it.\<close>

definition swap_finalize_exchange_sign_transaction :: "bool \<Rightarrow> u8" where
  "swap_finalize_exchange_sign_transaction is_success = (if is_success then 1 else 0)"

section \<open>Addresses and amounts for the Exchange application\<close>

definition derive_public_key :: "sdk \<Rightarrow> bytes \<Rightarrow> bytes option" where
  "derive_public_key k buffer =
     (case read_bip32_path buffer zero_path of
        (None, _) \<Rightarrow> None
      | (Some _, path) \<Rightarrow>
          map_option (\<lambda>(public_key, _). getBase58FromPublicKey k public_key (replicate 35 0))
            (bip32_derive_get_pubkey k (path_of path)))"

text \<open>The value of \<^verbatim>\<open>params->result\<close>.\<close>

definition swap_handle_check_address :: "sdk \<Rightarrow> check_address_parameters_t \<Rightarrow> nat" where
  "swap_handle_check_address k params =
     (case ca_address_parameters params of
        None \<Rightarrow> 0
      | Some path \<Rightarrow>
          (case ca_address_to_check params of
             None \<Rightarrow> 0
           | Some address \<Rightarrow>
               (case ca_extra_id_to_check params of
                  None \<Rightarrow> 0
                | Some extra \<Rightarrow>
                    if cstr extra \<noteq> [] then 0
                    else
                      case derive_public_key k path of
                        None \<Rightarrow> 0
                      | Some address58 \<Rightarrow> if cstr address \<noteq> cstr address58 then 0 else 1)))"

definition strlcat :: "bytes \<Rightarrow> bytes \<Rightarrow> nat \<Rightarrow> bytes" where
  "strlcat out src n = (if strlen out < n then strlcpy out (cstr out @ cstr src) n else out)"

text \<open>The value of \<^verbatim>\<open>params->printable_amount\<close>, which starts out zeroed.\<close>

definition swap_handle_get_printable_amount :: "sdk \<Rightarrow> get_printable_amount_parameters_t \<Rightarrow> bytes option" where
  "swap_handle_get_printable_amount k params =
     (let size' = max_printable_amount_size k; empty = replicate size' 0 in
      case coin_of k (if ga_is_fee params then None else ga_coin_configuration params) of
        None \<Rightarrow> Some empty
      | Some (ticker, decimals) \<Rightarrow>
          do { amount_number \<leftarrow> convertUint256BE (ga_amount params) (length (ga_amount params));
               (ok, printable) \<leftarrow> printable_of k amount_number decimals;
               Some (if \<not> ok then empty
                     else strlcat (strlcat printable (chars '' '') size') ticker size') })"

end
