(* ===== verification/Approval.thy ===== *)
theory Approval
  imports Swap
begin

text \<open>
  What happens when the user answers a review: the callbacks of \<^verbatim>\<open>src/src/ui/ui_globals.c\<close> and the choice
  functions of \<^verbatim>\<open>src/src/ui/ui_review_menu_nbgl.c\<close>.
\<close>

section \<open>Callbacks\<close>

abbreviation (input) back_to_menu :: "bool \<Rightarrow> app_state \<Rightarrow> app_state" where
  "back_to_menu display_menu s \<equiv> (if display_menu then ui_idle s else s)"

definition ui_callback_address_ok :: "bool \<Rightarrow> app_state \<Rightarrow> bool \<times> app_state" where
  "ui_callback_address_ok display_menu s = (True, back_to_menu display_menu (helper_send_response_pubkey s))"

text \<open>Signing and the reply, common to the two callbacks that use \<^verbatim>\<open>signTransaction\<close>.\<close>

definition sign_and_send :: "sdk \<Rightarrow> app_state \<Rightarrow> bool \<times> app_state" where
  "sign_and_send k s =
     (case signTransaction k (transactionContext s) of
        (False, t) \<Rightarrow> (False, io_send_sw E_SECURITY_STATUS_NOT_SATISFIED (s\<lparr>transactionContext := t\<rparr>))
      | (True, t) \<Rightarrow>
          (True, io_send_response_pointer (take (unat (tr_signatureLength t)) (tr_signature t)) E_OK
                   (s\<lparr>transactionContext := t\<rparr>)))"

definition ui_callback_signMessage_ok :: "sdk \<Rightarrow> bool \<Rightarrow> app_state \<Rightarrow> bool \<times> app_state" where
  "ui_callback_signMessage_ok k display_menu s =
     (case sign_and_send k s of (ret, s1) \<Rightarrow> (ret, back_to_menu display_menu s1))"

definition ui_callback_tx_cancel :: "bool \<Rightarrow> app_state \<Rightarrow> bool \<times> app_state" where
  "ui_callback_tx_cancel display_menu s =
     (True, back_to_menu display_menu
              (terminate_signing_session (io_send_sw E_CONDITIONS_OF_USE_NOT_SATISFIED s)))"

definition ui_callback_tx_ok :: "sdk \<Rightarrow> bool \<Rightarrow> app_state \<Rightarrow> bool \<times> app_state" where
  "ui_callback_tx_ok k display_menu s =
     (case sign_and_send k s of (ret, s1) \<Rightarrow> (ret, back_to_menu display_menu (terminate_signing_session s1)))"

definition ui_callback_ecdh_ok :: "sdk \<Rightarrow> bool \<Rightarrow> app_state \<Rightarrow> bool \<times> app_state" where
  "ui_callback_ecdh_ok k display_menu s =
     (let t = transactionContext s in
      case cx_ecdh k (path_of (tr_bip32_path t)) (take 65 (tr_signature t)) of
        None \<Rightarrow> (False, back_to_menu display_menu (io_send_sw E_SECURITY_STATUS_NOT_SATISFIED s))
      | Some secret \<Rightarrow>
          let buf = buf_write (G_io_apdu_buffer s) 0 secret; tx = 1 + 2 * 32 in
          (True, back_to_menu display_menu
                   (io_send_response_pointer (take tx buf) E_OK (s\<lparr>G_io_apdu_buffer := buf\<rparr>))))"

definition TIP_712_MAGIC :: bytes where
  "TIP_712_MAGIC = [0x19, 0x01]"

text \<open>
  One of the two integers of a DER signature, whose contents start at \<open>xoffset\<close>: it is stored right-aligned in
  32 bytes at \<open>offset\<close>. \<^const>\<open>None\<close>: the length byte is out of range and the store would miss the buffer. The
  result is the buffer and the offset after the integer.
\<close>

definition copy_der_integer :: "bytes \<Rightarrow> nat \<Rightarrow> bytes \<Rightarrow> nat \<Rightarrow> (bytes \<times> nat) option" where
  "copy_der_integer signature xoffset out offset =
     (let len = unat (signature ! (xoffset - 1));
          (xlength, xo) = (if len = 33 then (32, xoffset + 1) else (len, xoffset)) in
      if xlength > 32 then None
      else Some (buf_write out (offset + 32 - xlength) (take xlength (drop xo signature)), xo + xlength))"

definition format_signature_out :: "bytes \<Rightarrow> bytes \<Rightarrow> bytes option" where
  "format_signature_out signature out =
     do { (out1, xoffset) \<leftarrow> copy_der_integer signature 4 (buf_write out 0 (replicate 64 0)) 0;
          (out2, _) \<leftarrow> copy_der_integer signature (xoffset + 2) out1 32;
          Some out2 }"

definition tip712_hash :: "sdk \<Rightarrow> messageSigningContext712_t \<Rightarrow> bytes" where
  "tip712_hash k m = cx_keccak256 k (TIP_712_MAGIC @ m7_domainHash m @ m7_messageHash m)"

text \<open>The boolean is the C result; \<^const>\<open>None\<close> only for a signature that is not DER. When one of the four calls of the
  hash fails, the callback returns without a reply.\<close>

definition ui_callback_signMessage712_v0_ok :: "sdk \<Rightarrow> bool \<Rightarrow> app_state \<Rightarrow> (bool \<times> app_state) option" where
  "ui_callback_signMessage712_v0_ok k display_menu s =
     (let m = messageSigningContext712 s in
      if \<not> cx_keccak_call k [] then Some (False, s)
      else if \<not> cx_keccak_call k [TIP_712_MAGIC] then Some (False, s)
      else if \<not> cx_keccak_call k [TIP_712_MAGIC, m7_domainHash m] then Some (False, s)
      else if \<not> cx_keccak_call k [TIP_712_MAGIC, m7_domainHash m, m7_messageHash m] then Some (False, s)
      else
      case ecdsa_sign_der k (take (m7_pathLength m) (m7_bip32Path m)) (tip712_hash k m) of
        None \<Rightarrow> Some (False, back_to_menu display_menu (io_send_sw E_SECURITY_STATUS_NOT_SATISFIED s))
      | Some (signature, parity_odd) \<Rightarrow>
          do { buf \<leftarrow> format_signature_out (buf_write (replicate 100 0) 0 signature) (G_io_apdu_buffer s);
               let buf1 = buf_set buf 64 (if parity_odd then 1 else 0);
               Some (True, back_to_menu display_menu
                       (io_send_response_pointer (take 65 buf1) E_OK (s\<lparr>G_io_apdu_buffer := buf1\<rparr>))) })"

definition ui_callback_signMessage712_v0_cancel :: "bool \<Rightarrow> app_state \<Rightarrow> bool \<times> app_state" where
  "ui_callback_signMessage712_v0_cancel display_menu s =
     (let buf = buf_set (buf_set (G_io_apdu_buffer s) 0 0x69) 1 0x85 in
      (True, back_to_menu display_menu (io_send_sw (word_rcat (take 2 buf)) (s\<lparr>G_io_apdu_buffer := buf\<rparr>))))"

section \<open>Choices\<close>

text \<open>
  Each answer shows a status page and then the menu. \<open>Stuck\<close> only for a signature that is not DER.
\<close>

definition status_page :: "app_state \<Rightarrow> app_state" where
  "status_page s = s\<lparr>the_screen := StatusScreen\<rparr>"

definition rejectChoice :: "app_state \<Rightarrow> result" where
  "rejectChoice s =
     (if ti_state (txInfos s) = APPROVAL_SIGN_TIP72_TRANSACTION
      then (Returned, status_page (snd (ui_callback_signMessage712_v0_cancel False s)))
      else (Returned, status_page (snd (ui_callback_tx_cancel False s))))"

definition reviewChoice :: "sdk \<Rightarrow> bool \<Rightarrow> app_state \<Rightarrow> result" where
  "reviewChoice k confirm s =
     (if confirm then
        (let st = ti_state (txInfos s) in
         if st = APPROVAL_SIGN_PERSONAL_MESSAGE
         then (Returned, status_page (snd (ui_callback_signMessage_ok k False s)))
         else if st = APPROVAL_SHARED_ECDH_SECRET
         then (Returned, status_page (snd (ui_callback_ecdh_ok k False s)))
         else if st = APPROVAL_SIGN_TIP72_TRANSACTION
         then (case ui_callback_signMessage712_v0_ok k False s of
                 None \<Rightarrow> (Stuck, s)
               | Some (_, s1) \<Rightarrow> (Returned, status_page s1))
         else (Returned, status_page (snd (ui_callback_tx_ok k False s))))
      else rejectChoice s)"

definition displayTransaction :: "app_state \<Rightarrow> app_state" where
  "displayTransaction s = s\<lparr>the_screen := TransactionScreen\<rparr>"

definition dataWarningChoice :: "bool \<Rightarrow> app_state \<Rightarrow> result" where
  "dataWarningChoice accept s =
     (if accept then
        (if ti_custom_warning (txInfos s) then (Returned, s\<lparr>the_screen := CustomWarningScreen\<rparr>)
         else (Returned, displayTransaction s))
      else (Returned, status_page (snd (ui_callback_tx_cancel False s))))"

definition customContractWarningChoice :: "bool \<Rightarrow> app_state \<Rightarrow> result" where
  "customContractWarningChoice accept s =
     (if accept then (Returned, displayTransaction s)
      else (Returned, status_page (snd (ui_callback_tx_cancel False s))))"

definition display_address_callback :: "bool \<Rightarrow> app_state \<Rightarrow> result" where
  "display_address_callback confirm s =
     (if confirm then (Returned, status_page (snd (ui_callback_address_ok False s)))
      else (Returned, status_page (snd (ui_callback_tx_cancel False s))))"

text \<open>The answer to the screen that is shown.\<close>

definition user_choice :: "sdk \<Rightarrow> bool \<Rightarrow> app_state \<Rightarrow> result" where
  "user_choice k accept s =
     (case the_screen s of
        DataWarningScreen \<Rightarrow> dataWarningChoice accept s
      | CustomWarningScreen \<Rightarrow> customContractWarningChoice accept s
      | TransactionScreen \<Rightarrow> reviewChoice k accept s
      | AddressScreen \<Rightarrow> display_address_callback accept s
      | _ \<Rightarrow> (Returned, ui_idle s))"

section \<open>Settings menu\<close>

text \<open>The three switches of \<^verbatim>\<open>src/src/ui/ui_idle_menu_nbgl.c\<close>, by their position.\<close>

definition settings_of :: "nat list" where
  "settings_of = [S_DATA_ALLOWED, S_CUSTOM_CONTRACT, S_SIGN_BY_HASH]"

definition settingsControlsCallback :: "nat \<Rightarrow> app_state \<Rightarrow> app_state" where
  "settingsControlsCallback tok s = (if tok < 3 then SETTING_TOGGLE (settings_of ! tok) s else s)"

text \<open>The switches as the menu draws them.\<close>

definition switch_states :: "app_state \<Rightarrow> bool list" where
  "switch_states s = [HAS_SETTING s S_DATA_ALLOWED, HAS_SETTING s S_CUSTOM_CONTRACT, HAS_SETTING s S_SIGN_BY_HASH]"

end
