(* ===== verification/Sign.thy ===== *)
theory Sign
  imports Approval
begin

text \<open>
  \<^verbatim>\<open>INS_SIGN\<close>, \<^verbatim>\<open>src/src/handlers/sign.c\<close>. The handler is split along its structure: the token-name
  command, the chunk of transaction bytes, the checks on the finished transaction, and one definition
  per group of cases of the final switch.
\<close>

section \<open>Printing into the global buffers\<close>

text \<open>
  \<^verbatim>\<open>print_amount\<close> may throw, so what follows it is a continuation.
\<close>

definition with_print :: "(u16 + bytes \<times> u16) option \<Rightarrow> app_state \<Rightarrow> (bytes \<Rightarrow> result) \<Rightarrow> result" where
  "with_print p s cont =
     (case p of
        None \<Rightarrow> (Stuck, s)
      | Some (Inl e) \<Rightarrow> (Thrown e, s)
      | Some (Inr (out, _)) \<Rightarrow> cont out)"

definition print_apdu :: "u64 \<Rightarrow> nat \<Rightarrow> u32 \<Rightarrow> u8 \<Rightarrow> app_state \<Rightarrow> (app_state \<Rightarrow> result) \<Rightarrow> result" where
  "print_apdu amount off outlen sun s cont =
     with_print (print_amount amount (drop off (G_io_apdu_buffer s)) outlen sun) s
       (\<lambda>out. cont (s\<lparr>G_io_apdu_buffer := take off (G_io_apdu_buffer s) @ out\<rparr>))"

definition print_toAddress :: "u64 \<Rightarrow> u8 \<Rightarrow> app_state \<Rightarrow> (app_state \<Rightarrow> result) \<Rightarrow> result" where
  "print_toAddress amount sun s cont =
     with_print (print_amount amount (toAddress s) (of_nat (length (toAddress s))) sun) s
       (\<lambda>out. cont (s\<lparr>toAddress := out\<rparr>))"

definition print_maxFee :: "app_state \<Rightarrow> (app_state \<Rightarrow> result) \<Rightarrow> result" where
  "print_maxFee s cont =
     with_print (print_amount (tc_feeLimit (txContent s)) (drop maxFee_offset (strings s)) 50 SUN_DIG) s
       (\<lambda>out. cont (s\<lparr>strings := take maxFee_offset (strings s) @ out\<rparr>))"

definition strcpy :: "bytes \<Rightarrow> string \<Rightarrow> bytes" where
  "strcpy out t = buf_write out 0 (chars t @ [0])"

definition write_hex :: "sdk \<Rightarrow> bytes \<Rightarrow> bytes \<Rightarrow> bytes" where
  "write_hex k v out = (case format_hex k v (length out) of Some t \<Rightarrow> buf_write out 0 (t @ [0]) | None \<Rightarrow> out)"

text \<open>\<^verbatim>\<open>terminate_signing_session(...); return io_send_sw(sw)\<close>\<close>

definition refuse :: "u16 \<Rightarrow> app_state \<Rightarrow> result" where
  "refuse sw s = ret_sw sw (terminate_signing_session s)"

section \<open>Helpers of the handler\<close>

definition fillVoteAddressSlot :: "bytes \<Rightarrow> bytes \<Rightarrow> nat \<Rightarrow> bytes" where
  "fillVoteAddressSlot destination from index =
     buf_write (buf_write destination (VOTE_ADDRESS_slot index) (replicate 50 0)) (VOTE_ADDRESS_slot index) (take 35 from)"

definition fillVoteAmountSlot :: "u64 \<Rightarrow> nat \<Rightarrow> app_state \<Rightarrow> (app_state \<Rightarrow> result) \<Rightarrow> result" where
  "fillVoteAmountSlot v index s cont = print_apdu v (VOTE_AMOUNT_slot index) 15 0 s cont"

text \<open>
  The lines of the keys of a permission, and whether each was long enough for its text. The local array \<^verbatim>\<open>address\<close> is uninitialised in C; it is taken as
  zero, and is always overwritten for an address that can be encoded.
\<close>

primrec permission_key_lines :: "sdk \<Rightarrow> slot list list \<Rightarrow> nat \<Rightarrow> bytes \<Rightarrow> bytes list \<Rightarrow> bool \<times> bytes list" where
  "permission_key_lines k [] i address lines = (True, lines)"
| "permission_key_lines k (key # keys) i address lines =
     (let address' = getBase58FromAddress k (m_buf key 1) address 0;
          line = cstr address' @ chars '' (weight '' @ fmt_signed (sint (m_int key 2)) @ chars '')'';
          lines' = lines[i := snprintf (lines ! i) 65 line] in
      if length line \<ge> 65 then (False, lines')
      else permission_key_lines k keys (Suc i) address' lines')"

definition fillPermissionEntry :: "sdk \<Rightarrow> nat \<Rightarrow> slot list \<Rightarrow> app_state \<Rightarrow> (app_state \<Rightarrow> result) \<Rightarrow> result" where
  "fillPermissionEntry k index perm s cont =
     (let keys = take 3 (m_msgs perm 7);
          e1 = zero_entry\<lparr>pe_present := True,
                 pe_threshold := snprintf (replicate 24 0) 24 (fmt_signed (sint (m_int perm 4))),
                 pe_keysCount := length keys\<rparr> in
      case permission_key_lines k keys 0 (replicate 35 0) (pe_keys e1) of
        (False, lines) \<Rightarrow>
          (Thrown E_INCORRECT_DATA, s\<lparr>permissionEntries := (permissionEntries s)[index := e1\<lparr>pe_keys := lines\<rparr>]\<rparr>)
      | (True, lines) \<Rightarrow>
          cont (s\<lparr>permissionEntries := (permissionEntries s)
                    [index := e1\<lparr>pe_keys := lines,
                                 pe_operations := bytes_to_string k (pe_operations e1) 0 68 (m_buf perm 6)\<rparr>]\<rparr>))"

definition is_zero_address :: "bytes \<Rightarrow> bool" where
  "is_zero_address raw = memeq raw (replicate 21 0) ADDRESS_SIZE"

definition set_recipient_address :: "sdk \<Rightarrow> bytes \<Rightarrow> app_state \<Rightarrow> app_state" where
  "set_recipient_address k raw s =
     s\<lparr>toAddress := getBase58FromAddress k raw (toAddress s) 0,
       g_recipient_contact := get_address_book_contact (ab_contacts s) raw,
       g_recipient_service := get_known_service_label raw\<rparr>"

definition copy_token_name :: "app_state \<Rightarrow> app_state" where
  "copy_token_name s =
     s\<lparr>fullContract := buf_write (fullContract s) 0
         (take (unat (tc_tokenNamesLength (txContent s) ! 0) + 1) (tc_tokenNames (txContent s) ! 0))\<rparr>"

definition copy_resource :: "app_state \<Rightarrow> app_state" where
  "copy_resource s =
     s\<lparr>fullContract := strcpy (fullContract s) (if tc_resource (txContent s) = 0 then ''Bandwidth'' else ''Energy'')\<rparr>"

section \<open>Transfers and contract calls\<close>

text \<open>A contract call that is no known token call.\<close>

definition sign_custom_contract :: "sdk \<Rightarrow> bool \<Rightarrow> app_state \<Rightarrow> result" where
  "sign_custom_contract k data_warning s =
     (if \<not> HAS_SETTING s S_CUSTOM_CONTRACT then refuse E_MISSING_SETTING_CUSTOM_CONTRACT s
      else
        let c = txContent s;
            s1 = s\<lparr>customContractField := 1,
                   fullContract := getBase58FromAddress k (tc_contractAddress c) (fullContract s) 0,
                   TRC20Action := snprintf (TRC20Action s) 9 (fmt_08x (tc_customSelector c)),
                   G_io_apdu_buffer := buf_set (buf_set (G_io_apdu_buffer s) 0 0) 100 0,
                   toAddress := buf_set (toAddress s) 0 0\<rparr>;
            review = (\<lambda>s. print_maxFee s (ux_flow_display k APPROVAL_CUSTOM_CONTRACT data_warning)) in
        if tc_amount c ! 0 \<noteq> 0 \<and> tc_callTokenValue c \<noteq> 0 then refuse E_INCORRECT_DATA s1
        else if tc_amount c ! 0 \<noteq> 0 then
          print_apdu (tc_amount c ! 0) 0 100 SUN_DIG (s1\<lparr>toAddress := strcpy (toAddress s1) ''TRX''\<rparr>)
            (\<lambda>s2. review (s2\<lparr>customContractField := customContractField s2 OR 0x20 OR 0x40\<rparr>))
        else if tc_callTokenValue c \<noteq> 0 then
          print_apdu (tc_callTokenValue c) 0 100 0
            (s1\<lparr>toAddress := snprintf (toAddress s1) 35 (chars ''Token #'' @ fmt_signed (sint (tc_callTokenId c)))\<rparr>)
            (\<lambda>s2. review (s2\<lparr>customContractField := customContractField s2 OR 0x20 OR 0x40\<rparr>))
        else
          review (s1\<lparr>toAddress := strcpy (toAddress s1) ''-'',
                     G_io_apdu_buffer := strlcpy (G_io_apdu_buffer s1) (chars ''0'') (length (G_io_apdu_buffer s1))\<rparr>))"

text \<open>The end of the transfer case: recipient, token, fee, and the swap check or the review.\<close>

definition finish_transfer :: "sdk \<Rightarrow> bool \<Rightarrow> app_state \<Rightarrow> result" where
  "finish_transfer k data_warning s =
     (let s1 = copy_token_name (set_recipient_address k (tc_destination (txContent s)) s);
          rest = (\<lambda>s.
            if G_called_from_swap s then
              if tc_feeLimit (txContent s) > MAX_SWAP_FEE_LIMIT then refuse E_SWAP_CHECKING_FAIL s
              else
                case swap_check_validity k s (G_io_apdu_buffer s) (fullContract s) (TRC20ActionSendAllow s)
                       (toAddress s) of
                  None \<Rightarrow> (Stuck, s)
                | Some True \<Rightarrow> (Returned, snd (ui_callback_tx_ok k False s))
                | Some False \<Rightarrow> refuse E_SWAP_CHECKING_FAIL s
            else ux_flow_display k APPROVAL_TRANSFER data_warning s) in
      if tc_contractType (txContent s) = TRIGGERSMARTCONTRACT then print_maxFee s1 rest else rest s1)"

text \<open>The amount of a TRC20 call, printed into the second 100 bytes and then, with its point, into the first.\<close>

definition print_trc20_amount :: "app_state \<Rightarrow> (bool \<times> app_state) option" where
  "print_trc20_amount s =
     do { x \<leftarrow> convertUint256BE (tc_TRC20Amount (txContent s)) 32;
          (_, digs) \<leftarrow> tostring256 x 10 (drop 100 (G_io_apdu_buffer s)) 100;
          let buf = take 100 (G_io_apdu_buffer s) @ digs;
          case adjustDecimals (drop 100 buf) (of_nat (strlen (drop 100 buf))) buf 100 (tc_decimals (txContent s) ! 0) of
            (ok, buf') \<Rightarrow> Some (ok, s\<lparr>G_io_apdu_buffer := buf'\<rparr>) }"

definition sign_transfer :: "sdk \<Rightarrow> bool \<Rightarrow> app_state \<Rightarrow> result" where
  "sign_transfer k data_warning s =
     (let c = txContent s; s1 = s\<lparr>TRC20ActionSendAllow := strcpy (TRC20ActionSendAllow s) ''To''\<rparr> in
      if tc_contractType c = TRIGGERSMARTCONTRACT then
        if tc_TRC20Method c \<noteq> 1 \<and> tc_TRC20Method c \<noteq> 2 then sign_custom_contract k data_warning s1
        else
          let s2 = (if tc_TRC20Method c = 1 then s1\<lparr>TRC20Action := strcpy (TRC20Action s1) ''Asset''\<rparr>
                    else s1\<lparr>TRC20ActionSendAllow := strcpy (TRC20ActionSendAllow s1) ''Allow'',
                            TRC20Action := strcpy (TRC20Action s1) ''Approve''\<rparr>) in
          if tc_amount c ! 0 \<noteq> 0 \<or> tc_callTokenValue c \<noteq> 0 then refuse E_INCORRECT_DATA s2
          else
            case print_trc20_amount s2 of
              None \<Rightarrow> (Stuck, s2)
            | Some (False, s3) \<Rightarrow> refuse E_INCORRECT_LENGTH s3
            | Some (True, s3) \<Rightarrow> finish_transfer k data_warning s3
      else
        print_apdu (tc_amount c ! 0) 0 100
          (if tc_contractType c = TRANSFERCONTRACT then SUN_DIG else tc_decimals c ! 0) s1
          (finish_transfer k data_warning))"

section \<open>Exchanges\<close>

abbreviation (input) token_decimals :: "txContent_t \<Rightarrow> nat \<Rightarrow> u8" where
  "token_decimals c i \<equiv> (if tc_tokenIsTrx c ! i then SUN_DIG else tc_decimals c ! i)"

definition sign_exchange_create :: "sdk \<Rightarrow> bool \<Rightarrow> app_state \<Rightarrow> result" where
  "sign_exchange_create k data_warning s =
     (let c = txContent s; s1 = copy_token_name s in
      if unat (tc_tokenNamesLength c ! 1) + 1 > length (toAddress s1) then refuse E_INCORRECT_DATA s1
      else
        print_apdu (tc_amount c ! 0) 0 100 (token_decimals c 0)
          (s1\<lparr>toAddress := buf_write (toAddress s1) 0
                (take (unat (tc_tokenNamesLength c ! 1) + 1) (tc_tokenNames c ! 1))\<rparr>)
          (\<lambda>s2. print_apdu (tc_amount c ! 1) 100 100 (token_decimals c 1) s2
            (ux_flow_display k APPROVAL_EXCHANGE_CREATE data_warning)))"

definition sign_exchange_inject_withdraw :: "sdk \<Rightarrow> bool \<Rightarrow> app_state \<Rightarrow> result" where
  "sign_exchange_inject_withdraw k data_warning s =
     (let c = txContent s in
      print_toAddress (tc_exchangeID c) 0 (copy_token_name s) (\<lambda>s1.
        print_apdu (tc_amount c ! 0) 0 100 (token_decimals c 0) s1 (\<lambda>s2.
          case setExchangeContractDetail (tc_contractType c) (drop 100 (G_io_apdu_buffer s2))
                 (length (G_io_apdu_buffer s2) - 100) of
            (False, _) \<Rightarrow> refuse E_INCORRECT_DATA s2
          | (True, out) \<Rightarrow>
              ux_flow_display k APPROVAL_EXCHANGE_WITHDRAW_INJECT data_warning
                (s2\<lparr>G_io_apdu_buffer := take 100 (G_io_apdu_buffer s2) @ out\<rparr>))))"

definition sign_exchange_transaction :: "sdk \<Rightarrow> bool \<Rightarrow> app_state \<Rightarrow> result" where
  "sign_exchange_transaction k data_warning s =
     (let c = txContent s;
          s1 = s\<lparr>fullContract := snprintf (fullContract s) (length (fullContract s))
                   (cstr (tc_tokenNames c ! 0) @ chars '' -> '' @ cstr (tc_tokenNames c ! 1))\<rparr> in
      print_toAddress (tc_exchangeID c) 0 s1 (\<lambda>s2.
        print_apdu (tc_amount c ! 0) 0 100 (tc_decimals c ! 0) s2 (\<lambda>s3.
          print_apdu (tc_amount c ! 1) 100 100 (tc_decimals c ! 1) s3
            (ux_flow_display k APPROVAL_EXCHANGE_TRANSACTION data_warning))))"

section \<open>Votes\<close>

text \<open>The loop over the votes from index \<open>i\<close>, with the votes counted so far.\<close>

fun vote_loop :: "sdk \<Rightarrow> (bytes \<times> u64) list \<Rightarrow> nat \<Rightarrow> u64 \<Rightarrow> app_state \<Rightarrow> (u64 \<Rightarrow> app_state \<Rightarrow> result) \<Rightarrow> result" where
  "vote_loop k [] i total_votes s cont = cont total_votes s"
| "vote_loop k ((address, count) # votes) i total_votes s cont =
     (if sint count \<le> 0 then refuse E_INCORRECT_DATA s
      else
        let s1 = s\<lparr>fullContract := getBase58FromAddress k address (fullContract s) 0\<rparr> in
        if 0xFFFFFFFFFFFFFFFF - total_votes < count then refuse E_INCORRECT_DATA s1
        else
          fillVoteAmountSlot count i
            (s1\<lparr>G_io_apdu_buffer := fillVoteAddressSlot (G_io_apdu_buffer s1) (fullContract s1) i\<rparr>)
            (\<lambda>s2. vote_loop k votes (Suc i) (total_votes + count) s2 cont))"

definition sign_votes :: "sdk \<Rightarrow> bool \<Rightarrow> app_state \<Rightarrow> result" where
  "sign_votes k data_warning s =
     (let c = txContent s; n = unat (tc_votesCount c) in
      if n = 0 then refuse E_INCORRECT_DATA s
      else
        vote_loop k (take n (tc_votes c)) 0 0
          (s\<lparr>G_io_apdu_buffer := buf_write (G_io_apdu_buffer s) 0 (replicate 200 0),
             txContent := set_amount 0 0 c, votes_count := n\<rparr>)
          (\<lambda>total_votes s1.
             ux_flow_display k APPROVAL_WITNESSVOTE_TRANSACTION data_warning
               (s1\<lparr>fullContract := snprintf (fullContract s1) (length (fullContract s1))
                     (fmt_signed (int n) @ chars '': '' @ decimal (unat total_votes))\<rparr>)))"

section \<open>Resources\<close>

text \<open>The recipient of a freeze: the receiver of the contract, or the owner when there is none.\<close>

definition set_receiver :: "sdk \<Rightarrow> app_state \<Rightarrow> app_state" where
  "set_receiver k s =
     (if \<not> is_zero_address (tc_destination (txContent s))
      then set_recipient_address k (tc_destination (txContent s)) s
      else set_recipient_address k (tc_account (txContent s)) s)"

definition sign_freeze :: "sdk \<Rightarrow> bool \<Rightarrow> app_state \<Rightarrow> result" where
  "sign_freeze k data_warning s =
     print_apdu (tc_amount (txContent s) ! 0) 0 100 SUN_DIG (copy_resource s) (\<lambda>s1.
       ux_flow_display k APPROVAL_FREEZEASSET_TRANSACTION data_warning (set_receiver k s1))"

definition sign_unfreeze :: "sdk \<Rightarrow> bool \<Rightarrow> app_state \<Rightarrow> result" where
  "sign_unfreeze k data_warning s =
     ux_flow_display k APPROVAL_UNFREEZEASSET_TRANSACTION data_warning (set_receiver k (copy_resource s))"

definition sign_freeze_v2 :: "sdk \<Rightarrow> bool \<Rightarrow> app_state \<Rightarrow> result" where
  "sign_freeze_v2 k data_warning s =
     print_apdu (tc_amount (txContent s) ! 0) 0 100 SUN_DIG (copy_resource s) (\<lambda>s1.
       ux_flow_display k APPROVAL_FREEZEASSETV2_TRANSACTION data_warning
         (set_recipient_address k (tc_account (txContent s1)) s1))"

definition sign_unfreeze_v2 :: "sdk \<Rightarrow> bool \<Rightarrow> app_state \<Rightarrow> result" where
  "sign_unfreeze_v2 k data_warning s =
     print_apdu (tc_amount (txContent s) ! 0) 0 100 SUN_DIG (copy_resource s) (\<lambda>s1.
       ux_flow_display k APPROVAL_UNFREEZEASSETV2_TRANSACTION data_warning
         (set_recipient_address k (tc_account (txContent s1)) s1))"

definition sign_delegate :: "sdk \<Rightarrow> bool \<Rightarrow> app_state \<Rightarrow> result" where
  "sign_delegate k data_warning s =
     (let s1 = copy_resource s; buf = G_io_apdu_buffer s1;
          lock = (if tc_customData (txContent s) = 0 then chars ''False'' else chars ''True'') in
      print_apdu (tc_amount (txContent s) ! 0) 0 100 SUN_DIG
        (s1\<lparr>G_io_apdu_buffer := take 100 buf @ strlcpy (drop 100 buf) lock (length buf - 100)\<rparr>) (\<lambda>s2.
        ux_flow_display k APPROVAL_DELEGATE_RESOURCE_TRANSACTION data_warning
          (set_recipient_address k (tc_destination (txContent s2)) s2)))"

definition sign_undelegate :: "sdk \<Rightarrow> bool \<Rightarrow> app_state \<Rightarrow> result" where
  "sign_undelegate k data_warning s =
     print_apdu (tc_amount (txContent s) ! 0) 0 100 SUN_DIG (copy_resource s) (\<lambda>s1.
       ux_flow_display k APPROVAL_UNDELEGATE_RESOURCE_TRANSACTION data_warning
         (set_recipient_address k (tc_destination (txContent s1)) s1))"

definition sign_withdraw :: "sdk \<Rightarrow> ui_approval_state_t \<Rightarrow> bool \<Rightarrow> app_state \<Rightarrow> result" where
  "sign_withdraw k st data_warning s =
     ux_flow_display k st data_warning (set_recipient_address k (tc_account (txContent s)) s)"

section \<open>Permissions and everything else\<close>

fun fill_actives :: "sdk \<Rightarrow> slot list list \<Rightarrow> nat \<Rightarrow> app_state \<Rightarrow> (app_state \<Rightarrow> result) \<Rightarrow> result" where
  "fill_actives k [] index s cont = cont s"
| "fill_actives k (perm # perms) index s cont =
     fillPermissionEntry k index perm s (\<lambda>s1. fill_actives k perms (Suc index) s1 cont)"

definition sign_permission_update :: "sdk \<Rightarrow> bool \<Rightarrow> app_state \<Rightarrow> result" where
  "sign_permission_update k data_warning s =
     (let contract = msg s in
      if \<not> m_has contract 2 \<and> \<not> m_has contract 3 \<and> m_msgs contract 4 = [] then refuse E_INCORRECT_DATA s
      else
        (if m_has contract 2 then fillPermissionEntry k 0 (m_msg contract 2) else (\<lambda>s cont. cont s))
          (s\<lparr>permissionEntries := replicate 4 zero_entry\<rparr>) (\<lambda>s1.
        (if m_has contract 3 then fillPermissionEntry k 1 (m_msg contract 3) else (\<lambda>s cont. cont s)) s1 (\<lambda>s2.
        fill_actives k (take 2 (m_msgs contract 4)) 2 s2
          (ux_flow_display k APPROVAL_PERMISSION_UPDATE data_warning))))"

definition sign_default :: "sdk \<Rightarrow> bool \<Rightarrow> app_state \<Rightarrow> result" where
  "sign_default k data_warning s =
     (if \<not> HAS_SETTING s S_SIGN_BY_HASH then refuse E_MISSING_SETTING_SIGN_BY_HASH s
      else
        let s1 = s\<lparr>fullHash := write_hex k (tr_hash (transactionContext s)) (fullHash s)\<rparr> in
        case setContractType (tc_contractType (txContent s1)) (fullContract s1) (length (fullContract s1)) of
          (False, _) \<Rightarrow> refuse E_INCORRECT_DATA s1
        | (True, out) \<Rightarrow> ux_flow_display k APPROVAL_SIMPLE_TRANSACTION data_warning (s1\<lparr>fullContract := out\<rparr>))"

text \<open>The switch on the contract type.\<close>

definition sign_switch :: "sdk \<Rightarrow> bool \<Rightarrow> app_state \<Rightarrow> result" where
  "sign_switch k data_warning s =
     (let type = tc_contractType (txContent s) in
      if type = TRANSFERCONTRACT \<or> type = TRANSFERASSETCONTRACT \<or> type = TRIGGERSMARTCONTRACT
      then sign_transfer k data_warning s
      else if type = EXCHANGECREATECONTRACT then sign_exchange_create k data_warning s
      else if type = EXCHANGEINJECTCONTRACT \<or> type = EXCHANGEWITHDRAWCONTRACT
      then sign_exchange_inject_withdraw k data_warning s
      else if type = EXCHANGETRANSACTIONCONTRACT then sign_exchange_transaction k data_warning s
      else if type = VOTEWITNESSCONTRACT then sign_votes k data_warning s
      else if type = FREEZEBALANCECONTRACT then sign_freeze k data_warning s
      else if type = UNFREEZEBALANCECONTRACT then sign_unfreeze k data_warning s
      else if type = FREEZEBALANCEV2CONTRACT then sign_freeze_v2 k data_warning s
      else if type = UNFREEZEBALANCEV2CONTRACT then sign_unfreeze_v2 k data_warning s
      else if type = DELEGATERESOURCECONTRACT then sign_delegate k data_warning s
      else if type = UNDELEGATERESOURCECONTRACT then sign_undelegate k data_warning s
      else if type = WITHDRAWEXPIREUNFREEZECONTRACT
      then sign_withdraw k APPROVAL_WITHDRAWEXPIREUNFREEZE_TRANSACTION data_warning s
      else if type = WITHDRAWBALANCECONTRACT
      then sign_withdraw k APPROVAL_WITHDRAWBALANCE_TRANSACTION data_warning s
      else if type = ACCOUNTPERMISSIONUPDATECONTRACT then sign_permission_update k data_warning s
      else if type = INVALID_CONTRACT then refuse E_INCORRECT_DATA s
      else sign_default k data_warning s)"

section \<open>The finished transaction\<close>

definition MAX_PERMISSION_ID :: int where "MAX_PERMISSION_ID = 9"

text \<open>The sender line: with a permission identifier it has the prefix \<open>Px - \<close> and no contact name.\<close>

definition set_sender :: "sdk \<Rightarrow> app_state \<Rightarrow> app_state" where
  "set_sender k s =
     (let c = txContent s in
      if sint (tc_permission_id c) > 0
      then s\<lparr>fromAddress := getBase58FromAddress k (tc_account c)
               (snprintf (fromAddress s) 6 (chars ''P'' @ fmt_signed (sint (tc_permission_id c)) @ chars '' - '')) 5\<rparr>
      else s\<lparr>fromAddress := getBase58FromAddress k (tc_account c) (fromAddress s) 0,
             g_sender_contact := get_address_book_contact (ab_contacts s) (tc_account c)\<rparr>)"

definition finish_sign :: "sdk \<Rightarrow> app_state \<Rightarrow> result" where
  "finish_sign k s =
     (let s1 = s\<lparr>transactionContext := (transactionContext s)\<lparr>tr_hash := cx_sha256 k (tx_sha2 (txContext s))\<rparr>\<rparr>;
          c = txContent s1 in
      if \<not> HAS_SETTING s1 S_DATA_ALLOWED \<and> tc_dataBytes c \<noteq> 0 then refuse E_MISSING_SETTING_DATA_ALLOWED s1
      else if sint (tc_permission_id c) < 0 \<or> sint (tc_permission_id c) > MAX_PERMISSION_ID
      then refuse E_INCORRECT_DATA s1
      else
        let s2 = set_sender k s1; data_warning = (tc_dataBytes c > 0) in
        if G_called_from_swap s2 \<and>
           (tc_contractType c \<noteq> TRANSFERCONTRACT \<and> tc_contractType c \<noteq> TRIGGERSMARTCONTRACT \<or>
            tc_contractType c = TRIGGERSMARTCONTRACT \<and> tc_TRC20Method c \<noteq> 1 \<or> data_warning)
        then refuse E_SWAP_CHECKING_FAIL s2
        else sign_switch k data_warning s2)"

section \<open>The handler\<close>

abbreviation (input) "P1_SIGN \<equiv> (0x10 :: u8)"
abbreviation (input) "P1_FIRST \<equiv> (0x00 :: u8)"
abbreviation (input) "P1_MORE \<equiv> (0x80 :: u8)"
abbreviation (input) "P1_LAST \<equiv> (0x90 :: u8)"
abbreviation (input) "P1_TRC10_NAME \<equiv> (0xA0 :: u8)"

definition sign_chunk :: "sdk \<Rightarrow> u8 \<Rightarrow> bytes \<Rightarrow> app_state \<Rightarrow> result" where
  "sign_chunk k p1 workBuffer s =
     (if \<not> tx_initialized (txContext s) then ret_sw E_INCORRECT_P1_P2 s
      else
        let s1 = s\<lparr>txContext := (txContext s)\<lparr>tx_sha2 := tx_sha2 (txContext s) @ workBuffer\<rparr>\<rparr> in
        if G_called_from_swap s1 \<and> G_swap_response_ready s1 then (Exited, s1)
        else
          let s2 = (if G_called_from_swap s1 then s1\<lparr>G_swap_response_ready := True\<rparr> else s1) in
          case processTx k workBuffer s2 of
            (USTREAM_PROCESSING, s3) \<Rightarrow>
              if p1 = P1_LAST \<or> p1 = P1_SIGN then finish_sign k s3 else ret_sw E_OK s3
          | (USTREAM_FINISHED, s3) \<Rightarrow> finish_sign k s3
          | (USTREAM_FAULT, s3) \<Rightarrow> ret_sw E_INCORRECT_DATA (initTx s3)
          | (USTREAM_MISSING_SETTING_DATA_ALLOWED, s3) \<Rightarrow>
              if G_called_from_swap s3 then ret_sw E_SWAP_CHECKING_FAIL (initTx s3)
              else ret_sw E_MISSING_SETTING_DATA_ALLOWED (initTx s3))"

text \<open>The token-name command: it answers, or goes on with the state it leaves.\<close>

definition sign_token_name :: "sdk \<Rightarrow> u8 \<Rightarrow> bytes \<Rightarrow> app_state \<Rightarrow> result + app_state" where
  "sign_token_name k p1 workBuffer s =
     (let type = tc_contractType (txContent s) in
      if type = TRANSFERASSETCONTRACT \<or> type = EXCHANGECREATECONTRACT then
        if p1 AND 0x07 > 1 then Inl (ret_sw E_INCORRECT_P1_P2 s)
        else
          case parseTokenName k (unat (p1 AND 0x07)) workBuffer (txContent s) of
            (False, c) \<Rightarrow> Inl (ret_sw E_INCORRECT_DATA (s\<lparr>txContent := c\<rparr>))
          | (True, c) \<Rightarrow>
              if p1 AND 0x08 = 0 then Inl (ret_sw E_OK (s\<lparr>txContent := c\<rparr>))
              else Inr (s\<lparr>txContent := c\<rparr>)
      else if type = EXCHANGEINJECTCONTRACT \<or> type = EXCHANGEWITHDRAWCONTRACT \<or> type = EXCHANGETRANSACTIONCONTRACT then
        if p1 AND 0x07 > 0 then Inl (ret_sw E_INCORRECT_P1_P2 s)
        else if p1 AND 0x08 = 0 then Inl (ret_sw E_INCORRECT_P1_P2 s)
        else
          case parseExchange k workBuffer (txContent s) of
            (False, c) \<Rightarrow> Inl (ret_sw E_INCORRECT_DATA (s\<lparr>txContent := c\<rparr>))
          | (True, c) \<Rightarrow> Inr (s\<lparr>txContent := c\<rparr>)
      else Inl (ret_sw E_INCORRECT_DATA s))"

abbreviation set_path :: "bip32_path_t \<Rightarrow> app_state \<Rightarrow> app_state" where
  "set_path path s \<equiv> s\<lparr>transactionContext := (transactionContext s)\<lparr>tr_bip32_path := path\<rparr>\<rparr>"

definition handleSign :: "sdk \<Rightarrow> u8 \<Rightarrow> u8 \<Rightarrow> bytes \<Rightarrow> app_state \<Rightarrow> result" where
  "handleSign k p1 p2 workBuffer s =
     (if p2 \<noteq> 0 then ret_sw E_INCORRECT_P1_P2 s
      else if p1 = P1_FIRST \<or> p1 = P1_SIGN then
        (case read_bip32_path workBuffer (tr_bip32_path (transactionContext s)) of
           (None, path) \<Rightarrow> ret_sw E_INCORRECT_BIP32_PATH (set_path path s)
         | (Some ret, path) \<Rightarrow>
             sign_chunk k p1 (drop ret workBuffer) ((initTx (set_path path s))\<lparr>customContractField := 0\<rparr>))
      else if p1 AND 0xF0 = P1_TRC10_NAME then
        (case sign_token_name k p1 workBuffer s of
           Inl r \<Rightarrow> r
         | Inr s1 \<Rightarrow> sign_chunk k p1 [] s1)
      else if p1 \<noteq> P1_MORE \<and> p1 \<noteq> P1_LAST then ret_sw E_INCORRECT_P1_P2 s
      else sign_chunk k p1 workBuffer s)"

end
