(* ===== verification/Handlers.thy ===== *)
theory Handlers
  imports Sign
begin

text \<open>
  The other commands of \<^verbatim>\<open>src/src/handlers\<close>: public key, signing a hash, configuration, ECDH secret,
  personal messages and TIP-712 messages.
\<close>

section \<open>Public key\<close>

definition handleGetPublicKey :: "sdk \<Rightarrow> u8 \<Rightarrow> u8 \<Rightarrow> bytes \<Rightarrow> app_state \<Rightarrow> result" where
  "handleGetPublicKey k p1 p2 dataBuffer s =
     (let p2Chain = p2 AND 0x3F in
      if p1 \<noteq> 0x01 \<and> p1 \<noteq> 0x00 then ret_sw E_INCORRECT_P1_P2 s
      else if p2Chain \<noteq> 0x01 \<and> p2Chain \<noteq> 0x00 then ret_sw E_INCORRECT_P1_P2 s
      else
        let s1 = s\<lparr>publicKeyContext := (publicKeyContext s)\<lparr>pk_getChaincode := (p2Chain = 0x01)\<rparr>\<rparr> in
        case read_bip32_path dataBuffer zero_path of
          (None, _) \<Rightarrow> ret_sw E_INCORRECT_BIP32_PATH s1
        | (Some _, path) \<Rightarrow>
            (case initPublicKeyContext k path (pk_address58 (publicKeyContext s1)) (publicKeyContext s1) of
               None \<Rightarrow> ret_sw E_SECURITY_STATUS_NOT_SATISFIED s1
             | Some (pkc, address58) \<Rightarrow>
                 let s2 = s1\<lparr>publicKeyContext := pkc\<lparr>pk_address58 := address58\<rparr>,
                             toAddress := buf_write (toAddress s1) 0 (take 35 address58)\<rparr> in
                 if p1 = 0x00 then (Returned, helper_send_response_pubkey s2)
                 else if G_called_from_swap s2 then ret_sw E_SWAP_CHECKING_FAIL s2
                 else ux_flow_display k APPROVAL_VERIFY_ADDRESS False s2))"

section \<open>Signing a hash\<close>

definition handleSignByHash :: "sdk \<Rightarrow> u8 \<Rightarrow> u8 \<Rightarrow> bytes \<Rightarrow> app_state \<Rightarrow> result" where
  "handleSignByHash k p1 p2 workBuffer s =
     (if p1 \<noteq> 0 \<or> p2 \<noteq> 0 then ret_sw E_INCORRECT_P1_P2 s
      else if \<not> HAS_SETTING s S_SIGN_BY_HASH then ret_sw E_MISSING_SETTING_SIGN_BY_HASH s
      else
        case read_bip32_path workBuffer (tr_bip32_path (transactionContext s)) of
          (None, path) \<Rightarrow> ret_sw E_INCORRECT_BIP32_PATH (set_path path s)
        | (Some ret, path) \<Rightarrow>
            let s1 = set_path path s; data = drop ret workBuffer in
            (case initPublicKeyContext k path (fromAddress s1) (publicKeyContext s1) of
               None \<Rightarrow> ret_sw E_SECURITY_STATUS_NOT_SATISFIED s1
             | Some (pkc, address58) \<Rightarrow>
                 let s2 = s1\<lparr>publicKeyContext := pkc, fromAddress := address58\<rparr> in
                 if length data \<noteq> HASH_SIZE then ret_sw E_INCORRECT_LENGTH s2
                 else
                   let s3 = s2\<lparr>transactionContext := (transactionContext s2)\<lparr>tr_hash := data\<rparr>,
                               fullHash := write_hex k data (fullHash s2),
                               fullContract := snd (setContractType UNKNOWN_CONTRACT (fullContract s2)
                                                      (length (fullContract s2)))\<rparr> in
                   ux_flow_display k APPROVAL_SIMPLE_TRANSACTION False s3))"

section \<open>Configuration\<close>

definition handleGetAppConfiguration :: "sdk \<Rightarrow> app_state \<Rightarrow> result" where
  "handleGetAppConfiguration k s =
     (let config = push_bit 0 (of_bool (HAS_SETTING s S_DATA_ALLOWED)) OR
                   push_bit 1 (of_bool (HAS_SETTING s S_CUSTOM_CONTRACT)) OR
                   push_bit 3 (of_bool (HAS_SETTING s S_SIGN_BY_HASH)) in
      (Returned, io_send_response_pointer (config # take 3 (app_version k)) E_OK s))"

section \<open>ECDH secret\<close>

definition handleECDHSecret :: "sdk \<Rightarrow> u8 \<Rightarrow> u8 \<Rightarrow> bytes \<Rightarrow> app_state \<Rightarrow> result" where
  "handleECDHSecret k p1 p2 workBuffer s =
     (if p1 \<noteq> 0x00 \<or> p2 \<noteq> 0x01 then ret_sw E_INCORRECT_P1_P2 s
      else
        case read_bip32_path workBuffer (tr_bip32_path (transactionContext s)) of
          (None, path) \<Rightarrow> ret_sw E_INCORRECT_BIP32_PATH (set_path path s)
        | (Some ret, path) \<Rightarrow>
            let s1 = set_path path s; data = drop ret workBuffer in
            if length data \<noteq> PUBLIC_KEY_SIZE then ret_sw E_INCORRECT_LENGTH s1
            else
              (case initPublicKeyContext k path (fromAddress s1) (publicKeyContext s1) of
                 None \<Rightarrow> ret_sw E_SECURITY_STATUS_NOT_SATISFIED s1
               | Some (pkc, address58) \<Rightarrow>
                   ux_flow_display k APPROVAL_SHARED_ECDH_SECRET False
                     (s1\<lparr>publicKeyContext := pkc, fromAddress := address58,
                         transactionContext := (transactionContext s1)
                           \<lparr>tr_signature := buf_write (tr_signature (transactionContext s1)) 0 data\<rparr>,
                         toAddress := getBase58FromPublicKey k data (toAddress s1)\<rparr>)))"

section \<open>Personal messages\<close>

definition SIGN_MAGIC :: bytes where
  "SIGN_MAGIC = 0x19 # chars ''TRON Signed Message:'' @ [0x0A]"

text \<open>\<^verbatim>\<open>explicit_bzero(&personal_msg_ctx, ...)\<close>\<close>

definition clear_personal :: "app_state \<Rightarrow> app_state" where
  "clear_personal s = s\<lparr>personal_msg_ctx := \<lparr>pm_sha3 = [], pm_initialized = False\<rparr>\<rparr>"

abbreviation set_dataBytes :: "u64 \<Rightarrow> app_state \<Rightarrow> app_state" where
  "set_dataBytes n s \<equiv> s\<lparr>txContent := (txContent s)\<lparr>tc_dataBytes := n\<rparr>\<rparr>"

text \<open>The part after the header: more bytes of the message, and the review after the last of them.\<close>

definition personal_chunk :: "sdk \<Rightarrow> u8 \<Rightarrow> bytes \<Rightarrow> app_state \<Rightarrow> result" where
  "personal_chunk k p2 workBuffer s =
     (if p2 \<noteq> 0 then ret_sw E_INCORRECT_P1_P2 s
      else if of_nat (length workBuffer) > tc_dataBytes (txContent s)
      then ret_sw E_INCORRECT_LENGTH (clear_personal s)
      else
        let s1 = s\<lparr>personal_msg_ctx := (personal_msg_ctx s)\<lparr>pm_sha3 := pm_sha3 (personal_msg_ctx s) @ workBuffer\<rparr>\<rparr>;
            s2 = set_dataBytes (tc_dataBytes (txContent s1) - of_nat (length workBuffer)) s1 in
        if tc_dataBytes (txContent s2) = 0 then
          let hash = cx_keccak256 k (pm_sha3 (personal_msg_ctx s2));
              s3 = clear_personal (s2\<lparr>transactionContext := (transactionContext s2)\<lparr>tr_hash := hash\<rparr>\<rparr>);
              s4 = s3\<lparr>fullContract := write_hex k hash (fullContract s3)\<rparr> in
          (case initPublicKeyContext k (tr_bip32_path (transactionContext s4)) (fromAddress s4) (publicKeyContext s4) of
             None \<Rightarrow> ret_sw E_SECURITY_STATUS_NOT_SATISFIED s4
           | Some (pkc, address58) \<Rightarrow>
               ux_flow_display k APPROVAL_SIGN_PERSONAL_MESSAGE False
                 (s4\<lparr>publicKeyContext := pkc, fromAddress := address58\<rparr>))
        else ret_sw E_OK s2)"

definition handleSignPersonalMessage :: "sdk \<Rightarrow> u8 \<Rightarrow> u8 \<Rightarrow> bytes \<Rightarrow> app_state \<Rightarrow> result" where
  "handleSignPersonalMessage k p1 p2 workBuffer s =
     (if \<not> HAS_SETTING s S_SIGN_BY_HASH then ret_sw E_MISSING_SETTING_SIGN_BY_HASH s
      else if p1 = P1_FIRST \<or> p1 = P1_SIGN then
        (case read_bip32_path workBuffer (tr_bip32_path (transactionContext s)) of
           (None, path) \<Rightarrow> ret_sw E_INCORRECT_BIP32_PATH (clear_personal (set_path path s))
         | (Some ret, path) \<Rightarrow>
             let s1 = set_path path s; data = drop ret workBuffer in
             if length data < 4 then ret_sw E_INCORRECT_LENGTH (clear_personal s1)
             else
               let total_length = U4BE data 0;
                   tmp = snprintf (replicate 11 0) 11 (fmt_signed (sint total_length));
                   s2 = (set_dataBytes (ucast total_length) s1)
                     \<lparr>personal_msg_ctx := \<lparr>pm_sha3 = SIGN_MAGIC @ cstr tmp, pm_initialized = True\<rparr>\<rparr> in
               personal_chunk k p2 (drop 4 data) s2)
      else if p1 \<noteq> P1_MORE \<or> \<not> pm_initialized (personal_msg_ctx s) then ret_sw E_INCORRECT_P1_P2 s
      else personal_chunk k p2 workBuffer s)"

section \<open>TIP-712 messages\<close>

text \<open>The loop over the path: the array as far as it was read, and the bytes after it if they sufficed.\<close>

primrec tip712_path :: "bytes \<Rightarrow> u32 list \<Rightarrow> nat \<Rightarrow> nat \<Rightarrow> u32 list \<times> bytes option" where
  "tip712_path buffer indices i 0 = (indices, Some buffer)"
| "tip712_path buffer indices i (Suc n) =
     (if length buffer < 4 then (indices, None)
      else tip712_path (drop 4 buffer) (buf_set indices i (U4BE buffer 0)) (Suc i) n)"

definition handleSignTIP712Message :: "sdk \<Rightarrow> u8 \<Rightarrow> u8 \<Rightarrow> bytes \<Rightarrow> app_state \<Rightarrow> result" where
  "handleSignTIP712Message k p1 p2 workBuffer s =
     (if \<not> HAS_SETTING s S_SIGN_BY_HASH then ret_sw E_MISSING_SETTING_SIGN_BY_HASH s
      else if p1 \<noteq> 0 \<or> p2 \<noteq> 0 then ret_sw E_INCORRECT_P1_P2 s
      else if length workBuffer < 1 then ret_sw E_INCORRECT_DATA s
      else
        let n = unat (workBuffer ! 0);
            m1 = (messageSigningContext712 s)\<lparr>m7_pathLength := n\<rparr>;
            s1 = s\<lparr>messageSigningContext712 := m1\<rparr> in
        if n < 1 \<or> n > MAX_BIP32_PATH then ret_sw E_INCORRECT_DATA s1
        else
          case tip712_path (drop 1 workBuffer) (m7_bip32Path m1) 0 n of
            (indices, None) \<Rightarrow> ret_sw E_INCORRECT_DATA (s1\<lparr>messageSigningContext712 := m1\<lparr>m7_bip32Path := indices\<rparr>\<rparr>)
          | (indices, Some data) \<Rightarrow>
              let m2 = m1\<lparr>m7_bip32Path := indices\<rparr>; s2 = s1\<lparr>messageSigningContext712 := m2\<rparr> in
              if n < 2 \<or> indices ! 0 \<noteq> TRON_BIP32_PREFIX_0 \<or> indices ! 1 \<noteq> TRON_BIP32_PREFIX_1
              then ret_sw E_INCORRECT_DATA s2
              else if length data < HASH_SIZE * 2 then ret_sw E_INCORRECT_DATA s2
              else
                let s3 = s2\<lparr>messageSigningContext712 := m2
                              \<lparr>m7_domainHash := take 32 data, m7_messageHash := take 32 (drop 32 data)\<rparr>\<rparr>;
                    path = \<lparr>bp_indices = indices, bp_length = n\<rparr> in
                (case initPublicKeyContext k path (fromAddress s3) (publicKeyContext s3) of
                   None \<Rightarrow> ret_sw E_SECURITY_STATUS_NOT_SATISFIED s3
                 | Some (pkc, address58) \<Rightarrow>
                     ux_flow_display k APPROVAL_SIGN_TIP72_TRANSACTION False
                       (s3\<lparr>publicKeyContext := pkc, fromAddress := address58,
                           g_sender_contact := get_address_book_contact (ab_contacts s3)
                             (getAddressFromPublicKey k (pk_publicKey pkc))\<rparr>)))"

end
