(* ===== verification/Address_Book.thy ===== *)
theory Address_Book
  imports Review
begin

text \<open>
  The reviews of the address book, \<^verbatim>\<open>src/src/addr_book/handle_identity.c\<close> and \<^verbatim>\<open>handle_ledger_account.c\<close>: the
  operating system asks the application to check what a wallet registers or edits and to name the rows of the
  review, and reports an edit the user confirmed. The members of \<^verbatim>\<open>g_ab_ctx\<close> that point to allocated memory are
  options, \<^const>\<open>None\<close> for \<^verbatim>\<open>NULL\<close>; the flows are mutually exclusive, so each has its own record. Whether an
  allocation succeeds is a parameter, one value per allocation.
\<close>

section \<open>Data\<close>

text \<open>The SDK's \<^verbatim>\<open>edit_contact_name_t\<close>, \<^verbatim>\<open>edit_identifier_t\<close>, \<^verbatim>\<open>edit_scope_t\<close>, \<^verbatim>\<open>edit_ledger_account_t\<close>: the members read.\<close>

record edit_contact_name_t =
  en_old_contact_name :: bytes
  en_contact_name :: bytes

record edit_identifier_t =
  ei_identity :: identity_t
  ei_old_identifier :: bytes
  ei_old_identifier_len :: nat

record edit_scope_t =
  es_identity :: identity_t

record edit_ledger_account_t =
  el_ledger_account :: ledger_account_t
  el_address :: bytes
  el_address_len :: nat

record register_identity_ctx_t =
  ri_identity :: "identity_t option"
  ri_identifier_display :: "bytes option"

record edit_identifier_ctx_t =
  ei_contact_name :: "bytes option"
  ei_scope :: "bytes option"
  ei_old_identifier_text :: "bytes option"
  ei_new_identifier_text :: "bytes option"

record ledger_account_ui_ctx_t =
  la_ledger_account :: "ledger_account_t option"
  la_address_display :: "bytes option"

definition AB_ADDR_STR_SIZE :: nat where
  "AB_ADDR_STR_SIZE = BASE58CHECK_ADDRESS_SIZE + 1"

definition AB_ADDR_SHORT_LEN :: nat where
  "AB_ADDR_SHORT_LEN = 4"

definition AB_ADDR_DISPLAY_SHORT_SIZE :: nat where
  "AB_ADDR_DISPLAY_SHORT_SIZE = 1 + AB_ADDR_SHORT_LEN + 3 + AB_ADDR_SHORT_LEN + 1"

text \<open>\<^verbatim>\<open>getBase58FromAddress\<close> into a fresh, zeroed buffer.\<close>

abbreviation address_text :: "sdk \<Rightarrow> bytes \<Rightarrow> bytes" where
  "address_text k a \<equiv> getBase58FromAddress k a (replicate AB_ADDR_STR_SIZE 0) 0"

section \<open>Registering an identity\<close>

definition finalize_ui_register_identity :: "register_identity_ctx_t \<Rightarrow> app_state \<Rightarrow> register_identity_ctx_t \<times> app_state" where
  "finalize_ui_register_identity ctx s = (ctx\<lparr>ri_identifier_display := None, ri_identity := None\<rparr>, ui_idle s)"

definition handle_check_register_identity ::
  "bool \<Rightarrow> identity_t option \<Rightarrow> register_identity_ctx_t \<Rightarrow> bool \<times> register_identity_ctx_t" where
  "handle_check_register_identity mem params ctx =
     (case params of
        None \<Rightarrow> (False, ctx)
      | Some p \<Rightarrow>
          if \<not> is_valid_tron_identifier p then (False, ctx)
          else if \<not> mem then (False, ctx)
          else (True, ctx\<lparr>ri_identity := Some p\<rparr>))"

text \<open>The pair of a row, or \<^const>\<open>None\<close> for \<^verbatim>\<open>NULL\<close>.\<close>

definition get_register_identity_tagValue ::
  "sdk \<Rightarrow> bool \<Rightarrow> nat \<Rightarrow> register_identity_ctx_t \<Rightarrow> (bytes \<times> bytes) option \<times> register_identity_ctx_t" where
  "get_register_identity_tagValue k mem pairIndex ctx =
     (case ri_identity ctx of
        None \<Rightarrow> (None, ctx)
      | Some i \<Rightarrow>
          if pairIndex = 0 then (Some (chars ''Contact name'', cstr (id_contact_name i)), ctx)
          else if pairIndex = 1 then (Some (chars ''Address name'', cstr (id_scope i)), ctx)
          else if pairIndex = 2 then
            if \<not> mem then (None, ctx)
            else
              let t = address_text k (id_identifier i) in
              (Some (chars ''Address'', cstr t), ctx\<lparr>ri_identifier_display := Some t\<rparr>)
          else (None, ctx))"

section \<open>Editing a name, a scope or an identifier\<close>

definition finalize_ui_edit_contact_name :: "app_state \<Rightarrow> app_state" where
  "finalize_ui_edit_contact_name s = ui_idle s"

definition finalize_ui_edit_scope :: "app_state \<Rightarrow> app_state" where
  "finalize_ui_edit_scope s = ui_idle s"

definition free_edit_identifier_buffers :: "edit_identifier_ctx_t \<Rightarrow> edit_identifier_ctx_t" where
  "free_edit_identifier_buffers ctx =
     ctx\<lparr>ei_contact_name := None, ei_scope := None, ei_old_identifier_text := None, ei_new_identifier_text := None\<rparr>"

definition finalize_ui_edit_identifier :: "edit_identifier_ctx_t \<Rightarrow> app_state \<Rightarrow> edit_identifier_ctx_t \<times> app_state" where
  "finalize_ui_edit_identifier ctx s = (free_edit_identifier_buffers ctx, ui_idle s)"

definition handle_check_edit_identifier ::
  "sdk \<Rightarrow> (nat \<Rightarrow> bool) \<Rightarrow> edit_identifier_t option \<Rightarrow> edit_identifier_ctx_t \<Rightarrow> bool \<times> edit_identifier_ctx_t" where
  "handle_check_edit_identifier k mem params ctx =
     (case params of
        None \<Rightarrow> (False, ctx)
      | Some p \<Rightarrow>
          if \<not> is_valid_tron_identifier (ei_identity p) then (False, ctx)
          else if ei_old_identifier_len p \<noteq> ADDRESS_SIZE \<or> ei_old_identifier p ! 0 \<noteq> ADD_PRE_FIX_BYTE_MAINNET
          then (False, ctx)
          else if \<not> mem 0 \<or> \<not> mem 1 \<or> \<not> mem 2 \<or> \<not> mem 3 then (False, free_edit_identifier_buffers ctx)
          else
            let n = CONTACT_NAME_LENGTH (ab_sizes_of k); m = SCOPE_LENGTH (ab_sizes_of k) in
            (True, ctx
              \<lparr>ei_contact_name := Some (strlcpy (replicate n 0) (id_contact_name (ei_identity p)) n),
               ei_scope := Some (strlcpy (replicate m 0) (id_scope (ei_identity p)) m),
               ei_old_identifier_text := Some (address_text k (ei_old_identifier p)),
               ei_new_identifier_text := Some (address_text k (id_identifier (ei_identity p)))\<rparr>))"

definition get_edit_identifier_tagValue :: "nat \<Rightarrow> edit_identifier_ctx_t \<Rightarrow> (bytes \<times> bytes option) option" where
  "get_edit_identifier_tagValue pairIndex ctx =
     (if pairIndex = 0 then Some (chars ''Contact name'', map_option cstr (ei_contact_name ctx))
      else if pairIndex = 1 then Some (chars ''Address name'', map_option cstr (ei_scope ctx))
      else if pairIndex = 2 then Some (chars ''Old address'', map_option cstr (ei_old_identifier_text ctx))
      else if pairIndex = 3 then Some (chars ''New address'', map_option cstr (ei_new_identifier_text ctx))
      else None)"

section \<open>Registering and editing an account of the device\<close>

definition derive_tron_address :: "sdk \<Rightarrow> u32 list \<Rightarrow> bytes option" where
  "derive_tron_address k path =
     map_option (\<lambda>(pub, _). getAddressFromPublicKey k pub) (bip32_derive_get_pubkey k path)"

definition free_ledger_account_buffers :: "ledger_account_ui_ctx_t \<Rightarrow> ledger_account_ui_ctx_t" where
  "free_ledger_account_buffers ctx = ctx\<lparr>la_address_display := None, la_ledger_account := None\<rparr>"

definition finalize_ui_ledger_account :: "ledger_account_ui_ctx_t \<Rightarrow> app_state \<Rightarrow> ledger_account_ui_ctx_t \<times> app_state" where
  "finalize_ui_ledger_account ctx s = (free_ledger_account_buffers ctx, ui_idle s)"

definition handle_check_register_ledger_account ::
  "sdk \<Rightarrow> (nat \<Rightarrow> bool) \<Rightarrow> ledger_account_t option \<Rightarrow> ledger_account_ui_ctx_t \<Rightarrow> bool \<times> ledger_account_ui_ctx_t" where
  "handle_check_register_ledger_account k mem params ctx =
     (case params of
        None \<Rightarrow> (False, ctx)
      | Some p \<Rightarrow>
          if \<not> la_family_tron p then (False, ctx)
          else if length (la_path p) = 0 \<or> length (la_path p) > MAX_BIP32_PATH then (False, ctx)
          else if \<not> mem 0 then (False, ctx)
          else
            case derive_tron_address k (la_path p) of
              None \<Rightarrow> (False, ctx\<lparr>la_address_display := None\<rparr>)
            | Some address \<Rightarrow>
                if \<not> mem 1 then (False, ctx\<lparr>la_address_display := None\<rparr>)
                else (True, ctx\<lparr>la_address_display := Some (address_text k address), la_ledger_account := Some p\<rparr>))"

text \<open>
  The review on the devices with a large screen: the account name, the shortened address in the message and the
  full address behind the information icon.
\<close>

record account_review =
  ar_name :: bytes
  ar_short :: bytes
  ar_details :: "bytes \<times> bytes"

definition display_register_ledger_account_review :: "ledger_account_ui_ctx_t \<Rightarrow> account_review option" where
  "display_register_ledger_account_review ctx =
     (case (la_ledger_account ctx, la_address_display ctx) of
        (Some a, Some t) \<Rightarrow>
          Some \<lparr>ar_name = cstr (la_account_name a),
            ar_short = cstr (snprintf (replicate AB_ADDR_DISPLAY_SHORT_SIZE 0) AB_ADDR_DISPLAY_SHORT_SIZE
              (take (1 + AB_ADDR_SHORT_LEN) (cstr t) @ chars ''...'' @
               cstr (drop (BASE58CHECK_ADDRESS_SIZE - AB_ADDR_SHORT_LEN) t))),
            ar_details = (chars ''Address'', cstr t)\<rparr>
      | _ \<Rightarrow> None)"

definition handle_check_edit_ledger_account ::
  "sdk \<Rightarrow> (nat \<Rightarrow> bool) \<Rightarrow> edit_ledger_account_t option \<Rightarrow> ledger_account_ui_ctx_t \<Rightarrow>
   bool \<times> edit_ledger_account_t option \<times> ledger_account_ui_ctx_t" where
  "handle_check_edit_ledger_account k mem params ctx =
     (case params of
        None \<Rightarrow> (False, None, ctx)
      | Some p \<Rightarrow>
          (case handle_check_register_ledger_account k mem (Some (el_ledger_account p)) ctx of
             (False, ctx1) \<Rightarrow> (False, Some p, ctx1)
           | (True, ctx1) \<Rightarrow>
               (case derive_tron_address k (la_path (el_ledger_account p)) of
                  None \<Rightarrow> (False, Some p, free_ledger_account_buffers ctx1)
                | Some address \<Rightarrow>
                    (True, Some (p\<lparr>el_address := buf_write (el_address p) 0 address, el_address_len := ADDRESS_SIZE\<rparr>), ctx1))))"

section \<open>Confirmed edits\<close>

definition on_edit_contact_name_applied :: "ab_sizes \<Rightarrow> edit_contact_name_t option \<Rightarrow> contact_list \<Rightarrow> contact_list" where
  "on_edit_contact_name_applied sz edit l =
     (case edit of None \<Rightarrow> l | Some e \<Rightarrow> update_contact_name sz l (en_old_contact_name e) (en_contact_name e))"

definition on_edit_identifier_applied :: "edit_identifier_t option \<Rightarrow> contact_list \<Rightarrow> contact_list" where
  "on_edit_identifier_applied edit l =
     (case edit of None \<Rightarrow> l | Some e \<Rightarrow> update_contact_identifier l (ei_old_identifier e) (id_identifier (ei_identity e)))"

definition on_edit_scope_applied :: "ab_sizes \<Rightarrow> edit_scope_t option \<Rightarrow> contact_list \<Rightarrow> contact_list" where
  "on_edit_scope_applied sz edit l =
     (case edit of
        None \<Rightarrow> l
      | Some e \<Rightarrow> update_contact_scope sz l (id_identifier (es_identity e)) (id_scope (es_identity e)))"

definition on_edit_ledger_account_applied :: "ab_sizes \<Rightarrow> edit_ledger_account_t option \<Rightarrow> contact_list \<Rightarrow> contact_list" where
  "on_edit_ledger_account_applied sz edit l =
     (case edit of
        None \<Rightarrow> l
      | Some e \<Rightarrow> update_ledger_account_contact_name sz l (el_address e) (la_account_name (el_ledger_account e)))"

text \<open>An edit of any kind, as the operating system reports it.\<close>

datatype ab_edit = EditName edit_contact_name_t | EditIdentifier edit_identifier_t | EditScope edit_scope_t
  | EditAccount edit_ledger_account_t

definition apply_edit :: "sdk \<Rightarrow> ab_edit \<Rightarrow> contact_list \<Rightarrow> contact_list" where
  "apply_edit k e l =
     (case e of
        EditName n \<Rightarrow> on_edit_contact_name_applied (ab_sizes_of k) (Some n) l
      | EditIdentifier i \<Rightarrow> on_edit_identifier_applied (Some i) l
      | EditScope c \<Rightarrow> on_edit_scope_applied (ab_sizes_of k) (Some c) l
      | EditAccount a \<Rightarrow> on_edit_ledger_account_applied (ab_sizes_of k) (Some a) l)"

text \<open>The identifier in the SDK's structure has room for an address.\<close>

definition edit_sized :: "ab_edit \<Rightarrow> bool" where
  "edit_sized e = (case e of EditIdentifier i \<Rightarrow> 21 \<le> length (id_identifier (ei_identity i)) | _ \<Rightarrow> True)"

lemma wf_apply_edit:
  assumes "sdk_ok k" "wf_contacts (ab_sizes_of k) l" "edit_sized e"
  shows "wf_contacts (ab_sizes_of k) (apply_edit k e l)"
  using assms sdk_names [OF assms(1)]
  by (cases e) (auto simp: apply_edit_def edit_sized_def on_edit_contact_name_applied_def on_edit_identifier_applied_def
      on_edit_scope_applied_def on_edit_ledger_account_applied_def
      intro: wf_update_contact_name wf_update_contact_identifier wf_update_contact_scope wf_update_ledger_account_contact_name)

end
