(* ===== verification/App_Main.thy ===== *)
theory App_Main
  imports Handlers Address_Book
begin

text \<open>
  The dispatcher of \<^verbatim>\<open>src/src/handlers/dispatcher.c\<close> and the main loop of \<^verbatim>\<open>src/src/app_main.c\<close>, as a step
  relation: the application receives a command, the user answers the screen that is shown or flips a
  switch of the settings menu, or the operating system passes on an address-book command.
\<close>

section \<open>Commands\<close>

record command_t =
  cmd_cla :: u8
  cmd_ins :: u8
  cmd_p1 :: u8
  cmd_p2 :: u8
  cmd_data :: bytes

abbreviation (input) "INS_GET_PUBLIC_KEY \<equiv> (0x02 :: u8)"
abbreviation (input) "INS_SIGN \<equiv> (0x04 :: u8)"
abbreviation (input) "INS_SIGN_TXN_HASH \<equiv> (0x05 :: u8)"
abbreviation (input) "INS_GET_APP_CONFIGURATION \<equiv> (0x06 :: u8)"
abbreviation (input) "INS_SIGN_PERSONAL_MESSAGE \<equiv> (0x08 :: u8)"
abbreviation (input) "INS_GET_ECDH_SECRET \<equiv> (0x0A :: u8)"
abbreviation (input) "INS_SIGN_TIP_712_MESSAGE \<equiv> (0x0C :: u8)"

definition apdu_dispatcher :: "sdk \<Rightarrow> command_t \<Rightarrow> app_state \<Rightarrow> result" where
  "apdu_dispatcher k cmd s =
     (if cmd_cla cmd \<noteq> 0xE0 then ret_sw E_CLA_NOT_SUPPORTED s
      else
        let s1 = s\<lparr>g_recipient_contact := None, g_sender_contact := None, g_recipient_service := None\<rparr>;
            ins = cmd_ins cmd; p1 = cmd_p1 cmd; p2 = cmd_p2 cmd; data = cmd_data cmd in
        if G_called_from_swap s1 \<and> ins \<noteq> INS_GET_PUBLIC_KEY \<and> ins \<noteq> INS_SIGN
        then ret_sw E_SWAP_CHECKING_FAIL s1
        else if ins = INS_GET_PUBLIC_KEY then handleGetPublicKey k p1 p2 data s1
        else if ins = INS_SIGN then handleSign k p1 p2 data s1
        else if ins = INS_SIGN_TXN_HASH then handleSignByHash k p1 p2 data s1
        else if ins = INS_GET_APP_CONFIGURATION then handleGetAppConfiguration k s1
        else if ins = INS_GET_ECDH_SECRET then handleECDHSecret k p1 p2 data s1
        else if ins = INS_SIGN_PERSONAL_MESSAGE then handleSignPersonalMessage k p1 p2 data s1
        else if ins = INS_SIGN_TIP_712_MESSAGE then handleSignTIP712Message k p1 p2 data s1
        else ret_sw E_INS_NOT_SUPPORTED s1)"

section \<open>The main loop\<close>

definition nv_app_state_init :: "app_state \<Rightarrow> app_state" where
  "nv_app_state_init s = (if \<not> HAS_SETTING s S_INITIALIZED then s\<lparr>N_settings := 0x80\<rparr> else s)"

text \<open>What \<^verbatim>\<open>app_main\<close> does before its loop.\<close>

definition app_init :: "app_state \<Rightarrow> app_state" where
  "app_init s =
     (let s1 = (nv_app_state_init s)\<lparr>ab_contacts := address_book_contact_cleanup (ab_contacts s)\<rparr>;
          s2 = (if G_called_from_swap s1 then s1 else ui_idle s1)
      in terminate_signing_session s2)"

text \<open>
  One round of the loop: the bytes received are in the APDU buffer; \<^verbatim>\<open>apdu_parser\<close> of the SDK turned them
  into a command, or refused them. A thrown status word is sent.
\<close>

definition app_round :: "sdk \<Rightarrow> bytes \<Rightarrow> command_t option \<Rightarrow> app_state \<Rightarrow> result" where
  "app_round k received cmd s =
     (let s0 = s\<lparr>G_io_apdu_buffer := buf_write (G_io_apdu_buffer s) 0 received\<rparr> in
      case cmd of
        None \<Rightarrow> ret_sw E_WRONG_DATA_LENGTH s0
      | Some c \<Rightarrow>
          (case apdu_dispatcher k c s0 of
             (Thrown e, s1) \<Rightarrow> ret_sw e s1
           | r \<Rightarrow> r))"

text \<open>
  The transport is half-duplex: a command arrives only after the reply to the previous one, so never while
  a review waits for its answer.
\<close>

definition awaits_answer :: "app_state \<Rightarrow> bool" where
  "awaits_answer s \<longleftrightarrow> the_screen s \<in> {DataWarningScreen, CustomWarningScreen, TransactionScreen, AddressScreen}"

datatype event = Command bytes "command_t option" | Answer bool | Switch nat
  | ProvideIdentity bool identity_t | ProvideAccount bool ledger_account_t | EditApplied ab_edit

inductive app_step :: "sdk \<Rightarrow> app_state \<Rightarrow> event \<Rightarrow> app_state \<Rightarrow> bool" for k where
  command:
    "\<not> awaits_answer s \<Longrightarrow> length received \<le> length (G_io_apdu_buffer s) \<Longrightarrow>
     (case cmd of Some c \<Rightarrow> length (cmd_data c) \<le> 255 | None \<Rightarrow> True) \<Longrightarrow>
     app_round k received cmd s = (Returned, s') \<Longrightarrow> app_step k s (Command received cmd) s'"
| answer:
    "awaits_answer s \<Longrightarrow> user_choice k accept s = (Returned, s') \<Longrightarrow> app_step k s (Answer accept) s'"
| status_over:
    "the_screen s = StatusScreen \<Longrightarrow> app_step k s (Answer accept) (ui_idle s)"
| switch:
    "the_screen s = IdleScreen \<Longrightarrow> app_step k s (Switch i) (settingsControlsCallback i s)"
| provide_identity:
    "\<not> awaits_answer s \<Longrightarrow> 21 \<le> length (id_identifier i) \<Longrightarrow>
     app_step k s (ProvideIdentity mem i)
       (s\<lparr>ab_contacts := snd (handle_provide_identity (ab_sizes_of k) mem (ab_contacts s) i)\<rparr>)"
| provide_account:
    "\<not> awaits_answer s \<Longrightarrow>
     app_step k s (ProvideAccount mem a)
       (s\<lparr>ab_contacts := snd (handle_provide_ledger_account (ab_sizes_of k) (derive_tron_address k) mem (ab_contacts s) a)\<rparr>)"
| edit_applied:
    "\<not> awaits_answer s \<Longrightarrow> edit_sized e \<Longrightarrow>
     app_step k s (EditApplied e) (s\<lparr>ab_contacts := apply_edit k e (ab_contacts s)\<rparr>)"

inductive_cases commandE: "app_step k s (Command received cmd) s'"
inductive_cases answerE: "app_step k s (Answer accept) s'"
inductive_cases switchE: "app_step k s (Switch i) s'"
inductive_cases provideE: "app_step k s (ProvideIdentity mem i) s'"
inductive_cases provideAE: "app_step k s (ProvideAccount mem a) s'"
inductive_cases editE: "app_step k s (EditApplied e) s'"

inductive app_run :: "sdk \<Rightarrow> app_state \<Rightarrow> event list \<Rightarrow> app_state \<Rightarrow> bool" for k where
  run_nil: "app_run k s [] s"
| run_step: "app_run k s es s1 \<Longrightarrow> app_step k s1 e s2 \<Longrightarrow> app_run k s (es @ [e]) s2"

end
