(* ===== verification/Memory.thy ===== *)
theory Memory
  imports Callbacks App_Main
begin

text \<open>
  Memory safety of the global state. A store past the end of an array makes its list longer in this
  model, so that an operation which keeps the sizes of all arrays writes inside them. The theory shows it
  for every parser, every handler and every answer of the user, and for whole runs of the application.
\<close>

section \<open>Well-formed state\<close>

text \<open>Token names are NUL-terminated in their 67 bytes and their recorded lengths leave room for the NUL.\<close>

definition wf_name :: "bytes \<Rightarrow> bool" where
  "wf_name t \<longleftrightarrow> length t = 67 \<and> 0 \<in> set t"

definition wf_content :: "txContent_t \<Rightarrow> bool" where
  "wf_content c \<longleftrightarrow>
     length (tc_amount c) = 2 \<and> length (tc_account c) = 21 \<and> length (tc_destination c) = 21 \<and>
     length (tc_contractAddress c) = 21 \<and> length (tc_TRC20Amount c) = 32 \<and>
     length (tc_decimals c) = 2 \<and> list_all (\<lambda>d. unat d \<le> 18) (tc_decimals c) \<and>
     length (tc_tokenNames c) = 2 \<and> list_all wf_name (tc_tokenNames c) \<and>
     length (tc_tokenNamesLength c) = 2 \<and> list_all (\<lambda>n. unat n \<le> 66) (tc_tokenNamesLength c) \<and>
     length (tc_tokenIsTrx c) = 2 \<and> unat (tc_votesCount c) \<le> 5 \<and>
     length (tc_votes c) = 5 \<and> list_all (\<lambda>v. length (fst v) = 21) (tc_votes c)"

named_theorems wf_simps "updates that keep a state well-formed"

lemma wf_content_simps [wf_simps]:
  "wf_content c \<Longrightarrow> wf_content (c\<lparr>tc_amount := x1\<rparr>) \<longleftrightarrow> length x1 = 2"
  "wf_content c \<Longrightarrow> wf_content (c\<lparr>tc_exchangeID := x2\<rparr>)"
  "wf_content c \<Longrightarrow> wf_content (c\<lparr>tc_account := x3\<rparr>) \<longleftrightarrow> length x3 = 21"
  "wf_content c \<Longrightarrow> wf_content (c\<lparr>tc_destination := x3\<rparr>) \<longleftrightarrow> length x3 = 21"
  "wf_content c \<Longrightarrow> wf_content (c\<lparr>tc_contractAddress := x3\<rparr>) \<longleftrightarrow> length x3 = 21"
  "wf_content c \<Longrightarrow> wf_content (c\<lparr>tc_TRC20Amount := x3\<rparr>) \<longleftrightarrow> length x3 = 32"
  "wf_content c \<Longrightarrow> wf_content (c\<lparr>tc_decimals := x4\<rparr>) \<longleftrightarrow> length x4 = 2 \<and> list_all (\<lambda>d. unat d \<le> 18) x4"
  "wf_content c \<Longrightarrow> wf_content (c\<lparr>tc_tokenNames := x5\<rparr>) \<longleftrightarrow> length x5 = 2 \<and> list_all wf_name x5"
  "wf_content c \<Longrightarrow> wf_content (c\<lparr>tc_tokenNamesLength := x4\<rparr>) \<longleftrightarrow> length x4 = 2 \<and> list_all (\<lambda>d. unat d \<le> 66) x4"
  "wf_content c \<Longrightarrow> wf_content (c\<lparr>tc_tokenIsTrx := x6\<rparr>) \<longleftrightarrow> length x6 = 2"
  "wf_content c \<Longrightarrow> wf_content (c\<lparr>tc_resource := x7\<rparr>)"
  "wf_content c \<Longrightarrow> wf_content (c\<lparr>tc_TRC20Method := x7\<rparr>)"
  "wf_content c \<Longrightarrow> wf_content (c\<lparr>tc_customSelector := x8\<rparr>)"
  "wf_content c \<Longrightarrow> wf_content (c\<lparr>tc_callTokenValue := x9\<rparr>)"
  "wf_content c \<Longrightarrow> wf_content (c\<lparr>tc_callTokenId := x9\<rparr>)"
  "wf_content c \<Longrightarrow> wf_content (c\<lparr>tc_contractType := x8\<rparr>)"
  "wf_content c \<Longrightarrow> wf_content (c\<lparr>tc_dataBytes := x9\<rparr>)"
  "wf_content c \<Longrightarrow> wf_content (c\<lparr>tc_feeLimit := x9\<rparr>)"
  "wf_content c \<Longrightarrow> wf_content (c\<lparr>tc_permission_id := x8\<rparr>)"
  "wf_content c \<Longrightarrow> wf_content (c\<lparr>tc_customData := x8\<rparr>)"
  "wf_content c \<Longrightarrow> wf_content (c\<lparr>tc_contractSeen := x10\<rparr>)"
  "wf_content c \<Longrightarrow> wf_content (c\<lparr>tc_feeLimitSeen := x10\<rparr>)"
  "wf_content c \<Longrightarrow> wf_content (c\<lparr>tc_votesCount := x7\<rparr>) \<longleftrightarrow> unat x7 \<le> 5"
  "wf_content c \<Longrightarrow> wf_content (c\<lparr>tc_votes := x11\<rparr>) \<longleftrightarrow> length x11 = 5 \<and> list_all (\<lambda>v. length (fst v) = 21) x11"
  by (simp_all add: wf_content_def)

lemma wf_content_lengths [wf_simps]:
  assumes "wf_content c"
  shows "length (tc_amount c) = 2" "length (tc_account c) = 21" "length (tc_destination c) = 21"
    "length (tc_decimals c) = 2" "list_all (\<lambda>d. unat d \<le> 18) (tc_decimals c)"
    "length (tc_tokenNames c) = 2" "list_all wf_name (tc_tokenNames c)"
    "length (tc_tokenNamesLength c) = 2" "list_all (\<lambda>n. unat n \<le> 66) (tc_tokenNamesLength c)"
    "length (tc_tokenIsTrx c) = 2" "length (tc_TRC20Amount c) = 32" "length (tc_votes c) = 5"
    "list_all (\<lambda>v. length (fst v) = 21) (tc_votes c)" "unat (tc_votesCount c) \<le> 5"
  using assms by (simp_all add: wf_content_def)

lemma wf_content_nth:
  assumes "wf_content c" "i < 2"
  shows "wf_name (tc_tokenNames c ! i)" "length (tc_tokenNames c ! i) = 67"
    "unat (tc_tokenNamesLength c ! i) \<le> 66" "unat (tc_decimals c ! i) \<le> 18"
  using assms by (simp_all add: wf_content_def list_all_length wf_name_def)

lemma wf_content_nths [wf_simps]:
  assumes "wf_content c"
  shows "wf_name (tc_tokenNames c ! 0)" "wf_name (tc_tokenNames c ! 1)" "wf_name (tc_tokenNames c ! Suc 0)"
    "length (tc_tokenNames c ! 0) = 67" "length (tc_tokenNames c ! 1) = 67" "length (tc_tokenNames c ! Suc 0) = 67"
  using wf_content_nth [OF assms] by simp_all

lemma list_all_update [wf_simps]: "list_all P xs \<Longrightarrow> P x \<Longrightarrow> list_all P (xs[i := x])"
  by (auto simp: list_all_iff dest!: set_update_subset_insert [THEN subsetD])

text \<open>Everything written into a token name keeps it well-formed.\<close>

lemma wf_name_strlcpy [wf_simps]: "wf_name out \<Longrightarrow> wf_name (strlcpy out src 67)"
  by (simp add: wf_name_def length_strlcpy strlcpy_NUL)

lemma wf_name_snprintf [wf_simps]: "wf_name out \<Longrightarrow> wf_name (snprintf out 67 src)"
  by (simp add: snprintf_def wf_name_strlcpy)

lemma wf_name_write [wf_simps]: "wf_name out \<Longrightarrow> length bs < 67 \<Longrightarrow> wf_name (buf_write out 0 (bs @ [0]))"
  by (simp add: wf_name_def buf_write_def)

lemma strlen_wf_name [wf_simps]: "wf_name t \<Longrightarrow> strlen t \<le> 66"
proof -
  assume t: "wf_name t"
  then obtain xs ys where "t = xs @ 0 # ys" "0 \<notin> set xs"
    by (auto simp: wf_name_def dest!: split_list_first)
  with t show ?thesis by (simp add: strlen_def wf_name_def)
qed

lemma unat_name_length [wf_simps]: "n \<le> 66 \<Longrightarrow> unat (of_nat n :: u8) \<le> 66"
  by (simp add: unat_of_nat)

lemma unat_ticker_length [wf_simps]: "n \<le> 65 \<Longrightarrow> unat (1 + of_nat n :: u8) \<le> 66"
  using unat_name_length [of "Suc n"] by simp

section \<open>Decoded messages\<close>

lemma wf_decode: "pb_decode cb fs s u = Some (m, u') \<Longrightarrow> wf_fields fs \<Longrightarrow> wf_msg fs m"
  unfolding pb_decode_def by (rule wf_pb_decode_inner) (auto intro: wf_defaults)

text \<open>The size of a member, read off its descriptor.\<close>

definition fixed_size :: "pb_field list \<Rightarrow> u32 \<Rightarrow> nat option" where
  "fixed_size fs tag =
     (case pb_field_iter_find fs tag of
        Some (Field _ STATIC SINGULAR (LT_FIXED_LENGTH_BYTES n)) \<Rightarrow> Some n
      | Some (Field _ STATIC SINGULAR (LT_STRING n)) \<Rightarrow> Some n
      | Some (Field _ STATIC SINGULAR (LT_BYTES n)) \<Rightarrow> Some n
      | _ \<Rightarrow> None)"

lemma length_m_buf:
  assumes "wf_msg fs m" "fixed_size fs tag = Some n"
  shows "length (m_buf m tag) = n"
proof -
  obtain f where f: "pb_field_iter_find fs tag = Some f" "wf_slot f (get_slot m tag)"
    using assms wf_find by (fastforce simp: fixed_size_def split: option.splits)
  obtain tg h lt where "f = Field tg STATIC SINGULAR lt" and
      lt: "lt = LT_FIXED_LENGTH_BYTES n \<or> lt = LT_STRING n \<or> lt = LT_BYTES n"
    using assms(2) f(1)
    by (cases f) (auto simp: fixed_size_def split: atype.splits htype.splits ltype.splits)
  with f(2) obtain v where "s_vals (get_slot m tag) = [v]" "wf_val lt v"
    by (cases "get_slot m tag") (auto simp: length_Suc_conv)
  with lt show ?thesis by (auto simp: m_buf_def)
qed

lemma wf_m_msgs:
  assumes "wf_msg fs m" "pb_field_iter_find fs tag = Some (Field tag STATIC (REPEATED n) (LT_SUBMESSAGE gs))"
  shows "length (m_msgs m tag) \<le> n \<and> (\<forall>x \<in> set (m_msgs m tag). wf_msg gs x)"
  using wf_find [OF assms] by (auto simp: m_msgs_def list_all_iff)

lemma wf_descriptors:
  "wf_fields protocol_AccountUpdateContract" "wf_fields protocol_TransferContract"
  "wf_fields protocol_TransferAssetContract" "wf_fields protocol_VoteWitnessContract"
  "wf_fields (protocol_FreezeBalanceContract es)" "wf_fields (protocol_UnfreezeBalanceContract es)"
  "wf_fields (protocol_FreezeBalanceV2Contract es)" "wf_fields (protocol_UnfreezeBalanceV2Contract es)"
  "wf_fields protocol_WithdrawExpireUnfreezeContract" "wf_fields (protocol_DelegateResourceContract es)"
  "wf_fields (protocol_UnDelegateResourceContract es)" "wf_fields protocol_WithdrawBalanceContract"
  "wf_fields protocol_ProposalCreateContract" "wf_fields protocol_ProposalApproveContract"
  "wf_fields protocol_ProposalDeleteContract" "wf_fields protocol_TriggerSmartContract"
  "wf_fields protocol_ExchangeCreateContract" "wf_fields protocol_ExchangeInjectContract"
  "wf_fields protocol_ExchangeWithdrawContract" "wf_fields protocol_ExchangeTransactionContract"
  "wf_fields (protocol_AccountPermissionUpdateContract es)" "wf_fields ExchangeDetails" "wf_fields TokenDetails"
  by (simp_all add: wf_fields_def descriptor_defs)

section \<open>The parser\<close>

lemma wf_decode_msg:
  assumes "wf_fields fs" "wf_content c" "\<And>m. wf_msg fs m \<Longrightarrow> wf_content (snd (body m))"
  shows "wf_content (fst (snd (decode_msg fs stream c body)))"
  using assms wf_decode [of no_callbacks fs stream "()"]
  by (auto simp: decode_msg_def split: option.splits prod.splits dest: sndI)

lemma fixed_size_find [simp]:
  "pb_field_iter_find fs tag = Some (Field tg STATIC SINGULAR (LT_FIXED_LENGTH_BYTES n)) \<Longrightarrow> fixed_size fs tag = Some n"
  "pb_field_iter_find fs tag = Some (Field tg STATIC SINGULAR (LT_STRING n)) \<Longrightarrow> fixed_size fs tag = Some n"
  "pb_field_iter_find fs tag = Some (Field tg STATIC SINGULAR (LT_BYTES n)) \<Longrightarrow> fixed_size fs tag = Some n"
  by (simp_all add: fixed_size_def)

lemma wf_printTokenFromID:
  assumes "wf_content c" "i < 2"
  shows "wf_content (snd (printTokenFromID c i data n))"
proof -
  have "wf_name (strlcpy (tc_tokenNames c ! i) x 67)" for x using wf_content_nth [OF assms] by (simp add: wf_simps)
  then show ?thesis using assms by (simp add: printTokenFromID_def Let_def header_constants wf_simps)
qed

lemma wf_set_name_length:
  assumes "wf_content c" "n \<le> 66"
  shows "wf_content (set_name_length i n c)"
  using assms by (simp add: wf_simps)

lemma wf_name_length:
  "wf_content c \<Longrightarrow> i < 2 \<Longrightarrow> wf_content (set_name_length i (strlen (tc_tokenNames c ! i)) c)"
  by (rule wf_set_name_length) (auto intro: strlen_wf_name wf_content_nth)

lemmas find_simps = pb_field_iter_find_def descriptor_defs

lemma wf_transfer_contract: "wf_content c \<Longrightarrow> wf_content (fst (snd (transfer_contract st c)))"
  unfolding transfer_contract_def
  by (rule wf_decode_msg [OF wf_descriptors(2)])
    (simp_all add: wf_simps length_m_buf [of protocol_TransferContract] find_simps wf_name_write [of _ "chars ''TRX''", simplified])

lemma wf_transfer_asset_contract: "wf_content c \<Longrightarrow> wf_content (fst (snd (transfer_asset_contract st c)))"
proof -
  assume c: "wf_content c"
  have "wf_content (snd (case printTokenFromID (set_amount 0 v c) 0 d n of (False, c2) \<Rightarrow> (False, c2)
       | (True, c2) \<Rightarrow> (True, set_name_length 0 (strlen (tc_tokenNames c2 ! 0)) c2\<lparr>tc_account := a, tc_destination := b\<rparr>)))"
    if "length a = 21" "length b = 21" for v d n a b
    using wf_printTokenFromID [of "set_amount 0 v c" 0 d n] c that wf_name_length [of _ 0]
    by (auto simp: wf_simps split: prod.splits bool.splits)
  then show ?thesis
    unfolding transfer_asset_contract_def Let_def
    by (intro wf_decode_msg wf_descriptors c)
      (simp add: length_m_buf [of protocol_TransferAssetContract] find_simps)
qed

lemma wf_vote_witness_contract: "wf_content c \<Longrightarrow> wf_content (fst (snd (vote_witness_contract st c)))"
proof -
  assume c: "wf_content c"
  have "wf_content (c\<lparr>tc_account := m_buf m 1, tc_votesCount := of_nat (length (m_msgs m 2)),
      tc_votes := buf_write (tc_votes c) 0 (map (\<lambda>v. (m_buf v 1, m_int v 2)) (m_msgs m 2))\<rparr>)"
    if m: "wf_msg protocol_VoteWitnessContract m" for m
  proof -
    have v: "length (m_msgs m 2) \<le> 5" "\<forall>x \<in> set (m_msgs m 2). wf_msg protocol_VoteWitnessContract_Vote x"
      using wf_m_msgs [OF m, of 2 5 protocol_VoteWitnessContract_Vote] by (simp_all add: find_simps)
    then have "\<forall>x \<in> set (m_msgs m 2). length (m_buf x 1) = 21"
      by (auto simp: length_m_buf [of protocol_VoteWitnessContract_Vote] find_simps)
    moreover have "unat (of_nat (length (m_msgs m 2)) :: u8) \<le> 5" using v(1) by (simp add: unat_of_nat)
    moreover have "length (m_buf m 1) = 21"
      using m by (simp add: length_m_buf [of protocol_VoteWitnessContract] find_simps)
    moreover have "list_all (\<lambda>v. length (fst v) = 21) (drop n (tc_votes c))" for n
      using wf_content_lengths(13) [OF c] by (auto simp: list_all_iff dest: in_set_dropD)
    ultimately show ?thesis
      using c v(1) by (auto simp: wf_simps buf_write_def list_all_iff)
  qed
  then show ?thesis
    unfolding vote_witness_contract_def Let_def by (intro wf_decode_msg wf_descriptors c) (simp add: c)
qed

lemma wf_resource_contracts:
  assumes "wf_content c"
  shows "wf_content (fst (snd (freeze_balance_contract k st c)))"
    "wf_content (fst (snd (unfreeze_balance_contract k st c)))"
    "wf_content (fst (snd (freeze_balance_v2_contract k st c)))"
    "wf_content (fst (snd (unfreeze_balance_v2_contract k st c)))"
    "wf_content (fst (snd (withdraw_expire_unfreeze_contract st c)))"
    "wf_content (fst (snd (delegate_resource_contract k st c)))"
    "wf_content (fst (snd (undelegate_resource_contrace k st c)))"
    "wf_content (fst (snd (withdraw_balance_contract st c)))"
  unfolding freeze_balance_contract_def unfreeze_balance_contract_def freeze_balance_v2_contract_def
    unfreeze_balance_v2_contract_def withdraw_expire_unfreeze_contract_def delegate_resource_contract_def
    undelegate_resource_contrace_def withdraw_balance_contract_def
  by (intro wf_decode_msg wf_descriptors assms; use assms in \<open>simp add: wf_simps
      length_m_buf [of "protocol_FreezeBalanceContract (enum_size k)"] length_m_buf [of "protocol_UnfreezeBalanceContract (enum_size k)"]
      length_m_buf [of "protocol_FreezeBalanceV2Contract (enum_size k)"] length_m_buf [of "protocol_UnfreezeBalanceV2Contract (enum_size k)"]
      length_m_buf [of protocol_WithdrawExpireUnfreezeContract] length_m_buf [of "protocol_DelegateResourceContract (enum_size k)"]
      length_m_buf [of "protocol_UnDelegateResourceContract (enum_size k)"] length_m_buf [of protocol_WithdrawBalanceContract]
      find_simps\<close>)+

lemma wf_account_contracts:
  assumes "wf_content c"
  shows "wf_content (fst (snd (proposal_create_contract st c)))"
    "wf_content (fst (snd (proposal_approve_contract st c)))"
    "wf_content (fst (snd (proposal_delete_contract st c)))"
    "wf_content (fst (snd (account_update_contract st c)))"
    "wf_content (fst (snd (account_permission_update_contract k st c)))"
  unfolding proposal_create_contract_def proposal_approve_contract_def proposal_delete_contract_def
    account_update_contract_def account_permission_update_contract_def
  by (intro wf_decode_msg wf_descriptors assms; use assms in \<open>simp add: wf_simps
      length_m_buf [of protocol_ProposalCreateContract] length_m_buf [of protocol_ProposalApproveContract]
      length_m_buf [of protocol_ProposalDeleteContract] length_m_buf [of protocol_AccountUpdateContract]
      length_m_buf [of "protocol_AccountPermissionUpdateContract (enum_size k)"] find_simps\<close>)+

lemma wf_exchange_token:
  assumes "wf_content c" "length (m_buf m 1) = 21"
  shows "wf_content (snd (exchange_token m c))"
proof -
  let ?c1 = "c\<lparr>tc_account := m_buf m 1, tc_exchangeID := m_int m 2\<rparr>"
  have "wf_content ?c1" using assms by (simp add: wf_simps)
  note w = wf_printTokenFromID [OF this, of 0 "m_buf m 3 @ replicate 6 0" "m_size m 3"]
  show ?thesis
  proof (cases "printTokenFromID ?c1 0 (m_buf m 3 @ replicate 6 0) (m_size m 3)")
    case (Pair r c2)
    with w wf_name_length [of c2 0] show ?thesis by (cases r) (simp_all add: exchange_token_def Let_def)
  qed
qed

lemma wf_exchange_contracts:
  assumes "wf_content c"
  shows "wf_content (fst (snd (exchange_inject_contract st c)))"
    "wf_content (fst (snd (exchange_withdraw_contract st c)))"
    "wf_content (fst (snd (exchange_transaction_contract st c)))"
proof -
  have 1: "wf_content (snd (case exchange_token m c of (False, c') \<Rightarrow> (False, c')
      | (True, c') \<Rightarrow> (True, set_amount 0 v c')))" if "length (m_buf m 1) = 21" for m v
  proof (cases "exchange_token m c")
    case (Pair r c')
    with wf_exchange_token [OF assms that] show ?thesis by (cases r) (simp_all add: wf_simps)
  qed
  have 2: "wf_content (snd (case exchange_token m c of (False, c') \<Rightarrow> (False, c')
      | (True, c') \<Rightarrow> (True, set_amount 1 w (set_amount 0 v c'))))" if "length (m_buf m 1) = 21" for m v w
  proof (cases "exchange_token m c")
    case (Pair r c')
    with wf_exchange_token [OF assms that] show ?thesis by (cases r) (simp_all add: wf_simps)
  qed
  show "wf_content (fst (snd (exchange_inject_contract st c)))"
    unfolding exchange_inject_contract_def
    by (rule wf_decode_msg [OF wf_descriptors(18) assms], rule 1) (simp add: find_simps length_m_buf [of protocol_ExchangeInjectContract])
  show "wf_content (fst (snd (exchange_withdraw_contract st c)))"
    unfolding exchange_withdraw_contract_def
    by (rule wf_decode_msg [OF wf_descriptors(19) assms], rule 1) (simp add: find_simps length_m_buf [of protocol_ExchangeWithdrawContract])
  show "wf_content (fst (snd (exchange_transaction_contract st c)))"
    unfolding exchange_transaction_contract_def
    by (rule wf_decode_msg [OF wf_descriptors(20) assms], rule 2) (simp add: find_simps length_m_buf [of protocol_ExchangeTransactionContract])
qed

lemma wf_exchange_create_contract: "wf_content c \<Longrightarrow> wf_content (fst (snd (exchange_create_contract st c)))"
proof -
  assume c: "wf_content c"
  have "wf_content (snd (case printTokenFromID (c\<lparr>tc_account := a\<rparr>) 0 d1 n1 of
         (False, c2) \<Rightarrow> (False, c2)
       | (True, c2) \<Rightarrow>
           (case printTokenFromID (set_name_length 0 (strlen (tc_tokenNames c2 ! 0)) c2) 1 d2 n2 of
             (False, c4) \<Rightarrow> (False, c4)
           | (True, c4) \<Rightarrow>
               (True, set_amount 1 v2 (set_amount 0 v1 (set_name_length 1 (strlen (tc_tokenNames c4 ! 1)) c4))))))"
    if "length a = 21" for a d1 n1 d2 n2 v1 v2
  proof -
    obtain r c2 where c2: "printTokenFromID (c\<lparr>tc_account := a\<rparr>) 0 d1 n1 = (r, c2)" by fastforce
    then have "wf_content c2"
      using wf_printTokenFromID [of "c\<lparr>tc_account := a\<rparr>" 0 d1 n1] c that by (simp add: wf_simps)
    then have w3: "wf_content (set_name_length 0 (strlen (tc_tokenNames c2 ! 0)) c2)" by (simp add: wf_name_length)
    obtain q c4 where c4: "printTokenFromID (set_name_length 0 (strlen (tc_tokenNames c2 ! 0)) c2) 1 d2 n2 = (q, c4)"
      by fastforce
    then have "wf_content c4" using wf_printTokenFromID [OF w3, of 1 d2 n2] by simp
    with c2 c4 \<open>wf_content c2\<close> show ?thesis
      using wf_name_length [of c4 1] by (cases r; cases q) (simp_all add: wf_simps)
  qed
  then show ?thesis
    unfolding exchange_create_contract_def Let_def
    by (intro wf_decode_msg wf_descriptors c) (simp add: length_m_buf [of protocol_ExchangeCreateContract] find_simps)
qed

section \<open>Contract calls\<close>

interpretation trigger: callback_contract "\<lambda>_. True" trigger_callbacks wf_content
proof
  fix i f and s s' :: pb_istream_t and u u' :: txContent_t
  assume a: "trigger_callbacks i = Some f" "wf_content u" "f s u = Some (s', u')"
  have "length (buf_set (take ADDRESS_SIZE (drop 11 to)) 0 ADD_PRE_FIX_BYTE_MAINNET) = 21"
    if "length to = 32" for to
    using that by (simp add: buf_simps header_constants)
  then show "True \<and> wf_content u'"
    using a
    by (auto simp: trigger_callbacks_def pb_decode_trigger_smart_contract_data_def Let_def wf_simps
        split: if_splits bind_splits dest!: pb_read_length)
qed simp_all

lemma wf_trigger_smart_contract: "wf_content c \<Longrightarrow> wf_content (fst (snd (trigger_smart_contract st c)))"
proof -
  assume c: "wf_content c"
  show ?thesis
  proof (cases "pb_decode trigger_callbacks protocol_TriggerSmartContract st c")
    case (Some r)
    then obtain m c0 where d: "pb_decode trigger_callbacks protocol_TriggerSmartContract st c = Some (m, c0)"
      by (cases r) auto
    then have "wf_content c0" using trigger.decode_inner_keeps c by (simp add: pb_decode_def)
    moreover have "wf_msg protocol_TriggerSmartContract m" using wf_decode [OF d] wf_descriptors by simp
    then have "length (m_buf m 1) = 21" "length (m_buf m 2) = 21"
      by (simp_all add: length_m_buf [of protocol_TriggerSmartContract] find_simps)
    ultimately have c1: "wf_content (set_amount 0 (m_int m 3) c0\<lparr>tc_account := m_buf m 1, tc_contractAddress := m_buf m 2,
        tc_callTokenValue := m_int m 5, tc_callTokenId := m_int m 6\<rparr>)" by (simp add: wf_simps)
    have t: "strlen (td_ticker t) = length (td_ticker t) \<and> length (td_ticker t) \<le> 9 \<and> unat (td_decimals t) \<le> 18"
      if "getKnownToken a = Some t" for a t
      using getKnownToken_wf [OF that] by (simp add: wf_token_def strlen_def)
    show ?thesis
      using c1 d \<open>wf_content c0\<close>
      by (auto simp: trigger_smart_contract_def Let_def wf_simps dest!: t split: option.splits)
  qed (simp add: trigger_smart_contract_def c)
qed

section \<open>The transaction and the signed descriptions\<close>

lemma wf_contract_switch:
  assumes "contract_switch k type = Some f" "wf_content c"
  shows "wf_content (fst (snd (f st c)))"
  using assms(1) wf_transfer_contract wf_transfer_asset_contract wf_vote_witness_contract wf_resource_contracts
    wf_account_contracts wf_exchange_contracts wf_exchange_create_contract wf_trigger_smart_contract assms(2)
  by (auto simp: contract_switch_def split: if_splits)

lemma wf_process_contract:
  "wf_content (txContent s) \<Longrightarrow> wf_content (txContent (snd (process_contract k b ct cb s)))"
proof -
  assume c: "wf_content (txContent s)"
  have "wf_content c3" if "contract_switch k t = Some f" "f st (txContent s\<lparr>tc_contractSeen := True,
      tc_permission_id := p, tc_contractType := t\<rparr>) = (ret, c3, m)" for t f st p ret c3 m
    using wf_contract_switch [OF that(1), of "txContent s\<lparr>tc_contractSeen := True, tc_permission_id := p,
        tc_contractType := t\<rparr>" st] that(2) c by (simp add: wf_simps)
  with c show ?thesis
    by (auto simp: process_contract_def Let_def wf_simps split: option.splits prod.splits)
qed

lemma wf_processTx: "wf_content (txContent s) \<Longrightarrow> wf_content (txContent (snd (processTx k b s)))"
proof -
  assume c: "wf_content (txContent s)"
  have "wf_content (txContent (snd (process_contract k b ct cb (s\<lparr>msg := [], txContent := c'\<rparr>))))"
    if "wf_content c'" for ct cb c'
    using wf_process_contract [of "s\<lparr>msg := [], txContent := c'\<rparr>"] that by simp
  with c show ?thesis
    by (auto simp: processTx_def Let_def wf_simps split: option.splits prod.splits)
qed

lemma unat_ucast_small: "unat (w :: u64) \<le> 18 \<Longrightarrow> unat (ucast w :: u8) \<le> 18"
  by (simp add: unsigned_ucast_eq take_bit_nat_eq_self)

lemma unat_ucast_sint: "0 \<le> sint (w :: u32) \<Longrightarrow> sint w \<le> 18 \<Longrightarrow> unat (ucast w :: u8) \<le> 18"
proof -
  assume w: "0 \<le> sint w" "sint w \<le> 18"
  then have "uint w = sint w" by (simp add: uint_sint take_bit_int_eq_self)
  then have "unat w \<le> 18" using w(2) by (simp add: unat_eq_nat_uint)
  then show ?thesis by (simp add: unsigned_ucast_eq take_bit_nat_eq_self)
qed

lemma wf_parseTokenName:
  assumes "wf_content c" "i < 2"
  shows "wf_content (snd (parseTokenName k i d c))"
proof -
  have "wf_name (tc_tokenNames c ! i)" "wf_name (replicate 67 0)"
    using wf_content_nth [OF assms] by (simp_all add: wf_name_def)
  then have "wf_name (strlcpy (tc_tokenNames c ! i) x 67)" "strlen (snprintf (replicate 67 0) 67 y) \<le> 66" for x y
    by (simp_all add: wf_simps)
  with assms(1) show ?thesis
    by (auto simp: parseTokenName_def Let_def header_constants wf_simps unat_ucast_small split: option.splits)
qed

lemma wf_set_token_info: "wf_content c \<Longrightarrow> wf_content (snd (set_token_info c i name id' p))"
proof (cases "i < 2")
  case True
  assume c: "wf_content c"
  have "wf_name (snprintf (tc_tokenNames c ! i) 67 y)" for y using wf_content_nth [OF c True] by (simp add: wf_simps)
  with c show ?thesis
    by (simp add: set_token_info_def Let_def header_constants wf_simps unat_ucast_sint)
qed (simp add: set_token_info_def)

lemma wf_parseExchange: "wf_content c \<Longrightarrow> wf_content (snd (parseExchange k d c))"
proof -
  assume c: "wf_content c"
  have "wf_content (snd (case set_token_info c i n1 id1 p1 of (False, c') \<Rightarrow> (False, c')
      | (True, c') \<Rightarrow> set_token_info c' j n2 id2 p2))" for i n1 id1 p1 j n2 id2 p2
  proof (cases "set_token_info c i n1 id1 p1")
    case (Pair r c')
    with wf_set_token_info [OF c, of i n1 id1 p1] show ?thesis by (cases r) (simp_all add: wf_set_token_info)
  qed
  with c show ?thesis
    by (simp add: parseExchange_def Let_def split: option.splits prod.splits)
qed

end
