(* ===== verification/Signing_Policy.thy ===== *)
theory Signing_Policy
  imports App_Main
begin

text \<open>
  When the application uses a private key: never while it handles a command, except for a swap; only when
  the user accepts the last screen of a review. And what it signs then.
\<close>

section \<open>Commands do not use private keys\<close>

text \<open>The SDK with every operation on a private key disabled.\<close>

definition keyless :: "sdk \<Rightarrow> sdk" where
  "keyless k = k\<lparr>bip32_derive_ecdsa_sign_rs := \<lambda>_ _. None, ecdsa_sign_der := \<lambda>_ _. None, cx_ecdh := \<lambda>_ _. None\<rparr>"

lemma keyless_sdk [simp]:
  "cx_sha256 (keyless k) = cx_sha256 k" "cx_keccak256 (keyless k) = cx_keccak256 k"
  "cx_keccak_call (keyless k) = cx_keccak_call k" "base58_encode (keyless k) = base58_encode k" "format_hex (keyless k) = format_hex k"
  "cx_ecdsa_verify (keyless k) = cx_ecdsa_verify k"
  "bip32_derive_get_pubkey (keyless k) = bip32_derive_get_pubkey k"
  "swap_parse_config (keyless k) = swap_parse_config k"
  "max_printable_amount_size (keyless k) = max_printable_amount_size k"
  "enum_size (keyless k) = enum_size k" "app_version (keyless k) = app_version k"
  by (simp_all add: keyless_def)

text \<open>The functions on the way are independent of the disabled operations too, from the helpers up.\<close>

named_theorems keyless "independence from the operations on private keys"

declare keyless_sdk [keyless]

lemma keyless_addchecksum [keyless]: "addchecksum (keyless k) a = addchecksum k a"
  by (unfold addchecksum_def keyless) (rule refl)

lemma keyless_getBase58FromAddress [keyless]: "getBase58FromAddress (keyless k) a out off = getBase58FromAddress k a out off"
  by (unfold getBase58FromAddress_def keyless) (rule refl)

lemma keyless_getAddressFromPublicKey [keyless]: "getAddressFromPublicKey (keyless k) p = getAddressFromPublicKey k p"
  by (unfold getAddressFromPublicKey_def keyless) (rule refl)

lemma keyless_getBase58FromPublicKey [keyless]: "getBase58FromPublicKey (keyless k) p out = getBase58FromPublicKey k p out"
  by (unfold getBase58FromPublicKey_def keyless) (rule refl)

lemma keyless_initPublicKeyContext [keyless]: "initPublicKeyContext (keyless k) p out c = initPublicKeyContext k p out c"
  by (unfold initPublicKeyContext_def keyless) (rule refl)

lemma keyless_bytes_to_string [keyless]: "bytes_to_string (keyless k) out off n v = bytes_to_string k out off n v"
  by (unfold bytes_to_string_def keyless) (rule refl)

lemma keyless_write_hex [keyless]: "write_hex (keyless k) v out = write_hex k v out"
  by (unfold write_hex_def keyless) (rule refl)

lemma keyless_format_hash [keyless]: "format_hash (keyless k) h off s = format_hash k h off s"
  by (unfold format_hash_def keyless) (rule refl)

lemma keyless_set_recipient_address [keyless]: "set_recipient_address (keyless k) a s = set_recipient_address k a s"
  by (unfold set_recipient_address_def keyless) (rule refl)

lemma keyless_set_receiver [keyless]: "set_receiver (keyless k) s = set_receiver k s"
  by (unfold set_receiver_def keyless) (rule refl)

lemma keyless_set_sender [keyless]: "set_sender (keyless k) s = set_sender k s"
  by (unfold set_sender_def keyless) (rule refl)

lemma keyless_prepareTxInfos [keyless]: "prepareTxInfos (keyless k) st w s = prepareTxInfos k st w s"
  by (unfold prepareTxInfos_def keyless) (rule refl)

lemma keyless_ux_flow_display [keyless]: "ux_flow_display (keyless k) st w s = ux_flow_display k st w s"
  by (unfold ux_flow_display_def keyless) (rule refl)

lemma keyless_verifyTokenNameID [keyless]: "verifyTokenNameID (keyless k) i n d g = verifyTokenNameID k i n d g"
  by (unfold verifyTokenNameID_def keyless) (rule refl)

lemma keyless_verifyExchangeID [keyless]: "verifyExchangeID (keyless k) m n g = verifyExchangeID k m n g"
  by (unfold verifyExchangeID_def keyless) (rule refl)

lemma keyless_parseTokenName [keyless]: "parseTokenName (keyless k) i d c = parseTokenName k i d c"
  by (unfold parseTokenName_def keyless) (rule refl)

lemma keyless_parseExchange [keyless]: "parseExchange (keyless k) d c = parseExchange k d c"
  by (unfold parseExchange_def keyless) (rule refl)

lemma keyless_contract_switch [keyless]: "contract_switch (keyless k) t = contract_switch k t"
  by (simp add: fun_eq_iff contract_switch_def freeze_balance_contract_def unfreeze_balance_contract_def
      freeze_balance_v2_contract_def unfreeze_balance_v2_contract_def delegate_resource_contract_def
      undelegate_resource_contrace_def account_permission_update_contract_def)

lemma keyless_process_contract [keyless]: "process_contract (keyless k) b c cb s = process_contract k b c cb s"
  by (unfold process_contract_def keyless) (rule refl)

lemma keyless_processTx [keyless]: "processTx (keyless k) b s = processTx k b s"
  by (unfold processTx_def keyless) (rule refl)

lemma keyless_sign_token_name [keyless]: "sign_token_name (keyless k) p1 b s = sign_token_name k p1 b s"
  by (unfold sign_token_name_def keyless) (rule refl)

lemma keyless_key_lines [keyless]:
  "permission_key_lines (keyless k) keys i a ls = permission_key_lines k keys i a ls"
  by (induction keys arbitrary: i a ls) (simp_all add: Let_def keyless_getBase58FromAddress)

lemma keyless_fillPermissionEntry [keyless]: "fillPermissionEntry (keyless k) i p s cont = fillPermissionEntry k i p s cont"
  by (unfold fillPermissionEntry_def keyless) (rule refl)

lemma keyless_fill_actives [keyless]: "fill_actives (keyless k) perms i s cont = fill_actives k perms i s cont"
  by (induction perms arbitrary: i s) (simp_all add: keyless_fillPermissionEntry)

lemma keyless_vote_loop [keyless]: "vote_loop (keyless k) votes i t s cont = vote_loop k votes i t s cont"
  by (induction k votes i t s cont rule: vote_loop.induct)
    (simp_all add: Let_def fillVoteAmountSlot_def print_apdu_def with_print_def keyless_getBase58FromAddress
      split: option.splits sum.splits)

lemma keyless_ux_flow_display_eta [keyless]: "ux_flow_display (keyless k) st w = ux_flow_display k st w"
  by (rule ext) (rule keyless_ux_flow_display)

lemma keyless_fillPermissionEntry_eta [keyless]: "fillPermissionEntry (keyless k) i p = fillPermissionEntry k i p"
  by (rule ext)+ (rule keyless_fillPermissionEntry)

lemma keyless_sign_custom_contract [keyless]: "sign_custom_contract (keyless k) w s = sign_custom_contract k w s"
  by (unfold sign_custom_contract_def keyless) (rule refl)

lemma keyless_sign_exchange_create [keyless]: "sign_exchange_create (keyless k) w s = sign_exchange_create k w s"
  by (unfold sign_exchange_create_def keyless) (rule refl)

lemma keyless_sign_exchange_inject_withdraw [keyless]: "sign_exchange_inject_withdraw (keyless k) w s = sign_exchange_inject_withdraw k w s"
  by (unfold sign_exchange_inject_withdraw_def keyless) (rule refl)

lemma keyless_sign_exchange_transaction [keyless]: "sign_exchange_transaction (keyless k) w s = sign_exchange_transaction k w s"
  by (unfold sign_exchange_transaction_def keyless) (rule refl)

lemma keyless_sign_votes [keyless]: "sign_votes (keyless k) w s = sign_votes k w s"
  by (unfold sign_votes_def keyless) (rule refl)

lemma keyless_sign_freeze [keyless]: "sign_freeze (keyless k) w s = sign_freeze k w s"
  by (unfold sign_freeze_def keyless) (rule refl)

lemma keyless_sign_unfreeze [keyless]: "sign_unfreeze (keyless k) w s = sign_unfreeze k w s"
  by (unfold sign_unfreeze_def keyless) (rule refl)

lemma keyless_sign_freeze_v2 [keyless]: "sign_freeze_v2 (keyless k) w s = sign_freeze_v2 k w s"
  by (unfold sign_freeze_v2_def keyless) (rule refl)

lemma keyless_sign_unfreeze_v2 [keyless]: "sign_unfreeze_v2 (keyless k) w s = sign_unfreeze_v2 k w s"
  by (unfold sign_unfreeze_v2_def keyless) (rule refl)

lemma keyless_sign_delegate [keyless]: "sign_delegate (keyless k) w s = sign_delegate k w s"
  by (unfold sign_delegate_def keyless) (rule refl)

lemma keyless_sign_undelegate [keyless]: "sign_undelegate (keyless k) w s = sign_undelegate k w s"
  by (unfold sign_undelegate_def keyless) (rule refl)

lemma keyless_sign_withdraw [keyless]: "sign_withdraw (keyless k) st w s = sign_withdraw k st w s"
  by (unfold sign_withdraw_def keyless) (rule refl)

lemma keyless_sign_permission_update [keyless]: "sign_permission_update (keyless k) w s = sign_permission_update k w s"
  by (unfold sign_permission_update_def keyless) (rule refl)

lemma keyless_sign_default [keyless]: "sign_default (keyless k) w s = sign_default k w s"
  by (unfold sign_default_def keyless) (rule refl)

lemma print_maxFee_cong:
  "(\<And>out. cont (s\<lparr>strings := out\<rparr>) = cont' (s\<lparr>strings := out\<rparr>)) \<Longrightarrow> print_maxFee s cont = print_maxFee s cont'"
  by (simp add: print_maxFee_def with_print_def split: option.splits sum.splits)

lemma print_apdu_cong:
  "(\<And>out. cont (s\<lparr>G_io_apdu_buffer := out\<rparr>) = cont' (s\<lparr>G_io_apdu_buffer := out\<rparr>)) \<Longrightarrow>
   print_apdu v off n d s cont = print_apdu v off n d s cont'"
  by (simp add: print_apdu_def with_print_def split: option.splits sum.splits)

lemma keyless_finish_transfer:
  "\<not> G_called_from_swap s \<Longrightarrow> finish_transfer (keyless k) w s = finish_transfer k w s"
  by (auto simp: finish_transfer_def Let_def copy_token_name_def set_recipient_address_def keyless
      intro!: print_maxFee_cong)

lemma print_trc20_amount_swap: "print_trc20_amount s = Some (ok, s') \<Longrightarrow> G_called_from_swap s' = G_called_from_swap s"
  by (auto simp: print_trc20_amount_def split: bind_splits prod.splits)

lemma keyless_sign_transfer:
  assumes "\<not> G_called_from_swap s"
  shows "sign_transfer (keyless k) w s = sign_transfer k w s"
  using assms
  by (auto simp: sign_transfer_def Let_def keyless keyless_finish_transfer
      intro!: print_apdu_cong dest!: print_trc20_amount_swap split: option.splits bool.splits)

lemma keyless_sign_switch: "\<not> G_called_from_swap s \<Longrightarrow> sign_switch (keyless k) w s = sign_switch k w s"
  by (simp add: sign_switch_def Let_def keyless_sign_transfer keyless)

lemma set_sender_swap [simp]: "G_called_from_swap (set_sender k s) = G_called_from_swap s"
  by (simp add: set_sender_def Let_def)

lemma keyless_finish_sign: "\<not> G_called_from_swap s \<Longrightarrow> finish_sign (keyless k) s = finish_sign k s"
  by (simp add: finish_sign_def Let_def keyless_sign_switch keyless)

lemma process_contract_swap [simp]:
  "G_called_from_swap (snd (process_contract k b c cb s)) = G_called_from_swap s"
  by (auto simp: process_contract_def Let_def split: option.splits prod.splits)

lemma processTx_swap [simp]: "G_called_from_swap (snd (processTx k b s)) = G_called_from_swap s"
  by (auto simp: processTx_def Let_def split: option.splits prod.splits)

lemma keyless_sign_chunk:
  assumes "\<not> G_called_from_swap s"
  shows "sign_chunk (keyless k) p1 d s = sign_chunk k p1 d s"
proof -
  let ?s1 = "s\<lparr>txContext := (txContext s)\<lparr>tx_sha2 := tx_sha2 (txContext s) @ d\<rparr>\<rparr>"
  obtain st s3 where p: "processTx k d ?s1 = (st, s3)" by fastforce
  have "\<not> G_called_from_swap s3" using processTx_swap [of k d ?s1] p assms by simp
  then show ?thesis
    using assms p by (cases st) (simp_all add: sign_chunk_def Let_def keyless keyless_finish_sign)
qed

lemma sign_token_name_swap: "sign_token_name k p1 d s = Inr s1 \<Longrightarrow> G_called_from_swap s1 = G_called_from_swap s"
  by (auto simp: sign_token_name_def Let_def split: if_splits prod.splits bool.splits)

lemma initTx_swap [simp]: "G_called_from_swap (initTx s) = G_called_from_swap s"
  by (simp add: initTx_def)

lemma keyless_handleSign:
  assumes "\<not> G_called_from_swap s"
  shows "handleSign (keyless k) p1 p2 d s = handleSign k p1 p2 d s"
proof -
  have "sign_chunk (keyless k) p1 [] s1 = sign_chunk k p1 [] s1" if "sign_token_name k p1 d s = Inr s1" for s1
    using sign_token_name_swap [OF that] assms by (simp add: keyless_sign_chunk)
  with assms show ?thesis
    unfolding handleSign_def keyless
    by (auto simp: keyless_sign_chunk split: sum.splits option.splits prod.splits)
qed

lemma keyless_handleGetPublicKey [keyless]: "handleGetPublicKey (keyless k) p1 p2 d s = handleGetPublicKey k p1 p2 d s"
  by (unfold handleGetPublicKey_def keyless) (rule refl)

lemma keyless_handleSignByHash [keyless]: "handleSignByHash (keyless k) p1 p2 d s = handleSignByHash k p1 p2 d s"
  by (unfold handleSignByHash_def keyless) (rule refl)

lemma keyless_handleGetAppConfiguration [keyless]: "handleGetAppConfiguration (keyless k) s = handleGetAppConfiguration k s"
  by (unfold handleGetAppConfiguration_def keyless) (rule refl)

lemma keyless_handleECDHSecret [keyless]: "handleECDHSecret (keyless k) p1 p2 d s = handleECDHSecret k p1 p2 d s"
  by (unfold handleECDHSecret_def keyless) (rule refl)

lemma keyless_personal_chunk [keyless]: "personal_chunk (keyless k) p2 d s = personal_chunk k p2 d s"
  by (unfold personal_chunk_def keyless) (rule refl)

lemma keyless_handleSignPersonalMessage [keyless]: "handleSignPersonalMessage (keyless k) p1 p2 d s = handleSignPersonalMessage k p1 p2 d s"
  by (unfold handleSignPersonalMessage_def keyless) (rule refl)

lemma keyless_handleSignTIP712Message [keyless]: "handleSignTIP712Message (keyless k) p1 p2 d s = handleSignTIP712Message k p1 p2 d s"
  by (unfold handleSignTIP712Message_def keyless) (rule refl)

lemma keyless_apdu_dispatcher:
  "\<not> G_called_from_swap s \<Longrightarrow> apdu_dispatcher (keyless k) c s = apdu_dispatcher k c s"
  by (simp add: apdu_dispatcher_def Let_def keyless_handleSign keyless)

lemma keyless_app_round:
  "\<not> G_called_from_swap s \<Longrightarrow> app_round (keyless k) received cmd s = app_round k received cmd s"
  by (simp add: app_round_def Let_def keyless_apdu_dispatcher split: option.splits)

lemma keyless_user_choice:
  "the_screen s \<noteq> TransactionScreen \<or> \<not> accept \<Longrightarrow> user_choice (keyless k) accept s = user_choice k accept s"
  by (auto simp: user_choice_def reviewChoice_def split: screen.splits)

lemma keyless_address_book [keyless]:
  "ab_sizes_of (keyless k) = ab_sizes_of k" "derive_tron_address (keyless k) = derive_tron_address k"
  by (auto simp: keyless_def derive_tron_address_def fun_eq_iff getAddressFromPublicKey_def)

text \<open>C1: No step of the application uses a private key unless the user accepts the last screen of a review
  or a swap is being signed: every other step - any command, any refusal, any warning screen, any change
  of the settings or of the contacts - is also a step of the application whose SDK refuses every operation on a
  private key, with the same replies.\<close>

theorem private_key_needs_approval:
  assumes "app_step k s e s'" "\<not> G_called_from_swap s" "\<not> (e = Answer True \<and> the_screen s = TransactionScreen)"
  shows "app_step (keyless k) s e s'"
  using assms
proof (cases rule: app_step.cases)
  case (command received cmd)
  then show ?thesis using assms(2) by (auto intro!: app_step.command simp: keyless_app_round)
next
  case (answer accept)
  then have "user_choice (keyless k) accept s = (Returned, s')"
    using keyless_user_choice [of s accept k] assms(3) by auto
  with answer show ?thesis by (auto intro: app_step.answer)
next
  case (provide_identity i mem)
  then show ?thesis using app_step.provide_identity [of s i "keyless k" mem] by (simp add: keyless)
next
  case (provide_account mem a)
  then show ?thesis using app_step.provide_account [of s "keyless k" mem a] by (simp add: keyless)
next
  case (edit_applied e)
  moreover have "apply_edit (keyless k) e = apply_edit k e" by (cases e) (simp_all add: apply_edit_def fun_eq_iff keyless)
  ultimately show ?thesis using app_step.edit_applied [of s e "keyless k"] by simp
qed (auto intro: app_step.status_over app_step.switch)

end
