(* ===== verification/Sign_Walk.thy ===== *)
theory Sign_Walk
  imports Signing_Policy
begin

text \<open>
  The structure of the final switch of \<^verbatim>\<open>INS_SIGN\<close>, followed once: whatever holds of its ways to end - a refusal,
  a review, a thrown status word - holds of the whole switch.
\<close>

section \<open>What the switch leaves alone\<close>

text \<open>The part of the state that no case of the switch changes outside a swap.\<close>

definition core where
  "core s = (N_settings s, transactionContext s, publicKeyContext s, messageSigningContext712 s,
     personal_msg_ctx s, msg s, G_called_from_swap s, G_swap_response_ready s, G_swap_validated s, ab_contacts s)"

definition quiet :: "app_state \<Rightarrow> app_state \<Rightarrow> bool" where
  "quiet s s' \<longleftrightarrow> core s' = core s \<and> outputs s' = outputs s \<and> the_screen s' = the_screen s \<and> txContext s' = txContext s"

lemma quiet_refl [simp]: "quiet s s"
  by (simp add: quiet_def)

lemma quiet_trans: "quiet s s1 \<Longrightarrow> quiet s1 s2 \<Longrightarrow> quiet s s2"
  by (simp add: quiet_def)

lemma quiet_updates [simp]:
  "quiet s (s1\<lparr>G_io_apdu_buffer := a\<rparr>) = quiet s s1" "quiet s (s1\<lparr>strings := a\<rparr>) = quiet s s1"
  "quiet s (s1\<lparr>toAddress := a\<rparr>) = quiet s s1" "quiet s (s1\<lparr>fromAddress := a\<rparr>) = quiet s s1"
  "quiet s (s1\<lparr>fullContract := a\<rparr>) = quiet s s1" "quiet s (s1\<lparr>fullHash := a\<rparr>) = quiet s s1"
  "quiet s (s1\<lparr>TRC20Action := a\<rparr>) = quiet s s1" "quiet s (s1\<lparr>TRC20ActionSendAllow := a\<rparr>) = quiet s s1"
  "quiet s (s1\<lparr>customContractField := f\<rparr>) = quiet s s1" "quiet s (s1\<lparr>txContent := c\<rparr>) = quiet s s1"
  "quiet s (s1\<lparr>permissionEntries := p\<rparr>) = quiet s s1" "quiet s (s1\<lparr>votes_count := n\<rparr>) = quiet s s1"
  "quiet s (s1\<lparr>g_recipient_contact := x\<rparr>) = quiet s s1" "quiet s (s1\<lparr>g_sender_contact := x\<rparr>) = quiet s s1"
  "quiet s (s1\<lparr>g_recipient_service := l\<rparr>) = quiet s s1" "quiet s (s1\<lparr>txInfos := i\<rparr>) = quiet s s1"
  by (simp_all add: quiet_def core_def)

lemma quiet_helpers [simp]:
  "quiet s (copy_token_name s1) = quiet s s1" "quiet s (copy_resource s1) = quiet s s1"
  "quiet s (set_recipient_address k a s1) = quiet s s1" "quiet s (set_receiver k s1) = quiet s s1"
  "quiet s (set_sender k s1) = quiet s s1"
  by (simp_all add: copy_token_name_def copy_resource_def set_recipient_address_def set_receiver_def set_sender_def Let_def)

text \<open>The reviews whose acceptance signs \<^verbatim>\<open>transactionContext.hash\<close> and closes the session.\<close>

definition tx_review :: "ui_approval_state_t \<Rightarrow> bool" where
  "tx_review st \<longleftrightarrow> st \<notin> {APPROVAL_VERIFY_ADDRESS, APPROVAL_SIGN_PERSONAL_MESSAGE, APPROVAL_SHARED_ECDH_SECRET,
     APPROVAL_SIGN_TIP72_TRANSACTION}"

lemma core_format_hash [simp]: "quiet s (format_hash k h off s1) = quiet s s1"
  by (simp add: format_hash_def)

lemma ti_state_cases [simp]:
  "ti_state (tx_infos_1 st s i) = ti_state i" "ti_state (tx_infos_2 st i) = ti_state i"
  by (cases st; simp add: tx_infos_1_def tx_infos_2_def)+

lemma prepareTxInfos_state: "prepareTxInfos k st w s = (Inr True, s') \<Longrightarrow> ti_state (txInfos s') = st"
  by (auto simp: prepareTxInfos_def Let_def insert_known_service_label_def apply_address_book_aliases_def
      split: if_splits prod.splits bool.splits)

lemma prepareTxInfos_quiet: "prepareTxInfos k st w s = (r, s') \<Longrightarrow> quiet s s'"
  by (auto simp: prepareTxInfos_def Let_def insert_known_service_label_def apply_address_book_aliases_def
      split: if_splits prod.splits bool.splits)

lemma tx_review_simps [simp]:
  "tx_review APPROVAL_TRANSFER" "tx_review APPROVAL_SIMPLE_TRANSACTION" "tx_review APPROVAL_PERMISSION_UPDATE"
  "tx_review APPROVAL_EXCHANGE_CREATE" "tx_review APPROVAL_EXCHANGE_TRANSACTION"
  "tx_review APPROVAL_EXCHANGE_WITHDRAW_INJECT" "tx_review APPROVAL_WITNESSVOTE_TRANSACTION"
  "tx_review APPROVAL_FREEZEASSET_TRANSACTION" "tx_review APPROVAL_UNFREEZEASSET_TRANSACTION"
  "tx_review APPROVAL_WITHDRAWBALANCE_TRANSACTION" "tx_review APPROVAL_CUSTOM_CONTRACT"
  "tx_review APPROVAL_FREEZEASSETV2_TRANSACTION" "tx_review APPROVAL_UNFREEZEASSETV2_TRANSACTION"
  "tx_review APPROVAL_DELEGATE_RESOURCE_TRANSACTION" "tx_review APPROVAL_UNDELEGATE_RESOURCE_TRANSACTION"
  "tx_review APPROVAL_WITHDRAWEXPIREUNFREEZE_TRANSACTION"
  by (simp_all add: tx_review_def)

lemma sw_not_ok [simp]:
  "E_INCORRECT_DATA \<noteq> E_OK" "E_INCORRECT_LENGTH \<noteq> E_OK" "E_SWAP_CHECKING_FAIL \<noteq> E_OK"
  "E_MISSING_SETTING_CUSTOM_CONTRACT \<noteq> E_OK" "E_MISSING_SETTING_SIGN_BY_HASH \<noteq> E_OK"
  "E_MISSING_SETTING_DATA_ALLOWED \<noteq> E_OK" "E_INCORRECT_P1_P2 \<noteq> E_OK" "E_INCORRECT_BIP32_PATH \<noteq> E_OK"
  by (simp_all add: status_words)

lemma print_trc20_amount_quiet: "print_trc20_amount s = Some (ok, s') \<Longrightarrow> quiet s s'"
  by (auto simp: print_trc20_amount_def split: bind_splits prod.splits)

lemma quiet_from [simp]:
  "quiet (s\<lparr>TRC20Action := a\<rparr>) s' = quiet s s'" "quiet (s\<lparr>TRC20ActionSendAllow := a\<rparr>) s' = quiet s s'"
  by (simp_all add: quiet_def core_def)

lemma quiet_swap: "quiet s s' \<Longrightarrow> G_called_from_swap s' = G_called_from_swap s"
  by (simp add: quiet_def core_def)

lemma quiet_setting: "quiet s s' \<Longrightarrow> HAS_SETTING s' i = HAS_SETTING s i"
  by (simp add: quiet_def core_def HAS_SETTING_def)

text \<open>The settings a review depends on.\<close>

definition allowed :: "ui_approval_state_t \<Rightarrow> app_state \<Rightarrow> bool" where
  "allowed st s \<longleftrightarrow> (st = APPROVAL_CUSTOM_CONTRACT \<longrightarrow> HAS_SETTING s S_CUSTOM_CONTRACT) \<and>
     (st = APPROVAL_SIMPLE_TRANSACTION \<longrightarrow> HAS_SETTING s S_SIGN_BY_HASH)"

lemma allowed_simps [simp]:
  "allowed APPROVAL_CUSTOM_CONTRACT s = HAS_SETTING s S_CUSTOM_CONTRACT"
  "allowed APPROVAL_SIMPLE_TRANSACTION s = HAS_SETTING s S_SIGN_BY_HASH"
  "st \<noteq> APPROVAL_CUSTOM_CONTRACT \<Longrightarrow> st \<noteq> APPROVAL_SIMPLE_TRANSACTION \<Longrightarrow> allowed st s"
  by (simp_all add: allowed_def)

text \<open>\<^verbatim>\<open>transactionContext.hash\<close> when the transaction is complete.\<close>

abbreviation hashed :: "sdk \<Rightarrow> app_state \<Rightarrow> app_state" where
  "hashed k s \<equiv> s\<lparr>transactionContext := (transactionContext s)\<lparr>tr_hash := cx_sha256 k (tx_sha2 (txContext s))\<rparr>\<rparr>"

section \<open>Ends of the switch\<close>

text \<open>
  A predicate on results, relative to the state \<open>s\<close> at the start and the data warning \<open>w\<close>, that holds of every way
  the switch ends outside a swap.
\<close>

locale sign_walk =
  fixes k :: sdk
    and good :: "bool \<Rightarrow> app_state \<Rightarrow> result \<Rightarrow> bool"
  assumes good_refuse: "quiet s s1 \<Longrightarrow> sw \<noteq> E_OK \<Longrightarrow> good w s (refuse sw s1)"
    and good_display: "quiet s s1 \<Longrightarrow> tx_review st \<Longrightarrow> allowed st s \<Longrightarrow> good w s (ux_flow_display k st w s1)"
    and good_stuck: "quiet s s1 \<Longrightarrow> good w s (Stuck, s1)"
    and good_thrown: "quiet s s1 \<Longrightarrow> good w s (Thrown e, s1)"
begin

lemma good_with_print: "quiet s s1 \<Longrightarrow> (\<And>out. good w s (cont out)) \<Longrightarrow> good w s (with_print p s1 cont)"
  by (auto simp: with_print_def good_stuck good_thrown split: option.splits sum.splits)

lemma good_print_apdu:
  "quiet s s1 \<Longrightarrow> (\<And>out. good w s (cont (s1\<lparr>G_io_apdu_buffer := out\<rparr>))) \<Longrightarrow> good w s (print_apdu v off n d s1 cont)"
  by (simp add: print_apdu_def good_with_print)

lemma good_print_toAddress:
  "quiet s s1 \<Longrightarrow> (\<And>out. good w s (cont (s1\<lparr>toAddress := out\<rparr>))) \<Longrightarrow> good w s (print_toAddress v d s1 cont)"
  by (simp add: print_toAddress_def good_with_print)

lemma good_print_maxFee:
  "quiet s s1 \<Longrightarrow> (\<And>out. good w s (cont (s1\<lparr>strings := out\<rparr>))) \<Longrightarrow> good w s (print_maxFee s1 cont)"
  by (simp add: print_maxFee_def good_with_print)

lemma good_fillPermissionEntry:
  "quiet s s1 \<Longrightarrow> (\<And>p. good w s (cont (s1\<lparr>permissionEntries := p\<rparr>))) \<Longrightarrow>
   good w s (fillPermissionEntry k i p s1 cont)"
  by (simp add: fillPermissionEntry_def Let_def good_thrown split: prod.splits bool.splits)

lemmas good_intros = good_refuse good_display good_stuck good_thrown good_print_apdu
  good_print_toAddress good_print_maxFee good_fillPermissionEntry

lemma good_vote_loop:
  "quiet s s1 \<Longrightarrow> (\<And>t s2. quiet s s2 \<Longrightarrow> good w s (cont t s2)) \<Longrightarrow> good w s (vote_loop k votes i t s1 cont)"
  by (induction votes arbitrary: i t s1) (auto simp: Let_def fillVoteAmountSlot_def intro!: good_intros)

lemma good_fill_actives:
  "quiet s s1 \<Longrightarrow> (\<And>s2. quiet s s2 \<Longrightarrow> good w s (cont s2)) \<Longrightarrow> good w s (fill_actives k perms i s1 cont)"
  by (induction perms arbitrary: i s1) (auto intro!: good_intros)

lemma good_custom: "quiet s s1 \<Longrightarrow> good w s (sign_custom_contract k w s1)"
  by (auto simp: sign_custom_contract_def Let_def quiet_setting intro!: good_intros)

lemma good_finish_transfer:
  "quiet s s1 \<Longrightarrow> \<not> G_called_from_swap s1 \<Longrightarrow> good w s (finish_transfer k w s1)"
  by (auto simp: finish_transfer_def Let_def copy_token_name_def set_recipient_address_def intro!: good_intros)

lemma good_trc20:
  assumes "quiet s s1" "quiet s s2" "\<not> G_called_from_swap s"
  shows "good w s (case print_trc20_amount s1 of None \<Rightarrow> (Stuck, s2)
      | Some (False, s3) \<Rightarrow> refuse E_INCORRECT_LENGTH s3 | Some (True, s3) \<Rightarrow> finish_transfer k w s3)"
proof (cases "print_trc20_amount s1")
  case (Some r)
  then obtain ok s3 where r: "print_trc20_amount s1 = Some (ok, s3)" by (cases r) auto
  then have "quiet s s3" using print_trc20_amount_quiet assms(1) quiet_trans by blast
  with r assms(3) show ?thesis by (cases ok) (auto intro: good_intros good_finish_transfer simp: quiet_swap)
qed (use assms in \<open>auto intro: good_intros\<close>)

lemma good_sign_transfer:
  assumes "quiet s s1" "\<not> G_called_from_swap s"
  shows "good w s (sign_transfer k w s1)"
  using assms quiet_swap [OF assms(1)] unfolding sign_transfer_def Let_def
  by (auto intro!: good_intros good_custom good_finish_transfer good_trc20)

lemma good_sign_switch:
  assumes q: "quiet s s1" and "\<not> G_called_from_swap s"
  shows "good w s (sign_switch k w s1)"
proof -
  have "good w s (sign_exchange_create k w s1)" "good w s (sign_exchange_transaction k w s1)"
    "good w s (sign_exchange_inject_withdraw k w s1)" "good w s (sign_freeze k w s1)"
    "good w s (sign_unfreeze k w s1)" "good w s (sign_freeze_v2 k w s1)"
    "good w s (sign_unfreeze_v2 k w s1)" "good w s (sign_delegate k w s1)"
    "good w s (sign_undelegate k w s1)" "good w s (sign_default k w s1)"
    using q by (auto simp: sign_exchange_create_def sign_exchange_transaction_def sign_exchange_inject_withdraw_def
        sign_freeze_def sign_unfreeze_def sign_freeze_v2_def sign_unfreeze_v2_def sign_delegate_def
        sign_undelegate_def sign_default_def Let_def quiet_setting intro!: good_intros split: prod.splits bool.splits)
  moreover have "tx_review st \<Longrightarrow> allowed st s \<Longrightarrow> good w s (sign_withdraw k st w s1)" for st
    using q by (auto simp: sign_withdraw_def intro!: good_intros)
  moreover have "good w s (sign_votes k w s1)"
    using q by (auto simp: sign_votes_def Let_def intro!: good_intros good_vote_loop)
  moreover have "good w s (sign_permission_update k w s1)"
    using q by (auto simp: sign_permission_update_def Let_def intro!: good_intros good_fill_actives)
  ultimately show ?thesis
    using good_sign_transfer [OF assms] q by (simp add: sign_switch_def Let_def good_refuse)
qed

lemma good_finish_sign:
  assumes "\<not> G_called_from_swap s"
  shows "good (tc_dataBytes (txContent s) > 0) (hashed k s) (finish_sign k s)"
proof -
  have "good w (hashed k s) (sign_switch k w (set_sender k (hashed k s)))" for w
    using assms by (intro good_sign_switch) simp_all
  then show ?thesis
    using assms by (auto simp: finish_sign_def Let_def intro!: good_intros)
qed

end

end
