(* ===== verification/Sample.thy ===== *)
theory Sample
  imports App_Main
begin

text \<open>
  A concrete instance of the SDK, on which the theorems with hypotheses about the SDK are applied: the
  digests are padded prefixes, the base58 text of every address is the same 34 characters, hexadecimal
  text is computed, every path has a key.
\<close>

definition hex_text :: "bytes \<Rightarrow> bytes" where
  "hex_text m = concat (map (\<lambda>b. [hexdigit (unat b div 16), hexdigit (unat b mod 16)]) m)"

definition sample_sdk :: sdk where
  "sample_sdk =
     \<lparr>cx_sha256 = (\<lambda>m. take 32 (m @ replicate 32 0)),
      cx_keccak256 = (\<lambda>m. take 32 (m @ replicate 32 0)),
      cx_keccak_call = (\<lambda>_. True),
      base58_encode = (\<lambda>m n. if n < 34 then None else Some (replicate 34 0x54)),
      format_hex = (\<lambda>m n. if 2 * length m < n then Some (hex_text m) else None),
      cx_ecdsa_verify = (\<lambda>_ _ _. True),
      bip32_derive_get_pubkey = (\<lambda>_. Some (replicate 65 4, replicate 32 0)),
      bip32_derive_ecdsa_sign_rs = (\<lambda>_ h. Some (take 32 (h @ replicate 32 0), replicate 32 1, False)),
      ecdsa_sign_der = (\<lambda>_ _. Some ([0x30, 6, 2, 1, 1, 2, 1, 1], False)),
      cx_ecdh = (\<lambda>_ _. Some (replicate 65 4)),
      swap_parse_config = (\<lambda>_ _. None), max_printable_amount_size = 50, enum_size = 1,
      app_version = [0, 7, 0], ab_sizes_of = \<lparr>CONTACT_NAME_LENGTH = 33, SCOPE_LENGTH = 33\<rparr>\<rparr>"

lemma length_hex_text [simp]: "length (hex_text m) = 2 * length m"
  by (induction m) (simp_all add: hex_text_def)

lemma hexdigit_nonzero: "n < 16 \<Longrightarrow> hexdigit n \<noteq> 0"
proof -
  assume "n < 16"
  then have "HEXDIGITS ! n \<in> set HEXDIGITS" by (simp add: HEXDIGITS_def)
  moreover have "0 \<notin> set HEXDIGITS" by (simp add: HEXDIGITS_def chars_def)
  ultimately show ?thesis by (auto simp: hexdigit_def)
qed

lemma hex_text_nonzero: "0 \<notin> set (hex_text m)"
proof (induction m)
  case (Cons b m)
  have "unat b < 256" using unsigned_less [of b] by simp
  then have "unat b div 16 < 16" by (simp add: less_mult_imp_div_less)
  then have "hexdigit (unat b div 16) \<noteq> 0" "hexdigit (unat b mod 16) \<noteq> 0"
    by (simp_all add: hexdigit_nonzero)
  with Cons show ?case by (simp add: hex_text_def)
qed (simp add: hex_text_def)

lemma sample_sdk_ok: "sdk_ok sample_sdk"
proof -
  have "\<exists>r s. der_int r \<and> der_int s \<and> [0x30, 6, 2, 1, 1, 2, 1, 1] = der_signature r s"
    by (intro exI [of _ "[1]"]) (simp add: der_int_def der_signature_def)
  then show ?thesis by (auto simp: sdk_ok_def sample_sdk_def hex_text_nonzero split: if_splits)
qed

text \<open>The application after start-up with every setting on.\<close>

definition sample_state :: app_state where
  "sample_state = app_init (zero_state 260 0x87)"

text \<open>The path \<open>44'/195'/0'\<close> as it is sent.\<close>

definition sample_path :: bytes where
  "sample_path = [3, 0x80, 0, 0, 0x2C, 0x80, 0, 0, 0xC3, 0x80, 0, 0, 0]"

end
