(* ===== verification/Session.thy ===== *)
theory Session
  imports Sign_Walk Sample
begin

text \<open>
  How \<^verbatim>\<open>INS_SIGN\<close> ends: with a refusal that closes the session, with a thrown status word, or with a review;
  and that the hash under review, and later signed, is the hash of all bytes of the session.
\<close>

section \<open>Outcomes of the final switch\<close>

definition sign_outcome :: "app_state \<Rightarrow> result \<Rightarrow> bool" where
  "sign_outcome s r \<longleftrightarrow>
     (case r of (res, s') \<Rightarrow>
        core s' = core s \<and>
        (res = Returned \<and> (\<exists>sw. outputs s' = outputs s @ [SendSW sw] \<and> sw \<noteq> E_OK) \<and> \<not> tx_initialized (txContext s') \<and>
           the_screen s' \<in> {the_screen s, IdleScreen} \<or>
         res = Returned \<and> outputs s' = outputs s \<and> txContext s' = txContext s \<and>
           the_screen s' \<in> {DataWarningScreen, CustomWarningScreen, TransactionScreen} \<and> tx_review (ti_state (txInfos s')) \<or>
         (\<exists>e. res = Thrown e) \<and> outputs s' = outputs s \<and> txContext s' = txContext s \<and> the_screen s' = the_screen s \<or>
         res = Stuck))"

lemma outcome_refuse: "quiet s s1 \<Longrightarrow> sw \<noteq> E_OK \<Longrightarrow> sign_outcome s (refuse sw s1)"
  by (simp add: sign_outcome_def refuse_def ret_sw_def io_send_sw_def terminate_signing_session_def quiet_def core_def)

lemma outcome_display:
  assumes "quiet s s1" "tx_review st"
  shows "sign_outcome s (ux_flow_display k st w s1)"
proof -
  obtain r s2 where p: "prepareTxInfos k st w s1 = (r, s2)" by fastforce
  with assms(1) have "quiet s s2" using prepareTxInfos_quiet quiet_trans by blast
  then show ?thesis
    using assms(2) p prepareTxInfos_state [of k st w s1 s2]
    by (cases r)
      (auto simp: ux_flow_display_def tx_review_def sign_outcome_def reviewStart_def ui_idle_def io_send_sw_def
        terminate_signing_session_def quiet_def core_def status_words split: bool.splits)
qed

lemma outcome_stuck: "quiet s s1 \<Longrightarrow> sign_outcome s (Stuck, s1)"
  by (simp add: sign_outcome_def quiet_def)

lemma outcome_thrown: "quiet s s1 \<Longrightarrow> sign_outcome s (Thrown e, s1)"
  by (simp add: sign_outcome_def quiet_def)

interpretation outcome: sign_walk k "\<lambda>_. sign_outcome" for k
  by unfold_locales (rule outcome_refuse outcome_display outcome_stuck outcome_thrown; assumption)+

lemmas outcome_finish_sign = outcome.good_finish_sign

section \<open>The hash under review\<close>

lemma process_contract_frame: "\<exists>c m. snd (process_contract k b ct cb s) = s\<lparr>txContent := c, msg := m\<rparr>"
proof -
  have "\<exists>c' m. s1 = s\<lparr>txContent := c', msg := m\<rparr>" if "s1 = s \<or> (\<exists>c. s1 = s\<lparr>txContent := c\<rparr>)" for s1
    using that by (cases s) auto
  then show ?thesis
    by (auto simp: process_contract_def Let_def split: option.splits prod.splits)
qed

lemma processTx_frame: "\<exists>c m. snd (processTx k b s) = s\<lparr>txContent := c, msg := m\<rparr>"
proof -
  have 1: "\<exists>c' m. s1 = s\<lparr>txContent := c', msg := m\<rparr>"
    if "s1 = s\<lparr>msg := []\<rparr> \<or> (\<exists>c. s1 = s\<lparr>msg := [], txContent := c\<rparr>) \<or> s1 = s" for s1
    using that by (cases s) auto
  have 2: "\<exists>c' m. snd (process_contract k b ct cb (s\<lparr>msg := [], txContent := c\<rparr>)) = s\<lparr>txContent := c', msg := m\<rparr>" for ct cb c
    using process_contract_frame [of k b ct cb "s\<lparr>msg := [], txContent := c\<rparr>"] by auto
  show ?thesis
    by (auto simp: processTx_def Let_def intro!: 1 2 split: option.splits prod.splits)
qed

text \<open>
  A chunk leaves the application in one of three situations: the session continues with the chunk hashed, a
  review is shown for the hash of everything received, or the chunk is refused.
\<close>

lemma sign_chunk_continues:
  assumes "sign_chunk k p1 d s = (Returned, s')" "\<not> G_called_from_swap s"
    "outputs s' = outputs s @ [SendSW E_OK]"
  shows "tx_initialized (txContext s') \<and> tx_sha2 (txContext s') = tx_sha2 (txContext s) @ d \<and>
    transactionContext s' = transactionContext s \<and> \<not> G_called_from_swap s' \<and> the_screen s' = the_screen s"
proof -
  let ?s1 = "s\<lparr>txContext := (txContext s)\<lparr>tx_sha2 := tx_sha2 (txContext s) @ d\<rparr>\<rparr>"
  have i: "tx_initialized (txContext s)"
    using assms by (auto simp: sign_chunk_def ret_sw_def io_send_sw_def split: if_splits)
  obtain st c m where p: "processTx k d ?s1 = (st, ?s1\<lparr>txContent := c, msg := m\<rparr>)"
    using processTx_frame [of k d ?s1] by (cases "processTx k d ?s1") auto
  let ?s3 = "?s1\<lparr>txContent := c, msg := m\<rparr>"
  have f: "finish_sign k ?s3 \<noteq> (Returned, s')"
    using outcome_finish_sign [of ?s3 k] assms(2,3) by (auto simp: sign_outcome_def)
  show ?thesis
    using assms i p f by (cases st) (auto simp: sign_chunk_def Let_def ret_sw_def io_send_sw_def split: if_splits)
qed

lemma sign_chunk_review:
  assumes "sign_chunk k p1 d s = (Returned, s')" "\<not> G_called_from_swap s" "outputs s' = outputs s"
  shows "tr_hash (transactionContext s') = cx_sha256 k (tx_sha2 (txContext s) @ d) \<and>
    tr_bip32_path (transactionContext s') = tr_bip32_path (transactionContext s) \<and>
    tr_signature (transactionContext s') = tr_signature (transactionContext s) \<and>
    tx_review (ti_state (txInfos s')) \<and>
    the_screen s' \<in> {DataWarningScreen, CustomWarningScreen, TransactionScreen}"
proof -
  let ?s1 = "s\<lparr>txContext := (txContext s)\<lparr>tx_sha2 := tx_sha2 (txContext s) @ d\<rparr>\<rparr>"
  have i: "tx_initialized (txContext s)"
    using assms by (auto simp: sign_chunk_def ret_sw_def io_send_sw_def split: if_splits)
  obtain st c m where p: "processTx k d ?s1 = (st, ?s1\<lparr>txContent := c, msg := m\<rparr>)"
    using processTx_frame [of k d ?s1] by (cases "processTx k d ?s1") auto
  let ?s3 = "?s1\<lparr>txContent := c, msg := m\<rparr>"
  have "finish_sign k ?s3 = (Returned, s')"
    using assms i p
    by (cases st) (auto simp: sign_chunk_def Let_def ret_sw_def io_send_sw_def initTx_def split: if_splits)
  with outcome_finish_sign [of ?s3 k] assms(2,3) show ?thesis
    by (auto simp: sign_outcome_def core_def)
qed

section \<open>Signing sessions\<close>

text \<open>
  The bytes of a session: what the accepted \<^verbatim>\<open>INS_SIGN\<close> commands since the first one carried, except the
  descriptions of tokens. Only \<^verbatim>\<open>INS_SIGN\<close> commands occur in between.
\<close>

inductive signing_session :: "sdk \<Rightarrow> bip32_path_t \<Rightarrow> bytes \<Rightarrow> app_state \<Rightarrow> bool" for k where
  first:
    "handleSign k P1_FIRST 0 d s = (Returned, s') \<Longrightarrow> outputs s' = outputs s @ [SendSW E_OK] \<Longrightarrow>
     \<not> G_called_from_swap s \<Longrightarrow> wf_path (tr_bip32_path (transactionContext s)) \<Longrightarrow>
     read_bip32_path d (tr_bip32_path (transactionContext s)) = (Some n, path) \<Longrightarrow>
     signing_session k path (drop n d) s'"
| more:
    "signing_session k path bs s \<Longrightarrow> handleSign k P1_MORE 0 d s = (Returned, s') \<Longrightarrow>
     outputs s' = outputs s @ [SendSW E_OK] \<Longrightarrow> signing_session k path (bs @ d) s'"
| token:
    "signing_session k path bs s \<Longrightarrow> handleSign k p1 0 d s = (Returned, s') \<Longrightarrow> p1 AND 0xF0 = P1_TRC10_NAME \<Longrightarrow>
     outputs s' = outputs s @ [SendSW E_OK] \<Longrightarrow> signing_session k path bs s'"

definition session_inv :: "bip32_path_t \<Rightarrow> bytes \<Rightarrow> app_state \<Rightarrow> bool" where
  "session_inv path bs s \<longleftrightarrow> tx_initialized (txContext s) \<and> tx_sha2 (txContext s) = bs \<and>
     tr_bip32_path (transactionContext s) = path \<and> tron_path path \<and> \<not> G_called_from_swap s"

lemma sign_token_name_frame:
  "sign_token_name k p1 d s = Inr s1 \<Longrightarrow> \<exists>c. s1 = s\<lparr>txContent := c\<rparr>"
  "sign_token_name k p1 d s = Inl (Returned, s1) \<Longrightarrow> \<exists>c sw. s1 = io_send_sw sw (s\<lparr>txContent := c\<rparr>)"
proof -
  have *: "\<exists>c sw. io_send_sw w s = io_send_sw sw (s\<lparr>txContent := c\<rparr>)" for w
    by (cases s) (auto intro: exI [of _ w])
  show "sign_token_name k p1 d s = Inr s1 \<Longrightarrow> \<exists>c. s1 = s\<lparr>txContent := c\<rparr>"
    "sign_token_name k p1 d s = Inl (Returned, s1) \<Longrightarrow> \<exists>c sw. s1 = io_send_sw sw (s\<lparr>txContent := c\<rparr>)"
    by (auto simp: sign_token_name_def ret_sw_def Let_def * split: if_splits prod.splits bool.splits)
qed

lemma handleSign_token:
  "p1 AND 0xF0 = P1_TRC10_NAME \<Longrightarrow>
   handleSign k p1 0 d s = (case sign_token_name k p1 d s of Inl r \<Rightarrow> r | Inr s1 \<Rightarrow> sign_chunk k p1 [] s1)"
  by (auto simp: handleSign_def)

lemma signing_session_inv: "signing_session k path bs s \<Longrightarrow> session_inv path bs s"
proof (induction rule: signing_session.induct)
  case (first d s s' n path)
  let ?s1 = "(initTx (set_path path s))\<lparr>customContractField := 0\<rparr>"
  have "sign_chunk k P1_FIRST (drop n d) ?s1 = (Returned, s')" using first by (simp add: handleSign_def)
  moreover have "outputs ?s1 = outputs s" "tx_sha2 (txContext ?s1) = []" "\<not> G_called_from_swap ?s1"
    using first by (simp_all add: initTx_def)
  ultimately have "tx_initialized (txContext s') \<and> tx_sha2 (txContext s') = drop n d \<and>
      transactionContext s' = transactionContext ?s1 \<and> \<not> G_called_from_swap s'"
    using sign_chunk_continues [of k P1_FIRST "drop n d" ?s1 s'] first(2) by simp
  then show ?case
    using read_bip32_path_tron first by (auto simp: session_inv_def initTx_def)
next
  case (more path bs s d s')
  then have "sign_chunk k P1_MORE d s = (Returned, s')" by (simp add: handleSign_def)
  with more sign_chunk_continues [of k P1_MORE d s s'] show ?case by (simp add: session_inv_def)
next
  case (token path bs s p1 d s')
  consider (stop) "sign_token_name k p1 d s = Inl (Returned, s')"
    | (go) s1 where "sign_token_name k p1 d s = Inr s1" "sign_chunk k p1 [] s1 = (Returned, s')"
    using token(2,3) by (auto simp: handleSign_token split: sum.splits)
  then show ?case
  proof cases
    case stop
    then show ?thesis using token sign_token_name_frame(2) by (fastforce simp: session_inv_def io_send_sw_def)
  next
    case go
    then obtain c where "s1 = s\<lparr>txContent := c\<rparr>" using sign_token_name_frame(1) by blast
    with go token sign_chunk_continues [of k p1 "[]" s1 s'] show ?thesis by (simp add: session_inv_def)
  qed
qed

text \<open>
  A transaction under review: its last chunk arrived, possibly as a token description or as the only chunk,
  and the user accepted the warnings so far. The third argument is all bytes of the transaction.
\<close>

inductive under_review :: "sdk \<Rightarrow> bip32_path_t \<Rightarrow> bytes \<Rightarrow> app_state \<Rightarrow> bool" for k where
  single_chunk:
    "handleSign k P1_SIGN 0 d s = (Returned, s') \<Longrightarrow> outputs s' = outputs s \<Longrightarrow>
     \<not> G_called_from_swap s \<Longrightarrow> wf_path (tr_bip32_path (transactionContext s)) \<Longrightarrow>
     read_bip32_path d (tr_bip32_path (transactionContext s)) = (Some n, path) \<Longrightarrow>
     under_review k path (drop n d) s'"
| last_chunk:
    "signing_session k path bs s \<Longrightarrow> handleSign k p1 0 d s = (Returned, s') \<Longrightarrow> p1 = P1_MORE \<or> p1 = P1_LAST \<Longrightarrow>
     outputs s' = outputs s \<Longrightarrow> under_review k path (bs @ d) s'"
| last_token:
    "signing_session k path bs s \<Longrightarrow> handleSign k p1 0 d s = (Returned, s') \<Longrightarrow> p1 AND 0xF0 = P1_TRC10_NAME \<Longrightarrow>
     outputs s' = outputs s \<Longrightarrow> under_review k path bs s'"
| warning_accepted:
    "under_review k path bs s \<Longrightarrow> the_screen s \<noteq> TransactionScreen \<Longrightarrow>
     user_choice k True s = (Returned, s') \<Longrightarrow> under_review k path bs s'"

definition review_inv :: "sdk \<Rightarrow> bip32_path_t \<Rightarrow> bytes \<Rightarrow> app_state \<Rightarrow> bool" where
  "review_inv k path bs s \<longleftrightarrow>
     tr_hash (transactionContext s) = cx_sha256 k bs \<and> tr_bip32_path (transactionContext s) = path \<and>
     tron_path path \<and> tx_review (ti_state (txInfos s)) \<and>
     the_screen s \<in> {DataWarningScreen, CustomWarningScreen, TransactionScreen}"

lemma chunk_review_inv:
  assumes "sign_chunk k p1 d s = (Returned, s')" "\<not> G_called_from_swap s" "outputs s' = outputs s"
    "tron_path (tr_bip32_path (transactionContext s))"
  shows "review_inv k (tr_bip32_path (transactionContext s)) (tx_sha2 (txContext s) @ d) s'"
  using sign_chunk_review [OF assms(1-3)] assms(4) by (simp add: review_inv_def)

lemma under_review_inv: "under_review k path bs s \<Longrightarrow> review_inv k path bs s"
proof (induction rule: under_review.induct)
  case (single_chunk d s s' n path)
  let ?s1 = "(initTx (set_path path s))\<lparr>customContractField := 0\<rparr>"
  have "sign_chunk k P1_SIGN (drop n d) ?s1 = (Returned, s')" using single_chunk by (simp add: handleSign_def)
  then show ?case
    using chunk_review_inv [of k P1_SIGN "drop n d" ?s1 s'] single_chunk read_bip32_path_tron
    by (auto simp: initTx_def)
next
  case (last_chunk path bs s p1 d s')
  then have "sign_chunk k p1 d s = (Returned, s')" by (auto simp: handleSign_def)
  with last_chunk signing_session_inv [OF last_chunk(1)] chunk_review_inv [of k p1 d s s'] show ?case
    by (auto simp: session_inv_def)
next
  case (last_token path bs s p1 d s')
  have inv: "session_inv path bs s" using last_token signing_session_inv by blast
  consider (stop) "sign_token_name k p1 d s = Inl (Returned, s')"
    | (go) s1 where "sign_token_name k p1 d s = Inr s1" "sign_chunk k p1 [] s1 = (Returned, s')"
    using last_token(2,3) by (auto simp: handleSign_token split: sum.splits)
  then show ?case
  proof cases
    case stop
    then show ?thesis using last_token sign_token_name_frame(2) by (fastforce simp: io_send_sw_def)
  next
    case go
    then obtain c where "s1 = s\<lparr>txContent := c\<rparr>" using sign_token_name_frame(1) by blast
    with go last_token inv chunk_review_inv [of k p1 "[]" s1 s'] show ?thesis by (auto simp: session_inv_def)
  qed
next
  case (warning_accepted path bs s s')
  then show ?case
    by (auto simp: review_inv_def user_choice_def dataWarningChoice_def customContractWarningChoice_def
        displayTransaction_def split: if_splits)
qed

section \<open>Answers\<close>

lemma accept_signs:
  assumes "sdk_ok k" "the_screen s = TransactionScreen" "tx_review (ti_state (txInfos s))"
    "length (tr_signature (transactionContext s)) = 65"
    "bip32_derive_ecdsa_sign_rs k (path_of (tr_bip32_path (transactionContext s))) (tr_hash (transactionContext s))
       = Some (r, v, par)"
  shows "\<exists>s'. user_choice k True s = (Returned, s') \<and>
    outputs s' = outputs s @ [SendData (r @ v @ [if par then 1 else 0]) E_OK] \<and> \<not> tx_initialized (txContext s')"
proof -
  have "length r = 32" "length v = 32" using sdk_sign [OF assms(1,5)] by auto
  then show ?thesis
    using signTransaction_ok [OF assms(1,5,4)] assms(2,3)
    by (auto simp: user_choice_def reviewChoice_def tx_review_def ui_callback_tx_ok_def sign_and_send_def
        status_page_def terminate_signing_session_def io_send_response_pointer_def Let_def)
qed

text \<open>C2: What the user approves is what is signed: when the last screen of a transaction review is accepted, the
  application sends exactly one reply, the signature - made with the key of the path sent with the first
  chunk, which is under \<open>44'/195'\<close> - of the SHA-256 digest of all bytes of the transaction, in the order in
  which the chunks arrived, and closes the session.\<close>

theorem approved_signature:
  assumes "sdk_ok k" "under_review k path bs s" "the_screen s = TransactionScreen"
    "length (tr_signature (transactionContext s)) = 65"
    "bip32_derive_ecdsa_sign_rs k (path_of path) (cx_sha256 k bs) = Some (r, v, par)"
  shows "tron_path path \<and> (\<exists>s'. user_choice k True s = (Returned, s') \<and>
    outputs s' = outputs s @ [SendData (r @ v @ [if par then 1 else 0]) E_OK] \<and> \<not> tx_initialized (txContext s'))"
  using accept_signs [OF assms(1,3) _ assms(4)] under_review_inv [OF assms(2)] assms(5)
  by (auto simp: review_inv_def)

text \<open>C15: A refusal at any screen of a transaction review sends the status word 6985 and nothing else, and
  closes the session: no key is used and no further chunk is accepted until a new first one.\<close>

theorem refused_review:
  assumes "under_review k path bs s"
  shows "\<exists>s'. user_choice k False s = (Returned, s') \<and>
    outputs s' = outputs s @ [SendSW E_CONDITIONS_OF_USE_NOT_SATISFIED] \<and>
    (\<forall>p1 d. p1 = P1_MORE \<or> p1 = P1_LAST \<longrightarrow>
       handleSign k p1 0 d s' = ret_sw E_INCORRECT_P1_P2 s')"
  using under_review_inv [OF assms]
  by (auto simp: review_inv_def user_choice_def dataWarningChoice_def customContractWarningChoice_def
      reviewChoice_def rejectChoice_def tx_review_def ui_callback_tx_cancel_def status_page_def io_send_sw_def
      terminate_signing_session_def handleSign_def sign_chunk_def)

section \<open>A command that needs no key\<close>

theorem private_key_needs_approval_witness:
  "app_step (keyless sample_sdk) sample_state
     (Command [] (Some \<lparr>cmd_cla = 0xE0, cmd_ins = 0x06, cmd_p1 = 0, cmd_p2 = 0, cmd_data = []\<rparr>))
     (io_send_response_pointer [0x0B, 0, 7, 0] E_OK sample_state)"
proof -
  let ?c = "\<lparr>cmd_cla = 0xE0, cmd_ins = 0x06, cmd_p1 = 0, cmd_p2 = 0, cmd_data = []\<rparr> :: command_t"
  have "app_round sample_sdk [] (Some ?c) sample_state =
      (Returned, io_send_response_pointer [0x0B, 0, 7, 0] E_OK sample_state)"
    by (simp add: sample_state_def app_init_def zero_state_def app_round_def apdu_dispatcher_def
        handleGetAppConfiguration_def HAS_SETTING_def nv_app_state_init_def terminate_signing_session_def ui_idle_def
        io_send_response_pointer_def sample_sdk_def Let_def)
  then have "app_step sample_sdk sample_state (Command [] (Some ?c)) (io_send_response_pointer [0x0B, 0, 7, 0] E_OK sample_state)"
    by (intro app_step.command)
      (simp_all add: awaits_answer_def sample_state_def app_init_def terminate_signing_session_def ui_idle_def
        nv_app_state_init_def zero_state_def HAS_SETTING_def Let_def)
  then show ?thesis
    by (rule private_key_needs_approval)
      (simp_all add: sample_state_def app_init_def terminate_signing_session_def ui_idle_def
        nv_app_state_init_def zero_state_def HAS_SETTING_def Let_def)
qed

end
