(* ===== verification/Well_Formed.thy ===== *)
theory Well_Formed
  imports Memory Session
begin

text \<open>
  What every handler does with the global state, whatever it is sent: it stays inside the arrays, it ends, and
  it replies exactly once or leaves a screen that waits for the user. One predicate on results carries all
  three, so that the structure of the handlers is followed once.
\<close>

section \<open>Well-formed state\<close>

definition wf_entry :: "permissionEntry_t \<Rightarrow> bool" where
  "wf_entry e \<longleftrightarrow> length (pe_threshold e) = 24 \<and> length (pe_keys e) = 3 \<and>
     list_all (\<lambda>t. length t = 65) (pe_keys e) \<and> length (pe_operations e) = 68 \<and> pe_keysCount e \<le> 3"

definition wf_transaction :: "transactionContext_t \<Rightarrow> bool" where
  "wf_transaction t \<longleftrightarrow> wf_path (tr_bip32_path t) \<and> length (tr_hash t) = 32 \<and> length (tr_signature t) = 65"

definition wf_public_key :: "publicKeyContext_t \<Rightarrow> bool" where
  "wf_public_key p \<longleftrightarrow> length (pk_publicKey p) = 65 \<and> length (pk_address58 p) = 35 \<and> length (pk_chainCode p) = 32"

definition wf_712 :: "messageSigningContext712_t \<Rightarrow> bool" where
  "wf_712 m \<longleftrightarrow> length (m7_bip32Path m) = 10 \<and> length (m7_domainHash m) = 32 \<and> length (m7_messageHash m) = 32"

text \<open>\<open>n\<close> is the size of the APDU buffer.\<close>

definition wf_state :: "nat \<Rightarrow> sdk \<Rightarrow> app_state \<Rightarrow> bool" where
  "wf_state n k s \<longleftrightarrow>
     260 \<le> n \<and> wf_content (txContent s) \<and> wf_transaction (transactionContext s) \<and> wf_public_key (publicKeyContext s) \<and>
     wf_712 (messageSigningContext712 s) \<and> length (fromAddress s) = 40 \<and> length (toAddress s) = 35 \<and>
     length (fullContract s) = 67 \<and> length (TRC20Action s) = 9 \<and> length (TRC20ActionSendAllow s) = 8 \<and>
     length (fullHash s) = 65 \<and> length (strings s) = 296 \<and> votes_count s \<le> 5 \<and>
     length (permissionEntries s) = 4 \<and> list_all wf_entry (permissionEntries s) \<and>
     length (G_io_apdu_buffer s) = n \<and> wf_contacts (ab_sizes_of k) (ab_contacts s)"

text \<open>The state while a handler works: well-formed, nothing sent yet, the screen as it was.\<close>

definition steady :: "nat \<Rightarrow> sdk \<Rightarrow> app_state \<Rightarrow> app_state \<Rightarrow> bool" where
  "steady n k s s' \<longleftrightarrow> wf_state n k s' \<and> outputs s' = outputs s \<and> the_screen s' = the_screen s \<and>
     G_called_from_swap s' = G_called_from_swap s"

lemma steady_refl: "wf_state n k s \<Longrightarrow> steady n k s s"
  by (simp add: steady_def)

named_theorems steady_simps "updates that keep a state steady"

lemma steady_updates [steady_simps]:
  assumes "steady n k s s1"
  shows
    "steady n k s (s1\<lparr>txContent := c\<rparr>) \<longleftrightarrow> wf_content c"
    "steady n k s (s1\<lparr>transactionContext := t\<rparr>) \<longleftrightarrow> wf_transaction t"
    "steady n k s (s1\<lparr>publicKeyContext := p\<rparr>) \<longleftrightarrow> wf_public_key p"
    "steady n k s (s1\<lparr>messageSigningContext712 := m\<rparr>) \<longleftrightarrow> wf_712 m"
    "steady n k s (s1\<lparr>fromAddress := b\<rparr>) \<longleftrightarrow> length b = 40"
    "steady n k s (s1\<lparr>toAddress := b\<rparr>) \<longleftrightarrow> length b = 35"
    "steady n k s (s1\<lparr>fullContract := b\<rparr>) \<longleftrightarrow> length b = 67"
    "steady n k s (s1\<lparr>TRC20Action := b\<rparr>) \<longleftrightarrow> length b = 9"
    "steady n k s (s1\<lparr>TRC20ActionSendAllow := b\<rparr>) \<longleftrightarrow> length b = 8"
    "steady n k s (s1\<lparr>fullHash := b\<rparr>) \<longleftrightarrow> length b = 65"
    "steady n k s (s1\<lparr>strings := b\<rparr>) \<longleftrightarrow> length b = 296"
    "steady n k s (s1\<lparr>votes_count := v\<rparr>) \<longleftrightarrow> v \<le> 5"
    "steady n k s (s1\<lparr>permissionEntries := es\<rparr>) \<longleftrightarrow> length es = 4 \<and> list_all wf_entry es"
    "steady n k s (s1\<lparr>G_io_apdu_buffer := b\<rparr>) \<longleftrightarrow> length b = n"
    "steady n k s (s1\<lparr>txContext := x1\<rparr>)" "steady n k s (s1\<lparr>personal_msg_ctx := x2\<rparr>)"
    "steady n k s (s1\<lparr>msg := x3\<rparr>)" "steady n k s (s1\<lparr>customContractField := x4\<rparr>)"
    "steady n k s (s1\<lparr>g_recipient_contact := x5\<rparr>)" "steady n k s (s1\<lparr>g_sender_contact := x5\<rparr>)"
    "steady n k s (s1\<lparr>g_recipient_service := x6\<rparr>)" "steady n k s (s1\<lparr>txInfos := x7\<rparr>)"
    "steady n k s (s1\<lparr>G_swap_response_ready := x8\<rparr>)"
  using assms by (simp_all add: steady_def wf_state_def)

lemma steady_lengths [steady_simps]:
  assumes "steady n k s s1"
  shows "wf_content (txContent s1)" "wf_transaction (transactionContext s1)" "wf_public_key (publicKeyContext s1)"
    "wf_712 (messageSigningContext712 s1)" "length (fromAddress s1) = 40" "length (toAddress s1) = 35"
    "length (fullContract s1) = 67" "length (TRC20Action s1) = 9" "length (TRC20ActionSendAllow s1) = 8"
    "length (fullHash s1) = 65" "length (strings s1) = 296" "votes_count s1 \<le> 5"
    "length (permissionEntries s1) = 4" "list_all wf_entry (permissionEntries s1)"
    "length (G_io_apdu_buffer s1) = n" "260 \<le> n" "0 < n" "100 < n" "200 \<le> n" "100 + (n - 100) = n"
  using assms by (simp_all add: steady_def wf_state_def)

lemma wf_transaction_updates [steady_simps]:
  assumes "wf_transaction t"
  shows "wf_transaction (t\<lparr>tr_bip32_path := p\<rparr>) \<longleftrightarrow> wf_path p" "wf_transaction (t\<lparr>tr_hash := h\<rparr>) \<longleftrightarrow> length h = 32"
    "wf_transaction (t\<lparr>tr_signature := b\<rparr>) \<longleftrightarrow> length b = 65" "wf_transaction (t\<lparr>tr_signatureLength := l\<rparr>)"
    "wf_path (tr_bip32_path t)" "length (tr_signature t) = 65" "length (tr_hash t) = 32"
  using assms by (simp_all add: wf_transaction_def)

lemma wf_public_key_updates [steady_simps]:
  assumes "wf_public_key p"
  shows "wf_public_key (p\<lparr>pk_publicKey := b\<rparr>) \<longleftrightarrow> length b = 65" "wf_public_key (p\<lparr>pk_address58 := b\<rparr>) \<longleftrightarrow> length b = 35"
    "wf_public_key (p\<lparr>pk_chainCode := b\<rparr>) \<longleftrightarrow> length b = 32" "wf_public_key (p\<lparr>pk_getChaincode := c\<rparr>)"
    "length (pk_publicKey p) = 65" "length (pk_address58 p) = 35" "length (pk_chainCode p) = 32"
  using assms by (simp_all add: wf_public_key_def)

lemma wf_712_updates [steady_simps]:
  assumes "wf_712 m"
  shows "wf_712 (m\<lparr>m7_pathLength := l\<rparr>)" "wf_712 (m\<lparr>m7_bip32Path := p\<rparr>) \<longleftrightarrow> length p = 10"
    "wf_712 (m\<lparr>m7_domainHash := h\<rparr>) \<longleftrightarrow> length h = 32" "wf_712 (m\<lparr>m7_messageHash := h\<rparr>) \<longleftrightarrow> length h = 32"
    "length (m7_bip32Path m) = 10" "length (m7_domainHash m) = 32" "length (m7_messageHash m) = 32"
  using assms by (simp_all add: wf_712_def)

section \<open>Results\<close>

definition answered :: "nat \<Rightarrow> sdk \<Rightarrow> app_state \<Rightarrow> result \<Rightarrow> bool" where
  "answered n k s r \<longleftrightarrow>
     (case r of (res, s') \<Rightarrow>
        wf_state n k s' \<and> G_called_from_swap s' = G_called_from_swap s \<and>
        (case res of
           Returned \<Rightarrow>
             (\<exists>x. outputs s' = outputs s @ [x]) \<and> the_screen s' \<in> {the_screen s, IdleScreen} \<or>
             outputs s' = outputs s \<and> awaits_answer s'
         | Thrown e \<Rightarrow> outputs s' = outputs s \<and> the_screen s' = the_screen s
         | Exited \<Rightarrow> G_called_from_swap s
         | Stuck \<Rightarrow> False))"

lemma wf_zero_content [simp]: "wf_content zero_content" "wf_content (zero_content\<lparr>tc_contractType := t\<rparr>)"
  by (simp_all add: wf_content_def zero_content_def wf_name_def list_all_iff)

lemma steady_sessions [steady_simps]:
  "steady n k s s1 \<Longrightarrow> steady n k s (initTx s1)" "steady n k s s1 \<Longrightarrow> steady n k s (terminate_signing_session s1)"
  by (simp_all add: initTx_def terminate_signing_session_def steady_simps)

lemma answered_ret_sw: "steady n k s s1 \<Longrightarrow> answered n k s (ret_sw sw s1)"
  by (simp add: answered_def ret_sw_def io_send_sw_def steady_def wf_state_def)

lemma answered_refuse: "steady n k s s1 \<Longrightarrow> answered n k s (refuse sw s1)"
  by (simp add: refuse_def answered_ret_sw steady_simps)

lemma answered_send: "steady n k s s1 \<Longrightarrow> answered n k s (Returned, io_send_response_pointer d sw s1)"
  by (simp add: answered_def io_send_response_pointer_def steady_def wf_state_def)

lemma answered_thrown: "steady n k s s1 \<Longrightarrow> answered n k s (Thrown e, s1)"
  by (simp add: answered_def steady_def)

lemma length_bytes_to_string:
  assumes "sdk_ok k" "off + outl \<le> length out"
  shows "length (bytes_to_string k out off outl v) = length out"
proof -
  have "format_hex k v (outl - 2) = Some t \<Longrightarrow> length t < outl - 2" for t using sdk_hex [OF assms(1)] by blast
  then show ?thesis
    using assms(2) by (auto simp: bytes_to_string_def Let_def buf_simps split: option.splits)
qed

lemma steady_format_hash:
  assumes "sdk_ok k" "steady n k s s1" "off \<le> 256"
  shows "steady n k s (format_hash k h off s1)"
proof -
  have "length (strings s1) = 296" using assms(2) by (simp add: steady_simps)
  then show ?thesis
    using assms by (simp add: format_hash_def steady_simps length_bytes_to_string)
qed

lemma steady_prepareTxInfos:
  assumes "sdk_ok k" "steady n k s s1" "prepareTxInfos k st w s1 = (r, s2)"
  shows "steady n k s s2"
  using assms(3)
  by (auto simp: prepareTxInfos_def Let_def insert_known_service_label_def apply_address_book_aliases_def
      steady_simps assms(1,2) steady_format_hash split: if_splits prod.splits bool.splits)

lemma answered_display:
  assumes "sdk_ok k" "steady n k s s1"
  shows "answered n k s (ux_flow_display k st w s1)"
proof (cases "st = APPROVAL_VERIFY_ADDRESS")
  case True
  with assms(2) show ?thesis by (simp add: ux_flow_display_def answered_def steady_def wf_state_def awaits_answer_def)
next
  case False
  obtain r s2 where p: "prepareTxInfos k st w s1 = (r, s2)" by fastforce
  then have s2: "steady n k s s2" using steady_prepareTxInfos assms by blast
  then have t: "steady n k s (terminate_signing_session s2)" by (simp add: steady_simps)
  show ?thesis
  proof (cases r)
    case (Inl e)
    with p False s2 show ?thesis by (simp add: ux_flow_display_def answered_thrown)
  next
    case (Inr ok)
    with p False s2 t show ?thesis
      by (cases ok) (simp_all add: ux_flow_display_def answered_def reviewStart_def ui_idle_def io_send_sw_def
          steady_def wf_state_def awaits_answer_def)
  qed
qed

section \<open>Printing\<close>

text \<open>\<^verbatim>\<open>print_amount\<close> ends, and writes inside its buffer.\<close>

lemma print_amount_total:
  assumes "unat sun \<le> 22" "0 < unat outlen" "unat outlen \<le> length out"
  shows "print_amount v out outlen sun = Some (Inl E_INCORRECT_LENGTH) \<or>
    (\<exists>out' l. print_amount v out outlen sun = Some (Inr (out', l)) \<and> length out' = length out)"
proof -
  consider "10 ^ 19 \<le> unat v" | "unat v < 10 ^ 19" "0 < unat v" | "v = 0" by (meson not_le unat_gt_0)
  then show ?thesis
  proof cases
    case 1
    then show ?thesis using print_amount_20_digits by blast
  next
    case 2
    then show ?thesis using print_amount_positive [OF 2(2,1) assms] by blast
  next
    case 3
    then show ?thesis using print_amount_zero [OF assms] by blast
  qed
qed

lemma answered_with_print:
  assumes "steady n k s s1" "unat sun \<le> 22" "0 < unat outlen" "unat outlen \<le> length out"
    "\<And>out'. length out' = length out \<Longrightarrow> answered n k s (cont out')"
  shows "answered n k s (with_print (print_amount v out outlen sun) s1 cont)"
  using print_amount_total [OF assms(2-4), of v] assms(1,5) by (auto simp: with_print_def answered_thrown)

lemma answered_print_apdu:
  assumes "steady n k s s1" "unat sun \<le> 18" "off + unat outlen \<le> 260" "0 < unat outlen"
    "\<And>b. steady n k s (s1\<lparr>G_io_apdu_buffer := b\<rparr>) \<Longrightarrow> answered n k s (cont (s1\<lparr>G_io_apdu_buffer := b\<rparr>))"
  shows "answered n k s (print_apdu v off outlen sun s1 cont)"
  unfolding print_apdu_def
proof (rule answered_with_print)
  have l: "length (G_io_apdu_buffer s1) = n" "260 \<le> n" using assms(1) by (simp_all add: steady_simps)
  then show "unat outlen \<le> length (drop off (G_io_apdu_buffer s1))" using assms(3) by simp
  fix out' :: bytes
  assume "length out' = length (drop off (G_io_apdu_buffer s1))"
  then have "length (take off (G_io_apdu_buffer s1) @ out') = n" using l assms(3,4) by simp
  then show "answered n k s (cont (s1\<lparr>G_io_apdu_buffer := take off (G_io_apdu_buffer s1) @ out'\<rparr>))"
    using assms(1) by (intro assms(5)) (simp add: steady_simps)
qed (use assms in auto)

lemma answered_print_toAddress:
  assumes "steady n k s s1" "unat sun \<le> 18"
    "\<And>b. steady n k s (s1\<lparr>toAddress := b\<rparr>) \<Longrightarrow> answered n k s (cont (s1\<lparr>toAddress := b\<rparr>))"
  shows "answered n k s (print_toAddress v sun s1 cont)"
proof -
  have "length (toAddress s1) = 35" using assms(1) by (simp add: steady_simps)
  then show ?thesis
    unfolding print_toAddress_def using assms by (intro answered_with_print assms(3)) (auto simp: steady_simps)
qed

lemma answered_print_maxFee:
  assumes "steady n k s s1" "\<And>b. steady n k s (s1\<lparr>strings := b\<rparr>) \<Longrightarrow> answered n k s (cont (s1\<lparr>strings := b\<rparr>))"
  shows "answered n k s (print_maxFee s1 cont)"
proof -
  have "length (strings s1) = 296" using assms(1) by (simp add: steady_simps)
  then show ?thesis
    unfolding print_maxFee_def using assms
    by (intro answered_with_print assms(2)) (auto simp: steady_simps maxFee_offset_def header_constants)
qed

lemma wf_permission_key_lines:
  "i + length keys \<le> 3 \<Longrightarrow> length ls = 3 \<Longrightarrow> list_all (\<lambda>t. length t = 65) ls \<Longrightarrow>
   permission_key_lines k keys i a ls = (ok, ls') \<Longrightarrow> length ls' = 3 \<and> list_all (\<lambda>t. length t = 65) ls'"
proof (induction keys arbitrary: i a ls)
  case (Cons key keys)
  have "length (ls ! i) = 65" using Cons.prems by (simp add: list_all_length)
  then have w: "list_all (\<lambda>t. length t = 65) (ls[i := snprintf (ls ! i) 65 x])" for x
    using Cons.prems(3) by (simp add: snprintf_def length_strlcpy list_all_update)
  consider x where "ls' = ls[i := snprintf (ls ! i) 65 x]"
    | a' x where "permission_key_lines k keys (Suc i) a' (ls[i := snprintf (ls ! i) 65 x]) = (ok, ls')"
    using Cons.prems(4) by (auto simp: Let_def split: if_splits)
  then show ?case
  proof cases
    case 1
    then show ?thesis using w Cons.prems(2) by simp
  next
    case 2
    from Cons.IH [OF _ _ w this] show ?thesis using Cons.prems(1,2) by simp
  qed
qed simp

lemma answered_fillPermissionEntry:
  assumes "sdk_ok k" "steady n k s s1"
    "\<And>p. steady n k s (s1\<lparr>permissionEntries := p\<rparr>) \<Longrightarrow> answered n k s (cont (s1\<lparr>permissionEntries := p\<rparr>))"
  shows "answered n k s (fillPermissionEntry k i perm s1 cont)"
proof -
  let ?keys = "take 3 (m_msgs perm 7)"
  let ?e = "zero_entry\<lparr>pe_present := True,
      pe_threshold := snprintf (replicate 24 0) 24 (fmt_signed (sint (m_int perm 4))), pe_keysCount := length ?keys\<rparr>"
  have e: "wf_entry ?e"
    by (simp add: wf_entry_def zero_entry_def snprintf_def length_strlcpy list_all_iff)
  have upd: "wf_entry e' \<Longrightarrow> steady n k s (s1\<lparr>permissionEntries := (permissionEntries s1)[i := e']\<rparr>)" for e'
    using assms(2) by (simp add: steady_simps list_all_update)
  obtain ok ls where ls: "permission_key_lines k ?keys 0 (replicate 35 0) (pe_keys ?e) = (ok, ls)" by fastforce
  then have "length ls = 3 \<and> list_all (\<lambda>t. length t = 65) ls"
    using wf_permission_key_lines [of 0 ?keys "pe_keys ?e" k "replicate 35 0" ok ls] e by (simp add: wf_entry_def)
  then have "wf_entry (?e\<lparr>pe_keys := ls\<rparr>)"
    "wf_entry (?e\<lparr>pe_keys := ls, pe_operations := bytes_to_string k (pe_operations ?e) 0 68 (m_buf perm 6)\<rparr>)"
    using e length_bytes_to_string [OF assms(1), of 0 68 "pe_operations ?e"] by (simp_all add: wf_entry_def)
  with ls upd show ?thesis by (cases ok) (simp_all add: fillPermissionEntry_def Let_def answered_thrown assms(3))
qed

lemmas answered_intros = answered_ret_sw answered_refuse answered_send answered_thrown answered_display
  answered_print_apdu answered_print_toAddress answered_print_maxFee answered_fillPermissionEntry

section \<open>The final switch of \<^verbatim>\<open>INS_SIGN\<close>\<close>

lemma length_base58 [steady_simps]:
  "sdk_ok k \<Longrightarrow> 35 \<le> length out \<Longrightarrow> length (getBase58FromAddress k a out 0) = length out"
  "sdk_ok k \<Longrightarrow> length out = 40 \<Longrightarrow> length (getBase58FromAddress k a out 5) = 40"
  by (simp_all add: length_getBase58FromAddress)

lemma length_write_hex [steady_simps]: "sdk_ok k \<Longrightarrow> length (write_hex k v out) = length out"
  using sdk_hex [of k v "length out"]
  by (fastforce simp: write_hex_def length_buf_write split: option.splits)

lemma length_strcpy [steady_simps]: "Suc (length t) \<le> length out \<Longrightarrow> length (strcpy out t) = length out"
  by (simp add: strcpy_def length_buf_write)

lemma length_snprintf [steady_simps]: "n \<le> length out \<Longrightarrow> length (snprintf out n t) = length out"
  by (simp add: snprintf_def length_strlcpy)

lemmas [steady_simps] = length_strlcpy length_buf_write length_buf_set

lemma length_setContractType [steady_simps]:
  "outlen \<le> length out \<Longrightarrow> length (snd (setContractType type out outlen)) = length out"
  by (simp add: setContractType_def length_strlcpy)

lemma length_setExchangeContractDetail [steady_simps]:
  "outlen \<le> length out \<Longrightarrow> length (snd (setExchangeContractDetail type out outlen)) = length out"
  by (simp add: setExchangeContractDetail_def length_strlcpy)

lemma steady_copy_token_name [steady_simps]:
  assumes "steady n k s s1"
  shows "steady n k s (copy_token_name s1)"
proof -
  have c: "wf_content (txContent s1)" "length (fullContract s1) = 67" using assms by (simp_all add: steady_simps)
  then have "length (tc_tokenNames (txContent s1) ! 0) = 67" "unat (tc_tokenNamesLength (txContent s1) ! 0) \<le> 66"
    using wf_content_nth [OF c(1), of 0] by simp_all
  then show ?thesis using assms c(2) by (simp add: copy_token_name_def steady_simps)
qed

lemma copy_frames [steady_simps]:
  "toAddress (copy_token_name s) = toAddress s" "G_io_apdu_buffer (copy_resource s) = G_io_apdu_buffer s"
  by (simp_all add: copy_token_name_def copy_resource_def)

lemma steady_copy_resource [steady_simps]: "steady n k s s1 \<Longrightarrow> steady n k s (copy_resource s1)"
  by (simp add: copy_resource_def steady_simps)

lemma steady_addresses [steady_simps]:
  assumes "sdk_ok k" "steady n k s s1"
  shows "steady n k s (set_recipient_address k a s1)" "steady n k s (set_receiver k s1)" "steady n k s (set_sender k s1)"
  using assms by (simp_all add: set_recipient_address_def set_receiver_def set_sender_def Let_def steady_simps)

lemma token_decimals_le:
  assumes "steady n k s s1" "i < 2"
  shows "unat (tc_decimals (txContent s1) ! i) \<le> 18" "unat (token_decimals (txContent s1) i) \<le> 18"
  using wf_content_nth(4) [OF steady_lengths(1) [OF assms(1)] assms(2)] by (simp_all add: header_constants)

lemma print_trc20_text:
  assumes "steady n k s s1"
  shows "\<exists>b. print_trc20_amount s1 = Some (True, s1\<lparr>G_io_apdu_buffer := b\<rparr>) \<and> length b = n \<and>
    cstr b = decimal_text (decimal (be_val (tc_TRC20Amount (txContent s1)))) (unat (tc_decimals (txContent s1) ! 0))"
proof -
  let ?b = "G_io_apdu_buffer s1"
  have l: "length ?b = n" "260 \<le> n" "length (tc_TRC20Amount (txContent s1)) = 32"
    using assms by (simp_all add: steady_simps wf_content_lengths)
  then have g: "100 \<le> length (drop 100 ?b)" by simp
  obtain x digs where x: "convertUint256BE (tc_TRC20Amount (txContent s1)) 32 = Some x"
      "tostring256 x 10 (drop 100 ?b) 100 = Some (True, digs)" "length digs = n - 100"
    using trc20_amount_text [OF l(3) g, of ?b 0] l by auto
  have d: "drop 100 (take 100 ?b @ digs) = digs" using l by simp
  have "unat (tc_decimals (txContent s1) ! 0) \<le> 97" using token_decimals_le(1) [OF assms, of 0] by simp
  then obtain t where "adjustDecimals digs (of_nat (strlen digs)) (take 100 ?b @ digs) 100
      (tc_decimals (txContent s1) ! 0) = (True, t)" "length t = n"
      "cstr t = decimal_text (decimal (be_val (tc_TRC20Amount (txContent s1)))) (unat (tc_decimals (txContent s1) ! 0))"
    using trc20_amount_text [OF l(3) g, of "take 100 ?b @ digs" "tc_decimals (txContent s1) ! 0"] l x by auto
  then show ?thesis using x d by (auto simp: print_trc20_amount_def)
qed

lemma print_trc20_steady:
  assumes "steady n k s s1"
  shows "\<exists>s2. print_trc20_amount s1 = Some (True, s2) \<and> steady n k s s2"
  using print_trc20_text [OF assms] assms by (auto simp: steady_simps)

lemma answered_vote_loop:
  assumes "sdk_ok k" "\<And>t s2. steady n k s s2 \<Longrightarrow> answered n k s (cont t s2)"
  shows "steady n k s s1 \<Longrightarrow> i + length votes \<le> 5 \<Longrightarrow> answered n k s (vote_loop k votes i t s1 cont)"
proof (induction votes arbitrary: i t s1)
  case (Cons v votes)
  obtain address count where v: "v = (address, count)" by (cases v)
  let ?s2 = "s1\<lparr>fullContract := getBase58FromAddress k address (fullContract s1) 0\<rparr>"
  let ?s3 = "?s2\<lparr>G_io_apdu_buffer := fillVoteAddressSlot (G_io_apdu_buffer ?s2) (fullContract ?s2) i\<rparr>"
  have s2: "steady n k s ?s2" using Cons.prems assms(1) by (simp add: steady_simps)
  have "length (G_io_apdu_buffer s1) = n" "260 \<le> n" using Cons.prems by (simp_all add: steady_simps)
  then have "length (fillVoteAddressSlot (G_io_apdu_buffer s1) b i) = n" for b
    using Cons.prems(2) by (simp add: fillVoteAddressSlot_def VOTE_ADDRESS_slot_def length_buf_write)
  then have s3: "steady n k s ?s3" using s2 by (simp add: steady_simps)
  have "answered n k s (fillVoteAmountSlot count i ?s3 (\<lambda>s2. vote_loop k votes (Suc i) (t + count) s2 cont))"
    unfolding fillVoteAmountSlot_def
    by (rule answered_print_apdu [OF s3]) (use Cons in \<open>simp_all add: VOTE_AMOUNT_slot_def\<close>)
  then show ?case
    using Cons.prems(1) s2 by (simp add: v Let_def answered_refuse)
qed (use assms(2) in simp)

lemma answered_fill_actives:
  assumes "sdk_ok k" "\<And>s2. steady n k s s2 \<Longrightarrow> answered n k s (cont s2)"
  shows "steady n k s s1 \<Longrightarrow> answered n k s (fill_actives k perms i s1 cont)"
  by (induction perms arbitrary: i s1) (auto intro: assms answered_fillPermissionEntry)

lemma answered_custom:
  assumes "sdk_ok k" "steady n k s s1"
  shows "answered n k s (sign_custom_contract k w s1)"
  using assms unfolding sign_custom_contract_def Let_def
  by (auto simp: steady_simps header_constants intro!: answered_intros)

text \<open>A swap is checked and signed, or refused, without a screen.\<close>

lemma answered_sign_and_send:
  assumes "sdk_ok k" "steady n k s s1"
  shows "answered n k s (Returned, snd (sign_and_send k s1))"
proof -
  have t: "wf_transaction (transactionContext s1)" using assms(2) by (simp add: steady_simps)
  obtain ok t' where r: "signTransaction k (transactionContext s1) = (ok, t')" by fastforce
  then have "wf_transaction t'"
    using t sdk_sign [OF assms(1)]
    by (auto simp: signTransaction_def wf_transaction_def buf_simps split: option.splits)
  then have "steady n k s (s1\<lparr>transactionContext := t'\<rparr>)" using assms(2) by (simp add: steady_simps)
  then show ?thesis
    by (cases ok) (simp_all add: sign_and_send_def r answered_send answered_ret_sw [unfolded ret_sw_def])
qed

lemma answered_terminate:
  "answered n k s (Returned, s1) \<Longrightarrow> answered n k s (Returned, terminate_signing_session s1)"
  by (simp add: answered_def terminate_signing_session_def wf_state_def awaits_answer_def)

lemma answered_tx_ok:
  assumes "sdk_ok k" "steady n k s s1"
  shows "answered n k s (Returned, snd (ui_callback_tx_ok k False s1))"
  using answered_terminate [OF answered_sign_and_send [OF assms]]
  by (simp add: ui_callback_tx_ok_def case_prod_beta)

lemma tostring256_total:
  assumes "0 < unat outLength" "unat outLength \<le> length out"
  shows "\<exists>ok out'. tostring256 x 10 out outLength = Some (ok, out')"
proof (cases "length (digits 10 (val256 x)) \<le> unat outLength")
  case True
  then show ?thesis using p256.tostring_ok [of 10 x outLength out] assms by auto
next
  case False
  then show ?thesis using p256.tostring_too_long [of 10 outLength x out] assms by auto
qed

lemma swap_check_total: "sdk_ok k \<Longrightarrow> \<exists>b. swap_check_validity k s amount name action to = Some b"
proof -
  assume k: "sdk_ok k"
  let ?n = "max_printable_amount_size k"
  have "unat (of_nat ?n :: u32) = ?n" "0 < ?n" using sdk_printable [OF k] by (simp_all add: unat_of_nat take_bit_nat_eq_self)
  then obtain ok raw where "tostring256 (sv_amount (G_swap_validated s)) 10 (replicate ?n 0) (of_nat ?n) = Some (ok, raw)"
    using tostring256_total [of "of_nat ?n" "replicate ?n 0" "sv_amount (G_swap_validated s)"] by auto
  then show ?thesis
    by (auto simp: swap_check_validity_def check_swap_amount_def printable_of_def Let_def split: prod.splits)
qed

lemma answered_finish_transfer:
  assumes "sdk_ok k" "steady n k s s1"
  shows "answered n k s (finish_transfer k w s1)"
proof -
  have "answered n k s (if G_called_from_swap s2 then
              if tc_feeLimit (txContent s2) > MAX_SWAP_FEE_LIMIT then refuse E_SWAP_CHECKING_FAIL s2
              else
                case swap_check_validity k s2 (G_io_apdu_buffer s2) (fullContract s2) (TRC20ActionSendAllow s2)
                       (toAddress s2) of
                  None \<Rightarrow> (Stuck, s2)
                | Some True \<Rightarrow> (Returned, snd (ui_callback_tx_ok k False s2))
                | Some False \<Rightarrow> refuse E_SWAP_CHECKING_FAIL s2
            else ux_flow_display k APPROVAL_TRANSFER w s2)" if "steady n k s s2" for s2
    using swap_check_total [OF assms(1), of s2 "G_io_apdu_buffer s2" "fullContract s2" "TRC20ActionSendAllow s2" "toAddress s2"]
      answered_tx_ok [OF assms(1) that] assms(1) that
    by (auto intro: answered_intros split: bool.splits)
  then show ?thesis
    unfolding finish_transfer_def Let_def
    using assms by (auto simp: steady_simps intro!: answered_print_maxFee)
qed

lemma answered_sign_transfer:
  assumes "sdk_ok k" "steady n k s s1"
  shows "answered n k s (sign_transfer k w s1)"
proof -
  have trc20: "answered n k s (case print_trc20_amount s2 of None \<Rightarrow> (Stuck, s4)
      | Some (False, s3) \<Rightarrow> refuse E_INCORRECT_LENGTH s3 | Some (True, s3) \<Rightarrow> finish_transfer k w s3)"
    if "steady n k s s2" for s2 s4
    using print_trc20_steady [OF that] answered_finish_transfer [OF assms(1)] by auto
  have "unat (if tc_contractType (txContent s1) = 1 then SUN_DIG else tc_decimals (txContent s1) ! 0) \<le> 18"
    using token_decimals_le(1) [OF assms(2), of 0] by (simp add: header_constants)
  then show ?thesis
    using assms unfolding sign_transfer_def Let_def
    by (auto simp: steady_simps intro!: answered_refuse answered_custom answered_finish_transfer trc20 answered_print_apdu)
qed

lemma answered_exchanges:
  assumes "sdk_ok k" "steady n k s s1"
  shows "answered n k s (sign_exchange_create k w s1)" "answered n k s (sign_exchange_transaction k w s1)"
    "answered n k s (sign_exchange_inject_withdraw k w s1)"
proof -
  have d: "unat (tc_decimals (txContent s1) ! 0) \<le> 18" "unat (tc_decimals (txContent s1) ! Suc 0) \<le> 18"
    "length (tc_tokenNames (txContent s1) ! Suc 0) = 67" "unat (tc_tokenNamesLength (txContent s1) ! Suc 0) \<le> 66"
    using wf_content_nth [OF steady_lengths(1) [OF assms(2)]] by simp_all
  show "answered n k s (sign_exchange_create k w s1)"
    using assms d unfolding sign_exchange_create_def Let_def
    by (auto simp: steady_simps header_constants intro!: answered_refuse answered_print_apdu answered_display)
  show "answered n k s (sign_exchange_transaction k w s1)"
    using assms d unfolding sign_exchange_transaction_def Let_def
    by (auto simp: steady_simps header_constants intro!: answered_print_toAddress answered_print_apdu answered_display)
  have inj: "answered n k s (case setExchangeContractDetail t (drop 100 (G_io_apdu_buffer s2)) (length (G_io_apdu_buffer s2) - 100) of
      (False, _) \<Rightarrow> refuse E_INCORRECT_DATA s2
    | (True, out) \<Rightarrow> ux_flow_display k APPROVAL_EXCHANGE_WITHDRAW_INJECT w
        (s2\<lparr>G_io_apdu_buffer := take 100 (G_io_apdu_buffer s2) @ out\<rparr>))" if s2: "steady n k s s2" for s2 t
  proof (cases "setExchangeContractDetail t (drop 100 (G_io_apdu_buffer s2)) (length (G_io_apdu_buffer s2) - 100)")
    case (Pair ok x)
    let ?b = "G_io_apdu_buffer s2"
    have "length ?b = n" "260 \<le> n" using s2 by (simp_all add: steady_simps)
    moreover have "length x = length ?b - 100"
      using length_setExchangeContractDetail [of "length ?b - 100" "drop 100 ?b" t] Pair by simp
    ultimately have "steady n k s (s2\<lparr>G_io_apdu_buffer := take 100 ?b @ x\<rparr>)" using s2 by (simp add: steady_simps)
    with Pair s2 assms(1) show ?thesis by (cases ok) (simp_all add: answered_refuse answered_display)
  qed
  show "answered n k s (sign_exchange_inject_withdraw k w s1)"
    using assms d unfolding sign_exchange_inject_withdraw_def Let_def
    by (intro answered_print_toAddress answered_print_apdu inj) (simp_all add: steady_simps header_constants)
qed

lemma answered_resources:
  assumes "sdk_ok k" "steady n k s s1"
  shows "answered n k s (sign_freeze k w s1)" "answered n k s (sign_unfreeze k w s1)"
    "answered n k s (sign_freeze_v2 k w s1)" "answered n k s (sign_unfreeze_v2 k w s1)"
    "answered n k s (sign_delegate k w s1)" "answered n k s (sign_undelegate k w s1)"
    "answered n k s (sign_withdraw k st w s1)"
  using assms
  by (auto simp: sign_freeze_def sign_unfreeze_def sign_freeze_v2_def sign_unfreeze_v2_def sign_delegate_def
      sign_undelegate_def sign_withdraw_def Let_def steady_simps header_constants
      intro!: answered_print_apdu answered_display)

lemma answered_votes:
  assumes "sdk_ok k" "steady n k s s1"
  shows "answered n k s (sign_votes k w s1)"
  using assms unfolding sign_votes_def Let_def
  by (auto simp: steady_simps wf_simps intro!: answered_refuse answered_vote_loop answered_display)

lemma answered_permission_update:
  assumes "sdk_ok k" "steady n k s s1"
  shows "answered n k s (sign_permission_update k w s1)"
proof -
  have "list_all wf_entry (replicate 4 zero_entry)"
    by (simp add: list_all_iff wf_entry_def zero_entry_def)
  then show ?thesis
    using assms unfolding sign_permission_update_def Let_def
    by (auto simp: steady_simps intro!: answered_refuse answered_fill_actives answered_fillPermissionEntry answered_display)
qed

lemma answered_default:
  assumes "sdk_ok k" "steady n k s s1"
  shows "answered n k s (sign_default k w s1)"
proof -
  have "setContractType type out l = (b, x) \<Longrightarrow> l \<le> length out \<Longrightarrow> length x = length out" for type out l b x
    using length_setContractType [of l out type] by simp
  with assms show ?thesis
    unfolding sign_default_def Let_def
    by (auto simp: steady_simps split: prod.splits bool.splits intro!: answered_refuse answered_display)
qed

lemma answered_sign_switch: "sdk_ok k \<Longrightarrow> steady n k s s1 \<Longrightarrow> answered n k s (sign_switch k w s1)"
  by (simp add: sign_switch_def Let_def answered_sign_transfer answered_exchanges answered_resources answered_votes
      answered_permission_update answered_default answered_refuse)

section \<open>Handlers\<close>

lemma answered_finish_sign: "sdk_ok k \<Longrightarrow> steady n k s s1 \<Longrightarrow> answered n k s (finish_sign k s1)"
  unfolding finish_sign_def Let_def
  by (auto simp: steady_simps intro!: answered_refuse answered_sign_switch)

lemma steady_processTx:
  assumes "steady n k s s1"
  shows "steady n k s (snd (processTx j b s1))"
proof -
  have "wf_content (txContent (snd (processTx j b s1)))" using assms by (intro wf_processTx) (simp add: steady_simps)
  moreover obtain c m where "snd (processTx j b s1) = s1\<lparr>txContent := c, msg := m\<rparr>" using processTx_frame by blast
  ultimately show ?thesis using assms by (simp add: steady_simps)
qed

lemma answered_sign_chunk:
  assumes "sdk_ok k" "steady n k s s1"
  shows "answered n k s (sign_chunk k p1 d s1)"
proof -
  define s2 where "s2 = s1\<lparr>txContext := (txContext s1)\<lparr>tx_sha2 := tx_sha2 (txContext s1) @ d\<rparr>\<rparr>"
  define s3 where "s3 = (if G_called_from_swap s2 then s2\<lparr>G_swap_response_ready := True\<rparr> else s2)"
  have s2: "steady n k s s2" using assms(2) by (simp add: s2_def steady_simps)
  then have s3: "steady n k s s3" by (simp add: s3_def steady_simps)
  obtain r s4 where p: "processTx k d s3 = (r, s4)" by fastforce
  then have s4: "steady n k s s4" using steady_processTx [OF s3, of k d] by simp
  have ex: "G_called_from_swap s2 \<Longrightarrow> answered n k s (Exited, s2)" using s2 by (simp add: answered_def steady_def)
  show ?thesis
    unfolding sign_chunk_def Let_def s2_def [symmetric] s3_def [symmetric]
    using assms s4 ex
    by (cases r) (auto simp: p steady_simps intro!: answered_ret_sw answered_finish_sign)
qed

lemma steady_set_path [steady_simps]:
  assumes "steady n k s s1"
  shows "steady n k s (set_path p s1) \<longleftrightarrow> wf_path p"
  using assms by (simp add: steady_simps)

lemma wf_read_path:
  assumes "read_bip32_path b (tr_bip32_path (transactionContext s1)) = (r, path)" "steady n k s s1"
  shows "wf_path path"
proof -
  have "wf_path (tr_bip32_path (transactionContext s1))" using assms(2) by (simp add: steady_simps)
  from wf_read_bip32_path [OF this, of b] show ?thesis using assms(1) by simp
qed

lemma answered_sign_token_name:
  assumes "steady n k s s1"
  shows "case sign_token_name k p1 d s1 of Inl r \<Rightarrow> answered n k s r | Inr s2 \<Rightarrow> steady n k s s2"
proof -
  have c: "wf_content (txContent s1)" using assms by (simp add: steady_simps)
  have "\<not> 1 < p1 AND 7 \<Longrightarrow> unat (p1 AND 7) < 2" by (simp add: word_less_nat_alt)
  then have tn: "\<not> 1 < p1 AND 7 \<Longrightarrow> parseTokenName k (unat (p1 AND 7)) d (txContent s1) = (ok, c') \<Longrightarrow> wf_content c'" for ok c'
    using wf_parseTokenName [OF c, of "unat (p1 AND 7)" k d] by simp
  have ex: "parseExchange k d (txContent s1) = (ok, c') \<Longrightarrow> wf_content c'" for ok c'
    using wf_parseExchange [OF c, of k d] by simp
  show ?thesis
    using assms unfolding sign_token_name_def Let_def
    by (auto simp: steady_simps dest: tn ex intro!: answered_ret_sw split: prod.splits bool.splits)
qed

lemma answered_handleSign:
  assumes "sdk_ok k" "steady n k s s1"
  shows "answered n k s (handleSign k p1 p2 d s1)"
proof -
  have t: "answered n k s (case sign_token_name k p1 d s1 of Inl r \<Rightarrow> r | Inr s2 \<Rightarrow> sign_chunk k p1 [] s2)"
    using answered_sign_token_name [OF assms(2), of p1 d] answered_sign_chunk [OF assms(1)] by (auto split: sum.splits)
  show ?thesis
    using assms t unfolding handleSign_def
    by (auto simp: steady_simps dest!: wf_read_path split: prod.splits option.splits
        intro!: answered_ret_sw answered_sign_chunk)
qed

text \<open>Key derivation writes the key and the address into their arrays.\<close>

lemma wf_initPublicKeyContext:
  assumes "initPublicKeyContext k path a pkc = Some (pkc', a')" "sdk_ok k" "wf_public_key pkc" "35 \<le> length a"
  shows "wf_public_key pkc' \<and> length a' = length a"
proof -
  obtain pub chain where p: "bip32_derive_get_pubkey k (path_of path) = Some (pub, chain)"
      "pkc' = pkc\<lparr>pk_publicKey := pub, pk_chainCode := chain\<rparr>" "a' = getBase58FromPublicKey k pub a"
    using assms(1) by (auto simp: initPublicKeyContext_def split: option.splits)
  then have "length pub = 65" "length chain = 32" using sdk_pubkey [OF assms(2) p(1)] by auto
  with p(2,3) assms show ?thesis by (simp add: steady_simps getBase58FromPublicKey_def)
qed

lemma answered_pubkey:
  assumes "steady n k s s1"
  shows "answered n k s (Returned, helper_send_response_pubkey s1)"
proof -
  have l: "length (G_io_apdu_buffer s1) = n" "260 \<le> n" "length (pk_publicKey (publicKeyContext s1)) = 65"
    "length (pk_address58 (publicKeyContext s1)) = 35" "length (pk_chainCode (publicKeyContext s1)) = 32"
    using assms by (simp_all add: steady_simps)
  have w: "length b = n \<Longrightarrow> off + length x \<le> 260 \<Longrightarrow> length (buf_write b off x) = n"
    "length b = n \<Longrightarrow> off < 260 \<Longrightarrow> length (buf_set b off y) = n" for b off x y
    using l by (simp_all add: buf_simps)
  show ?thesis
    using assms
    by (auto simp: helper_send_response_pubkey_def Let_def header_constants steady_updates w l intro!: answered_send)
qed

lemma answered_handleGetPublicKey:
  assumes "sdk_ok k" "steady n k s s1"
  shows "answered n k s (handleGetPublicKey k p1 p2 d s1)"
proof -
  have "steady n k s s1 \<Longrightarrow> wf_public_key ((publicKeyContext s1)\<lparr>pk_getChaincode := g\<rparr>)" for g by (simp add: steady_simps)
  then have i: "initPublicKeyContext k path (pk_address58 (publicKeyContext s1)) ((publicKeyContext s1)\<lparr>pk_getChaincode := g\<rparr>) =
      Some (pkc, a) \<Longrightarrow> wf_public_key pkc \<and> length a = 35" for path g pkc a
    using wf_initPublicKeyContext [OF _ assms(1)] assms(2) by (fastforce simp: steady_simps)
  show ?thesis
    using assms unfolding handleGetPublicKey_def Let_def
    by (auto simp: steady_simps dest!: i split: prod.splits option.splits
        intro!: answered_ret_sw answered_pubkey answered_display)
qed

text \<open>The key of the path just read, and the sender address.\<close>

lemma init_from:
  assumes "initPublicKeyContext k path (fromAddress s2) (publicKeyContext s2) = Some (pkc, a)" "sdk_ok k" "steady n k s s2"
  shows "wf_public_key pkc" "length a = 40"
  using wf_initPublicKeyContext [OF assms(1,2)] assms(3) by (simp_all add: steady_simps)

lemma answered_handleSignByHash:
  assumes "sdk_ok k" "steady n k s s1"
  shows "answered n k s (handleSignByHash k p1 p2 d s1)"
proof -
  have i: "wf_public_key pkc \<and> length a = 40"
    if "initPublicKeyContext k path (fromAddress s1) (publicKeyContext s1) = Some (pkc, a)" for path pkc a
    using init_from [OF that assms] by simp
  show ?thesis
    using assms unfolding handleSignByHash_def Let_def
    by (auto simp: steady_simps header_constants dest!: i wf_read_path split: prod.splits option.splits
        intro!: answered_ret_sw answered_display)
qed

lemma answered_handleECDHSecret:
  assumes "sdk_ok k" "steady n k s s1"
  shows "answered n k s (handleECDHSecret k p1 p2 d s1)"
proof -
  have i: "wf_public_key pkc \<and> length a = 40"
    if "initPublicKeyContext k path (fromAddress s1) (publicKeyContext s1) = Some (pkc, a)" for path pkc a
    using init_from [OF that assms] by simp
  show ?thesis
    using assms unfolding handleECDHSecret_def Let_def
    by (auto simp: steady_simps header_constants getBase58FromPublicKey_def dest!: i wf_read_path
        split: prod.splits option.splits intro!: answered_ret_sw answered_display)
qed

lemma answered_personal_chunk:
  assumes "sdk_ok k" "steady n k s s1"
  shows "answered n k s (personal_chunk k p2 d s1)"
proof -
  have i: "wf_public_key pkc \<and> length a = 40"
    if "initPublicKeyContext k path (fromAddress s1) (publicKeyContext s1) = Some (pkc, a)" for path pkc a
    using init_from [OF that assms] by simp
  show ?thesis
    using assms unfolding personal_chunk_def clear_personal_def Let_def
    by (auto simp: steady_simps wf_simps dest!: i split: prod.splits option.splits intro!: answered_ret_sw answered_display)
qed

lemma answered_handleSignPersonalMessage:
  assumes "sdk_ok k" "steady n k s s1"
  shows "answered n k s (handleSignPersonalMessage k p1 p2 d s1)"
  using assms unfolding handleSignPersonalMessage_def clear_personal_def Let_def
  by (auto simp: steady_simps wf_simps dest!: wf_read_path split: prod.splits option.splits
      intro!: answered_ret_sw answered_personal_chunk)

lemma length_tip712_path: "i + m \<le> length ind \<Longrightarrow> length (fst (tip712_path b ind i m)) = length ind"
  by (induction m arbitrary: b ind i) (simp_all add: length_buf_set)

lemma answered_handleSignTIP712Message:
  assumes "sdk_ok k" "steady n k s s1"
  shows "answered n k s (handleSignTIP712Message k p1 p2 d s1)"
proof -
  have i: "wf_public_key pkc \<and> length a = 40"
    if "initPublicKeyContext k path (fromAddress s1) (publicKeyContext s1) = Some (pkc, a)" for path pkc a
    using init_from [OF that assms] by simp
  have "length (m7_bip32Path (messageSigningContext712 s1)) = 10" using assms(2) by (simp add: steady_simps)
  then have p: "tip712_path b (m7_bip32Path (messageSigningContext712 s1)) 0 m = (ind, r) \<Longrightarrow> \<not> 10 < m \<Longrightarrow> length ind = 10" for b m ind r
    using length_tip712_path [of 0 m "m7_bip32Path (messageSigningContext712 s1)" b] by simp
  show ?thesis
    using assms unfolding handleSignTIP712Message_def Let_def
    by (auto simp: steady_simps header_constants dest: p dest!: i split: prod.splits option.splits
        intro!: answered_ret_sw answered_display)
qed

lemma answered_dispatcher:
  assumes "sdk_ok k" "steady n k s s1"
  shows "answered n k s (apdu_dispatcher k cmd s1)"
proof -
  have "answered n k s (handleGetAppConfiguration k s2)" if "steady n k s s2" for s2
    using that by (simp add: handleGetAppConfiguration_def Let_def answered_send)
  then show ?thesis
    using assms unfolding apdu_dispatcher_def Let_def
    by (auto simp: steady_simps intro!: answered_ret_sw answered_handleSign answered_handleGetPublicKey
        answered_handleSignByHash answered_handleECDHSecret answered_handleSignPersonalMessage
        answered_handleSignTIP712Message)
qed

end
