(* ===== verification/Der.thy ===== *)
theory Der
  imports Sample
begin

text \<open>
  The reply to a TIP-712 message: \<^verbatim>\<open>format_signature_out\<close> turns the DER signature of the SDK into the two
  32-byte integers the wallet expects.
\<close>

section \<open>Integers\<close>

text \<open>The two integers of a DER signature, right-aligned in 32 bytes.\<close>

definition pad32 :: "bytes \<Rightarrow> bytes" where
  "pad32 x = replicate (32 - length x) 0 @ drop (length x - 32) x"

lemma der_int_length: "der_int x \<Longrightarrow> 0 < length x \<and> length x \<le> 33 \<and> length (pad32 x) = 32"
  by (auto simp: der_int_def pad32_def)

lemma be_val_pad32: "der_int x \<Longrightarrow> be_val (pad32 x) = be_val x"
  by (cases x) (auto simp: der_int_def pad32_def be_val_append be_val_Cons)

lemma copy_der_integer_eq:
  assumes "der_int x" "sig = pre @ of_nat (length x) # x @ rest" "take 32 (drop off out) = replicate 32 0"
    "off + 32 \<le> length out"
  shows "copy_der_integer sig (Suc (length pre)) out off = Some (buf_write out off (pad32 x), Suc (length pre) + length x)"
proof -
  let ?m = "min 32 (length x)"
  have len: "0 < length x" "length x \<le> 33" using der_int_length [OF assms(1)] by auto
  have s: "unat (sig ! length pre) = length x"
    using len by (simp add: assms(2) nth_append unat_of_nat)
  have d: "take ?m (drop (Suc (length pre) + (length x - ?m)) sig) = drop (length x - 32) x"
    using len by (cases "length x = 33") (simp_all add: assms(2) min_def)
  have z: "buf_write out (off + 32 - ?m) (drop (length x - 32) x) = buf_write out off (pad32 x)"
  proof -
    have t: "take (off + 32 - ?m) out = take off out @ replicate (32 - ?m) 0"
    proof -
      have "take (off + 32 - ?m) out = take off out @ take (32 - ?m) (take 32 (drop off out))"
        by (simp add: take_add [symmetric] min_def)
      then show ?thesis by (simp only: assms(3)) simp
    qed
    show ?thesis using len t by (cases "length x \<le> 32") (simp_all add: buf_write_def pad32_def min_def)
  qed
  show ?thesis
  proof (cases "length x = 33")
    case False
    then have "?m = length x" using len by simp
    with False len d z show ?thesis by (simp add: copy_der_integer_def Let_def s)
  qed (use d z in \<open>simp add: copy_der_integer_def Let_def s\<close>)
qed

lemma take_replicate_drop: "take 32 (drop 32 (buf_write out 0 (pad32 x))) = take 32 (drop 32 out)" if "der_int x"
  using der_int_length [OF that] by (simp add: buf_write_def)

lemma format_signature_out_der:
  assumes "der_int r" "der_int v" "64 \<le> length out"
  shows "format_signature_out (der_signature r v @ rest) out = Some (pad32 r @ pad32 v @ drop 64 out)"
proof -
  let ?sig = "der_signature r v @ rest" and ?out = "buf_write out 0 (replicate 64 0)"
  have l: "length ?out = length out" using assms(3) by (simp add: length_buf_write)
  have "copy_der_integer ?sig (Suc (length [0x30 :: u8, of_nat (length r + length v + 4), 2])) ?out 0 =
      Some (buf_write ?out 0 (pad32 r), Suc (length [0x30 :: u8, of_nat (length r + length v + 4), 2]) + length r)"
    by (rule copy_der_integer_eq [OF assms(1)]) (use assms(3) l in \<open>simp_all add: der_signature_def buf_write_def\<close>)
  then have 1: "copy_der_integer ?sig 4 ?out 0 = Some (buf_write ?out 0 (pad32 r), 4 + length r)"
    by (simp add: eval_nat_numeral)
  let ?out1 = "buf_write ?out 0 (pad32 r)"
  have l1: "length ?out1 = length out" using l der_int_length [OF assms(1)] assms(3) by (simp add: length_buf_write)
  let ?pre = "[0x30, of_nat (length r + length v + 4), 2, of_nat (length r)] @ r @ [2] :: bytes"
  have "copy_der_integer ?sig (Suc (length ?pre)) ?out1 32 =
      Some (buf_write ?out1 32 (pad32 v), Suc (length ?pre) + length v)"
    by (rule copy_der_integer_eq [OF assms(2)])
      (use assms(3) l1 in \<open>simp_all add: der_signature_def take_replicate_drop [OF assms(1)]\<close>, simp add: buf_write_def)
  moreover have "Suc (length ?pre) = 4 + length r + 2" by simp
  ultimately have 2: "copy_der_integer ?sig (4 + length r + 2) ?out1 32 =
      Some (buf_write ?out1 32 (pad32 v), 4 + length r + 2 + length v)" by metis
  have "buf_write ?out1 32 (pad32 v) = pad32 r @ pad32 v @ drop 64 out"
    using der_int_length [OF assms(1)] der_int_length [OF assms(2)] by (simp add: buf_write_def)
  then show ?thesis using 1 2 by (simp add: format_signature_out_def)
qed

section \<open>Property\<close>

lemma length_der_signature:
  "der_int r \<Longrightarrow> der_int v \<Longrightarrow> length (der_signature r v) \<le> 72"
  using der_int_length [of r] der_int_length [of v] by (simp add: der_signature_def)

lemma signature_buffer:
  assumes "der_int r" "der_int v"
  shows "buf_write (replicate 100 0) 0 (der_signature r v) =
    der_signature r v @ replicate (100 - length (der_signature r v)) 0"
  using length_der_signature [OF assms] by (simp add: buf_write_def)

text \<open>The four calls of the hash succeed.\<close>

definition tip712_hashed :: "sdk \<Rightarrow> messageSigningContext712_t \<Rightarrow> bool" where
  "tip712_hashed k m \<longleftrightarrow> cx_keccak_call k [] \<and> cx_keccak_call k [TIP_712_MAGIC] \<and>
     cx_keccak_call k [TIP_712_MAGIC, m7_domainHash m] \<and> cx_keccak_call k [TIP_712_MAGIC, m7_domainHash m, m7_messageHash m]"

lemma signMessage712_not_hashed:
  "\<not> tip712_hashed k (messageSigningContext712 s) \<Longrightarrow> ui_callback_signMessage712_v0_ok k menu s = Some (False, s)"
  by (auto simp: tip712_hashed_def ui_callback_signMessage712_v0_ok_def Let_def)

lemma signMessage712_hashed:
  "tip712_hashed k (messageSigningContext712 s) \<Longrightarrow>
   ui_callback_signMessage712_v0_ok k menu s =
     (let m = messageSigningContext712 s in
      case ecdsa_sign_der k (take (m7_pathLength m) (m7_bip32Path m)) (tip712_hash k m) of
        None \<Rightarrow> Some (False, back_to_menu menu (io_send_sw E_SECURITY_STATUS_NOT_SATISFIED s))
      | Some (signature, parity_odd) \<Rightarrow>
          do { buf \<leftarrow> format_signature_out (buf_write (replicate 100 0) 0 signature) (G_io_apdu_buffer s);
               let buf1 = buf_set buf 64 (if parity_odd then 1 else 0);
               Some (True, back_to_menu menu
                       (io_send_response_pointer (take 65 buf1) E_OK (s\<lparr>G_io_apdu_buffer := buf1\<rparr>))) })"
  by (simp add: tip712_hashed_def ui_callback_signMessage712_v0_ok_def Let_def)

lemma signMessage712_reply:
  assumes "ecdsa_sign_der k (take (m7_pathLength m) (m7_bip32Path m)) (tip712_hash k m) = Some (der_signature r v, par)"
    "messageSigningContext712 s = m" "der_int r" "der_int v" "65 \<le> length (G_io_apdu_buffer s)" "tip712_hashed k m"
  defines "buf \<equiv> pad32 r @ pad32 v @ (if par then 1 else 0) # drop 65 (G_io_apdu_buffer s)"
  shows "ui_callback_signMessage712_v0_ok k menu s = Some (True, back_to_menu menu
     (io_send_response_pointer (pad32 r @ pad32 v @ [if par then 1 else 0]) E_OK (s\<lparr>G_io_apdu_buffer := buf\<rparr>)))"
proof -
  have f: "format_signature_out (buf_write (replicate 100 0) 0 (der_signature r v)) (G_io_apdu_buffer s) =
      Some (pad32 r @ pad32 v @ drop 64 (G_io_apdu_buffer s))"
    using format_signature_out_der [OF assms(3,4)] assms(5) by (simp add: signature_buffer [OF assms(3,4)])
  have "buf_set (pad32 r @ pad32 v @ drop 64 (G_io_apdu_buffer s)) 64 (if par then 1 else 0) = buf"
    using der_int_length [OF assms(3)] der_int_length [OF assms(4)]
    by (simp add: buf_set_def buf_write_def buf_def)
  then show ?thesis
    using assms(1,2,6) f der_int_length [OF assms(3)] der_int_length [OF assms(4)]
    by (simp add: signMessage712_hashed Let_def buf_def)
qed

text \<open>C22: The reply to an accepted TIP-712 message is the signature the SDK made of
  \<open>keccak256(0x19 0x01 || domain hash || message hash)\<close>, reformatted without loss: whatever the lengths of the
  two DER integers, the 65 bytes sent are the two numbers as 32-byte big-endian integers, and the parity. When one of
  the four calls of the hash fails, nothing is sent and nothing changes.\<close>

theorem tip712_signature_format:
  assumes "ecdsa_sign_der k (take (m7_pathLength m) (m7_bip32Path m))
      (cx_keccak256 k ([0x19, 0x01] @ m7_domainHash m @ m7_messageHash m)) = Some (der_signature r v, par)"
    "messageSigningContext712 s = m" "der_int r" "der_int v" "65 \<le> length (G_io_apdu_buffer s)"
  shows "if cx_keccak_call k [] \<and> cx_keccak_call k [[0x19, 0x01]] \<and> cx_keccak_call k [[0x19, 0x01], m7_domainHash m] \<and>
      cx_keccak_call k [[0x19, 0x01], m7_domainHash m, m7_messageHash m]
    then \<exists>s' a b. ui_callback_signMessage712_v0_ok k menu s = Some (True, s') \<and>
      outputs s' = outputs s @ [SendData (a @ b @ [if par then 1 else 0]) E_OK] \<and>
      length a = 32 \<and> be_val a = be_val r \<and> length b = 32 \<and> be_val b = be_val v \<and>
      length (G_io_apdu_buffer s') = length (G_io_apdu_buffer s)
    else ui_callback_signMessage712_v0_ok k menu s = Some (False, s)"
proof (cases "tip712_hashed k m")
  case False
  then show ?thesis
    using signMessage712_not_hashed [of k s menu] assms(2) by (simp add: tip712_hashed_def TIP_712_MAGIC_def)
next
  case True
  have "ecdsa_sign_der k (take (m7_pathLength m) (m7_bip32Path m)) (tip712_hash k m) = Some (der_signature r v, par)"
    using assms(1) by (simp add: tip712_hash_def TIP_712_MAGIC_def)
  note r = signMessage712_reply [OF this assms(2-5) True, of menu]
  let ?buf = "pad32 r @ pad32 v @ (if par then 1 else 0) # drop 65 (G_io_apdu_buffer s)"
  have "length (pad32 r) = 32" "length (pad32 v) = 32" "be_val (pad32 r) = be_val r" "be_val (pad32 v) = be_val v"
    using assms(3,4) der_int_length be_val_pad32 by blast+
  moreover from this have "length ?buf = length (G_io_apdu_buffer s)" using assms(5) by simp
  moreover have "outputs (back_to_menu menu (io_send_response_pointer d sw (s\<lparr>G_io_apdu_buffer := b\<rparr>))) = outputs s @ [SendData d sw]"
    "G_io_apdu_buffer (back_to_menu menu (io_send_response_pointer d sw (s\<lparr>G_io_apdu_buffer := b\<rparr>))) = b" for d sw b
    by (simp_all add: io_send_response_pointer_def ui_idle_def)
  ultimately have "\<exists>s' a b. ui_callback_signMessage712_v0_ok k menu s = Some (True, s') \<and>
      outputs s' = outputs s @ [SendData (a @ b @ [if par then 1 else 0]) E_OK] \<and>
      length a = 32 \<and> be_val a = be_val r \<and> length b = 32 \<and> be_val b = be_val v \<and>
      length (G_io_apdu_buffer s') = length (G_io_apdu_buffer s)"
    using r by metis
  then show ?thesis using True by (simp add: tip712_hashed_def TIP_712_MAGIC_def)
qed

theorem tip712_signature_format_witness:
  "\<exists>s' a b. ui_callback_signMessage712_v0_ok sample_sdk True sample_state = Some (True, s') \<and>
    outputs s' = outputs sample_state @ [SendData (a @ b @ [0]) E_OK] \<and> length a = 32 \<and> be_val a = 1"
proof -
  have d: "ecdsa_sign_der sample_sdk p h = Some (der_signature [1] [1], False)" for p h
    by (simp add: sample_sdk_def der_signature_def)
  have i: "der_int [1]" by (simp add: der_int_def)
  have "65 \<le> length (G_io_apdu_buffer sample_state)"
    by (simp add: sample_state_def app_init_def zero_state_def nv_app_state_init_def ui_idle_def
        terminate_signing_session_def Let_def)
  moreover have "cx_keccak_call sample_sdk xs" for xs by (simp add: sample_sdk_def)
  ultimately show ?thesis using tip712_signature_format [OF d refl i i, of sample_state True] by (auto simp: be_val_Cons)
qed

end
