(* ===== verification/Replies.thy ===== *)
theory Replies
  imports Well_Formed Der
begin

text \<open>
  Answers of the user, steps and runs: the size of every array is an invariant, every command gets one reply,
  no command and no answer hangs the application.
\<close>

section \<open>Answers of the user\<close>

lemma answered_712_ok:
  assumes "sdk_ok k" "steady n k s s1" "tip712_hashed k (messageSigningContext712 s1)"
  shows "\<exists>b s'. ui_callback_signMessage712_v0_ok k False s1 = Some (b, s') \<and> answered n k s (Returned, s')"
proof (cases "ecdsa_sign_der k (take (m7_pathLength (messageSigningContext712 s1)) (m7_bip32Path (messageSigningContext712 s1)))
    (tip712_hash k (messageSigningContext712 s1))")
  case None
  have "answered n k s (ret_sw E_SECURITY_STATUS_NOT_SATISFIED s1)" using assms(2) by (rule answered_ret_sw)
  with None show ?thesis by (auto simp: signMessage712_hashed [OF assms(3)] ret_sw_def Let_def)
next
  case (Some x)
  then obtain r v par where d: "der_int r" "der_int v"
      "ecdsa_sign_der k (take (m7_pathLength (messageSigningContext712 s1)) (m7_bip32Path (messageSigningContext712 s1)))
         (tip712_hash k (messageSigningContext712 s1)) = Some (der_signature r v, par)"
    using sdk_der [OF assms(1)] by (cases x) blast
  have l: "length (G_io_apdu_buffer s1) = n" "260 \<le> n" using assms(2) by (simp_all add: steady_simps)
  then have "length (pad32 r @ pad32 v @ c # drop 65 (G_io_apdu_buffer s1)) = n" for c
    using der_int_length [OF d(1)] der_int_length [OF d(2)] by simp
  then have "steady n k s (s1\<lparr>G_io_apdu_buffer := pad32 r @ pad32 v @ c # drop 65 (G_io_apdu_buffer s1)\<rparr>)" for c
    using assms(2) steady_updates(14) by blast
  then show ?thesis
    using signMessage712_reply [OF d(3) refl d(1,2) _ assms(3), of False] l by (auto simp: answered_send)
qed

lemma answered_callbacks:
  assumes "sdk_ok k" "steady n k s s1"
  shows "answered n k s (Returned, snd (ui_callback_signMessage_ok k False s1))"
    "answered n k s (Returned, snd (ui_callback_ecdh_ok k False s1))"
    "answered n k s (Returned, snd (ui_callback_tx_cancel False s1))"
    "answered n k s (Returned, snd (ui_callback_signMessage712_v0_cancel False s1))"
    "answered n k s (Returned, snd (ui_callback_address_ok False s1))"
proof -
  show "answered n k s (Returned, snd (ui_callback_signMessage_ok k False s1))"
    using answered_sign_and_send [OF assms] by (simp add: ui_callback_signMessage_ok_def case_prod_beta)
  have l: "length (G_io_apdu_buffer s1) = n" "260 \<le> n" using assms(2) by (simp_all add: steady_simps)
  have "steady n k s (s1\<lparr>G_io_apdu_buffer := buf_write (G_io_apdu_buffer s1) 0 x\<rparr>)" if "length x = 65" for x
    using l that assms(2) by (simp add: steady_updates length_buf_write)
  then show "answered n k s (Returned, snd (ui_callback_ecdh_ok k False s1))"
    using assms sdk_ecdh [OF assms(1)]
    by (auto simp: ui_callback_ecdh_ok_def Let_def answered_send ret_sw_def [symmetric] answered_ret_sw split: option.splits)
  show "answered n k s (Returned, snd (ui_callback_tx_cancel False s1))"
    using answered_terminate [OF answered_ret_sw [OF assms(2), unfolded ret_sw_def]]
    by (simp add: ui_callback_tx_cancel_def)
  have "steady n k s (s1\<lparr>G_io_apdu_buffer := buf_set (buf_set (G_io_apdu_buffer s1) 0 x) 1 y\<rparr>)" for x y
    using l assms(2) by (simp add: steady_updates length_buf_set)
  then show "answered n k s (Returned, snd (ui_callback_signMessage712_v0_cancel False s1))"
    by (simp add: ui_callback_signMessage712_v0_cancel_def Let_def ret_sw_def [symmetric] answered_ret_sw)
  show "answered n k s (Returned, snd (ui_callback_address_ok False s1))"
    using answered_pubkey [OF assms(2)] by (simp add: ui_callback_address_ok_def)
qed

text \<open>The screens the user still has to go through.\<close>

definition screens_left :: "app_state \<Rightarrow> nat" where
  "screens_left s =
     (case the_screen s of DataWarningScreen \<Rightarrow> 3 | CustomWarningScreen \<Rightarrow> 2 | TransactionScreen \<Rightarrow> 1 | AddressScreen \<Rightarrow> 1
      | _ \<Rightarrow> 0)"

lemma awaits_screens_left: "awaits_answer s \<longleftrightarrow> 0 < screens_left s"
  by (cases "the_screen s") (simp_all add: awaits_answer_def screens_left_def)

text \<open>The approval of a TIP-712 message whose hash fails, which ends without a reply.\<close>

definition silent :: "sdk \<Rightarrow> app_state \<Rightarrow> bool" where
  "silent k s \<longleftrightarrow> the_screen s = TransactionScreen \<and> ti_state (txInfos s) = APPROVAL_SIGN_TIP72_TRANSACTION \<and>
     \<not> tip712_hashed k (messageSigningContext712 s)"

text \<open>An answer: a refusal, the next screen, or a reply and a screen that waits for nothing.\<close>

definition progressed :: "nat \<Rightarrow> sdk \<Rightarrow> bool \<Rightarrow> app_state \<Rightarrow> app_state \<Rightarrow> bool" where
  "progressed n k accept s s' \<longleftrightarrow> wf_state n k s' \<and> G_called_from_swap s' = G_called_from_swap s \<and>
     (if \<not> accept then outputs s' = outputs s @ [SendSW E_CONDITIONS_OF_USE_NOT_SATISFIED] \<and> \<not> awaits_answer s'
      else if the_screen s = DataWarningScreen \<or> the_screen s = CustomWarningScreen
      then outputs s' = outputs s \<and> 0 < screens_left s' \<and> screens_left s' < screens_left s
      else (if silent k s then outputs s' = outputs s else (\<exists>x. outputs s' = outputs s @ [x])) \<and> \<not> awaits_answer s')"

lemma callback_outputs:
  "outputs (snd (ui_callback_signMessage_ok k False s)) \<noteq> outputs s"
  "outputs (snd (ui_callback_ecdh_ok k False s)) \<noteq> outputs s"
  "outputs (snd (ui_callback_address_ok False s)) \<noteq> outputs s"
  "outputs (snd (ui_callback_tx_ok k False s)) \<noteq> outputs s"
  by (auto simp: ui_callback_signMessage_ok_def ui_callback_ecdh_ok_def ui_callback_address_ok_def ui_callback_tx_ok_def
      sign_and_send_def io_send_sw_def io_send_response_pointer_def helper_send_response_pubkey_def
      terminate_signing_session_def ui_idle_def Let_def split: prod.splits bool.splits option.splits)

lemma refused_outputs:
  "outputs (snd (ui_callback_tx_cancel False s)) = outputs s @ [SendSW E_CONDITIONS_OF_USE_NOT_SATISFIED]"
  "2 \<le> length (G_io_apdu_buffer s) \<Longrightarrow>
   outputs (snd (ui_callback_signMessage712_v0_cancel False s)) = outputs s @ [SendSW E_CONDITIONS_OF_USE_NOT_SATISFIED]"
proof -
  show "outputs (snd (ui_callback_tx_cancel False s)) = outputs s @ [SendSW E_CONDITIONS_OF_USE_NOT_SATISFIED]"
    by (simp add: ui_callback_tx_cancel_def io_send_sw_def terminate_signing_session_def)
  have "word_rcat [0x69, 0x85 :: u8] = E_CONDITIONS_OF_USE_NOT_SATISFIED" by code_simp
  moreover assume "2 \<le> length (G_io_apdu_buffer s)"
  then have "take 2 (buf_set (buf_set (G_io_apdu_buffer s) 0 0x69) 1 0x85) = [0x69, 0x85]"
    by (cases "G_io_apdu_buffer s"; cases "tl (G_io_apdu_buffer s)") (auto simp: buf_set_def buf_write_def)
  ultimately show "outputs (snd (ui_callback_signMessage712_v0_cancel False s)) = outputs s @ [SendSW E_CONDITIONS_OF_USE_NOT_SATISFIED]"
    by (simp add: ui_callback_signMessage712_v0_cancel_def io_send_sw_def Let_def)
qed

lemma answered_status:
  "answered n k s (Returned, s1) \<Longrightarrow> wf_state n k (status_page s1) \<and>
   G_called_from_swap (status_page s1) = G_called_from_swap s \<and> \<not> awaits_answer (status_page s1)"
  by (auto simp: answered_def status_page_def wf_state_def awaits_answer_def)

lemma progressed_reply:
  "answered n k s (Returned, s1) \<Longrightarrow> outputs s1 \<noteq> outputs s \<Longrightarrow> \<not> silent k s \<Longrightarrow>
   the_screen s \<notin> {DataWarningScreen, CustomWarningScreen} \<Longrightarrow> progressed n k True s (status_page s1)"
  using answered_status [of n k s s1] by (auto simp: answered_def progressed_def status_page_def)

lemma progressed_refused:
  "answered n k s (Returned, s1) \<Longrightarrow> outputs s1 = outputs s @ [SendSW E_CONDITIONS_OF_USE_NOT_SATISFIED] \<Longrightarrow>
   progressed n k False s (status_page s1)"
  using answered_status [of n k s s1] by (auto simp: progressed_def status_page_def)

lemma user_choice_refused:
  assumes "sdk_ok k" "wf_state n k s" "awaits_answer s"
  shows "\<exists>s'. user_choice k False s = (Returned, s') \<and> progressed n k False s s'"
proof -
  have s: "steady n k s s" using assms(2) by (rule steady_refl)
  then have "length (G_io_apdu_buffer s) = n" "260 \<le> n" by (simp_all add: steady_simps)
  then have "2 \<le> length (G_io_apdu_buffer s)" by simp
  note cb = progressed_refused [OF answered_callbacks(3) [OF assms(1) s] refused_outputs(1)]
    progressed_refused [OF answered_callbacks(4) [OF assms(1) s] refused_outputs(2) [OF this]]
  then show ?thesis
    using assms(3)
    by (cases "the_screen s")
      (auto simp: awaits_answer_def user_choice_def dataWarningChoice_def customContractWarningChoice_def reviewChoice_def
        rejectChoice_def display_address_callback_def)
qed

lemma review_accepted:
  assumes "sdk_ok k" "wf_state n k s" "the_screen s = TransactionScreen"
  shows "\<exists>s'. reviewChoice k True s = (Returned, s') \<and> progressed n k True s s'"
proof -
  have s: "steady n k s s" using assms(2) by (rule steady_refl)
  show ?thesis
  proof (cases "ti_state (txInfos s) = APPROVAL_SIGN_TIP72_TRANSACTION")
    case False
    then have q: "\<not> silent k s" "the_screen s \<notin> {DataWarningScreen, CustomWarningScreen}"
      using assms(3) by (simp_all add: silent_def)
    note cb = progressed_reply [OF answered_callbacks(1) [OF assms(1) s] callback_outputs(1) q]
      progressed_reply [OF answered_callbacks(2) [OF assms(1) s] callback_outputs(2) q]
      progressed_reply [OF answered_tx_ok [OF assms(1) s] callback_outputs(4) q]
    then show ?thesis using False by (auto simp: reviewChoice_def Let_def)
  next
    case t: True
    show ?thesis
    proof (cases "tip712_hashed k (messageSigningContext712 s)")
      case True
      then have q: "\<not> silent k s" "the_screen s \<notin> {DataWarningScreen, CustomWarningScreen}"
        using assms(3) by (simp_all add: silent_def)
      obtain b s7 where m: "ui_callback_signMessage712_v0_ok k False s = Some (b, s7)" "answered n k s (Returned, s7)"
        using answered_712_ok [OF assms(1) s True] by blast
      have "outputs s7 \<noteq> outputs s"
        using m(1) by (auto simp: signMessage712_hashed [OF True] Let_def io_send_sw_def io_send_response_pointer_def
            split: option.splits prod.splits bind_splits)
      from progressed_reply [OF m(2) this q] show ?thesis using m(1) t by (simp add: reviewChoice_def)
    next
      case False
      have "progressed n k True s (status_page s)"
        using False t assms(2,3) by (simp add: progressed_def silent_def status_page_def wf_state_def awaits_answer_def)
      then show ?thesis using signMessage712_not_hashed [OF False] t by (simp add: reviewChoice_def)
    qed
  qed
qed

lemma user_choice_accepted:
  assumes "sdk_ok k" "wf_state n k s" "awaits_answer s"
  shows "\<exists>s'. user_choice k True s = (Returned, s') \<and> progressed n k True s s'"
proof -
  have s: "steady n k s s" using assms(2) by (rule steady_refl)
  consider "the_screen s = DataWarningScreen" | "the_screen s = CustomWarningScreen" | "the_screen s = TransactionScreen"
    | "the_screen s = AddressScreen" using assms(3) by (auto simp: awaits_answer_def)
  then show ?thesis
  proof cases
    case 3
    then show ?thesis using review_accepted [OF assms(1,2)] by (simp add: user_choice_def)
  next
    case 4
    then have "\<not> silent k s" "the_screen s \<notin> {DataWarningScreen, CustomWarningScreen}" by (simp_all add: silent_def)
    from progressed_reply [OF answered_callbacks(5) [OF assms(1) s] callback_outputs(3) this] 4
    show ?thesis by (simp add: user_choice_def display_address_callback_def)
  qed (use assms(2) in \<open>auto simp: user_choice_def dataWarningChoice_def customContractWarningChoice_def displayTransaction_def
      progressed_def wf_state_def screens_left_def\<close>)
qed

lemma user_choice_progress:
  assumes "sdk_ok k" "wf_state n k s" "awaits_answer s"
  shows "\<exists>s'. user_choice k accept s = (Returned, s') \<and> progressed n k accept s s'"
  using user_choice_refused [OF assms] user_choice_accepted [OF assms] by (cases accept) simp_all

section \<open>Steps\<close>

lemma app_round_answered:
  assumes "sdk_ok k" "wf_state n k s" "length received \<le> length (G_io_apdu_buffer s)"
  shows "answered n k s (app_round k received cmd s) \<and> (\<forall>e. fst (app_round k received cmd s) \<noteq> Thrown e)"
proof -
  define s0 where "s0 = s\<lparr>G_io_apdu_buffer := buf_write (G_io_apdu_buffer s) 0 received\<rparr>"
  have s0: "steady n k s s0"
    using assms(2,3) by (simp add: s0_def steady_updates steady_refl length_buf_write) (simp add: wf_state_def)
  show ?thesis
  proof (cases cmd)
    case None
    then show ?thesis using answered_ret_sw [OF s0] by (simp add: app_round_def s0_def Let_def ret_sw_def)
  next
    case (Some c)
    obtain r s1 where d: "apdu_dispatcher k c s0 = (r, s1)" by fastforce
    then have a: "answered n k s (r, s1)" using answered_dispatcher [OF assms(1) s0, of c] by simp
    then have "r = Thrown e \<Longrightarrow> steady n k s s1" for e by (simp add: answered_def steady_def)
    then have "r = Thrown e \<Longrightarrow> answered n k s (ret_sw e s1)" for e using answered_ret_sw by blast
    with a d Some show ?thesis by (cases r) (auto simp: app_round_def s0_def Let_def ret_sw_def)
  qed
qed

lemma wf_provide_identity:
  assumes "sdk_ok k" "wf_contacts (ab_sizes_of k) l" "21 \<le> length (id_identifier i)"
  shows "wf_contacts (ab_sizes_of k) (snd (handle_provide_identity (ab_sizes_of k) mem l i))"
  using assms(2,3) sdk_names [OF assms(1)]
  by (simp add: handle_provide_identity_def ab_contact_list_push_def wf_contact_def length_strlcpy strlcpy_NUL)

lemma wf_provide_account:
  assumes "sdk_ok k" "wf_contacts (ab_sizes_of k) l"
  shows "wf_contacts (ab_sizes_of k)
    (snd (handle_provide_ledger_account (ab_sizes_of k) (derive_tron_address k) mem l a))"
proof -
  have "derive_tron_address k p = Some x \<Longrightarrow> length x = 21" for p x
    using sdk_keccak256 [OF assms(1)]
    by (auto simp: derive_tron_address_def getAddressFromPublicKey_def header_constants Let_def length_buf_set)
  then show ?thesis
    using assms(2) sdk_names [OF assms(1)]
    by (auto simp: handle_provide_ledger_account_def ab_contact_list_push_def wf_contact_def length_strlcpy strlcpy_NUL
        split: option.splits)
qed

lemma wf_state_updates:
  assumes "wf_state n k s"
  shows "wf_state n k (s\<lparr>ab_contacts := l\<rparr>) \<longleftrightarrow> wf_contacts (ab_sizes_of k) l" "wf_state n k (s\<lparr>the_screen := sc\<rparr>)"
    "wf_state n k (s\<lparr>N_settings := x\<rparr>)"
  using assms by (simp_all add: wf_state_def)

text \<open>The number of screens left and of replies sent, from one state to the next.\<close>

definition is_command :: "event \<Rightarrow> bool" where
  "is_command e \<longleftrightarrow> (case e of Command _ _ \<Rightarrow> True | _ \<Rightarrow> False)"

definition owed :: "app_state \<Rightarrow> nat" where
  "owed s = (if awaits_answer s then 1 else 0)"

definition missing :: "sdk \<Rightarrow> app_state \<Rightarrow> event \<Rightarrow> nat" where
  "missing k s e = (if e = Answer True \<and> silent k s then 1 else 0)"

lemma app_step_effect:
  assumes "app_step k s e s'" "sdk_ok k" "wf_state n k s"
  shows "wf_state n k s' \<and> G_called_from_swap s' = G_called_from_swap s \<and>
    length (outputs s') + owed s' + missing k s e = length (outputs s) + owed s + (if is_command e then 1 else 0)"
  using assms(1)
proof cases
  case (command received cmd)
  then have "answered n k s (Returned, s')"
    using app_round_answered [OF assms(2,3), of received cmd] by simp
  then show ?thesis
    using command(2) by (auto simp: answered_def is_command_def missing_def command(1) owed_def awaits_answer_def)
next
  case (answer accept)
  then have p: "progressed n k accept s s'" using user_choice_progress [OF assms(2,3), of accept] by auto
  have "owed s = 1" "\<not> is_command e" using answer(1,2) by (simp_all add: owed_def is_command_def)
  moreover have "owed s' = (if accept \<and> (the_screen s = DataWarningScreen \<or> the_screen s = CustomWarningScreen) then 1 else 0)"
    using p by (auto simp: progressed_def owed_def awaits_screens_left split: if_splits)
  moreover have "silent k s \<Longrightarrow> \<not> (the_screen s = DataWarningScreen \<or> the_screen s = CustomWarningScreen)" by (simp add: silent_def)
  ultimately show ?thesis
    using p answer(1) by (auto simp: progressed_def missing_def split: if_splits)
next
  case (status_over accept)
  then have "\<not> silent k s" by (auto simp: silent_def)
  with status_over show ?thesis using assms(3) by (simp add: ui_idle_def wf_state_updates is_command_def missing_def owed_def awaits_answer_def)
next
  case (switch i)
  then show ?thesis
    using assms(3) by (simp add: settingsControlsCallback_def SETTING_TOGGLE_def wf_state_updates is_command_def missing_def owed_def awaits_answer_def)
next
  case (provide_identity i mem)
  then show ?thesis
    using assms(3) wf_provide_identity [OF assms(2), of "ab_contacts s" i mem]
    by (simp add: wf_state_updates is_command_def missing_def owed_def awaits_answer_def) (simp add: wf_state_def)
next
  case (provide_account mem a)
  then show ?thesis
    using assms(3) wf_provide_account [OF assms(2), of "ab_contacts s" mem a]
    by (simp add: wf_state_updates is_command_def missing_def owed_def awaits_answer_def) (simp add: wf_state_def)
next
  case (edit_applied e)
  then show ?thesis
    using assms(3) wf_apply_edit [OF assms(2), of "ab_contacts s" e]
    by (simp add: wf_state_updates is_command_def missing_def owed_def awaits_answer_def) (simp add: wf_state_def)
qed

section \<open>Runs\<close>

text \<open>An invariant of runs, which may speak of the events so far.\<close>

locale run_invariant =
  fixes k :: sdk
    and inv :: "event list \<Rightarrow> app_state \<Rightarrow> bool"
  assumes step_keeps: "inv es s \<Longrightarrow> app_step k s e s' \<Longrightarrow> inv (es @ [e]) s'"
begin

lemma run_keeps: "app_run k s es s' \<Longrightarrow> inv [] s \<Longrightarrow> inv es s'"
  by (induction rule: app_run.induct) (auto intro: step_keeps)

end

definition is_approval :: "event \<Rightarrow> bool" where
  "is_approval e \<longleftrightarrow> e = Answer True"

lemma missing_bounds: "missing k s e \<le> (if is_approval e then 1 else 0)" "\<forall>xs. cx_keccak_call k xs \<Longrightarrow> missing k s e = 0"
  by (simp_all add: missing_def is_approval_def silent_def tip712_hashed_def)

interpretation replies: run_invariant k
  "\<lambda>es s. sdk_ok k \<longrightarrow> wf_state n k s \<and> length (outputs s) + owed s \<le> length (filter is_command es) \<and>
     length (filter is_command es) \<le> length (outputs s) + owed s + length (filter is_approval es) \<and>
     ((\<forall>xs. cx_keccak_call k xs) \<longrightarrow> length (outputs s) + owed s = length (filter is_command es))" for k n
proof
  fix es s e s'
  assume h: "sdk_ok k \<longrightarrow> wf_state n k s \<and> length (outputs s) + owed s \<le> length (filter is_command es) \<and>
     length (filter is_command es) \<le> length (outputs s) + owed s + length (filter is_approval es) \<and>
     ((\<forall>xs. cx_keccak_call k xs) \<longrightarrow> length (outputs s) + owed s = length (filter is_command es))" "app_step k s e s'"
  show "sdk_ok k \<longrightarrow> wf_state n k s' \<and> length (outputs s') + owed s' \<le> length (filter is_command (es @ [e])) \<and>
     length (filter is_command (es @ [e])) \<le> length (outputs s') + owed s' + length (filter is_approval (es @ [e])) \<and>
     ((\<forall>xs. cx_keccak_call k xs) \<longrightarrow> length (outputs s') + owed s' = length (filter is_command (es @ [e])))"
  proof
    assume k: "sdk_ok k"
    note e = app_step_effect [OF h(2) k, of n] and b = missing_bounds(1) [of k s e] missing_bounds(2) [of k s e]
    have w: "wf_state n k s" using h(1) k by blast
    have l: "length (filter is_command (es @ [e])) = length (filter is_command es) + (if is_command e then 1 else 0)"
      "length (filter is_approval (es @ [e])) = length (filter is_approval es) + (if is_approval e then 1 else 0)" by simp_all
    show "wf_state n k s' \<and> length (outputs s') + owed s' \<le> length (filter is_command (es @ [e])) \<and>
     length (filter is_command (es @ [e])) \<le> length (outputs s') + owed s' + length (filter is_approval (es @ [e])) \<and>
     ((\<forall>xs. cx_keccak_call k xs) \<longrightarrow> length (outputs s') + owed s' = length (filter is_command (es @ [e])))"
      unfolding l using e [OF w] h(1) k b by auto
  qed
qed

lemma initial_state:
  assumes "260 \<le> n"
  shows "wf_state n k (app_init (zero_state n settings))" "outputs (app_init (zero_state n settings)) = []"
    "the_screen (app_init (zero_state n settings)) = IdleScreen"
    "G_called_from_swap (app_init (zero_state n settings)) = False"
proof -
  have "wf_entry zero_entry" by (simp add: wf_entry_def zero_entry_def list_all_iff)
  then show "wf_state n k (app_init (zero_state n settings))"
    using assms
    by (simp add: wf_state_def app_init_def zero_state_def nv_app_state_init_def terminate_signing_session_def ui_idle_def
        address_book_contact_cleanup_def wf_transaction_def wf_public_key_def wf_712_def zero_path_def wf_path_def
        header_constants list_all_iff Let_def)
qed (simp_all add: app_init_def zero_state_def nv_app_state_init_def terminate_signing_session_def ui_idle_def Let_def)

section \<open>Properties\<close>

text \<open>C7: No sequence of commands, answers of the user, settings changes and address-book commands makes the
  application write outside its arrays: every array of the global state keeps its size (a store past the end
  would make it longer), every token name stays NUL-terminated in its 67 bytes, every decimal count at most 18,
  every vote count at most 5, and the contacts well-formed.\<close>

theorem memory_safe:
  assumes "sdk_ok k" "260 \<le> n" "app_run k (app_init (zero_state n settings)) es s"
  shows "wf_state n k s"
  using replies.run_keeps [OF assms(3), of n] initial_state [OF assms(2)] assms(1)
  by (simp add: owed_def awaits_answer_def)

theorem memory_safe_witness:
  "wf_state 260 sample_sdk (settingsControlsCallback 0 (app_init (zero_state 260 0x80)))"
proof -
  have "app_run sample_sdk (app_init (zero_state 260 0x80)) ([] @ [Switch 0])
      (settingsControlsCallback 0 (app_init (zero_state 260 0x80)))"
    by (rule run_step [OF run_nil], rule app_step.switch) (simp add: initial_state)
  from memory_safe [OF sample_sdk_ok _ this] show ?thesis by simp
qed

text \<open>C8: Every command gets exactly one reply as long as the SDK's Keccak calls succeed: in every run from start-up, the
  number of replies sent equals the number of commands received, less one exactly while a screen waits for the
  user. Whatever these calls return, no command gets two replies, and a reply is missing at most once for each screen
  the user approved (only the approval of a TIP-712 message can end without a reply).\<close>

theorem one_reply_per_command:
  assumes "sdk_ok k" "260 \<le> n" "app_run k (app_init (zero_state n settings)) es s"
  defines "replied \<equiv> length (outputs s) + (if awaits_answer s then 1 else 0)"
    and "received \<equiv> length (filter (\<lambda>e. case e of Command _ _ \<Rightarrow> True | _ \<Rightarrow> False) es)"
  shows "((\<forall>xs. cx_keccak_call k xs) \<longrightarrow> replied = received) \<and> replied \<le> received \<and>
    received \<le> replied + length (filter (\<lambda>e. e = Answer True) es)"
  using replies.run_keeps [OF assms(3), of n] initial_state [OF assms(2)] assms(1)
  unfolding replied_def received_def
  by (simp add: owed_def awaits_answer_def is_command_def [abs_def] is_approval_def [abs_def])

theorem one_reply_per_command_witness:
  "\<exists>s. app_run sample_sdk (app_init (zero_state 260 0x80)) [Command [] None] s \<and> length (outputs s) = 1"
proof -
  let ?s = "app_init (zero_state 260 0x80)"
  have r: "app_round sample_sdk [] None ?s = (Returned, io_send_sw E_WRONG_DATA_LENGTH ?s)"
    by (simp add: app_round_def ret_sw_def)
  have run: "app_run sample_sdk ?s ([] @ [Command [] None]) (io_send_sw E_WRONG_DATA_LENGTH ?s)"
    by (rule run_step [OF run_nil], rule app_step.command [OF _ _ _ r]) (simp_all add: initial_state awaits_answer_def)
  have "\<forall>xs. cx_keccak_call sample_sdk xs" by (simp add: sample_sdk_def)
  with one_reply_per_command [OF sample_sdk_ok _ run] run show ?thesis
    by (auto simp: awaits_answer_def io_send_sw_def initial_state)
qed

text \<open>C9: The application never hangs on a command, whatever its bytes: outside a swap, each command of at most
  255 data bytes is handled to the end, and leaves either one reply and no screen waiting, or no reply and a
  screen that waits for the user. No handler throws out of the main loop, loops for ever or exits.\<close>

theorem command_answered:
  assumes "sdk_ok k" "wf_state n k s" "\<not> awaits_answer s" "\<not> G_called_from_swap s"
    "length received \<le> length (G_io_apdu_buffer s)" "length (cmd_data c) \<le> 255"
  shows "\<exists>s'. app_step k s (Command received (Some c)) s' \<and>
    ((\<exists>x. outputs s' = outputs s @ [x]) \<and> \<not> awaits_answer s' \<or> outputs s' = outputs s \<and> awaits_answer s')"
proof -
  obtain r s' where r: "app_round k received (Some c) s = (r, s')" by fastforce
  then have a: "answered n k s (r, s')" "\<And>e. r \<noteq> Thrown e"
    using app_round_answered [OF assms(1,2,5), of "Some c"] by auto
  then have "r = Returned" using assms(4) by (cases r) (auto simp: answered_def)
  then show ?thesis
    using a r assms(3,5,6)
    by (intro exI [of _ s']) (auto simp: answered_def awaits_answer_def intro!: app_step.command)
qed

theorem command_answered_witness:
  "\<exists>s'. app_step sample_sdk sample_state
     (Command [] (Some \<lparr>cmd_cla = 0xE0, cmd_ins = 0x04, cmd_p1 = 0x10, cmd_p2 = 0, cmd_data = sample_path\<rparr>)) s'"
  using command_answered [OF sample_sdk_ok, of 260 sample_state "[]"
      "\<lparr>cmd_cla = 0xE0, cmd_ins = 0x04, cmd_p1 = 0x10, cmd_p2 = 0, cmd_data = sample_path\<rparr>"]
  by (auto simp: sample_state_def initial_state awaits_answer_def sample_path_def)

text \<open>C18: No review is endless: an answer to a waiting screen is always handled. A refusal sends the status word 6985
  and leaves no screen waiting; the acceptance of a warning sends nothing and shows the next of at most three
  screens; the acceptance of the last screen leaves no screen waiting and sends exactly one reply, but for a TIP-712
  message whose hash fails in the SDK, where it sends none.\<close>

theorem review_ends:
  assumes "sdk_ok k" "wf_state n k s" "awaits_answer s"
  shows "\<exists>s'. app_step k s (Answer accept) s' \<and>
    (if \<not> accept then outputs s' = outputs s @ [SendSW E_CONDITIONS_OF_USE_NOT_SATISFIED] \<and> \<not> awaits_answer s'
     else if the_screen s = DataWarningScreen \<or> the_screen s = CustomWarningScreen
     then outputs s' = outputs s \<and> awaits_answer s' \<and> screens_left s' < screens_left s \<and> screens_left s \<le> 3
     else \<not> awaits_answer s' \<and> (if silent k s then outputs s' = outputs s else (\<exists>x. outputs s' = outputs s @ [x])))"
proof -
  obtain s' where s': "user_choice k accept s = (Returned, s')" "progressed n k accept s s'"
    using user_choice_progress [OF assms] by blast
  have "app_step k s (Answer accept) s'" using app_step.answer [OF assms(3) s'(1)] .
  moreover have "screens_left s \<le> 3" by (simp add: screens_left_def split: screen.splits)
  ultimately show ?thesis using s'(2) unfolding progressed_def awaits_screens_left by (intro exI [of _ s']) (simp split: if_splits)
qed

theorem review_ends_witness:
  "\<exists>s'. app_step sample_sdk (sample_state\<lparr>the_screen := TransactionScreen\<rparr>) (Answer True) s' \<and> \<not> awaits_answer s'"
proof -
  let ?s = "sample_state\<lparr>the_screen := TransactionScreen\<rparr>"
  have "wf_state 260 sample_sdk ?s" "awaits_answer ?s" "screens_left ?s = 1"
    by (simp_all add: sample_state_def initial_state wf_state_updates awaits_answer_def screens_left_def)
  with review_ends [OF sample_sdk_ok, of 260 ?s True] show ?thesis by auto
qed

end
