(* ===== verification/Encoded_Tx.thy ===== *)
theory Encoded_Tx
  imports Parse
begin

text \<open>
  Transactions as a wallet encodes them, built with the reference encoder, and what the parser extracts
  from them.
\<close>

section \<open>Encodings\<close>

definition enc_any :: "bytes \<Rightarrow> bytes \<Rightarrow> bytes" where
  "enc_any url v = enc_len 1 url @ enc_len 2 v"

definition enc_contract :: "nat \<Rightarrow> bytes \<Rightarrow> bytes \<Rightarrow> bytes" where
  "enc_contract type url v = enc_int 1 type @ enc_len 2 (enc_any url v)"

text \<open>
  \<^verbatim>\<open>protocol.Transaction.raw\<close> with one contract: reference block, expiration, the contract, timestamp and the
  fee limit, if there is one.
\<close>

definition enc_tx :: "bytes \<Rightarrow> bytes \<Rightarrow> nat \<Rightarrow> nat \<Rightarrow> bytes \<Rightarrow> bytes \<Rightarrow> nat \<Rightarrow> nat \<Rightarrow> bytes" where
  "enc_tx ref_bytes ref_hash expiration type url v timestamp fee =
     enc_len 1 ref_bytes @ enc_len 4 ref_hash @ enc_int 8 expiration @ enc_len 11 (enc_contract type url v) @
     enc_int 14 timestamp @ (if fee = 0 then [] else enc_int 18 fee)"

section \<open>Decoding the transaction\<close>

lemma callback_none: "cb i = None \<Longrightarrow> callback_loop cb i sub u = Some u"
  by (subst callback_loop.simps) (simp add: pb_default_field_callback_def)

lemma callback_captures:
  "cs_contract_buffer u = None \<Longrightarrow> callback_loop tx_callbacks 2 sub u = Some (u\<lparr>cs_contract_buffer := Some sub\<rparr>)"
  by (subst callback_loop.simps)
    (simp add: pb_default_field_callback_def tx_callbacks_def pb_decode_contract_parameter_def)

lemma decode_any:
  assumes "length url < 2 ^ 32" "length v < 2 ^ 32" "cs_contract_buffer u = None"
  shows "pb_decode_inner tx_callbacks google_protobuf_Any (IStream g p (enc_any url v)) m u =
    Some (m, u\<lparr>cs_contract_buffer :=
      Some (IStream g (p + (length (enc_any url v) - length v)) v)\<rparr>)"
proof -
  have "pb_decode_inner tx_callbacks google_protobuf_Any (IStream g p (enc_len 1 url @ enc_len 2 v)) m u =
      pb_decode_inner tx_callbacks google_protobuf_Any (IStream g (p + length (enc_len 1 url)) (enc_len 2 v)) m u"
    by (rule inner_callback [where i = 1])
      (use assms in \<open>simp_all add: google_protobuf_Any_def pb_field_iter_find_def callback_none tx_callbacks_def\<close>)
  also have "\<dots> = pb_decode_inner tx_callbacks google_protobuf_Any (IStream g (p + length (enc_len 1 url)) (enc_len 2 v @ [])) m u"
    by simp
  also have "\<dots> = pb_decode_inner tx_callbacks google_protobuf_Any
      (IStream g (p + length (enc_len 1 url) + length (enc_len 2 v)) []) m
      (u\<lparr>cs_contract_buffer := Some (IStream g (p + length (enc_len 1 url) + length (enc_key 2 2) +
          length (enc_varint (length v))) v)\<rparr>)"
    by (rule inner_callback [where i = 2])
      (use assms in \<open>simp_all add: google_protobuf_Any_def pb_field_iter_find_def callback_captures\<close>)
  finally show ?thesis by (simp add: enc_any_def inner_end) (simp add: enc_len_def)
qed

lemma find_Field: "find P (f # fs) = (if P f then Some f else find P fs)"
  by simp

lemma decode_contract:
  assumes "length url < 2 ^ 32" "length (enc_any url v) < 2 ^ 32" "cs_contract_buffer u = None"
    "es \<in> {1, 4}" "type < 256"
  shows "\<exists>m. pb_decode_inner tx_callbacks (protocol_Transaction_Contract es) (IStream g p (enc_contract type url v))
      (pb_message_set_to_defaults (protocol_Transaction_Contract es)) u =
    Some (m, u\<lparr>cs_contract_buffer := Some (IStream g (p + (length (enc_contract type url v) - length v)) v)\<rparr>) \<and>
    m_has m 2 \<and> m_int m 1 = of_nat type \<and> m_int m 5 = 0"
proof -
  let ?fs = "protocol_Transaction_Contract es"
  let ?m0 = "pb_message_set_to_defaults ?fs"
  let ?m1 = "set_slot ?m0 (Slot 1 (s_has (get_slot ?m0 1)) [VInt (of_nat type)])"
  let ?p1 = "p + length (enc_int 1 type)"
  let ?q = "?p1 + length (enc_key 2 2) + length (enc_varint (length (enc_any url v)))"
  have v: "length v \<le> length (enc_any url v)" by (simp add: enc_any_def enc_len_def)
  then have any: "pb_decode_inner tx_callbacks google_protobuf_Any (IStream g ?q (enc_any url v)) m u =
      Some (m, u\<lparr>cs_contract_buffer := Some (IStream g (?q + (length (enc_any url v) - length v)) v)\<rparr>)" for m
    using assms by (intro decode_any) auto
  have f2: "pb_field_iter_find ?fs (of_nat 2) = Some (Field 2 STATIC OPTIONAL (LT_SUBMESSAGE google_protobuf_Any))"
    by (simp add: protocol_Transaction_Contract_def pb_field_iter_find_def)
  have "pb_decode_inner tx_callbacks ?fs (IStream g p (enc_int 1 type @ enc_len 2 (enc_any url v))) ?m0 u =
      pb_decode_inner tx_callbacks ?fs (IStream g ?p1 (enc_len 2 (enc_any url v) @ [])) ?m1 u"
    using inner_uint [of ?fs 1 es type tx_callbacks g p "enc_len 2 (enc_any url v)" ?m0 u] assms(4,5)
    by (auto simp: protocol_Transaction_Contract_def pb_field_iter_find_def)
  also have "\<dots> = pb_decode_inner tx_callbacks ?fs (IStream g (?p1 + length (enc_len 2 (enc_any url v))) [])
      (set_slot ?m1 (submessage_store (Field 2 STATIC OPTIONAL (LT_SUBMESSAGE google_protobuf_Any)) (get_slot ?m1 (of_nat 2))
        (case s_vals (get_slot ?m1 2) of [VMsg m] \<Rightarrow> m | _ \<Rightarrow> pb_message_set_to_defaults google_protobuf_Any)))
      (u\<lparr>cs_contract_buffer := Some (IStream g (?q + (length (enc_any url v) - length v)) v)\<rparr>)"
    by (rule inner_submessage [OF f2]) (use assms(2) any in \<open>simp_all add: submessage_target_def\<close>)
  finally show ?thesis
    using v
    by (simp add: enc_contract_def inner_end)
      (simp add: enc_len_def protocol_Transaction_Contract_def pb_message_set_to_defaults_def set_slot_def
        get_slot_def submessage_store_def m_has_def m_int_def)
qed

text \<open>The position of the contract's bytes in the transaction.\<close>

definition value_offset :: "bytes \<Rightarrow> bytes \<Rightarrow> nat \<Rightarrow> nat \<Rightarrow> bytes \<Rightarrow> bytes \<Rightarrow> nat" where
  "value_offset ref_bytes ref_hash expiration type url v =
     length (enc_len 1 ref_bytes @ enc_len 4 ref_hash @ enc_int 8 expiration @ enc_len 11 (enc_contract type url v))
     - length v"

lemma enc_len_tail: "\<exists>pre. enc_len tag bs = pre @ bs"
  by (auto simp: enc_len_def)

lemma enc_contract_tail: "\<exists>pre. enc_contract type url v = pre @ v"
  using enc_len_tail [of 2 v] enc_len_tail [of 2 "enc_any url v"] by (auto simp: enc_contract_def enc_any_def)

lemma value_in_tx:
  fixes ref_bytes ref_hash expiration type url v timestamp fee
  defines "tx \<equiv> enc_tx ref_bytes ref_hash expiration type url v timestamp fee"
    and "off \<equiv> value_offset ref_bytes ref_hash expiration type url v"
  shows "take (length v) (drop off tx) = v \<and> off + length v \<le> length tx"
proof -
  obtain pre where pre: "enc_len 11 (enc_contract type url v) = pre @ v"
    using enc_len_tail [of 11 "enc_contract type url v"] enc_contract_tail [of type url v] by auto
  show ?thesis by (simp add: tx_def off_def enc_tx_def value_offset_def pre)
qed

lemma decode_tx:
  assumes "length ref_bytes < 2 ^ 32" "length ref_hash < 2 ^ 32" "length (enc_contract type url v) < 2 ^ 32"
    "es \<in> {1, 4}" "type < 256" "fee < 2 ^ 64"
  shows "\<exists>m. pb_decode tx_callbacks (protocol_Transaction_raw es)
      (IStream RInput 0 (enc_tx ref_bytes ref_hash expiration type url v timestamp fee))
      \<lparr>cs_dataBytes = n, cs_contract_buffer = None\<rparr> =
    Some (m, \<lparr>cs_dataBytes = n, cs_contract_buffer =
      Some (IStream RInput (value_offset ref_bytes ref_hash expiration type url v) v)\<rparr>) \<and>
    m_int m 18 = of_nat fee \<and> m_has (m_msg m 11) 2 \<and> m_int (m_msg m 11) 1 = of_nat type \<and>
    m_int (m_msg m 11) 5 = 0"
proof -
  let ?fs = "protocol_Transaction_raw es"
  let ?u = "\<lparr>cs_dataBytes = n, cs_contract_buffer = None\<rparr>"
  let ?m0 = "pb_message_set_to_defaults ?fs"
  let ?c = "enc_contract type url v"
  let ?r4 = "enc_int 14 timestamp @ (if fee = 0 then [] else enc_int 18 fee)"
  let ?r3 = "enc_len 11 ?c @ ?r4"
  let ?r2 = "enc_int 8 expiration @ ?r3"
  let ?r1 = "enc_len 4 ref_hash @ ?r2"
  let ?p1 = "length (enc_len 1 ref_bytes)"
  let ?p2 = "?p1 + length (enc_len 4 ref_hash)"
  let ?p3 = "?p2 + length (enc_int 8 expiration)"
  let ?p4 = "?p3 + length (enc_len 11 ?c)"
  let ?p5 = "?p4 + length (enc_int 14 timestamp)"
  let ?f = "Field 11 STATIC (REPEATED 1) (LT_SUBMESSAGE (protocol_Transaction_Contract es))"
  let ?q = "?p3 + length (enc_key 11 2) + length (enc_varint (length ?c))"
  have unknown: "pb_field_iter_find ?fs (of_nat 1) = None" "pb_field_iter_find ?fs (of_nat 4) = None"
    "pb_field_iter_find ?fs (of_nat 8) = None" "pb_field_iter_find ?fs (of_nat 14) = None"
    and f11: "pb_field_iter_find ?fs (of_nat 11) = Some ?f"
    and f18: "pb_field_iter_find ?fs (of_nat 18) = Some (Field (of_nat 18) STATIC SINGULAR (LT_VARINT 8))"
    by (simp_all add: protocol_Transaction_raw_def pb_field_iter_find_def)
  have vc: "length url \<le> length ?c" "length (enc_any url v) \<le> length ?c" "length v \<le> length ?c"
    by (simp_all add: enc_contract_def enc_any_def enc_len_def)
  obtain cm where cm: "pb_decode_inner tx_callbacks (protocol_Transaction_Contract es) (IStream RInput ?q ?c)
      (pb_message_set_to_defaults (protocol_Transaction_Contract es)) ?u =
      Some (cm, ?u\<lparr>cs_contract_buffer := Some (IStream RInput (?q + (length ?c - length v)) v)\<rparr>)"
    "m_has cm 2" "m_int cm 1 = of_nat type" "m_int cm 5 = 0"
    using decode_contract [of url v ?u es type RInput ?q] assms vc by auto
  let ?u' = "?u\<lparr>cs_contract_buffer := Some (IStream RInput (?q + (length ?c - length v)) v)\<rparr>"
  let ?m1 = "set_slot ?m0 (submessage_store ?f (get_slot ?m0 (of_nat 11)) cm)"
  have "pb_decode_inner tx_callbacks ?fs (IStream RInput 0 (enc_len 1 ref_bytes @ ?r1)) ?m0 ?u =
      pb_decode_inner tx_callbacks ?fs (IStream RInput ?p1 ?r1) ?m0 ?u"
    using inner_skip_len [OF unknown(1), of ref_bytes tx_callbacks RInput 0 ?r1 ?m0 ?u] assms(1) by simp
  also have "\<dots> = pb_decode_inner tx_callbacks ?fs (IStream RInput ?p2 ?r2) ?m0 ?u"
    using assms(2) by (intro inner_skip_len [OF unknown(2)]) simp_all
  also have "\<dots> = pb_decode_inner tx_callbacks ?fs (IStream RInput ?p3 ?r3) ?m0 ?u"
    by (intro inner_skip_int [OF unknown(3)]) simp_all
  also have "\<dots> = pb_decode_inner tx_callbacks ?fs (IStream RInput ?p4 ?r4) ?m1 ?u'"
    by (rule inner_submessage [OF f11])
      (use assms(3) cm(1) in \<open>simp_all add: submessage_target_def protocol_Transaction_raw_def get_slot_def
        pb_message_set_to_defaults_def\<close>)
  also have "\<dots> = pb_decode_inner tx_callbacks ?fs (IStream RInput ?p5 (if fee = 0 then [] else enc_int 18 fee)) ?m1 ?u'"
    by (intro inner_skip_int [OF unknown(4)]) simp_all
  also have "\<dots> = Some (if fee = 0 then ?m1 else
      set_slot ?m1 (Slot (of_nat 18) (s_has (get_slot ?m1 (of_nat 18))) [VInt (of_nat fee)]), ?u')"
    using inner_int64 [OF f18, of fee tx_callbacks RInput ?p5 "[]" ?m1 ?u'] assms(6) by (simp add: inner_end)
  finally have "pb_decode tx_callbacks ?fs (IStream RInput 0
      (enc_tx ref_bytes ref_hash expiration type url v timestamp fee)) ?u = \<dots>"
    by (simp add: pb_decode_def enc_tx_def)
  moreover have "?q + (length ?c - length v) = value_offset ref_bytes ref_hash expiration type url v"
    using vc by (simp add: value_offset_def enc_len_def)
  ultimately show ?thesis
    using cm(2-4)
    by (simp add: protocol_Transaction_raw_def pb_message_set_to_defaults_def set_slot_def get_slot_def
        submessage_store_def m_int_def m_msg_def m_msgs_def)
qed

section \<open>Processing the transaction\<close>

text \<open>The content after the transaction itself is decoded, when the contract is.\<close>

definition tx_content :: "nat \<Rightarrow> nat \<Rightarrow> txContent_t \<Rightarrow> txContent_t" where
  "tx_content type fee c =
     (if fee = 0 then c\<lparr>tc_dataBytes := 0\<rparr>
      else c\<lparr>tc_dataBytes := 0, tc_feeLimit := of_nat fee, tc_feeLimitSeen := True\<rparr>)
       \<lparr>tc_contractSeen := True, tc_permission_id := 0, tc_contractType := of_nat type\<rparr>"

lemma of_nat_fee: "0 < fee \<Longrightarrow> fee < 2 ^ 64 \<Longrightarrow> (of_nat fee :: u64) \<noteq> 0"
proof -
  assume "0 < fee" "fee < 2 ^ 64"
  then have "unat (of_nat fee :: u64) = fee" by (simp only: unat_of_nat) simp
  with \<open>0 < fee\<close> show ?thesis by (metis unat_0 less_irrefl)
qed

lemma processTx_enc:
  assumes "length ref_bytes < 2 ^ 32" "length ref_hash < 2 ^ 32" "length (enc_contract type url v) < 2 ^ 32"
    "sdk_ok k" "type < 256" "fee < 2 ^ 64" "v \<noteq> []"
    "tc_dataBytes (txContent s) = 0" "\<not> tc_contractSeen (txContent s)" "\<not> tc_feeLimitSeen (txContent s)"
    "contract_switch k (of_nat type) = Some f"
    "f (IStream RInput (value_offset ref_bytes ref_hash expiration type url v) v)
       (tx_content type fee (txContent s)) = (ret, c, m)"
  shows "processTx k (enc_tx ref_bytes ref_hash expiration type url v timestamp fee) s =
    (if ret then USTREAM_PROCESSING else USTREAM_FAULT, s\<lparr>txContent := c, msg := m\<rparr>)"
proof -
  let ?tx = "enc_tx ref_bytes ref_hash expiration type url v timestamp fee"
  let ?off = "value_offset ref_bytes ref_hash expiration type url v"
  have es: "enum_size k \<in> {1, 4}" using sdk_enum [OF assms(4)] by simp
  obtain tm where tm: "pb_decode tx_callbacks (protocol_Transaction_raw (enum_size k)) (IStream RInput 0 ?tx)
      \<lparr>cs_dataBytes = 0, cs_contract_buffer = None\<rparr> =
      Some (tm, \<lparr>cs_dataBytes = 0, cs_contract_buffer = Some (IStream RInput ?off v)\<rparr>)"
    "m_int tm 18 = of_nat fee" "m_has (m_msg tm 11) 2" "m_int (m_msg tm 11) 1 = of_nat type" "m_int (m_msg tm 11) 5 = 0"
    using decode_tx [OF assms(1-3) es assms(5,6)] by blast
  have ne: "?tx \<noteq> []" by (simp add: enc_tx_def enc_len_def)
  have val: "take (length v) (drop ?off ?tx) = v" "?off + length v \<le> length ?tx"
    using value_in_tx [of v ref_bytes ref_hash expiration type url timestamp fee] by simp_all
  have ty: "ucast (of_nat type :: u64) = (of_nat type :: u32)"
    using assms(5) by (simp add: unsigned_of_nat take_bit_nat_eq_self)
  have fee: "fee \<noteq> 0 \<Longrightarrow> (of_nat fee :: u64) \<noteq> 0" using of_nat_fee [OF _ assms(6)] by simp
  have bounds: "\<not> length ?tx < ?off" "\<not> length ?tx - ?off < length v" using val(2) by simp_all
  show ?thesis
    using ne tm assms(7-12) fee val(1) bounds
    by (cases "fee = 0")
      (simp_all add: processTx_def process_contract_def Let_def pb_istream_from_buffer_def bytes_left_def ty
        tx_content_def)
qed

section \<open>Transfers of TRX\<close>

definition enc_transfer :: "bytes \<Rightarrow> bytes \<Rightarrow> nat \<Rightarrow> bytes" where
  "enc_transfer owner to amount = enc_len 1 owner @ enc_len 2 to @ enc_int 3 amount"

lemma decode_transfer:
  assumes "length owner = 21" "length to = 21" "amount < 2 ^ 64"
  shows "\<exists>m. pb_decode no_callbacks protocol_TransferContract (IStream g p (enc_transfer owner to amount)) () = Some (m, ()) \<and>
    m_buf m 1 = owner \<and> m_buf m 2 = to \<and> m_int m 3 = of_nat amount"
proof -
  let ?fs = "protocol_TransferContract"
  let ?m0 = "pb_message_set_to_defaults ?fs"
  let ?m1 = "set_slot ?m0 (Slot (of_nat 1) (s_has (get_slot ?m0 (of_nat 1))) [VBuf owner])"
  let ?m2 = "set_slot ?m1 (Slot (of_nat 2) (s_has (get_slot ?m1 (of_nat 2))) [VBuf to])"
  let ?m3 = "set_slot ?m2 (Slot (of_nat 3) (s_has (get_slot ?m2 (of_nat 3))) [VInt (of_nat amount)])"
  let ?p1 = "p + length (enc_len 1 owner)"
  let ?p2 = "?p1 + length (enc_len 2 to)"
  note d = protocol_TransferContract_def pb_field_iter_find_def
  have "pb_decode_inner no_callbacks ?fs (IStream g p (enc_len 1 owner @ enc_len 2 to @ enc_int 3 amount)) ?m0 () =
      pb_decode_inner no_callbacks ?fs (IStream g ?p1 (enc_len 2 to @ enc_int 3 amount)) ?m1 ()"
    by (rule inner_fixed [where n = 21]) (simp_all add: d assms)
  also have "\<dots> = pb_decode_inner no_callbacks ?fs (IStream g ?p2 (enc_int 3 amount)) ?m2 ()"
    by (rule inner_fixed [where n = 21]) (simp_all add: d assms)
  also have "\<dots> = pb_decode_inner no_callbacks ?fs (IStream g ?p2 (enc_int 3 amount @ [])) ?m2 ()" by simp
  also have "\<dots> = pb_decode_inner no_callbacks ?fs (IStream g (?p2 + length (enc_int 3 amount)) []) ?m3 ()"
    by (rule inner_int64) (use assms(3) in \<open>simp_all add: d\<close>)
  finally show ?thesis
    by (simp add: pb_decode_def enc_transfer_def inner_end)
      (simp add: protocol_TransferContract_def pb_message_set_to_defaults_def set_slot_def get_slot_def m_buf_def m_int_def)
qed

lemma transfer_contract_enc:
  assumes "length owner = 21" "length to = 21" "amount < 2 ^ 64"
  shows "\<exists>m. transfer_contract (IStream g p (enc_transfer owner to amount)) c =
    (True, c\<lparr>tc_amount := (tc_amount c)[0 := of_nat amount], tc_tokenNamesLength := (tc_tokenNamesLength c)[0 := 4],
       tc_account := owner, tc_destination := to,
       tc_tokenNames := (tc_tokenNames c)[0 := buf_write (tc_tokenNames c ! 0) 0 (chars ''TRX'' @ [0])],
       tc_tokenIsTrx := (tc_tokenIsTrx c)[0 := True]\<rparr>, m)"
proof -
  obtain m where "pb_decode no_callbacks protocol_TransferContract (IStream g p (enc_transfer owner to amount)) () = Some (m, ())"
      "m_buf m 1 = owner" "m_buf m 2 = to" "m_int m 3 = of_nat amount"
    using decode_transfer [OF assms] by blast
  then show ?thesis by (simp add: transfer_contract_def decode_msg_def)
qed

end
