(* ===== verification/Transfer_Review.thy ===== *)
theory Transfer_Review
  imports Replies Encoded_Tx
begin

text \<open>
  What the user sees is what is signed: the review of a transfer, computed from the bytes a wallet sends to
  the rows on the screen.
\<close>

section \<open>Rows\<close>

definition service_rows :: "bytes option \<Rightarrow> row list" where
  "service_rows label = (case label of None \<Rightarrow> [] | Some l \<Rightarrow> [(chars ''Service'', l, None)])"

text \<open>An address, or the name of its contact with the address behind it.\<close>

definition address_row :: "bytes \<Rightarrow> s_ab_contact option \<Rightarrow> bytes \<Rightarrow> row" where
  "address_row item contact address =
     (case contact of
        None \<Rightarrow> (item, address, None)
      | Some c \<Rightarrow>
          (item, cstr (ab_contact_name c), Some (address, if cstr (ab_scope c) = [] then None else Some (cstr (ab_scope c)))))"

definition transfer_rows :: "bytes \<Rightarrow> bytes \<Rightarrow> bytes \<Rightarrow> bytes option \<Rightarrow> s_ab_contact option \<Rightarrow> bytes \<Rightarrow>
    s_ab_contact option \<Rightarrow> bytes \<Rightarrow> row list" where
  "transfer_rows amount name item service to_contact to from_contact from =
     [(chars ''Amount'', amount, None), (chars ''Token'', name, None)] @ service_rows service @
     [address_row item to_contact to, address_row (chars ''From'') from_contact from]"

lemma deref_frames [simp]: "deref (s\<lparr>txInfos := i\<rparr>) = deref s" "deref (s\<lparr>the_screen := sc\<rparr>) = deref s"
  by (rule ext, rename_tac r, case_tac r; simp add: deref_def)+

lemma deref_simps [simp]:
  "deref s (Literal t) = chars t" "deref s FromAddress = cstr (fromAddress s)" "deref s ToAddress = cstr (toAddress s)"
  "deref s FullContract = cstr (fullContract s)" "deref s SendAllowText = cstr (TRC20ActionSendAllow s)"
  "deref s (ApduAt n) = cstr (drop n (G_io_apdu_buffer s))" "deref s (StringsAt n) = cstr (drop n (strings s))"
  "g_recipient_service s = Some l \<Longrightarrow> deref s ServiceLabel = l"
  "g_recipient_contact s = Some c \<Longrightarrow> deref s RecipientName = cstr (ab_contact_name c)"
  "g_recipient_contact s = Some c \<Longrightarrow> deref s RecipientScope = cstr (ab_scope c)"
  "g_sender_contact s = Some c \<Longrightarrow> deref s SenderName = cstr (ab_contact_name c)"
  "g_sender_contact s = Some c \<Longrightarrow> deref s SenderScope = cstr (ab_scope c)"
  by (simp_all add: deref_def)

text \<open>The fields of the transfer review before and after the service label.\<close>

definition transfer_fields :: "app_state \<Rightarrow> tag_value list" where
  "transfer_fields s =
     [field (Literal ''Amount'') (ApduAt 0), field (Literal ''Token'') FullContract] @
     (if g_recipient_service s = None then [] else [field (Literal ''Service'') ServiceLabel]) @
     [field SendAllowText ToAddress, from_field] @
     (if tc_contractType (txContent s) = TRIGGERSMARTCONTRACT then [field (Literal ''Max Fee'') (StringsAt maxFee_offset)] else [])"

definition aliased :: "app_state \<Rightarrow> tag_value \<Rightarrow> tag_value" where
  "aliased s f =
     (case g_recipient_contact s of
        Some c \<Rightarrow>
          if tv_value f = ToAddress then apply_contact_alias c RecipientName RecipientScope ToAddress f
          else sender_alias s f
      | None \<Rightarrow> sender_alias s f)"

lemma aliased_frame [simp]: "aliased (s\<lparr>txInfos := i\<rparr>) = aliased s"
  by (rule ext) (simp add: aliased_def sender_alias_def split: option.split)

lemma apply_aliases:
  "apply_address_book_aliases s = s\<lparr>txInfos := (txInfos s)\<lparr>ti_fields := map (aliased s) (ti_fields (txInfos s))\<rparr>\<rparr>"
  by (simp add: apply_address_book_aliases_def aliased_def [abs_def])

lemma prepare_transfer:
  "prepareTxInfos k APPROVAL_TRANSFER w s = (Inr True, s\<lparr>txInfos := (titled ''Review Transaction'' ''Sign Transaction''
     (fresh_infos APPROVAL_TRANSFER w))\<lparr>ti_fields := map (aliased s) (transfer_fields s)\<rparr>\<rparr>)"
  by (cases "g_recipient_service s")
    (simp_all add: prepareTxInfos_def tx_infos_1_def tx_infos_2_def insert_known_service_label_def MAX_TX_FIELDS_def
      apply_aliases transfer_fields_def Let_def)

definition row_of :: "app_state \<Rightarrow> tag_value \<Rightarrow> row" where
  "row_of s f = (deref s (tv_item f), deref s (tv_value f),
     map_option (\<lambda>(full, sub). (deref s full, map_option (deref s) sub)) (tv_alias f))"

lemma aliased_rows:
  "v \<noteq> ToAddress \<Longrightarrow> v \<noteq> FromAddress \<Longrightarrow> row_of s (aliased s (field i v)) = (deref s i, deref s v, None)"
  "row_of s (aliased s (field i ToAddress)) = address_row (deref s i) (g_recipient_contact s) (cstr (toAddress s))"
  "row_of s (aliased s (field i FromAddress)) = address_row (deref s i) (g_sender_contact s) (cstr (fromAddress s))"
  by (simp_all add: row_of_def aliased_def sender_alias_def apply_contact_alias_def address_row_def split: option.split)

lemma transfer_row_list:
  "map (row_of s \<circ> aliased s) (transfer_fields s) =
      transfer_rows (cstr (G_io_apdu_buffer s)) (cstr (fullContract s)) (cstr (TRC20ActionSendAllow s))
        (g_recipient_service s) (g_recipient_contact s) (cstr (toAddress s)) (g_sender_contact s) (cstr (fromAddress s)) @
      (if tc_contractType (txContent s) = TRIGGERSMARTCONTRACT
       then [(chars ''Max Fee'', cstr (drop maxFee_offset (strings s)), None)] else [])"
  by (auto simp: transfer_fields_def aliased_rows transfer_rows_def service_rows_def split: option.split)

text \<open>The review of a transfer, with its rows.\<close>

lemma transfer_display:
  "\<exists>s'. ux_flow_display k APPROVAL_TRANSFER w s = (Returned, s') \<and> quiet s (s'\<lparr>the_screen := the_screen s\<rparr>) \<and>
    the_screen s' = (if w then DataWarningScreen else TransactionScreen) \<and> ti_state (txInfos s') = APPROVAL_TRANSFER \<and>
    shown s' =
      transfer_rows (cstr (G_io_apdu_buffer s)) (cstr (fullContract s)) (cstr (TRC20ActionSendAllow s))
        (g_recipient_service s) (g_recipient_contact s) (cstr (toAddress s)) (g_sender_contact s) (cstr (fromAddress s)) @
      (if tc_contractType (txContent s) = TRIGGERSMARTCONTRACT
       then [(chars ''Max Fee'', cstr (drop maxFee_offset (strings s)), None)] else [])"
proof -
  let ?i = "(titled ''Review Transaction'' ''Sign Transaction'' (fresh_infos APPROVAL_TRANSFER w))
     \<lparr>ti_fields := map (aliased s) (transfer_fields s)\<rparr>"
  let ?s1 = "s\<lparr>txInfos := ?i\<rparr>"
  have "shown (reviewStart ?s1) = map (row_of s \<circ> aliased s) (transfer_fields s)"
    by (simp add: shown_def reviewStart_def row_of_def)
  then show ?thesis
    unfolding transfer_row_list
    by (intro exI [of _ "reviewStart ?s1"])
      (simp add: ux_flow_display_def prepare_transfer, simp add: reviewStart_def quiet_def core_def)
qed

section \<open>A transfer of TRX\<close>

lemma strcpy_text: "0 \<notin> set (chars t) \<Longrightarrow> cstr (strcpy out t) = chars t"
  by (simp add: strcpy_def buf_write_def)

lemma cstr_split:
  assumes "strlen b < length b"
  shows "b = cstr b @ 0 # drop (Suc (strlen b)) b"
proof -
  have "0 \<in> set b" by (rule ccontr) (use assms in \<open>simp add: strlen_def\<close>)
  then obtain xs ys where "b = xs @ 0 # ys" "0 \<notin> set xs" using split_list_first by metis
  then show ?thesis by (simp add: strlen_def)
qed

text \<open>Copying a string with its NUL copies its text.\<close>

lemma cstr_copy:
  assumes "strlen src < m" "m \<le> length src"
  shows "cstr (buf_write out 0 (take m src)) = cstr src"
proof -
  have s: "src = cstr src @ 0 # drop (Suc (strlen src)) src" using cstr_split [of src] assms by simp
  have "take m src = cstr src @ 0 # take (m - Suc (strlen src)) (drop (Suc (strlen src)) src)"
    using assms(1) by (subst s) (simp add: strlen_def take_Cons')
  then show ?thesis by (simp add: buf_write_def)
qed

text \<open>The end of the transfer case: the texts printed so far, the recipient, the sender and, for a call, the fee.\<close>

lemma finish_transfer_shown:
  assumes k: "sdk_ok k" and st: "steady n k s0 s" and sw: "\<not> G_called_from_swap s"
    and c: "tc_destination (txContent s) ! 0 = 0x41"
      "strlen (tc_tokenNames (txContent s) ! 0) \<le> unat (tc_tokenNamesLength (txContent s) ! 0)"
      "unat (tc_feeLimit (txContent s)) < 10 ^ 19"
  shows "\<exists>s' f. finish_transfer k False s = (Returned, s') \<and> quiet s (s'\<lparr>the_screen := the_screen s\<rparr>) \<and>
    the_screen s' = TransactionScreen \<and> denotes f (unat (tc_feeLimit (txContent s))) 6 \<and>
    shown s' = transfer_rows (cstr (G_io_apdu_buffer s)) (cstr (tc_tokenNames (txContent s) ! 0)) (cstr (TRC20ActionSendAllow s))
        (get_known_service_label (tc_destination (txContent s)))
        (get_address_book_contact (ab_contacts s) (tc_destination (txContent s))) (base58 k (tc_destination (txContent s)))
        (g_sender_contact s) (cstr (fromAddress s)) @
      (if tc_contractType (txContent s) = TRIGGERSMARTCONTRACT then [(chars ''Max Fee'', f, None)] else [])"
proof -
  let ?c = "txContent s"
  have len: "length (tc_destination ?c) = 21" "length (toAddress s) = 35" "length (strings s) = 296" "length (tc_tokenNames ?c ! 0) = 67"
    "unat (tc_tokenNamesLength ?c ! 0) \<le> 66"
    using st wf_content_nth [OF steady_lengths(1) [OF st], of 0] by (simp_all add: steady_simps wf_content_lengths)
  define s1 where "s1 = copy_token_name (set_recipient_address k (tc_destination ?c) s)"
  have "cstr (fullContract s1) = cstr (tc_tokenNames ?c ! 0)"
    using cstr_copy [of "tc_tokenNames ?c ! 0" "unat (tc_tokenNamesLength ?c ! 0) + 1" "fullContract s"] c(2) len
    by (simp add: s1_def copy_token_name_def set_recipient_address_def)
  moreover have "cstr (toAddress s1) = base58 k (tc_destination ?c)"
    using cstr_getBase58FromAddress(1) [OF k len(1) c(1), of 0 "toAddress s"] len
    by (simp add: s1_def copy_token_name_def set_recipient_address_def)
  moreover have f1: "txContent s1 = ?c" "G_io_apdu_buffer s1 = G_io_apdu_buffer s" "strings s1 = strings s"
    "TRC20ActionSendAllow s1 = TRC20ActionSendAllow s" "fromAddress s1 = fromAddress s"
    "g_sender_contact s1 = g_sender_contact s" "g_recipient_service s1 = get_known_service_label (tc_destination ?c)"
    "g_recipient_contact s1 = get_address_book_contact (ab_contacts s) (tc_destination ?c)" "\<not> G_called_from_swap s1"
    using sw by (simp_all add: s1_def copy_token_name_def set_recipient_address_def)
  moreover have q: "quiet s s1" by (simp add: s1_def)
  obtain b l where b: "print_amount (tc_feeLimit ?c) (drop maxFee_offset (strings s)) 50 6 = Some (Inr (b, l))"
      "denotes (cstr b) (unat (tc_feeLimit ?c)) 6"
    using print_amount_denotes [OF c(3), of 6 50 "drop maxFee_offset (strings s)"] len(3) by (auto simp: maxFee_offset_def)
  define s2 where "s2 = (if tc_contractType ?c = TRIGGERSMARTCONTRACT
    then s1\<lparr>strings := take maxFee_offset (strings s1) @ b\<rparr> else s1)"
  have "finish_transfer k False s = ux_flow_display k APPROVAL_TRANSFER False s2"
    using f1(9) b(1)
    by (simp add: finish_transfer_def print_maxFee_def with_print_def s1_def [symmetric] s2_def f1(1,3) header_constants Let_def)
  moreover have "drop maxFee_offset (take maxFee_offset (strings s1) @ b) = b" using len(3) f1(3) by (simp add: maxFee_offset_def)
  moreover have q2: "quiet s s2" "the_screen s2 = the_screen s" using q by (simp_all add: s2_def quiet_def core_def)
  moreover obtain s' where s': "ux_flow_display k APPROVAL_TRANSFER False s2 = (Returned, s')"
      "quiet s2 (s'\<lparr>the_screen := the_screen s2\<rparr>)" "the_screen s' = TransactionScreen"
      "shown s' = transfer_rows (cstr (G_io_apdu_buffer s2)) (cstr (fullContract s2)) (cstr (TRC20ActionSendAllow s2))
        (g_recipient_service s2) (g_recipient_contact s2) (cstr (toAddress s2)) (g_sender_contact s2) (cstr (fromAddress s2)) @
      (if tc_contractType (txContent s2) = TRIGGERSMARTCONTRACT
       then [(chars ''Max Fee'', cstr (drop maxFee_offset (strings s2)), None)] else [])"
    using transfer_display [of k False s2] by auto
  moreover have "quiet s (s'\<lparr>the_screen := the_screen s\<rparr>)" using quiet_trans [OF q2(1) s'(2)] q2(2) by simp
  ultimately show ?thesis
    using b(2) by (intro exI [of _ s'] exI [of _ "cstr b"]) (auto simp: s2_def)
qed

text \<open>The state after the sender is set: what later texts are made from is unchanged.\<close>

lemma sender_state:
  assumes "sdk_ok k" "wf_state n k s" "tc_permission_id (txContent s) = 0" "tc_account (txContent s) ! 0 = 0x41"
  defines "s1 \<equiv> set_sender k (hashed k s)"
  shows "steady n k s s1" "txContent s1 = txContent s" "ab_contacts s1 = ab_contacts s" "G_called_from_swap s1 = G_called_from_swap s"
    "quiet (hashed k s) s1" "cstr (fromAddress s1) = base58 k (tc_account (txContent s))" "the_screen s1 = the_screen s"
    "g_sender_contact s1 = get_address_book_contact (ab_contacts s) (tc_account (txContent s))"
proof -
  have st: "steady n k s s" using assms(2) by (rule steady_refl)
  then have len: "length (fromAddress s) = 40" "length (tc_account (txContent s)) = 21"
    by (simp_all add: steady_simps wf_content_lengths)
  have "steady n k s (hashed k s)" using st assms(1) by (simp add: steady_simps)
  then show "steady n k s s1" using assms(1) by (simp add: s1_def steady_simps)
  show "cstr (fromAddress s1) = base58 k (tc_account (txContent s))"
    using cstr_getBase58FromAddress(1) [OF assms(1) len(2) assms(4), of 0 "fromAddress s"] len(1) assms(3)
    by (simp add: s1_def set_sender_def Let_def)
qed (simp_all add: s1_def set_sender_def assms(3) Let_def)

lemma finish_sign_trx:
  assumes k: "sdk_ok k" and wf: "wf_state n k s" and sw: "\<not> G_called_from_swap s"
    and c: "tc_contractType (txContent s) = TRANSFERCONTRACT" "tc_permission_id (txContent s) = 0"
      "tc_dataBytes (txContent s) = 0" "unat (tc_amount (txContent s) ! 0) < 10 ^ 19"
      "cstr (tc_tokenNames (txContent s) ! 0) = chars ''TRX''" "tc_tokenNamesLength (txContent s) ! 0 = 4"
      "tc_feeLimit (txContent s) = 0"
    and adr: "tc_account (txContent s) ! 0 = 0x41" "tc_destination (txContent s) ! 0 = 0x41"
  shows "\<exists>s' t. finish_sign k s = (Returned, s') \<and> quiet (hashed k s) (s'\<lparr>the_screen := the_screen s\<rparr>) \<and>
    the_screen s' = TransactionScreen \<and> denotes t (unat (tc_amount (txContent s) ! 0)) 6 \<and>
    shown s' = transfer_rows t (chars ''TRX'') (chars ''To'')
      (get_known_service_label (tc_destination (txContent s)))
      (get_address_book_contact (ab_contacts s) (tc_destination (txContent s))) (base58 k (tc_destination (txContent s)))
      (get_address_book_contact (ab_contacts s) (tc_account (txContent s))) (base58 k (tc_account (txContent s)))"
proof -
  let ?c = "txContent s"
  define s1 where "s1 = set_sender k (hashed k s)"
  note s1 = sender_state [OF k wf c(2) adr(1), folded s1_def]
  define s2 where "s2 = s1\<lparr>TRC20ActionSendAllow := strcpy (TRC20ActionSendAllow s1) ''To''\<rparr>"
  have len: "length (G_io_apdu_buffer s1) = n" "260 \<le> n" "length (TRC20ActionSendAllow s1) = 8"
    using s1(1) by (simp_all add: steady_lengths)
  obtain b l where b: "print_amount (tc_amount ?c ! 0) (G_io_apdu_buffer s1) 100 6 = Some (Inr (b, l))"
      "length b = n" "denotes (cstr b) (unat (tc_amount ?c ! 0)) 6"
    using print_amount_denotes [OF c(4), of 6 100 "G_io_apdu_buffer s1"] len by auto
  define s3 where "s3 = s2\<lparr>G_io_apdu_buffer := b\<rparr>"
  have "finish_sign k s = sign_switch k False s1"
    using sw by (simp add: finish_sign_def Let_def c s1_def set_sender_def MAX_PERMISSION_ID_def)
  also have "\<dots> = print_apdu (tc_amount ?c ! 0) 0 100 6 s2 (finish_transfer k False)"
    by (simp add: sign_switch_def sign_transfer_def s2_def s1(2) c Let_def header_constants)
  also have "\<dots> = finish_transfer k False s3"
    by (simp add: print_apdu_def with_print_def s2_def b s3_def)
  finally have f: "finish_sign k s = finish_transfer k False s3" .
  have s3: "txContent s3 = ?c" "ab_contacts s3 = ab_contacts s" "G_io_apdu_buffer s3 = b" "fromAddress s3 = fromAddress s1"
    "cstr (TRC20ActionSendAllow s3) = chars ''To''" "g_sender_contact s3 = g_sender_contact s1" "the_screen s3 = the_screen s"
    "\<not> G_called_from_swap s3" "quiet (hashed k s) s3"
    using s1 sw by (simp_all add: s3_def s2_def strcpy_text chars_def)
  have st: "steady n k s s3" using s1(1) len b(2) by (simp add: s3_def s2_def steady_simps)
  have "strlen (tc_tokenNames ?c ! 0) \<le> unat (tc_tokenNamesLength ?c ! 0)" by (simp add: strlen_def c(5,6) chars_def)
  from finish_transfer_shown [OF k st s3(8)] this show ?thesis
    using c adr(2) b(3) s1(6,8) s3(9) unfolding f s3 by (fastforce intro: quiet_trans)
qed

text \<open>The command with the whole transaction: the path and the bytes of the transaction.\<close>

lemma handleSign_single:
  assumes "read_bip32_path d (tr_bip32_path (transactionContext s)) = (Some m, path)" "\<not> G_called_from_swap s"
  defines "s1 \<equiv> (initTx (set_path path s))\<lparr>customContractField := 0\<rparr>"
  defines "s2 \<equiv> s1\<lparr>txContext := (txContext s1)\<lparr>tx_sha2 := drop m d\<rparr>\<rparr>"
  assumes "processTx k (drop m d) s2 = (USTREAM_PROCESSING, s3)"
  shows "handleSign k P1_SIGN 0 d s = finish_sign k s3"
  using assms by (simp add: handleSign_def sign_chunk_def Let_def initTx_def)

lemma handleSign_processed:
  assumes "sdk_ok k" "wf_state n k s" "\<not> G_called_from_swap s"
    "read_bip32_path d (tr_bip32_path (transactionContext s)) = (Some m, path)" "wf_content c"
    "\<And>s2. txContent s2 = zero_content\<lparr>tc_contractType := INVALID_CONTRACT\<rparr> \<Longrightarrow>
       \<exists>g. P g \<and> processTx k (drop m d) s2 = (USTREAM_PROCESSING, s2\<lparr>txContent := c, msg := g\<rparr>)"
  shows "\<exists>s3. handleSign k P1_SIGN 0 d s = finish_sign k s3 \<and> wf_state n k s3 \<and> outputs s3 = outputs s \<and>
    the_screen s3 = the_screen s \<and> \<not> G_called_from_swap s3 \<and> txContent s3 = c \<and> ab_contacts s3 = ab_contacts s \<and>
    tr_bip32_path (transactionContext s3) = path \<and> tx_sha2 (txContext s3) = drop m d \<and> P (msg s3)"
proof -
  define s1 where "s1 = (initTx (set_path path s))\<lparr>customContractField := 0\<rparr>"
  define s2 where "s2 = s1\<lparr>txContext := (txContext s1)\<lparr>tx_sha2 := drop m d\<rparr>\<rparr>"
  have "txContent s2 = zero_content\<lparr>tc_contractType := INVALID_CONTRACT\<rparr>" by (simp add: s2_def s1_def initTx_def)
  from assms(6) [OF this] obtain g where p: "processTx k (drop m d) s2 = (USTREAM_PROCESSING, s2\<lparr>txContent := c, msg := g\<rparr>)" "P g"
    by blast
  define s3 where "s3 = s2\<lparr>txContent := c, msg := g\<rparr>"
  have "handleSign k P1_SIGN 0 d s = finish_sign k s3"
    using handleSign_single [OF assms(4,3), of k s3] p(1) by (simp add: s3_def s2_def s1_def)
  moreover have st: "steady n k s s" using assms(2) by (rule steady_refl)
  have "steady n k s s3"
    using st wf_read_path [OF assms(4) st] assms(5) by (simp add: s3_def s2_def s1_def steady_simps)
  then have "wf_state n k s3" "outputs s3 = outputs s" "the_screen s3 = the_screen s" "\<not> G_called_from_swap s3"
    using assms(3) by (simp_all add: steady_def)
  moreover have "txContent s3 = c" "ab_contacts s3 = ab_contacts s"
    "tr_bip32_path (transactionContext s3) = path" "tx_sha2 (txContext s3) = drop m d" "P (msg s3)"
    using p(2) by (simp_all add: s3_def s2_def s1_def initTx_def)
  ultimately show ?thesis by blast
qed

lemma handleSign_content:
  assumes "sdk_ok k" "wf_state n k s" "\<not> G_called_from_swap s"
    "read_bip32_path d (tr_bip32_path (transactionContext s)) = (Some m, path)" "wf_content c"
    "\<And>s2. txContent s2 = zero_content\<lparr>tc_contractType := INVALID_CONTRACT\<rparr> \<Longrightarrow>
       \<exists>g. processTx k (drop m d) s2 = (USTREAM_PROCESSING, s2\<lparr>txContent := c, msg := g\<rparr>)"
  shows "\<exists>s3. handleSign k P1_SIGN 0 d s = finish_sign k s3 \<and> wf_state n k s3 \<and> outputs s3 = outputs s \<and>
    the_screen s3 = the_screen s \<and> \<not> G_called_from_swap s3 \<and> txContent s3 = c \<and> ab_contacts s3 = ab_contacts s \<and>
    tr_bip32_path (transactionContext s3) = path \<and> tx_sha2 (txContext s3) = drop m d"
  using handleSign_processed [where P = "\<lambda>_. True", OF assms(1-5)] assms(6) by simp

text \<open>The content of a transfer, after start-up of the session.\<close>

definition trx_content :: "bytes \<Rightarrow> bytes \<Rightarrow> nat \<Rightarrow> txContent_t" where
  "trx_content owner to amount =
     zero_content\<lparr>tc_contractType := TRANSFERCONTRACT, tc_contractSeen := True, tc_amount := [of_nat amount, 0],
       tc_tokenNamesLength := [4, 0], tc_account := owner, tc_destination := to,
       tc_tokenNames := [chars ''TRX'' @ 0 # replicate 63 0, replicate 67 0], tc_tokenIsTrx := [True, False]\<rparr>"

lemma trx_processed:
  assumes "sdk_ok k" "length owner = 21" "length to = 21" "amount < 2 ^ 64"
    "length (enc_tx ref_bytes ref_hash expiration 1 url (enc_transfer owner to amount) timestamp 0) < 2 ^ 32"
    "txContent s = zero_content\<lparr>tc_contractType := INVALID_CONTRACT\<rparr>"
  shows "\<exists>m. processTx k (enc_tx ref_bytes ref_hash expiration 1 url (enc_transfer owner to amount) timestamp 0) s =
    (USTREAM_PROCESSING, s\<lparr>txContent := trx_content owner to amount, msg := m\<rparr>)"
proof -
  let ?v = "enc_transfer owner to amount"
  have sw: "contract_switch k (of_nat 1) = Some transfer_contract" by (simp add: contract_switch_def)
  have len: "length (enc_contract 1 url ?v) < 2 ^ 32" "length ref_bytes < 2 ^ 32" "length ref_hash < 2 ^ 32"
    using assms(5) by (simp_all add: enc_tx_def enc_len_def)
  have ne: "?v \<noteq> []" by (simp add: enc_transfer_def enc_len_def)
  obtain m where m: "transfer_contract (IStream RInput (value_offset ref_bytes ref_hash expiration 1 url ?v) ?v)
      (tx_content 1 0 (txContent s)) = (True, trx_content owner to amount, m)"
    using transfer_contract_enc [OF assms(2-4), of RInput "value_offset ref_bytes ref_hash expiration 1 url ?v" "tx_content 1 0 (txContent s)"]
    by (auto simp: assms(6) tx_content_def trx_content_def zero_content_def buf_write_def)
  show ?thesis
    using processTx_enc [OF len(2,3,1) assms(1) _ _ ne _ _ _ sw m] by (intro exI [of _ m]) (simp add: assms(6) zero_content_def)
qed

lemma wf_trx_content:
  assumes "length owner = 21" "length to = 21"
  shows "wf_content (trx_content owner to amount)"
  using assms by (simp add: wf_content_def trx_content_def zero_content_def wf_name_def list_all_iff)

lemma trx_review:
  assumes "sdk_ok k" "wf_state n k s" "\<not> G_called_from_swap s"
    "read_bip32_path d (tr_bip32_path (transactionContext s)) = (Some m, path)"
    "drop m d = enc_tx ref_bytes ref_hash expiration 1 url (enc_transfer owner to amount) timestamp 0" "length d \<le> 255"
    "length owner = 21" "owner ! 0 = 0x41" "length to = 21" "to ! 0 = 0x41" "amount < 10 ^ 19"
  shows "\<exists>s' t. handleSign k P1_SIGN 0 d s = (Returned, s') \<and> outputs s' = outputs s \<and> the_screen s' = TransactionScreen \<and>
    tr_hash (transactionContext s') = cx_sha256 k (drop m d) \<and> tr_bip32_path (transactionContext s') = path \<and>
    denotes t amount 6 \<and>
    shown s' = transfer_rows t (chars ''TRX'') (chars ''To'') (get_known_service_label to)
      (get_address_book_contact (ab_contacts s) to) (base58 k to)
      (get_address_book_contact (ab_contacts s) owner) (base58 k owner)"
proof -
  have am: "amount < 2 ^ 64" "unat (of_nat amount :: u64) = amount"
    using assms(11) by (simp_all add: unat_of_nat take_bit_nat_eq_self)
  have "length (drop m d) < 2 ^ 32" using assms(6) by simp
  then have "\<exists>g. processTx k (drop m d) s2 = (USTREAM_PROCESSING, s2\<lparr>txContent := trx_content owner to amount, msg := g\<rparr>)"
    if "txContent s2 = zero_content\<lparr>tc_contractType := INVALID_CONTRACT\<rparr>" for s2
    using trx_processed [OF assms(1,7,9) am(1) _ that, of ref_bytes ref_hash expiration url timestamp] by (simp add: assms(5))
  then obtain s3 where s3: "handleSign k P1_SIGN 0 d s = finish_sign k s3" "wf_state n k s3" "outputs s3 = outputs s"
      "the_screen s3 = the_screen s" "\<not> G_called_from_swap s3" "txContent s3 = trx_content owner to amount"
      "ab_contacts s3 = ab_contacts s" "tr_bip32_path (transactionContext s3) = path" "tx_sha2 (txContext s3) = drop m d"
    using handleSign_content [OF assms(1-4) wf_trx_content [OF assms(7,9)]] by blast
  obtain s' t where f: "finish_sign k s3 = (Returned, s')" "quiet (hashed k s3) (s'\<lparr>the_screen := the_screen s3\<rparr>)"
    "the_screen s' = TransactionScreen" "denotes t amount 6"
    "shown s' = transfer_rows t (chars ''TRX'') (chars ''To'') (get_known_service_label to)
      (get_address_book_contact (ab_contacts s) to) (base58 k to)
      (get_address_book_contact (ab_contacts s) owner) (base58 k owner)"
    using finish_sign_trx [OF assms(1) s3(2,5)] assms(8,10,11) am(2)
    by (auto simp: s3(6,7) trx_content_def zero_content_def chars_def)
  then show ?thesis using s3 by (auto simp: quiet_def core_def)
qed

section \<open>Property\<close>

text \<open>C3: What you see is what you sign, for a transfer of TRX: for every transaction with one transfer contract,
  sent in one command, the device shows the amount that is in the signed bytes, exactly and in TRX, the token
  name, the recipient and the sender of the signed bytes as base58 addresses - under the name of a contact only
  when the address book has one for these very bytes - and the label of a known service before the recipient;
  nothing else; and what waits for approval is the SHA-256 digest of exactly these transaction bytes under the
  path of the command.\<close>

theorem trx_transfer_shown:
  assumes "sdk_ok k" "wf_state n k s" "\<not> G_called_from_swap s"
    "read_bip32_path d (tr_bip32_path (transactionContext s)) = (Some m, path)"
    "drop m d = enc_tx ref_bytes ref_hash expiration 1 url (enc_transfer owner to amount) timestamp 0" "length d \<le> 255"
    "length owner = 21" "owner ! 0 = 0x41" "length to = 21" "to ! 0 = 0x41" "amount < 10 ^ 19"
  shows "\<exists>s' t. handleSign k P1_SIGN 0 d s = (Returned, s') \<and> outputs s' = outputs s \<and> the_screen s' = TransactionScreen \<and>
    tr_hash (transactionContext s') = cx_sha256 k (drop m d) \<and> tr_bip32_path (transactionContext s') = path \<and>
    denotes t amount 6 \<and>
    shown s' =
      [(chars ''Amount'', t, None), (chars ''Token'', chars ''TRX'', None)] @ service_rows (get_known_service_label to) @
      [address_row (chars ''To'') (get_address_book_contact (ab_contacts s) to) (base58 k to),
       address_row (chars ''From'') (get_address_book_contact (ab_contacts s) owner) (base58 k owner)]"
  using trx_review [OF assms] by (simp add: transfer_rows_def)

section \<open>Witnesses\<close>

definition sample_address :: bytes where
  "sample_address = replicate 21 0x41"

definition sample_tx :: bytes where
  "sample_tx = enc_tx [1, 2] [3, 4] 1000 1 [] (enc_transfer sample_address sample_address 1500000) 2000 0"

definition sample_bip32 :: bip32_path_t where
  "sample_bip32 = \<lparr>bp_indices = [0x8000002C, 0x800000C3, 0x80000000, 0, 0, 0, 0, 0, 0, 0], bp_length = 3\<rparr>"

lemma sample_read: "read_bip32_path (sample_path @ bs) zero_path = (Some 13, sample_bip32)"
proof -
  have z: "replicate 10 0 = [0, 0, 0, 0, 0, 0, 0, 0, 0, 0 :: u32]" by (simp add: numeral_eq_Suc)
  have "read_indices (0x80 # 0 # 0 # 0x2C # 0x80 # 0 # 0 # 0xC3 # 0x80 # 0 # 0 # 0 # bs) (replicate 10 0) 0 3 = bp_indices sample_bip32"
    by (simp add: z numeral_3_eq_3 U4BE_def be_val_def buf_set_def buf_write_def sample_bip32_def)
  then show ?thesis
    by (simp add: read_bip32_path_def sample_path_def zero_path_def sample_bip32_def TRON_BIP32_PREFIX_0_def
        TRON_BIP32_PREFIX_1_def header_constants Let_def)
qed

lemma sample_length: "length (sample_path @ sample_tx) \<le> 255"
  by (simp add: sample_tx_def sample_path_def sample_address_def enc_tx_def enc_contract_def enc_any_def enc_transfer_def
      enc_len_def enc_int_def enc_key_def enc_varint.simps)

lemma sample_facts:
  "wf_state 260 sample_sdk sample_state" "\<not> G_called_from_swap sample_state"
  "tr_bip32_path (transactionContext sample_state) = zero_path" "ab_contacts sample_state = []" "outputs sample_state = []"
  by (simp_all add: sample_state_def initial_state)
    (simp_all add: app_init_def zero_state_def nv_app_state_init_def ui_idle_def
      terminate_signing_session_def address_book_contact_cleanup_def Let_def)

lemma sample_drop: "drop 13 (sample_path @ bs) = bs"
  by (simp add: sample_path_def)

lemma sample_premises:
  "read_bip32_path (sample_path @ sample_tx) (tr_bip32_path (transactionContext sample_state)) = (Some 13, sample_bip32)"
  "drop 13 (sample_path @ sample_tx) = enc_tx [1, 2] [3, 4] 1000 1 [] (enc_transfer sample_address sample_address 1500000) 2000 0"
  "length (sample_path @ sample_tx) \<le> 255" "length sample_address = 21" "sample_address ! 0 = 0x41"
  "length sample_address = 21" "sample_address ! 0 = 0x41" "1500000 < (10 ^ 19 :: nat)"
  by (simp_all only: sample_facts sample_read sample_drop sample_length) (simp_all add: sample_tx_def sample_address_def)

theorem trx_transfer_shown_witness:
  "\<exists>s' t. handleSign sample_sdk P1_SIGN 0 (sample_path @ sample_tx) sample_state = (Returned, s') \<and>
    tr_hash (transactionContext s') = cx_sha256 sample_sdk sample_tx \<and> denotes t 1500000 6 \<and>
    shown s' = [(chars ''Amount'', t, None), (chars ''Token'', chars ''TRX'', None)] @
      service_rows (get_known_service_label sample_address) @
      [(chars ''To'', base58 sample_sdk sample_address, None), (chars ''From'', base58 sample_sdk sample_address, None)]"
  using trx_transfer_shown [OF sample_sdk_ok sample_facts(1,2) sample_premises]
  unfolding sample_drop by (auto simp: sample_facts address_row_def)

text \<open>The sample transaction under review, and its approval and refusal.\<close>

lemma sample_under_review:
  "\<exists>s. under_review sample_sdk sample_bip32 sample_tx s \<and> the_screen s = TransactionScreen \<and>
    length (tr_signature (transactionContext s)) = 65"
proof -
  obtain s' where h: "handleSign sample_sdk P1_SIGN 0 (sample_path @ sample_tx) sample_state = (Returned, s')"
      "outputs s' = outputs sample_state" "the_screen s' = TransactionScreen"
    using trx_review [OF sample_sdk_ok sample_facts(1,2) sample_premises] by blast
  have "wf_path (tr_bip32_path (transactionContext sample_state))"
    unfolding sample_facts by (simp add: zero_path_def wf_path_def header_constants)
  then have "under_review sample_sdk sample_bip32 sample_tx s'"
    using single_chunk [OF h(1,2) sample_facts(2) _ sample_premises(1)] unfolding sample_drop by blast
  moreover have "answered 260 sample_sdk sample_state (Returned, s')"
    using answered_handleSign [OF sample_sdk_ok steady_refl [OF sample_facts(1)], of P1_SIGN 0 "sample_path @ sample_tx"] h(1)
    by simp
  then have "length (tr_signature (transactionContext s')) = 65"
    by (simp add: answered_def wf_state_def wf_transaction_def)
  ultimately show ?thesis using h(3) by blast
qed

theorem approved_signature_witness:
  "\<exists>s s'. under_review sample_sdk sample_bip32 sample_tx s \<and> user_choice sample_sdk True s = (Returned, s') \<and>
    outputs s' = outputs s @ [SendData (cx_sha256 sample_sdk sample_tx @ replicate 32 1 @ [0]) E_OK]"
proof -
  obtain s where s: "under_review sample_sdk sample_bip32 sample_tx s" "the_screen s = TransactionScreen"
      "length (tr_signature (transactionContext s)) = 65"
    using sample_under_review by blast
  have "length (cx_sha256 sample_sdk sample_tx) = 32" by (simp add: sample_sdk_ok)
  then have "bip32_derive_ecdsa_sign_rs sample_sdk p (cx_sha256 sample_sdk sample_tx) =
      Some (cx_sha256 sample_sdk sample_tx, replicate 32 1, False)" for p
    by (simp add: sample_sdk_def)
  from approved_signature [OF sample_sdk_ok s this] s(1) show ?thesis by auto
qed

theorem refused_review_witness:
  "\<exists>s s'. under_review sample_sdk sample_bip32 sample_tx s \<and> user_choice sample_sdk False s = (Returned, s') \<and>
    outputs s' = outputs s @ [SendSW E_CONDITIONS_OF_USE_NOT_SATISFIED]"
proof -
  obtain s where s: "under_review sample_sdk sample_bip32 sample_tx s" using sample_under_review by blast
  from refused_review [OF s] s show ?thesis by blast
qed

text \<open>The contract captured from the sample transaction.\<close>

theorem captured_contract_in_chunk_witness:
  "\<exists>transaction u b. pb_decode tx_callbacks (protocol_Transaction_raw 1) (pb_istream_from_buffer RInput 0 sample_tx)
      \<lparr>cs_dataBytes = 0, cs_contract_buffer = None\<rparr> = Some (transaction, u) \<and> cs_contract_buffer u = Some b \<and>
     take (bytes_left b) (drop (s_pos b) sample_tx) = enc_transfer sample_address sample_address 1500000"
proof -
  let ?v = "enc_transfer sample_address sample_address 1500000"
  have len: "length (enc_contract 1 [] ?v) < 2 ^ 32"
    by (simp add: sample_address_def enc_contract_def enc_any_def enc_transfer_def enc_len_def enc_int_def enc_key_def enc_varint.simps)
  obtain m where m: "pb_decode tx_callbacks (protocol_Transaction_raw 1) (pb_istream_from_buffer RInput 0 sample_tx)
      \<lparr>cs_dataBytes = 0, cs_contract_buffer = None\<rparr> =
      Some (m, \<lparr>cs_dataBytes = 0, cs_contract_buffer = Some (IStream RInput (value_offset [1, 2] [3, 4] 1000 1 [] ?v) ?v)\<rparr>)"
    using decode_tx [OF _ _ len, of "[1, 2]" "[3, 4]" 1 0 1000 2000 0]
    by (auto simp: sample_tx_def pb_istream_from_buffer_def)
  from captured_contract_in_chunk [OF m] m show ?thesis by auto
qed

end
