(* ===== verification/Extra_Data.thy ===== *)
theory Extra_Data
  imports Session Callbacks
begin

text \<open>
  The extra data of a transaction (the memo in field 10 of \<^verbatim>\<open>protocol.Transaction.raw\<close>): what a wallet sent in the
  commands of a session, read off by a decoder of its own, and the number of its bytes that the application
  keeps in \<^verbatim>\<open>txContent.dataBytes\<close>.
\<close>

section \<open>Two decoders in step\<close>

text \<open>
  Two sets of callbacks over the same messages: whenever the first one accepts, so does the second one, and the
  two states stay related.
\<close>

locale callback_simulation = stream_contract ok_stream
  for ok_stream :: "pb_istream_t \<Rightarrow> bool" +
  fixes cb1 :: "'s pb_callback" and cb2 :: "'t pb_callback" and rel :: "'s \<Rightarrow> 't \<Rightarrow> bool"
  assumes same_none: "cb1 i = None \<Longrightarrow> cb2 i = None"
    and callback_steps: "cb1 i = Some f \<Longrightarrow> ok_stream s \<Longrightarrow> rel u v \<Longrightarrow> f s u = Some (s', u') \<Longrightarrow>
      ok_stream s' \<and> (\<exists>g v'. cb2 i = Some g \<and> g s v = Some (s', v') \<and> rel u' v')"
begin

lemma default_callback_steps:
  "ok_stream s \<Longrightarrow> rel u v \<Longrightarrow> pb_default_field_callback cb1 i s u = Some (s', u') \<Longrightarrow>
   ok_stream s' \<and> (\<exists>v'. pb_default_field_callback cb2 i s v = Some (s', v') \<and> rel u' v')"
  using callback_steps [of i _ s u v s' u']
  by (cases "cb1 i") (auto simp: pb_default_field_callback_def same_none)

lemma callback_loop_steps:
  "callback_loop cb1 i sub u = Some u' \<Longrightarrow> ok_stream sub \<Longrightarrow> rel u v \<Longrightarrow> \<exists>v'. callback_loop cb2 i sub v = Some v' \<and> rel u' v'"
proof (induction "bytes_left sub" arbitrary: sub u v rule: less_induct)
  case less
  from less.prems(1) obtain a b where ab: "pb_default_field_callback cb1 i sub u = Some (a, b)"
      "if 0 < bytes_left a \<and> bytes_left a < bytes_left sub then callback_loop cb1 i a b = Some u' else b = u'"
    by (subst (asm) callback_loop.simps) (auto split: option.splits if_splits)
  obtain w where w: "ok_stream a" "pb_default_field_callback cb2 i sub v = Some (a, w)" "rel b w"
    using default_callback_steps [OF less.prems(2,3) ab(1)] by blast
  show ?case
    using less.hyps [of a b w] ab(2) w
    by (cases "0 < bytes_left a \<and> bytes_left a < bytes_left sub")
      (auto simp: callback_loop.simps [of cb2 i sub])
qed

lemma callback_field_steps:
  assumes "decode_callback_field cb1 i wt s u = Some (u', s')" "ok_stream s" "rel u v"
  shows "\<exists>v'. decode_callback_field cb2 i wt s v = Some (v', s') \<and> rel u' v'"
proof (cases "wt = PB_WT_STRING")
  case True
  then obtain sub where sub: "pb_make_string_substream s = Some (sub, s')" "callback_loop cb1 i sub u = Some u'"
    using assms(1) by (auto simp: decode_callback_field_def split: bind_splits)
  then show ?thesis
    using callback_loop_steps [OF sub(2) _ assms(3)] substream_ok [OF sub(1) assms(2)] True
    by (auto simp: decode_callback_field_def)
next
  case False
  then obtain raw a where raw: "read_raw_value s wt = Some (raw, s')"
      "pb_default_field_callback cb1 i (IStream RLocal 0 raw) u = Some (a, u')"
    using assms(1) by (auto simp: decode_callback_field_def pb_istream_from_buffer_def split: bind_splits)
  then show ?thesis
    using default_callback_steps [OF ok_local [OF read_raw_length [OF raw(1)]] assms(3) raw(2)] False
    by (auto simp: decode_callback_field_def pb_istream_from_buffer_def)
qed

lemma decode_field_steps:
  assumes "decode_field cb1 f wt m u s = Some (m', u', s')" "ok_stream s" "rel u v"
  shows "\<exists>v'. decode_field cb2 f wt m v s = Some (m', v', s') \<and> rel u' v' \<and> ok_stream s'"
proof -
  have "ok_stream s'" using decode_field_consumes [OF assms(1)] ok_consumes assms(2) by blast
  with assms callback_field_steps [of _ wt s u u' s' v] show ?thesis
    by (cases "f_atype f") (fastforce simp: decode_field_def split: bind_splits)+
qed

theorem decode_inner_steps:
  "pb_decode_inner cb1 fs s m u = Some (m', u') \<Longrightarrow> ok_stream s \<Longrightarrow> rel u v \<Longrightarrow>
   \<exists>v'. pb_decode_inner cb2 fs s m v = Some (m', v') \<and> rel u' v'"
proof (induction "bytes_left s" arbitrary: fs s m u v m' u' rule: less_induct)
  case less
  note step = pb_decode_inner.simps [of cb2 fs s m v]
  from less.prems(1) show ?case
  proof (cases rule: pb_decode_inner_cases)
    case (skip wt tag s1 s2)
    note tag = pb_decode_tag_less [OF skip(2)] and skipped = pb_skip_field_consumes [OF skip(5)]
    then have "ok_stream s2" using ok_consumes less.prems(2) by blast
    with tag consumes_bytes_left [OF skipped] less.hyps [of s2 fs m u] skip less.prems(3) show ?thesis by (simp add: step)
  next
    case (field wt tag s1 f m1 u1 s2)
    note tag = pb_decode_tag_less [OF field(2)]
    then obtain v1 where v1: "decode_field cb2 f wt m v s1 = Some (m1, v1, s2)" "rel u1 v1" "ok_stream s2"
      using decode_field_steps [OF field(6)] ok_consumes less.prems(2,3) by blast
    with tag consumes_bytes_left [OF decode_field_consumes [OF field(6)]] less.hyps [of s2 fs m1 u1] field
    show ?thesis by (simp add: step)
  next
    case (submessage wt tag s1 f gs sm sub s2 sm' u1)
    note tag = pb_decode_tag_less [OF submessage(2)] and sub = pb_make_string_substream_consumes [OF submessage(8)]
    then have ok: "ok_stream sub \<and> ok_stream s2"
      using substream_ok [OF submessage(8)] ok_consumes less.prems(2) by blast
    then obtain v1 where v1: "pb_decode_inner cb2 gs sub sm v = Some (sm', v1)" "rel u1 v1"
      using less.hyps [of sub gs sm u sm' u1 v] submessage(9) tag sub less.prems(3) by auto
    with ok tag sub consumes_bytes_left [of s1 s2] less.hyps [of s2 fs _ u1] submessage show ?thesis
      by (simp add: step Let_def)
  qed (use less.prems in \<open>auto simp: step\<close>)
qed

end

section \<open>The extra data of the chunks\<close>

text \<open>
  A decoder that keeps the bytes of the data field and nothing else: the last field 10 of the bytes it is given
  wins, as protocol buffers have it, and a chunk without one adds nothing.
\<close>

definition data_field :: "bytes pb_callback" where
  "data_field i =
     (if i = 0 then Some (\<lambda>s d. Some (s, s_left s)) else if i = 2 then Some (\<lambda>s d. Some (s, d)) else None)"

definition data_after :: "sdk \<Rightarrow> bytes \<Rightarrow> bytes \<Rightarrow> bytes" where
  "data_after k data chunk =
     (case pb_decode data_field (protocol_Transaction_raw (enum_size k)) (IStream RInput 0 chunk) data of
        None \<Rightarrow> data
      | Some (m, data') \<Rightarrow> data')"

definition extra_data :: "sdk \<Rightarrow> bytes list \<Rightarrow> bytes" where
  "extra_data k chunks = foldl (data_after k) [] chunks"

definition counts :: "txContent_t \<Rightarrow> bytes \<Rightarrow> bool" where
  "counts c data \<longleftrightarrow> tc_dataBytes c = of_nat (length data) \<and> length data < 2 ^ 64"

lemma counts_data: "counts c data \<Longrightarrow> data \<noteq> [] \<Longrightarrow> tc_dataBytes c \<noteq> 0"
proof -
  assume "counts c data" "data \<noteq> []"
  then have "unat (tc_dataBytes c) = length data" by (simp add: counts_def unat_of_nat)
  with \<open>data \<noteq> []\<close> show ?thesis by auto
qed

interpretation memo: callback_simulation "\<lambda>s. bytes_left s < 2 ^ 64" tx_callbacks data_field
  "\<lambda>u data. cs_dataBytes u = of_nat (length data) \<and> length data < 2 ^ 64"
proof
  fix i f and s s' :: pb_istream_t and u u' :: tx_callback_state and v :: bytes
  assume "tx_callbacks i = Some f" "bytes_left s < 2 ^ 64" "cs_dataBytes u = of_nat (length v) \<and> length v < 2 ^ 64"
    "f s u = Some (s', u')"
  then show "bytes_left s' < 2 ^ 64 \<and> (\<exists>g v'. data_field i = Some g \<and> g s v = Some (s', v') \<and>
      cs_dataBytes u' = of_nat (length v') \<and> length v' < 2 ^ 64)"
    by (auto simp: tx_callbacks_def data_field_def pb_decode_contract_parameter_def pb_get_tx_data_size_def bytes_left_def
        split: if_splits)
next
  show "bytes_left s < 2 ^ 64 \<Longrightarrow> consumes s s' \<Longrightarrow> bytes_left s' < 2 ^ 64" for s s'
    by (drule consumes_bytes_left) simp
qed (auto simp: bytes_left_def tx_callbacks_def data_field_def split: if_splits)

lemma counts_decode:
  assumes "pb_decode tx_callbacks fs (pb_istream_from_buffer RInput 0 d) \<lparr>cs_dataBytes = tc_dataBytes c, cs_contract_buffer = None\<rparr>
      = Some (m, u)" "counts c data" "length d < 2 ^ 64"
  shows "\<exists>data'. pb_decode data_field fs (IStream RInput 0 d) data = Some (m, data') \<and>
    cs_dataBytes u = of_nat (length data') \<and> length data' < 2 ^ 64"
  using memo.decode_inner_steps [of fs "IStream RInput 0 d" _ _ m u data] assms
  by (simp add: pb_decode_def pb_istream_from_buffer_def counts_def bytes_left_def)

section \<open>The counter survives the contract\<close>

lemma data_decode_msg:
  "(\<And>m. tc_dataBytes (snd (body m)) = tc_dataBytes c) \<Longrightarrow> tc_dataBytes (fst (snd (decode_msg fs st c body))) = tc_dataBytes c"
  by (simp add: decode_msg_def split: option.splits prod.splits) (metis snd_conv)

lemma data_token:
  "tc_dataBytes (snd (printTokenFromID c i d n)) = tc_dataBytes c"
  "printTokenFromID c i d n = (b, c') \<Longrightarrow> tc_dataBytes c' = tc_dataBytes c"
  by (auto simp: printTokenFromID_def Let_def split: if_splits)

lemma data_exchange_token: "exchange_token m c = (b, c') \<Longrightarrow> tc_dataBytes c' = tc_dataBytes c"
  by (auto simp: exchange_token_def Let_def split: prod.splits bool.splits dest!: data_token(2))

interpretation trigger_data: callback_contract "\<lambda>_. True" trigger_callbacks "\<lambda>c. tc_dataBytes c = n" for n
proof
  fix i f and s s' :: pb_istream_t and u u' :: txContent_t
  assume "trigger_callbacks i = Some f" "tc_dataBytes u = n" "f s u = Some (s', u')"
  then show "True \<and> tc_dataBytes u' = n"
    by (auto simp: trigger_callbacks_def pb_decode_trigger_smart_contract_data_def Let_def split: if_splits bind_splits)
qed simp_all

lemma data_trigger: "tc_dataBytes (fst (snd (trigger_smart_contract st c))) = tc_dataBytes c"
proof (cases "pb_decode trigger_callbacks protocol_TriggerSmartContract st c")
  case None
  then show ?thesis by (simp add: trigger_smart_contract_def)
next
  case (Some x)
  obtain m c0 where x: "x = (m, c0)" by fastforce
  have "tc_dataBytes c0 = tc_dataBytes c"
    using trigger_data.decode_inner_keeps [OF Some [unfolded x pb_decode_def]] by simp
  with Some x show ?thesis by (simp add: trigger_smart_contract_def Let_def split: option.splits)
qed

lemma data_contracts:
  "tc_dataBytes (fst (snd (transfer_contract st c))) = tc_dataBytes c"
  "tc_dataBytes (fst (snd (transfer_asset_contract st c))) = tc_dataBytes c"
  "tc_dataBytes (fst (snd (vote_witness_contract st c))) = tc_dataBytes c"
  "tc_dataBytes (fst (snd (freeze_balance_contract k st c))) = tc_dataBytes c"
  "tc_dataBytes (fst (snd (unfreeze_balance_contract k st c))) = tc_dataBytes c"
  "tc_dataBytes (fst (snd (freeze_balance_v2_contract k st c))) = tc_dataBytes c"
  "tc_dataBytes (fst (snd (unfreeze_balance_v2_contract k st c))) = tc_dataBytes c"
  "tc_dataBytes (fst (snd (withdraw_expire_unfreeze_contract st c))) = tc_dataBytes c"
  "tc_dataBytes (fst (snd (delegate_resource_contract k st c))) = tc_dataBytes c"
  "tc_dataBytes (fst (snd (undelegate_resource_contrace k st c))) = tc_dataBytes c"
  "tc_dataBytes (fst (snd (withdraw_balance_contract st c))) = tc_dataBytes c"
  "tc_dataBytes (fst (snd (proposal_create_contract st c))) = tc_dataBytes c"
  "tc_dataBytes (fst (snd (proposal_approve_contract st c))) = tc_dataBytes c"
  "tc_dataBytes (fst (snd (proposal_delete_contract st c))) = tc_dataBytes c"
  "tc_dataBytes (fst (snd (account_update_contract st c))) = tc_dataBytes c"
  "tc_dataBytes (fst (snd (account_permission_update_contract k st c))) = tc_dataBytes c"
  unfolding transfer_contract_def transfer_asset_contract_def vote_witness_contract_def freeze_balance_contract_def
    unfreeze_balance_contract_def freeze_balance_v2_contract_def unfreeze_balance_v2_contract_def
    withdraw_expire_unfreeze_contract_def delegate_resource_contract_def undelegate_resource_contrace_def
    withdraw_balance_contract_def proposal_create_contract_def proposal_approve_contract_def proposal_delete_contract_def
    account_update_contract_def account_permission_update_contract_def
  by ((rule data_decode_msg); force simp: Let_def split: prod.splits bool.splits dest!: data_token(2))+

lemma data_exchanges:
  "tc_dataBytes (fst (snd (exchange_create_contract st c))) = tc_dataBytes c"
  "tc_dataBytes (fst (snd (exchange_inject_contract st c))) = tc_dataBytes c"
  "tc_dataBytes (fst (snd (exchange_withdraw_contract st c))) = tc_dataBytes c"
  "tc_dataBytes (fst (snd (exchange_transaction_contract st c))) = tc_dataBytes c"
  unfolding exchange_create_contract_def exchange_inject_contract_def exchange_withdraw_contract_def
    exchange_transaction_contract_def
  by ((rule data_decode_msg); force simp: Let_def split: prod.splits bool.splits dest!: data_token(2) data_exchange_token)+

lemma data_contract: "contract_switch k type = Some f \<Longrightarrow> tc_dataBytes (fst (snd (f st c))) = tc_dataBytes c"
  unfolding contract_switch_def
  by (simp split: if_splits) (auto simp: data_contracts data_exchanges data_trigger)

lemma data_process_contract:
  "tc_dataBytes (txContent (snd (process_contract k b ct cb s))) = tc_dataBytes (txContent s)"
proof -
  have "tc_dataBytes c' = tc_dataBytes c" if "contract_switch k t = Some f" "f st c = (r, c', m)" for t f st c r c' m
    using data_contract [OF that(1), of st c] that(2) by simp
  from this [of _ _ _ "txContent s\<lparr>tc_contractSeen := True, tc_permission_id := p, tc_contractType := t\<rparr>" for p t]
  show ?thesis by (auto simp: process_contract_def Let_def split: option.splits prod.splits)
qed

lemma data_processed: "process_contract k b ct cb s = (st, s') \<Longrightarrow> tc_dataBytes (txContent s') = tc_dataBytes (txContent s)"
  using data_process_contract [of k b ct cb s] by simp

lemma data_tokens:
  "tc_dataBytes (snd (set_token_info c i a b p)) = tc_dataBytes c"
  "tc_dataBytes (snd (parseTokenName k i d c)) = tc_dataBytes c"
  by (simp_all add: set_token_info_def parseTokenName_def Let_def split: option.splits prod.splits)

lemma data_parseExchange: "tc_dataBytes (snd (parseExchange k d c)) = tc_dataBytes c"
proof -
  have "tc_dataBytes (snd (case set_token_info c i a b p of (False, c1) \<Rightarrow> (False, c1)
      | (True, c1) \<Rightarrow> set_token_info c1 j a' b' p')) = tc_dataBytes c" for i a b p j a' b' p'
    using data_tokens(1) [of c i a b p] by (cases "set_token_info c i a b p") (auto simp: data_tokens split: bool.splits)
  then show ?thesis by (auto simp: parseExchange_def Let_def split: option.splits prod.splits)
qed

lemma data_sign_token_name:
  "sign_token_name k p1 d s = Inr s1 \<Longrightarrow> tc_dataBytes (txContent s1) = tc_dataBytes (txContent s)"
  "sign_token_name k p1 d s = Inl (r, s1) \<Longrightarrow> tc_dataBytes (txContent s1) = tc_dataBytes (txContent s)"
  using data_tokens(2) [of k "unat (p1 AND 0x07)" d "txContent s"] data_parseExchange [of k d "txContent s"]
  by (auto simp: sign_token_name_def ret_sw_def io_send_sw_def Let_def split: if_splits prod.splits bool.splits)

section \<open>The counter over a session\<close>

lemma data_after_empty: "data_after k data [] = data"
  by (simp add: data_after_def pb_decode_def pb_decode_inner.simps bytes_left_def)

lemma processTx_counts:
  assumes "processTx k d s = (st, s3)" "st = USTREAM_PROCESSING \<or> st = USTREAM_FINISHED"
    "counts (txContent s) data" "length d < 2 ^ 64"
  shows "counts (txContent s3) (data_after k data d)"
proof (cases "d = []")
  case True
  with assms show ?thesis by (auto simp: processTx_def data_after_empty)
next
  case False
  let ?fs = "protocol_Transaction_raw (enum_size k)"
  obtain m u where dec: "pb_decode tx_callbacks ?fs (pb_istream_from_buffer RInput 0 d)
      \<lparr>cs_dataBytes = tc_dataBytes (txContent s), cs_contract_buffer = None\<rparr> = Some (m, u)"
    using assms(1,2) False
    by (cases "pb_decode tx_callbacks ?fs (pb_istream_from_buffer RInput 0 d)
      \<lparr>cs_dataBytes = tc_dataBytes (txContent s), cs_contract_buffer = None\<rparr>") (auto simp: processTx_def Let_def)
  from counts_decode [OF dec assms(3,4)] have u: "cs_dataBytes u = of_nat (length (data_after k data d))"
      "length (data_after k data d) < 2 ^ 64"
    by (auto simp: data_after_def)
  have "tc_dataBytes (txContent s3) = cs_dataBytes u"
    using assms(1,2) False dec
    by (auto simp: processTx_def Let_def split: if_splits dest!: data_processed)
  with u show ?thesis by (simp add: counts_def)
qed

lemma sign_chunk_processed:
  assumes "sign_chunk k p1 d s = (Returned, s')" "\<not> G_called_from_swap s"
    "outputs s' = outputs s \<or> outputs s' = outputs s @ [SendSW E_OK]"
  shows "\<exists>st s3. processTx k d (s\<lparr>txContext := (txContext s)\<lparr>tx_sha2 := tx_sha2 (txContext s) @ d\<rparr>\<rparr>) = (st, s3) \<and>
    (st = USTREAM_PROCESSING \<or> st = USTREAM_FINISHED) \<and> outputs s3 = outputs s \<and> N_settings s3 = N_settings s \<and>
    \<not> G_called_from_swap s3 \<and> tx_sha2 (txContext s3) = tx_sha2 (txContext s) @ d \<and>
    (if outputs s' = outputs s then finish_sign k s3 = (Returned, s') else s' = io_send_sw E_OK s3)"
proof -
  let ?s1 = "s\<lparr>txContext := (txContext s)\<lparr>tx_sha2 := tx_sha2 (txContext s) @ d\<rparr>\<rparr>"
  have i: "tx_initialized (txContext s)"
    using assms by (auto simp: sign_chunk_def ret_sw_def io_send_sw_def split: if_splits)
  obtain st c m where p: "processTx k d ?s1 = (st, ?s1\<lparr>txContent := c, msg := m\<rparr>)"
    using processTx_frame [of k d ?s1] by (cases "processTx k d ?s1") auto
  let ?s3 = "?s1\<lparr>txContent := c, msg := m\<rparr>"
  have "finish_sign k ?s3 = (Returned, s') \<Longrightarrow> outputs s' = outputs s"
    using outcome_finish_sign [of ?s3 k] assms(2,3) by (auto simp: sign_outcome_def)
  then show ?thesis
    using assms i p
    by (intro exI [of _ st] exI [of _ ?s3], cases st)
      (auto simp: sign_chunk_def Let_def ret_sw_def io_send_sw_def initTx_def split: if_splits)
qed

text \<open>
  The chunks of a session, and of a session whose last chunk led to a review; token descriptions carry none. Only
  \<^verbatim>\<open>INS_SIGN\<close> commands occur in between.
\<close>

inductive chunks_sent :: "sdk \<Rightarrow> bytes list \<Rightarrow> app_state \<Rightarrow> bool" for k where
  first_sent:
    "handleSign k P1_FIRST 0 d s = (Returned, s') \<Longrightarrow> outputs s' = outputs s @ [SendSW E_OK] \<Longrightarrow>
     \<not> G_called_from_swap s \<Longrightarrow> length d \<le> 255 \<Longrightarrow>
     read_bip32_path d (tr_bip32_path (transactionContext s)) = (Some n, path) \<Longrightarrow> chunks_sent k [drop n d] s'"
| more_sent:
    "chunks_sent k ds s \<Longrightarrow> handleSign k P1_MORE 0 d s = (Returned, s') \<Longrightarrow> length d \<le> 255 \<Longrightarrow>
     outputs s' = outputs s @ [SendSW E_OK] \<Longrightarrow> chunks_sent k (ds @ [d]) s'"
| token_sent:
    "chunks_sent k ds s \<Longrightarrow> handleSign k p1 0 d s = (Returned, s') \<Longrightarrow> p1 AND 0xF0 = P1_TRC10_NAME \<Longrightarrow>
     outputs s' = outputs s @ [SendSW E_OK] \<Longrightarrow> chunks_sent k ds s'"

inductive review_opened :: "sdk \<Rightarrow> bytes list \<Rightarrow> app_state \<Rightarrow> bool" for k where
  only_chunk:
    "handleSign k p1 0 d s = (Returned, s') \<Longrightarrow> p1 = P1_FIRST \<or> p1 = P1_SIGN \<Longrightarrow> outputs s' = outputs s \<Longrightarrow>
     \<not> G_called_from_swap s \<Longrightarrow> length d \<le> 255 \<Longrightarrow>
     read_bip32_path d (tr_bip32_path (transactionContext s)) = (Some n, path) \<Longrightarrow> review_opened k [drop n d] s'"
| final_chunk:
    "chunks_sent k ds s \<Longrightarrow> handleSign k p1 0 d s = (Returned, s') \<Longrightarrow> p1 = P1_MORE \<or> p1 = P1_LAST \<Longrightarrow>
     length d \<le> 255 \<Longrightarrow> outputs s' = outputs s \<Longrightarrow> review_opened k (ds @ [d]) s'"
| final_token:
    "chunks_sent k ds s \<Longrightarrow> handleSign k p1 0 d s = (Returned, s') \<Longrightarrow> p1 AND 0xF0 = P1_TRC10_NAME \<Longrightarrow>
     outputs s' = outputs s \<Longrightarrow> review_opened k ds s'"

definition chunks_inv :: "sdk \<Rightarrow> bytes list \<Rightarrow> app_state \<Rightarrow> bool" where
  "chunks_inv k ds s \<longleftrightarrow> counts (txContent s) (extra_data k ds) \<and> tx_sha2 (txContext s) = concat ds \<and> \<not> G_called_from_swap s"

lemma chunks_inv_initTx: "\<not> G_called_from_swap s \<Longrightarrow> chunks_inv k [] ((initTx s)\<lparr>customContractField := 0\<rparr>)"
  by (simp add: chunks_inv_def counts_def initTx_def zero_content_def extra_data_def)

lemma chunk_inv:
  assumes "sign_chunk k p1 d s = (Returned, s')" "chunks_inv k ds s" "length d \<le> 255"
    "outputs s' = outputs s \<or> outputs s' = outputs s @ [SendSW E_OK]"
  shows "\<exists>s3. chunks_inv k (ds @ [d]) s3 \<and> outputs s3 = outputs s \<and>
    (if outputs s' = outputs s then finish_sign k s3 = (Returned, s') else s' = io_send_sw E_OK s3)"
proof -
  let ?s1 = "s\<lparr>txContext := (txContext s)\<lparr>tx_sha2 := tx_sha2 (txContext s) @ d\<rparr>\<rparr>"
  obtain st s3 where s3: "processTx k d ?s1 = (st, s3)" "st = USTREAM_PROCESSING \<or> st = USTREAM_FINISHED"
      "outputs s3 = outputs s" "\<not> G_called_from_swap s3" "tx_sha2 (txContext s3) = tx_sha2 (txContext s) @ d"
      "if outputs s' = outputs s then finish_sign k s3 = (Returned, s') else s' = io_send_sw E_OK s3"
    using sign_chunk_processed [OF assms(1) _ assms(4)] assms(2) by (auto simp: chunks_inv_def)
  have "counts (txContent s3) (extra_data k (ds @ [d]))"
    using processTx_counts [OF s3(1,2), of "extra_data k ds"] assms(2,3) by (simp add: chunks_inv_def extra_data_def)
  then show ?thesis using s3(3-6) assms(2) by (auto simp: chunks_inv_def)
qed

lemma chunks_inv_no_chunk: "chunks_inv k (ds @ [[]]) s = chunks_inv k ds s"
  by (simp add: chunks_inv_def extra_data_def data_after_empty)

lemma chunks_inv_io [simp]: "chunks_inv k ds (io_send_sw sw s) = chunks_inv k ds s"
  by (simp add: chunks_inv_def io_send_sw_def)

lemma token_inv:
  assumes "handleSign k p1 0 d s = (Returned, s')" "p1 AND 0xF0 = P1_TRC10_NAME" "chunks_inv k ds s"
    "outputs s' = outputs s \<or> outputs s' = outputs s @ [SendSW E_OK]"
  shows "\<exists>s3. chunks_inv k ds s3 \<and> outputs s3 = outputs s \<and>
    (if outputs s' = outputs s then finish_sign k s3 = (Returned, s') else s' = io_send_sw E_OK s3)"
proof -
  consider (stop) "sign_token_name k p1 d s = Inl (Returned, s')"
    | (go) s1 where "sign_token_name k p1 d s = Inr s1" "sign_chunk k p1 [] s1 = (Returned, s')"
    using assms(1,2) by (auto simp: handleSign_token split: sum.splits)
  then show ?thesis
  proof cases
    case stop
    obtain c sw where s': "s' = io_send_sw sw (s\<lparr>txContent := c\<rparr>)" using sign_token_name_frame(2) [OF stop] by blast
    then have "chunks_inv k ds (s\<lparr>txContent := c\<rparr>)"
      using data_sign_token_name(2) [OF stop] assms(3) by (simp add: chunks_inv_def counts_def io_send_sw_def)
    moreover have "sw = E_OK" "outputs s' \<noteq> outputs s" using assms(4) by (simp_all add: s' io_send_sw_def)
    ultimately show ?thesis using s' by (intro exI [of _ "s\<lparr>txContent := c\<rparr>"]) simp
  next
    case go
    then obtain c where c: "s1 = s\<lparr>txContent := c\<rparr>" using sign_token_name_frame(1) by blast
    then have "chunks_inv k ds s1"
      using data_sign_token_name(1) [OF go(1)] assms(3) by (simp add: chunks_inv_def counts_def)
    with chunk_inv [OF go(2), of ds] assms(4) show ?thesis by (simp add: chunks_inv_no_chunk c)
  qed
qed

lemma chunks_sent_inv: "chunks_sent k ds s \<Longrightarrow> chunks_inv k ds s"
proof (induction rule: chunks_sent.induct)
  case (first_sent d s s' n path)
  let ?s1 = "(initTx (set_path path s))\<lparr>customContractField := 0\<rparr>"
  have "sign_chunk k P1_FIRST (drop n d) ?s1 = (Returned, s')" using first_sent by (simp add: handleSign_def)
  moreover have "outputs ?s1 = outputs s" by (simp add: initTx_def)
  moreover have "length (drop n d) \<le> 255" using first_sent(4) by simp
  ultimately show ?case
    using chunk_inv [of k P1_FIRST "drop n d" ?s1 s' "[]"] chunks_inv_initTx [of "set_path path s" k] first_sent by auto
next
  case (more_sent ds s d s')
  then have "sign_chunk k P1_MORE d s = (Returned, s')" by (simp add: handleSign_def)
  with more_sent chunk_inv [of k P1_MORE d s s' ds] show ?case by auto
next
  case (token_sent ds s p1 d s')
  with token_inv [of k p1 d s s' ds] show ?case by auto
qed

text \<open>Every review of a transaction comes from \<^verbatim>\<open>finish_sign\<close> in a state that counts the extra data of all chunks.\<close>

lemma review_opened_inv:
  "review_opened k ds s' \<Longrightarrow> \<exists>s. finish_sign k s = (Returned, s') \<and> outputs s' = outputs s \<and> chunks_inv k ds s"
proof (induction rule: review_opened.induct)
  case (only_chunk p1 d s s' n path)
  let ?s1 = "(initTx (set_path path s))\<lparr>customContractField := 0\<rparr>"
  have "sign_chunk k p1 (drop n d) ?s1 = (Returned, s')" using only_chunk by (auto simp: handleSign_def)
  moreover have "outputs ?s1 = outputs s" by (simp add: initTx_def)
  moreover have "length (drop n d) \<le> 255" using only_chunk(5) by simp
  ultimately show ?case
    using chunk_inv [of k p1 "drop n d" ?s1 s' "[]"] chunks_inv_initTx [of "set_path path s" k] only_chunk by auto
next
  case (final_chunk ds s p1 d s')
  then have "sign_chunk k p1 d s = (Returned, s')" by (auto simp: handleSign_def)
  with final_chunk chunk_inv [of k p1 d s s' ds] chunks_sent_inv show ?case by auto
next
  case (final_token ds s p1 d s')
  with token_inv [of k p1 d s s' ds] chunks_sent_inv show ?case by auto
qed

end
