(* ===== verification/Guards.thy ===== *)
theory Guards
  imports Transfer_Review Extra_Data
begin

text \<open>
  The settings and the limits of a session: what a review needs before it is shown, and what a chunk or a
  command may not do.
\<close>

section \<open>Settings\<close>

text \<open>A result that shows a review: its settings are on, and its warnings come first.\<close>

definition guarded :: "bool \<Rightarrow> app_state \<Rightarrow> result \<Rightarrow> bool" where
  "guarded w s r \<longleftrightarrow>
     (case r of (res, s') \<Rightarrow>
        res = Returned \<and> outputs s' = outputs s \<longrightarrow>
          allowed (ti_state (txInfos s')) s \<and> (w \<longrightarrow> the_screen s' = DataWarningScreen) \<and>
          (ti_state (txInfos s') = APPROVAL_CUSTOM_CONTRACT \<longrightarrow> the_screen s' \<in> {DataWarningScreen, CustomWarningScreen}))"

lemma warnings_cases [simp]:
  "ti_data_warning (tx_infos_1 st s i) = ti_data_warning i" "ti_data_warning (tx_infos_2 st i) = ti_data_warning i"
  "ti_custom_warning (tx_infos_1 st s i) = ti_custom_warning i"
  "ti_custom_warning (tx_infos_2 APPROVAL_CUSTOM_CONTRACT i)"
  by (cases st; simp add: tx_infos_1_def tx_infos_2_def)+

lemma prepare_warnings:
  assumes "prepareTxInfos k st w s = (Inr True, s')"
  shows "ti_data_warning (txInfos s') = w" "st = APPROVAL_CUSTOM_CONTRACT \<longrightarrow> ti_custom_warning (txInfos s')"
  using assms
  by (auto simp: prepareTxInfos_def Let_def insert_known_service_label_def apply_address_book_aliases_def
      split: if_splits prod.splits bool.splits)

lemma guarded_display:
  assumes "quiet s s1" "tx_review st" "allowed st s"
  shows "guarded w s (ux_flow_display k st w s1)"
proof -
  obtain r s2 where p: "prepareTxInfos k st w s1 = (r, s2)" by fastforce
  have "outputs s2 = outputs s" using prepareTxInfos_quiet [OF p] assms(1) by (simp add: quiet_def)
  then show ?thesis
    using assms(2,3) p prepareTxInfos_state [of k st w s1 s2] prepare_warnings [of k st w s1 s2]
    by (cases r)
      (auto simp: ux_flow_display_def tx_review_def guarded_def reviewStart_def ui_idle_def io_send_sw_def
        terminate_signing_session_def split: bool.splits)
qed

lemma guarded_refuse: "quiet s s1 \<Longrightarrow> sw \<noteq> E_OK \<Longrightarrow> guarded w s (refuse sw s1)"
  by (simp add: guarded_def refuse_def ret_sw_def io_send_sw_def terminate_signing_session_def quiet_def)

lemma guarded_no_return: "guarded w s (Stuck, s1)" "guarded w s (Thrown e, s1)"
  by (simp_all add: guarded_def)

interpretation guard: sign_walk k guarded for k
  by unfold_locales ((rule guarded_refuse guarded_display; assumption) | rule guarded_no_return)+

lemma finish_settings:
  assumes "finish_sign k s = (Returned, s')" "outputs s' = outputs s" "\<not> G_called_from_swap s"
  shows "(tc_dataBytes (txContent s) \<noteq> 0 \<longrightarrow>
      HAS_SETTING s S_DATA_ALLOWED \<and> the_screen s' = DataWarningScreen) \<and>
    (ti_state (txInfos s') = APPROVAL_CUSTOM_CONTRACT \<longrightarrow>
      HAS_SETTING s S_CUSTOM_CONTRACT \<and> the_screen s' \<in> {DataWarningScreen, CustomWarningScreen}) \<and>
    (ti_state (txInfos s') = APPROVAL_SIMPLE_TRANSACTION \<longrightarrow> HAS_SETTING s S_SIGN_BY_HASH)"
proof -
  have "guarded (tc_dataBytes (txContent s) > 0) (hashed k s) (Returned, s')"
    using guard.good_finish_sign [OF assms(3), of k] assms(1) by simp
  then have g: "allowed (ti_state (txInfos s')) s" "tc_dataBytes (txContent s) > 0 \<longrightarrow> the_screen s' = DataWarningScreen"
    "ti_state (txInfos s') = APPROVAL_CUSTOM_CONTRACT \<longrightarrow> the_screen s' \<in> {DataWarningScreen, CustomWarningScreen}"
    using assms(2) by (simp_all add: guarded_def allowed_def HAS_SETTING_def)
  have "\<not> HAS_SETTING s S_DATA_ALLOWED \<and> tc_dataBytes (txContent s) \<noteq> 0 \<Longrightarrow> outputs s' \<noteq> outputs s"
    using assms(1) by (auto simp: finish_sign_def Let_def refuse_def ret_sw_def io_send_sw_def terminate_signing_session_def
        HAS_SETTING_def)
  with g assms(2) show ?thesis by (auto simp: allowed_def word_gt_0)
qed

text \<open>C13: The settings are respected, from the bytes a wallet sends to the screen: when the chunks of a session lead
  to a review, in whatever way they are cut, then what waits for approval is the digest of exactly these chunks,
  and - the transaction has extra data in them: the setting for it is on and the first screen warns
  of it; a call of an unknown contract: the setting for it is on and a warning comes before the
  transaction; a contract type the device cannot interpret: signing by hash is allowed. Extra data is the
  content of the last data field of the chunks. The commands of a session follow one another: another command in between
  can make the application forget the extra data, as is shown of personal messages elsewhere.\<close>

theorem settings_respected:
  assumes "review_opened k ds s"
  shows "tr_hash (transactionContext s) = cx_sha256 k (concat ds) \<and>
    (extra_data k ds \<noteq> [] \<longrightarrow> HAS_SETTING s S_DATA_ALLOWED \<and> the_screen s = DataWarningScreen) \<and>
    (ti_state (txInfos s) = APPROVAL_CUSTOM_CONTRACT \<longrightarrow>
      HAS_SETTING s S_CUSTOM_CONTRACT \<and> the_screen s \<in> {DataWarningScreen, CustomWarningScreen}) \<and>
    (ti_state (txInfos s) = APPROVAL_SIMPLE_TRANSACTION \<longrightarrow> HAS_SETTING s S_SIGN_BY_HASH)"
proof -
  obtain s0 where s0: "finish_sign k s0 = (Returned, s)" "outputs s = outputs s0" "chunks_inv k ds s0"
    using review_opened_inv [OF assms] by blast
  then have sw: "\<not> G_called_from_swap s0" and sha: "tx_sha2 (txContext s0) = concat ds" by (simp_all add: chunks_inv_def)
  have data: "extra_data k ds \<noteq> [] \<longrightarrow> tc_dataBytes (txContent s0) \<noteq> 0"
    using s0(3) counts_data by (auto simp: chunks_inv_def)
  have "sign_outcome (hashed k s0) (Returned, s)" using outcome_finish_sign [of s0 k] s0(1) sw by simp
  then have core: "core s = core (hashed k s0)" by (simp add: sign_outcome_def)
  then have set: "HAS_SETTING s n = HAS_SETTING s0 n" for n by (simp add: core_def HAS_SETTING_def)
  have "tr_hash (transactionContext s) = cx_sha256 k (concat ds)" using core sha by (simp add: core_def)
  with finish_settings [OF s0(1,2) sw] data show ?thesis by (auto simp: set)
qed

lemma withdraw_display:
  "fst (ux_flow_display k APPROVAL_WITHDRAWBALANCE_TRANSACTION w s) = Returned"
  "outputs (snd (ux_flow_display k APPROVAL_WITHDRAWBALANCE_TRANSACTION w s)) = outputs s"
  "the_screen (snd (ux_flow_display k APPROVAL_WITHDRAWBALANCE_TRANSACTION w s)) = (if w then DataWarningScreen else TransactionScreen)"
  "transactionContext (snd (ux_flow_display k APPROVAL_WITHDRAWBALANCE_TRANSACTION w s)) = transactionContext s"
  by (simp_all add: ux_flow_display_def prepareTxInfos_def tx_infos_1_def tx_infos_2_def insert_known_service_label_def
      apply_address_book_aliases_def reviewStart_def Let_def)

lemma finish_withdraw:
  assumes "tc_contractType (txContent s) = WITHDRAWBALANCECONTRACT" "tc_permission_id (txContent s) = 0"
    "HAS_SETTING s S_DATA_ALLOWED" "\<not> G_called_from_swap s"
  shows "fst (finish_sign k s) = Returned" "outputs (snd (finish_sign k s)) = outputs s"
    "the_screen (snd (finish_sign k s)) = (if tc_dataBytes (txContent s) > 0 then DataWarningScreen else TransactionScreen)"
    "tr_hash (transactionContext (snd (finish_sign k s))) = cx_sha256 k (tx_sha2 (txContext s))"
proof -
  have h: "HAS_SETTING (hashed k s) S_DATA_ALLOWED" using assms(3) by (simp add: HAS_SETTING_def)
  let ?s1 = "set_sender k (hashed k s)"
  have s1: "tc_contractType (txContent ?s1) = WITHDRAWBALANCECONTRACT" "\<not> G_called_from_swap ?s1" "outputs ?s1 = outputs s"
    "tr_hash (transactionContext ?s1) = cx_sha256 k (tx_sha2 (txContext s))"
    using assms by (simp_all add: set_sender_def Let_def)
  have "finish_sign k s = sign_switch k (tc_dataBytes (txContent s) > 0) ?s1"
    using h s1(2) by (simp add: finish_sign_def Let_def assms(2) MAX_PERMISSION_ID_def)
  also have "\<dots> = sign_withdraw k APPROVAL_WITHDRAWBALANCE_TRANSACTION (tc_dataBytes (txContent s) > 0) ?s1"
    using s1(1) by (simp add: sign_switch_def)
  finally show "fst (finish_sign k s) = Returned" "outputs (snd (finish_sign k s)) = outputs s"
    "the_screen (snd (finish_sign k s)) = (if tc_dataBytes (txContent s) > 0 then DataWarningScreen else TransactionScreen)"
    "tr_hash (transactionContext (snd (finish_sign k s))) = cx_sha256 k (tx_sha2 (txContext s))"
    using s1(3,4) by (simp_all add: sign_withdraw_def withdraw_display set_recipient_address_def)
qed

text \<open>A withdrawal in the first chunk, and a memo of one byte in the last one.\<close>

definition sample_withdraw :: bytes where
  "sample_withdraw = enc_tx [1, 2] [3, 4] 1000 13 [] (enc_len 1 sample_address) 2000 0"

definition sample_memo :: bytes where
  "sample_memo = enc_len 10 [7]"

lemma decode_memo:
  assumes "\<And>s. bytes_left s = 1 \<Longrightarrow> callback_loop cb 0 s u = Some (u' s)"
  shows "pb_decode cb (protocol_Transaction_raw es) (IStream RInput 0 sample_memo) u =
    Some (pb_message_set_to_defaults (protocol_Transaction_raw es),
      u' (IStream RInput (length (enc_key 10 2) + length (enc_varint 1)) [7]))"
proof -
  let ?fs = "protocol_Transaction_raw es"
  have f: "pb_field_iter_find ?fs (of_nat 10) = Some (Field (of_nat 10) (CALLBACK 0) SINGULAR (LT_BYTES 0))"
    by (simp add: protocol_Transaction_raw_def pb_field_iter_find_def)
  show ?thesis
    using inner_callback [OF f, of "[7]" cb RInput 0 u _ "[]"] assms
    by (simp add: pb_decode_def sample_memo_def bytes_left_def inner_end)
qed

lemma memo_loops:
  "bytes_left s = 1 \<Longrightarrow> callback_loop tx_callbacks 0 s u = Some (u\<lparr>cs_dataBytes := 1\<rparr>)"
  "bytes_left s = 1 \<Longrightarrow> callback_loop data_field 0 s v = Some (s_left s)"
  by (subst callback_loop.simps; simp add: pb_default_field_callback_def tx_callbacks_def pb_get_tx_data_size_def data_field_def)+

lemma memo_data: "extra_data k [c, sample_memo] = [7]"
  using decode_memo [of data_field _ "\<lambda>s. s_left s", OF memo_loops(2)] by (simp add: extra_data_def data_after_def)

lemma memo_processed:
  assumes "\<not> tc_feeLimitSeen (txContent s)" "HAS_SETTING s S_DATA_ALLOWED"
  shows "processTx k sample_memo s =
    (USTREAM_PROCESSING, s\<lparr>msg := [], txContent := (txContent s)\<lparr>tc_dataBytes := 1\<rparr>\<rparr>)"
proof -
  let ?m = "pb_message_set_to_defaults (protocol_Transaction_raw (enum_size k))"
  have "m_int ?m 18 = 0" "\<not> m_has (m_msg ?m 11) 2"
    by (simp_all add: protocol_Transaction_raw_def pb_message_set_to_defaults_def get_slot_def m_int_def m_msg_def m_msgs_def m_has_def)
  moreover have "sample_memo \<noteq> []" by (simp add: sample_memo_def enc_len_def)
  ultimately show ?thesis
    using assms decode_memo [of tx_callbacks _ "\<lambda>_. _", OF memo_loops(1)]
    by (simp add: processTx_def Let_def pb_istream_from_buffer_def)
qed

lemma withdraw_processed:
  assumes "txContent s = zero_content\<lparr>tc_contractType := INVALID_CONTRACT\<rparr>"
  shows "\<exists>c m. processTx sample_sdk sample_withdraw s = (USTREAM_PROCESSING, s\<lparr>txContent := c, msg := m\<rparr>) \<and>
    tc_contractType c = WITHDRAWBALANCECONTRACT \<and> tc_permission_id c = 0 \<and> \<not> tc_feeLimitSeen c"
proof -
  let ?v = "enc_len 1 sample_address" and ?fs = "protocol_WithdrawBalanceContract"
  have f: "pb_field_iter_find ?fs (of_nat 1) = Some (Field (of_nat 1) STATIC SINGULAR (LT_FIXED_LENGTH_BYTES 21))"
    by (simp add: protocol_WithdrawBalanceContract_def pb_field_iter_find_def)
  have "\<exists>m. pb_decode no_callbacks ?fs (IStream g p (?v @ [])) () = Some (m, ())" for g p
    unfolding pb_decode_def by (subst inner_fixed [OF f]) (simp_all add: sample_address_def inner_end)
  then obtain w where "pb_decode no_callbacks ?fs (IStream RInput (value_offset [1, 2] [3, 4] 1000 13 [] ?v) ?v) () = Some (w, ())"
    by (metis append_Nil2)
  then obtain a m where m: "withdraw_balance_contract (IStream RInput (value_offset [1, 2] [3, 4] 1000 13 [] ?v) ?v)
      (tx_content 13 0 (txContent s)) = (True, (tx_content 13 0 (txContent s))\<lparr>tc_account := a\<rparr>, m)"
    by (simp add: withdraw_balance_contract_def decode_msg_def)
  have len: "length (enc_contract 13 [] ?v) < 2 ^ 32"
    by (simp add: sample_address_def enc_contract_def enc_any_def enc_len_def enc_int_def enc_key_def enc_varint.simps)
  have sw: "contract_switch sample_sdk (of_nat 13) = Some withdraw_balance_contract" by (simp add: contract_switch_def)
  have "?v \<noteq> []" by (simp add: enc_len_def)
  then have "processTx sample_sdk sample_withdraw s =
      (USTREAM_PROCESSING, s\<lparr>txContent := (tx_content 13 0 (txContent s))\<lparr>tc_account := a\<rparr>, msg := m\<rparr>)"
    using processTx_enc [OF _ _ len sample_sdk_ok _ _ _ _ _ _ sw m] assms
    by (simp add: sample_withdraw_def zero_content_def)
  then show ?thesis
    by (intro exI conjI) (assumption | simp add: tx_content_def assms zero_content_def)+
qed

theorem settings_respected_witness:
  "\<exists>s. review_opened sample_sdk [sample_withdraw, sample_memo] s \<and> extra_data sample_sdk [sample_withdraw, sample_memo] = [7] \<and>
    the_screen s = DataWarningScreen"
proof -
  let ?d = "sample_path @ sample_withdraw"
  let ?s1 = "(initTx (set_path sample_bip32 sample_state))\<lparr>customContractField := 0\<rparr>"
  have read: "read_bip32_path ?d (tr_bip32_path (transactionContext sample_state)) = (Some 13, sample_bip32)"
    by (simp only: sample_facts sample_read)
  have len: "length ?d \<le> 255" "length sample_memo \<le> 255"
    by (simp_all add: sample_withdraw_def sample_memo_def sample_path_def sample_address_def enc_tx_def enc_contract_def enc_any_def
      enc_len_def enc_int_def enc_key_def enc_varint.simps)
  obtain c m where c: "processTx sample_sdk sample_withdraw (?s1\<lparr>txContext := \<lparr>tx_sha2 = sample_withdraw, tx_initialized = True\<rparr>\<rparr>) =
      (USTREAM_PROCESSING, ?s1\<lparr>txContext := \<lparr>tx_sha2 = sample_withdraw, tx_initialized = True\<rparr>, txContent := c, msg := m\<rparr>)"
    "tc_contractType c = WITHDRAWBALANCECONTRACT" "tc_permission_id c = 0" "\<not> tc_feeLimitSeen c"
    using withdraw_processed [of "?s1\<lparr>txContext := \<lparr>tx_sha2 = sample_withdraw, tx_initialized = True\<rparr>\<rparr>"] by (auto simp: initTx_def)
  define s2 where "s2 = ?s1\<lparr>txContext := \<lparr>tx_sha2 = sample_withdraw, tx_initialized = True\<rparr>, txContent := c, msg := m\<rparr>"
  have "handleSign sample_sdk P1_FIRST 0 ?d sample_state = sign_chunk sample_sdk P1_FIRST sample_withdraw ?s1"
    using read by (simp add: handleSign_def sample_drop del: drop_append)
  also have "\<dots> = (Returned, io_send_sw E_OK s2)"
    using c(1) sample_facts(2) by (simp add: sign_chunk_def initTx_def ret_sw_def s2_def)
  finally have first: "handleSign sample_sdk P1_FIRST 0 ?d sample_state = (Returned, io_send_sw E_OK s2)" .
  let ?t = "io_send_sw E_OK s2"
  have sent: "chunks_sent sample_sdk [sample_withdraw] ?t"
    using first_sent [OF first _ sample_facts(2) len(1) read] by (simp add: sample_drop s2_def io_send_sw_def initTx_def del: drop_append)
  have t: "txContent ?t = c" "\<not> G_called_from_swap ?t" "N_settings ?t = N_settings sample_state" "tx_initialized (txContext ?t)"
    using sample_facts(2) by (simp_all add: s2_def io_send_sw_def initTx_def HAS_SETTING_def)
  have on: "HAS_SETTING sample_state S_DATA_ALLOWED"
    by (simp add: sample_state_def app_init_def zero_state_def nv_app_state_init_def ui_idle_def
        terminate_signing_session_def HAS_SETTING_def Let_def)
  let ?t1 = "?t\<lparr>txContext := (txContext ?t)\<lparr>tx_sha2 := tx_sha2 (txContext ?t) @ sample_memo\<rparr>\<rparr>"
  let ?t2 = "?t1\<lparr>msg := [], txContent := c\<lparr>tc_dataBytes := 1\<rparr>\<rparr>"
  have "processTx sample_sdk sample_memo ?t1 = (USTREAM_PROCESSING, ?t2)"
    using memo_processed [of ?t1 sample_sdk] t(1,3) c(4) on by (simp add: HAS_SETTING_def)
  then have last: "handleSign sample_sdk P1_LAST 0 sample_memo ?t = finish_sign sample_sdk ?t2"
    using t by (simp add: handleSign_def sign_chunk_def Let_def)
  obtain r s where rs: "finish_sign sample_sdk ?t2 = (r, s)" by fastforce
  then have "r = Returned" "outputs s = outputs ?t"
    using finish_withdraw [of ?t2 sample_sdk] c(2,3) t(2,3) on by (simp_all add: HAS_SETTING_def)
  then have "review_opened sample_sdk [sample_withdraw, sample_memo] s"
    using final_chunk [OF sent, of P1_LAST sample_memo s] last rs len(2) by simp
  with settings_respected [OF this] show ?thesis by (auto simp: memo_data)
qed

section \<open>One contract per transaction\<close>

lemma second_contract_fault:
  assumes "pb_decode tx_callbacks (protocol_Transaction_raw (enum_size k)) (pb_istream_from_buffer RInput 0 d)
      \<lparr>cs_dataBytes = tc_dataBytes (txContent s), cs_contract_buffer = None\<rparr> = Some (transaction, u)"
    "m_has (m_msg transaction 11) 2" "d \<noteq> []" "tc_contractSeen (txContent s)"
  shows "fst (processTx k d s) \<in> {USTREAM_FAULT, USTREAM_MISSING_SETTING_DATA_ALLOWED}"
  using assms by (simp add: processTx_def process_contract_def Let_def)

text \<open>C17: A transaction has one contract: once the contract of a session has been parsed, every further chunk
  that carries a contract is refused and the session starts over with nothing received, so that the fields
  on the screen cannot come from another contract than the one that is executed first.\<close>

theorem second_contract_refused:
  assumes "pb_decode tx_callbacks (protocol_Transaction_raw (enum_size k)) (pb_istream_from_buffer RInput 0 d)
      \<lparr>cs_dataBytes = tc_dataBytes (txContent s), cs_contract_buffer = None\<rparr> = Some (transaction, u)"
    "m_has (m_msg transaction 11) 2" "d \<noteq> []" "tc_contractSeen (txContent s)"
    "tx_initialized (txContext s)" "\<not> G_called_from_swap s" "p1 = P1_MORE \<or> p1 = P1_LAST"
  shows "\<exists>s' sw. handleSign k p1 0 d s = (Returned, s') \<and> outputs s' = outputs s @ [SendSW sw] \<and>
    sw \<in> {E_INCORRECT_DATA, E_MISSING_SETTING_DATA_ALLOWED} \<and> tx_sha2 (txContext s') = [] \<and>
    txContent s' = zero_content\<lparr>tc_contractType := INVALID_CONTRACT\<rparr> \<and>
    transactionContext s' = transactionContext s \<and> the_screen s' = the_screen s"
proof -
  let ?s1 = "s\<lparr>txContext := (txContext s)\<lparr>tx_sha2 := tx_sha2 (txContext s) @ d\<rparr>\<rparr>"
  obtain r s3 where p: "processTx k d ?s1 = (r, s3)" by fastforce
  then have r: "r = USTREAM_FAULT \<or> r = USTREAM_MISSING_SETTING_DATA_ALLOWED"
    using second_contract_fault [of k d ?s1 transaction u] assms(1-4) by simp
  obtain c m where s3: "s3 = ?s1\<lparr>txContent := c, msg := m\<rparr>" using processTx_frame [of k d ?s1] p by auto
  have "handleSign k p1 0 d s = sign_chunk k p1 d s" using assms(7) by (auto simp: handleSign_def)
  also have "\<dots> = ret_sw (if r = USTREAM_FAULT then E_INCORRECT_DATA else E_MISSING_SETTING_DATA_ALLOWED) (initTx s3)"
    using p r assms(5,6) by (auto simp: sign_chunk_def Let_def s3)
  finally show ?thesis by (simp add: ret_sw_def io_send_sw_def initTx_def s3)
qed

theorem second_contract_refused_witness:
  "\<exists>s s'. tc_contractSeen (txContent s) \<and> handleSign sample_sdk P1_MORE 0 sample_tx s = (Returned, s') \<and> tx_sha2 (txContext s') = []"
proof -
  let ?s = "sample_state\<lparr>txContent := trx_content sample_address sample_address 7, txContext := \<lparr>tx_sha2 = [1], tx_initialized = True\<rparr>\<rparr>"
  have len: "length (enc_contract 1 [] (enc_transfer sample_address sample_address 1500000)) < 2 ^ 32"
    by (simp add: sample_address_def enc_contract_def enc_any_def enc_transfer_def enc_len_def enc_int_def enc_key_def enc_varint.simps)
  have es: "enum_size sample_sdk = 1" by (simp add: sample_sdk_def)
  obtain m u where m: "pb_decode tx_callbacks (protocol_Transaction_raw (enum_size sample_sdk)) (pb_istream_from_buffer RInput 0 sample_tx)
      \<lparr>cs_dataBytes = tc_dataBytes (txContent ?s), cs_contract_buffer = None\<rparr> = Some (m, u)" "m_has (m_msg m 11) 2"
    using decode_tx [OF _ _ len, of "[1, 2]" "[3, 4]" 1 0 1000 2000 0] unfolding es
    by (auto simp: sample_tx_def pb_istream_from_buffer_def trx_content_def zero_content_def)
  have "sample_tx \<noteq> []" by (simp add: sample_tx_def enc_tx_def enc_len_def)
  moreover have seen: "tc_contractSeen (txContent ?s)" by (simp add: trx_content_def)
  ultimately have "\<exists>s'. handleSign sample_sdk P1_MORE 0 sample_tx ?s = (Returned, s') \<and> tx_sha2 (txContext s') = []"
    using second_contract_refused [OF m, of P1_MORE] sample_facts(2) by auto
  then show ?thesis using seen by blast
qed

section \<open>Switches and their report\<close>

lemma bit_toggle: "bit (N_settings (SETTING_TOGGLE i s)) j = (bit (N_settings s) j \<noteq> (i = j \<and> i < 8))"
  by (auto simp: SETTING_TOGGLE_def FLIP_BIT_def bit_simps)

lemma toggle_twice: "SETTING_TOGGLE i (SETTING_TOGGLE i s) = s"
  by (simp add: SETTING_TOGGLE_def FLIP_BIT_def xor.assoc)

lemma switch_bits: "switch_states s = [bit (N_settings s) 0, bit (N_settings s) 1, bit (N_settings s) 2]"
  by (simp add: switch_states_def HAS_SETTING_bit)

definition config_byte :: "app_state \<Rightarrow> u8" where
  "config_byte s = push_bit 0 (of_bool (HAS_SETTING s S_DATA_ALLOWED)) OR
     push_bit 1 (of_bool (HAS_SETTING s S_CUSTOM_CONTRACT)) OR push_bit 3 (of_bool (HAS_SETTING s S_SIGN_BY_HASH))"

text \<open>C28: The settings switches do what they show: flipping a switch of the menu changes its own setting and no
  other, flipping it twice changes nothing, and the configuration the wallet reads reports exactly the
  switches as the menu draws them, followed by the version.\<close>

theorem switches_and_configuration:
  "(\<forall>i j. i < 3 \<and> j < 3 \<longrightarrow>
      switch_states (settingsControlsCallback i s) ! j = (switch_states s ! j \<noteq> (i = j)) \<and>
      settingsControlsCallback i (settingsControlsCallback i s) = s) \<and>
   (\<exists>config. handleGetAppConfiguration k s = (Returned, s\<lparr>outputs := outputs s @ [SendData (config # take 3 (app_version k)) E_OK]\<rparr>) \<and>
      switch_states s = [bit config 0, bit config 1, bit config 3] \<and> (\<forall>n. n \<noteq> 0 \<and> n \<noteq> 1 \<and> n \<noteq> 3 \<longrightarrow> \<not> bit config n))"
proof -
  have "switch_states (settingsControlsCallback i s) ! j = (switch_states s ! j \<noteq> (i = j))" if "i < 3" "j < 3" for i j
    using that by (auto simp: less_Suc_eq numeral_3_eq_3 switch_bits settingsControlsCallback_def settings_of_def bit_toggle)
  moreover have "settingsControlsCallback i (settingsControlsCallback i s) = s" for i
    by (simp add: settingsControlsCallback_def toggle_twice)
  moreover have "switch_states s = [bit (config_byte s) 0, bit (config_byte s) 1, bit (config_byte s) 3]"
    "\<forall>n. n \<noteq> 0 \<and> n \<noteq> 1 \<and> n \<noteq> 3 \<longrightarrow> \<not> bit (config_byte s) n"
    by (auto simp: config_byte_def switch_states_def bit_simps)
  moreover have "handleGetAppConfiguration k s =
      (Returned, s\<lparr>outputs := outputs s @ [SendData (config_byte s # take 3 (app_version k)) E_OK]\<rparr>)"
    by (simp add: handleGetAppConfiguration_def config_byte_def io_send_response_pointer_def Let_def)
  ultimately show ?thesis by blast
qed

theorem switches_and_configuration_witness:
  "switch_states (settingsControlsCallback 1 sample_state) ! 1 = (\<not> switch_states sample_state ! 1)"
  using switches_and_configuration [of sample_state sample_sdk] by simp

end
