(* ===== verification/Swap_Policy.thy ===== *)
theory Swap_Policy
  imports Guards
begin

text \<open>
  Signing for the Exchange application: without a screen, but only what the user validated there. The amount
  is compared as text; the theory shows that equal texts are equal amounts, and that the two routines that
  print amounts agree.
\<close>

section \<open>The text of the validated amount\<close>

lemma adjustDecimals_fits:
  assumes "adjustDecimals src n target size' d = (True, t)" "take (unat n) src = s" "length s = unat n" "s \<noteq> []"
    "unat n < 2 ^ 31"
  shows "text_fits s (unat d) (unat size')"
proof -
  have d: "unat (ucast d :: u32) = unat d" "unat d < 256" using unsigned_less [of d] by (simp_all add: unat_ucast_8_32)
  have n1: "n = 1 \<longleftrightarrow> unat n = 1" by (metis unat_1 word_unat_eq_iff)
  have s0: "s = [ch_0] \<longleftrightarrow> n = 1 \<and> src ! 0 = ch_0"
    using assms(2-4) n1 by (cases src; cases "tl src") (auto simp: take_Cons' split: if_splits)
  show ?thesis
  proof (cases "s = [ch_0]")
    case True
    then show ?thesis
      using assms(1) s0 by (auto simp: adjustDecimals_def text_fits_def word_less_nat_alt split: if_splits)
  next
    case False
    note c = False [unfolded s0]
    show ?thesis
    proof (cases "n \<le> ucast d")
      case le: True
      then have "unat n \<le> unat d" using d(1) by (simp add: word_le_nat_alt)
      moreover have "n + 1 + 2 + (ucast d - n) = ucast d + (3 :: u32)" by (simp add: algebra_simps)
      then have "unat (n + 1 + 2 + (ucast d - n)) = unat d + 3" using d by (simp add: unat_word_ariths)
      ultimately show ?thesis
        using assms(1) c le False assms(3)
        by (auto simp: adjustDecimals_def text_fits_def word_less_nat_alt Let_def split: if_splits)
    next
      case gt: False
      then have "unat d < unat n" using d(1) by (simp add: word_le_nat_alt)
      moreover have "unat (n + 1 + 1) = unat n + 2" using assms(5) by (simp add: unat_word_ariths)
      ultimately show ?thesis
        using assms(1) c gt False assms(3)
        by (auto simp: adjustDecimals_def text_fits_def word_less_nat_alt Let_def split: if_splits)
    qed
  qed
qed

text \<open>The size of printable amounts, as the code passes it.\<close>

lemma printable_size:
  assumes "sdk_ok k"
  shows "unat (of_nat (max_printable_amount_size k) :: u32) = max_printable_amount_size k" "0 < max_printable_amount_size k"
  using sdk_printable [OF assms] by (simp_all add: unat_of_nat take_bit_nat_eq_self)

lemma hex_rdigits_nonzero: "2 \<le> b \<Longrightarrow> b \<le> 16 \<Longrightarrow> 0 \<notin> set (map ((!) HEXDIGITS) (take m (rdigits b v)))"
  using hex_nonzero [of b v] by (auto simp: digits_def dest: in_set_takeD)

text \<open>What \<^verbatim>\<open>tostring256\<close> leaves in a zeroed buffer of \<open>n\<close> bytes, whether the digits fit or not.\<close>

lemma raw_digits:
  assumes "tostring256 x 10 (replicate n 0) w = Some (ok, raw)" "unat w = n" "0 < n"
  defines "s \<equiv> decimal (val256 x)"
  shows "if length s < n then take (length s) raw = s \<and> strlen (take n raw) = length s
    else strlen (take n raw) = n \<and> n \<le> length raw"
proof -
  have num: "0 \<notin> set s" using is_number_chars [OF is_number_decimal] by (simp add: s_def)
  have len: "length s = length (digits 10 (val256 x))" by (simp add: s_def decimal_def)
  show ?thesis
  proof (cases "length s \<le> n")
    case True
    then have r: "raw = s @ 0 # drop (Suc (length s)) (replicate n 0)"
      using p256.tostring_ok [of 10 x w "replicate n 0"] assms(1,2) len by (simp add: s_def decimal_def)
    show ?thesis
    proof (cases "length s < n")
      case True
      then show ?thesis using num by (simp add: r strlen_def take_Cons')
    next
      case False
      with True have "length s = n" by simp
      then show ?thesis using num by (simp add: r strlen_def)
    qed
  next
    case False
    then obtain out' where "raw = out'" "length out' = n" "take n out' = map ((!) HEXDIGITS) (take n (rdigits 10 (val256 x)))"
      using p256.tostring_too_long [of 10 w x "replicate n 0"] assms(1-3) len by auto
    moreover have "length (rdigits 10 (val256 x)) \<ge> n" using False len by (simp add: length_digits)
    ultimately show ?thesis
      using hex_rdigits_nonzero [of 10 n "val256 x"] False by (simp add: strlen_def)
  qed
qed

lemma adjusted_fits:
  assumes "adjustDecimals raw (of_nat m) target w d = (True, t)" "unat w = n" "n < 2 ^ 31" "0 < m" "m \<le> n" "m \<le> length raw"
  shows "text_fits (take m raw) (unat d) n"
proof -
  have "unat (of_nat m :: u32) = m" using assms(3,5) by (simp add: unat_of_nat take_bit_nat_eq_self)
  moreover have "raw \<noteq> []" using assms(4,6) by auto
  ultimately show ?thesis
    using adjustDecimals_fits [OF assms(1), of "take m raw"] assms(2-6) by simp
qed

lemma printable_of_text:
  assumes "sdk_ok k" "printable_of k x d = Some (True, t)"
  shows "cstr t = decimal_text (decimal (val256 x)) (unat d)"
    "text_fits (decimal (val256 x)) (unat d) (max_printable_amount_size k)"
proof -
  define n where "n = max_printable_amount_size k"
  define w where "w = (of_nat n :: u32)"
  define s where "s = decimal (val256 x)"
  have n: "unat w = n" "0 < n" "n < 2 ^ 31"
    using printable_size [OF assms(1)] sdk_printable [OF assms(1)] by (simp_all add: n_def w_def)
  obtain ok raw where raw: "tostring256 x 10 (replicate n 0) w = Some (ok, raw)"
      "adjustDecimals raw (of_nat (strlen (take n raw))) (replicate n 0) w d = (True, t)"
    using assms(2) unfolding printable_of_def Let_def n_def [symmetric] w_def [symmetric]
    by (auto split: bind_splits)
  note rd = raw_digits [OF raw(1) n(1,2), folded s_def]
  have num: "is_number s" by (simp add: s_def is_number_decimal)
  have lt: "length s < n"
  proof (rule ccontr)
    assume "\<not> length s < n"
    then have "strlen (take n raw) = n" "n \<le> length raw" using rd by simp_all
    then have "text_fits (take n raw) (unat d) n" using adjusted_fits [OF raw(2) n(1,3)] n(2) by simp
    moreover have "length (take n raw) = n" using \<open>n \<le> length raw\<close> by simp
    ultimately show False using n(2) by (cases "take n raw = [ch_0]") (auto simp: text_fits_def split: if_splits)
  qed
  then have l: "take (length s) raw = s" "strlen (take n raw) = length s" using rd by simp_all
  then have "length s \<le> length raw" using lt by (metis length_take min.cobounded1)
  then have f: "text_fits s (unat d) n"
    using adjusted_fits [OF raw(2) n(1,3)] l lt num by (simp add: is_number_def)
  have u: "unat (of_nat (length s) :: u32) = length s" using lt n(3) by (simp add: unat_of_nat take_bit_nat_eq_self)
  have "\<exists>t'. adjustDecimals raw (of_nat (length s)) (replicate n 0) w d = (True, t') \<and>
      length t' = length (replicate n (0 :: u8)) \<and> cstr t' = decimal_text s (unat d)"
    using l(1) num f n(1) u by (intro adjustDecimals_ok) simp_all
  then show "cstr t = decimal_text (decimal (val256 x)) (unat d)" using raw(2) l(2) by (simp add: s_def)
  show "text_fits (decimal (val256 x)) (unat d) (max_printable_amount_size k)" using f by (simp add: s_def n_def)
qed

text \<open>Conversely, an amount whose text fits is printed.\<close>

lemma printable_of_ok:
  assumes "sdk_ok k" "text_fits (decimal (val256 x)) (unat d) (max_printable_amount_size k)"
  shows "\<exists>t. printable_of k x d = Some (True, t) \<and> cstr t = decimal_text (decimal (val256 x)) (unat d)"
proof -
  define n where "n = max_printable_amount_size k"
  define w where "w = (of_nat n :: u32)"
  define s where "s = decimal (val256 x)"
  have n: "unat w = n" "0 < n" "n < 2 ^ 31"
    using printable_size [OF assms(1)] sdk_printable [OF assms(1)] by (simp_all add: n_def w_def)
  have num: "is_number s" by (simp add: s_def is_number_decimal)
  have f: "text_fits s (unat d) n" using assms(2) by (simp add: s_def n_def)
  then have lt: "length s < n" by (auto simp: text_fits_def split: if_splits)
  then have "length (digits 10 (val256 x)) \<le> n" by (simp add: s_def decimal_def)
  then obtain raw where raw: "tostring256 x 10 (replicate n 0) w = Some (True, raw)"
    using p256.tostring_ok [of 10 x w "replicate n 0"] n(1) by simp
  have l: "take (length s) raw = s" "strlen (take n raw) = length s"
    using raw_digits [OF raw n(1,2)] lt by (simp_all add: s_def)
  have u: "unat (of_nat (length s) :: u32) = length s" using lt n(3) by (simp add: unat_of_nat take_bit_nat_eq_self)
  have "\<exists>t'. adjustDecimals raw (of_nat (length s)) (replicate n 0) w d = (True, t') \<and>
      length t' = length (replicate n (0 :: u8)) \<and> cstr t' = decimal_text s (unat d)"
    using l(1) num f n(1) u by (intro adjustDecimals_ok) simp_all
  then show ?thesis using raw l(2) by (auto simp: printable_of_def Let_def s_def n_def w_def)
qed

section \<open>Equal texts are equal amounts\<close>

lemma denotes_unique: "denotes t v d \<Longrightarrow> denotes t v' d' \<Longrightarrow> v * 10 ^ d' = v' * 10 ^ d"
proof -
  define i where "i = takeWhile (\<lambda>c. c \<noteq> ch_dot) t"
  define f where "f = drop (Suc (length i)) t"
  assume "denotes t v d" "denotes t v' d'"
  then have "v = dval (i @ f) * 10 ^ (d - length f)" "length f \<le> d" "v' = dval (i @ f) * 10 ^ (d' - length f)" "length f \<le> d'"
    by (simp_all add: denotes_def Let_def i_def f_def)
  moreover from this have "d - length f + d' = d' - length f + d" by simp
  ultimately show ?thesis by (simp add: power_add [symmetric] mult.assoc)
qed

lemma decimal_text_denotes_val: "denotes (decimal_text (decimal v) d) v d"
  using decimal_text_denotes [OF is_number_decimal, of v d] by (simp add: dval_decimal)

lemma fits_length:
  assumes "text_fits s d n" "is_number s"
  shows "length (decimal_text s d) < n"
proof (cases "s = [ch_0]")
  case True
  have "strip0 (frac_part s d) = []" using True by (auto simp: frac_part_def strip0_Nil_iff)
  then have "length (decimal_text s d) = length (int_part s d)" by (simp add: decimal_text_def)
  also have "\<dots> = 1" by (simp add: int_part_def True)
  finally show ?thesis using assms(1) True by (simp add: text_fits_def)
next
  case False
  then show ?thesis using assms(1) length_decimal_text [of s d] by (auto simp: text_fits_def split: if_splits)
qed

text \<open>Two texts that agree on a prefix longer than one of them are equal.\<close>

lemma strneq_short: "strneq a b n \<Longrightarrow> length (cstr b) < n \<Longrightarrow> cstr a = cstr b"
proof -
  have "xs = ys" if "take n xs = take n ys" "length ys < n" for xs ys :: bytes
  proof -
    have "take n xs = ys" using that by simp
    moreover from this that(2) have "length xs < n" by (metis length_take min.strict_order_iff min_less_iff_disj not_less_iff_gr_or_eq)
    ultimately show ?thesis by simp
  qed
  then show "strneq a b n \<Longrightarrow> length (cstr b) < n \<Longrightarrow> cstr a = cstr b" unfolding strneq_def by blast
qed

lemma swap_check_amount:
  assumes "sdk_ok k" "check_swap_amount k s amount d = Some True" "denotes (cstr amount) v e"
  shows "v * 10 ^ unat d = val256 (sv_amount (G_swap_validated s)) * 10 ^ e"
proof -
  obtain t where p: "printable_of k (sv_amount (G_swap_validated s)) d = Some (True, t)"
      "strneq amount t (max_printable_amount_size k)"
    using assms(2) by (auto simp: check_swap_amount_def split: bind_splits)
  note t = printable_of_text [OF assms(1) p(1)]
  have "cstr amount = cstr t"
    using strneq_short [OF p(2)] fits_length [OF t(2) is_number_decimal] t(1) by simp
  then show ?thesis
    using denotes_unique [OF assms(3), of "val256 (sv_amount (G_swap_validated s))" "unat d"]
      decimal_text_denotes_val [of "val256 (sv_amount (G_swap_validated s))" "unat d"] t(1) by simp
qed

section \<open>The swap check in the handler\<close>

text \<open>The reply sent is a signature, not a status word.\<close>

definition signed_reply :: "app_state \<Rightarrow> result \<Rightarrow> bool" where
  "signed_reply s r \<longleftrightarrow> fst r = Returned \<and> (\<exists>sig. outputs (snd r) = outputs s @ [SendData sig E_OK])"

lemma not_signed_refuse: "quiet s s1 \<Longrightarrow> \<not> signed_reply s (refuse sw s1)"
  by (simp add: signed_reply_def refuse_def ret_sw_def io_send_sw_def terminate_signing_session_def quiet_def)

lemma signed_with_print:
  "signed_reply s (with_print p s1 cont) \<Longrightarrow> \<exists>out l. p = Some (Inr (out, l)) \<and> signed_reply s (cont out)"
  by (auto simp: with_print_def signed_reply_def split: option.splits sum.splits)

lemma swap_check_frame:
  "G_swap_validated s1 = G_swap_validated s \<Longrightarrow> swap_check_validity k s1 = swap_check_validity k s"
  by (simp add: swap_check_validity_def check_swap_amount_def fun_eq_iff Let_def)

text \<open>The end of the transfer case, after the fee is printed.\<close>

definition swap_or_review :: "sdk \<Rightarrow> bool \<Rightarrow> app_state \<Rightarrow> result" where
  "swap_or_review k w s =
     (if G_called_from_swap s then
        if tc_feeLimit (txContent s) > MAX_SWAP_FEE_LIMIT then refuse E_SWAP_CHECKING_FAIL s
        else
          case swap_check_validity k s (G_io_apdu_buffer s) (fullContract s) (TRC20ActionSendAllow s) (toAddress s) of
            None \<Rightarrow> (Stuck, s)
          | Some True \<Rightarrow> (Returned, snd (ui_callback_tx_ok k False s))
          | Some False \<Rightarrow> refuse E_SWAP_CHECKING_FAIL s
      else ux_flow_display k APPROVAL_TRANSFER w s)"

lemma finish_transfer_eq:
  "finish_transfer k w s =
     (let s1 = copy_token_name (set_recipient_address k (tc_destination (txContent s)) s) in
      if tc_contractType (txContent s) = TRIGGERSMARTCONTRACT then print_maxFee s1 (swap_or_review k w)
      else swap_or_review k w s1)"
  unfolding finish_transfer_def swap_or_review_def [abs_def] Let_def by (rule refl)

lemma signed_swap_or_review:
  assumes "signed_reply s0 (swap_or_review k w s)" "quiet s0 s" "G_called_from_swap s"
  shows "tc_feeLimit (txContent s) \<le> MAX_SWAP_FEE_LIMIT \<and>
    swap_check_validity k s (G_io_apdu_buffer s) (fullContract s) (TRC20ActionSendAllow s) (toAddress s) = Some True"
proof -
  have nr: "\<not> signed_reply s0 (refuse sw s)" for sw using not_signed_refuse [OF assms(2)] .
  have st: "\<not> signed_reply s0 (Stuck, x)" for x by (simp add: signed_reply_def)
  show ?thesis
  proof (cases "tc_feeLimit (txContent s) > MAX_SWAP_FEE_LIMIT")
    case True
    then show ?thesis using assms(1,3) nr by (simp add: swap_or_review_def)
  next
    case fee: False
    show ?thesis
    proof (cases "swap_check_validity k s (G_io_apdu_buffer s) (fullContract s) (TRC20ActionSendAllow s) (toAddress s)")
      case None
      then show ?thesis using assms(1,3) fee st by (simp add: swap_or_review_def)
    next
      case (Some ok)
      then show ?thesis using assms(1,3) fee nr by (cases ok) (simp_all add: swap_or_review_def)
    qed
  qed
qed

lemma signed_finish_transfer:
  assumes "signed_reply s0 (finish_transfer k w s)" "quiet s0 s" "G_called_from_swap s"
  shows "tc_feeLimit (txContent s) \<le> MAX_SWAP_FEE_LIMIT \<and>
    swap_check_validity k s (G_io_apdu_buffer s)
      (fullContract (copy_token_name s)) (TRC20ActionSendAllow s)
      (getBase58FromAddress k (tc_destination (txContent s)) (toAddress s) 0) = Some True"
proof -
  define s1 where "s1 = copy_token_name (set_recipient_address k (tc_destination (txContent s)) s)"
  have s2: "G_called_from_swap (s1\<lparr>strings := b\<rparr>)" "txContent (s1\<lparr>strings := b\<rparr>) = txContent s"
    "G_io_apdu_buffer (s1\<lparr>strings := b\<rparr>) = G_io_apdu_buffer s"
    "fullContract (s1\<lparr>strings := b\<rparr>) = fullContract (copy_token_name s)"
    "TRC20ActionSendAllow (s1\<lparr>strings := b\<rparr>) = TRC20ActionSendAllow s"
    "toAddress (s1\<lparr>strings := b\<rparr>) = getBase58FromAddress k (tc_destination (txContent s)) (toAddress s) 0"
    "quiet s0 (s1\<lparr>strings := b\<rparr>)" for b
    using assms(2,3) by (simp_all add: s1_def copy_token_name_def set_recipient_address_def)
  have sw: "swap_check_validity k (s1\<lparr>strings := b\<rparr>) = swap_check_validity k s" for b
    by (rule swap_check_frame) (simp add: s1_def copy_token_name_def set_recipient_address_def)
  have "\<exists>b. signed_reply s0 (swap_or_review k w (s1\<lparr>strings := b\<rparr>))"
  proof (cases "tc_contractType (txContent s) = TRIGGERSMARTCONTRACT")
    case True
    then have "signed_reply s0 (print_maxFee s1 (swap_or_review k w))"
      using assms(1) by (simp add: finish_transfer_eq s1_def)
    then show ?thesis unfolding print_maxFee_def using signed_with_print by blast
  next
    case False
    then have "signed_reply s0 (swap_or_review k w s1)" using assms(1) by (simp add: finish_transfer_eq s1_def)
    moreover have "s1 = s1\<lparr>strings := strings s1\<rparr>" by simp
    ultimately show ?thesis by metis
  qed
  then obtain b where "signed_reply s0 (swap_or_review k w (s1\<lparr>strings := b\<rparr>))" by blast
  from signed_swap_or_review [OF this s2(7,1)] show ?thesis unfolding s2 sw .
qed

text \<open>The amount of a transfer and its number of decimals.\<close>

definition transfer_amount :: "txContent_t \<Rightarrow> nat" where
  "transfer_amount c =
     (if tc_contractType c = TRIGGERSMARTCONTRACT then be_val (tc_TRC20Amount c) else unat (tc_amount c ! 0))"

definition transfer_decimals :: "txContent_t \<Rightarrow> nat" where
  "transfer_decimals c = (if tc_contractType c = TRIGGERSMARTCONTRACT then unat (tc_decimals c ! 0) else 6)"

text \<open>The state that enters the end of the transfer case: only the texts have changed.\<close>

definition transfer_printed :: "app_state \<Rightarrow> app_state \<Rightarrow> bool" where
  "transfer_printed s s3 \<longleftrightarrow> quiet s s3 \<and> txContent s3 = txContent s \<and> fullContract s3 = fullContract s \<and>
     toAddress s3 = toAddress s \<and> G_called_from_swap s3 = G_called_from_swap s \<and>
     denotes (cstr (G_io_apdu_buffer s3)) (transfer_amount (txContent s)) (transfer_decimals (txContent s))"

lemma signed_sign_transfer:
  assumes "sdk_ok k" "wf_state n k s" "signed_reply s (sign_transfer k w s)"
    "tc_contractType (txContent s) = TRANSFERCONTRACT \<or>
     tc_contractType (txContent s) = TRIGGERSMARTCONTRACT \<and> tc_TRC20Method (txContent s) = 1"
  shows "\<exists>s3. transfer_printed s s3 \<and> signed_reply s (finish_transfer k w s3)"
proof -
  let ?c = "txContent s" and ?s1 = "s\<lparr>TRC20ActionSendAllow := strcpy (TRC20ActionSendAllow s) ''To''\<rparr>"
  have st: "steady n k s s" using assms(2) by (rule steady_refl)
  show ?thesis
  proof (cases "tc_contractType ?c = TRANSFERCONTRACT")
    case True
    then have "signed_reply s (print_apdu (tc_amount ?c ! 0) 0 100 SUN_DIG ?s1 (finish_transfer k w))"
      using assms(3) by (simp add: sign_transfer_def Let_def)
    then obtain out l where out: "print_amount (tc_amount ?c ! 0) (G_io_apdu_buffer s) 100 6 = Some (Inr (out, l))"
        "signed_reply s (finish_transfer k w (?s1\<lparr>G_io_apdu_buffer := out\<rparr>))"
      by (auto simp: print_apdu_def header_constants dest!: signed_with_print)
    have "\<not> 10 ^ 19 \<le> unat (tc_amount ?c ! 0)"
      using print_amount_20_digits [of "tc_amount ?c ! 0" "G_io_apdu_buffer s" 100 6] out(1) by auto
    moreover have "length (G_io_apdu_buffer s) = n" "260 \<le> n" using st by (simp_all add: steady_simps)
    ultimately have "denotes (cstr out) (unat (tc_amount ?c ! 0)) 6"
      using print_amount_denotes [of "tc_amount ?c ! 0" 6 100 "G_io_apdu_buffer s"] out(1) by auto
    then show ?thesis
      using out(2) True by (intro exI [of _ "?s1\<lparr>G_io_apdu_buffer := out\<rparr>"])
        (simp add: transfer_printed_def transfer_amount_def transfer_decimals_def)
  next
    case False
    let ?s2 = "?s1\<lparr>TRC20Action := strcpy (TRC20Action s) ''Asset''\<rparr>"
    have c: "tc_contractType ?c = TRIGGERSMARTCONTRACT" "tc_TRC20Method ?c = 1" using False assms(4) by auto
    have "steady n k s ?s2" using st by (simp add: steady_simps)
    then obtain b where b: "print_trc20_amount ?s2 = Some (True, ?s2\<lparr>G_io_apdu_buffer := b\<rparr>)"
        "cstr b = decimal_text (decimal (be_val (tc_TRC20Amount ?c))) (unat (tc_decimals ?c ! 0))"
      using print_trc20_text [of n k s ?s2] by auto
    have "sign_transfer k w s = (if tc_amount ?c ! 0 \<noteq> 0 \<or> tc_callTokenValue ?c \<noteq> 0 then refuse E_INCORRECT_DATA ?s2
        else finish_transfer k w (?s2\<lparr>G_io_apdu_buffer := b\<rparr>))"
      using c b(1) by (simp add: sign_transfer_def Let_def)
    moreover have "\<not> signed_reply s (refuse E_INCORRECT_DATA ?s2)" by (rule not_signed_refuse) simp
    ultimately have "signed_reply s (finish_transfer k w (?s2\<lparr>G_io_apdu_buffer := b\<rparr>))"
      using assms(3) by (auto split: if_splits)
    then show ?thesis
      using c(1) b(2) decimal_text_denotes_val
      by (intro exI [of _ "?s2\<lparr>G_io_apdu_buffer := b\<rparr>"])
        (simp add: transfer_printed_def transfer_amount_def transfer_decimals_def)
  qed
qed

lemma signed_frame: "outputs s1 = outputs s \<Longrightarrow> signed_reply s1 r = signed_reply s r"
  by (simp add: signed_reply_def)

lemma signed_finish_sign:
  assumes "sdk_ok k" "wf_state n k s" "G_called_from_swap s" "signed_reply s (finish_sign k s)"
  shows "tc_dataBytes (txContent s) = 0 \<and>
    (tc_contractType (txContent s) = TRANSFERCONTRACT \<or>
     tc_contractType (txContent s) = TRIGGERSMARTCONTRACT \<and> tc_TRC20Method (txContent s) = 1) \<and>
    (\<exists>s3. transfer_printed (set_sender k (hashed k s)) s3 \<and> signed_reply s (finish_transfer k False s3))"
proof -
  let ?c = "txContent s" and ?s1 = "set_sender k (hashed k s)"
  have q: "quiet (hashed k s) ?s1" by simp
  have o: "outputs ?s1 = outputs s" "txContent ?s1 = ?c" "G_called_from_swap ?s1"
    using assms(3) by (simp_all add: set_sender_def Let_def)
  have n1: "\<not> signed_reply s (refuse sw (hashed k s))" "\<not> signed_reply s (refuse sw ?s1)" for sw
    using not_signed_refuse [of "hashed k s"] q signed_frame [of "hashed k s" s] by auto
  have "steady n k s (hashed k s)" using steady_refl [OF assms(2)] assms(1) by (simp add: steady_simps)
  then have st: "steady n k s ?s1" using assms(1) by (simp add: steady_simps)
  then have wf: "wf_state n k ?s1" by (simp add: steady_def)
  let ?bad = "tc_contractType ?c \<noteq> TRANSFERCONTRACT \<and> tc_contractType ?c \<noteq> TRIGGERSMARTCONTRACT \<or>
      tc_contractType ?c = TRIGGERSMARTCONTRACT \<and> tc_TRC20Method ?c \<noteq> 1 \<or> tc_dataBytes ?c > 0"
  have g: "\<not> ?bad" "signed_reply s (sign_switch k (tc_dataBytes ?c > 0) ?s1)"
    using assms(4) n1 o(3) by (auto simp: finish_sign_def Let_def split: if_splits)
  then have d: "tc_dataBytes ?c = 0" by (simp add: word_gt_0)
  have t: "tc_contractType ?c = TRANSFERCONTRACT \<or> tc_contractType ?c = TRIGGERSMARTCONTRACT \<and> tc_TRC20Method ?c = 1"
    using g(1) by blast
  then have "sign_switch k w ?s1 = sign_transfer k w ?s1" for w using o(2) by (auto simp: sign_switch_def)
  then have "signed_reply ?s1 (sign_transfer k False ?s1)" using g(2) d signed_frame [OF o(1)] by simp
  from signed_sign_transfer [OF assms(1) wf this] t o(2) signed_frame [OF o(1)] d show ?thesis by auto
qed

section \<open>A validated transfer is signed\<close>

text \<open>The text of a positive amount that \<^verbatim>\<open>print_amount\<close> accepts, in a buffer of 100 bytes.\<close>

lemma amount_text_short:
  assumes "v < 10 ^ 19" "d \<le> 22"
  shows "text_fits (decimal v) d 25" "Suc (length (decimal_text (decimal v) d)) < 26"
proof -
  have "length (digits 10 v) \<le> 19" using length_digits_le [of 10 v 18] assms(1) by simp
  then show f: "text_fits (decimal v) d 25" using assms(2) by (auto simp: text_fits_def decimal_def)
  show "Suc (length (decimal_text (decimal v) d)) < 26" using fits_length [OF f is_number_decimal] by simp
qed

lemma amount_text_fits: "v < 2 ^ 64 \<Longrightarrow> d \<le> 22 \<Longrightarrow> text_fits (decimal v) d 25"
  using length_digits_le [of 10 v 19] by (auto simp: text_fits_def decimal_def)

lemma same_text:
  assumes "sdk_ok k" "0 < unat v" "unat v < 10 ^ 19" "unat d \<le> 22" "25 \<le> max_printable_amount_size k"
    "val256 x = unat v" "26 \<le> unat outlen" "unat outlen \<le> length out"
  shows "\<exists>out' l t. print_amount v out outlen d = Some (Inr (out', l)) \<and> length out' = length out \<and>
    printable_of k x d = Some (True, t) \<and> cstr out' = cstr t"
proof -
  note f = amount_text_short [OF assms(3,4)]
  have "text_fits (decimal (val256 x)) (unat d) (max_printable_amount_size k)"
    using f(1) assms(5,6) by (auto simp: text_fits_def)
  from printable_of_ok [OF assms(1) this] obtain t where t: "printable_of k x d = Some (True, t)"
      "cstr t = decimal_text (decimal (unat v)) (unat d)"
    using assms(6) by auto
  obtain out' where o: "print_amount v out outlen d = Some (Inr (out', of_nat (strlen out')))" "length out' = length out"
      "cstr out' = fit_text (decimal_text (decimal (unat v)) (unat d)) (unat outlen)"
    using print_amount_positive [OF assms(2-4) _ assms(8)] assms(7) by auto
  have "cstr out' = cstr t" using o(3) f(2) assms(7) t(2) by (simp add: fit_text_def)
  with o t show ?thesis by blast
qed

lemma swap_check_ok:
  assumes "printable_of k (sv_amount (G_swap_validated s)) (sv_decimals (G_swap_validated s)) = Some (True, t)"
    "sv_initialized (G_swap_validated s)" "cstr amount = cstr t"
    "take 15 (cstr tokenName) = take 15 (cstr (sv_ticker (G_swap_validated s)))" "cstr action = chars ''To''"
    "cstr (sv_recipient (G_swap_validated s)) = cstr to_address"
  shows "swap_check_validity k s amount tokenName action to_address = Some True"
proof -
  have "cstr (chars ''To'') = chars ''To''" by (simp add: cstr_def chars_def)
  then show ?thesis
    using assms by (simp add: swap_check_validity_def check_swap_amount_def strneq_def MAX_SWAP_TOKEN_LENGTH_def Let_def)
qed

text \<open>A TRX transfer as the Exchange application validated it, with the check of the code not yet made.\<close>

definition validated_transfer :: "sdk \<Rightarrow> app_state \<Rightarrow> bool" where
  "validated_transfer k s \<longleftrightarrow>
     (let v = G_swap_validated s; c = txContent s in
      G_called_from_swap s \<and> sv_initialized v \<and> sv_decimals v = 6 \<and> cstr (sv_ticker v) = chars ''TRX'' \<and>
      val256 (sv_amount v) = unat (tc_amount c ! 0) \<and> 0 < unat (tc_amount c ! 0) \<and> unat (tc_amount c ! 0) < 10 ^ 19 \<and>
      tc_destination c ! 0 = 0x41 \<and> cstr (sv_recipient v) = base58 k (tc_destination c) \<and>
      tc_contractType c = TRANSFERCONTRACT \<and> tc_dataBytes c = 0 \<and> tc_feeLimit c \<le> 100000000 \<and> tc_permission_id c = 0 \<and>
      cstr (tc_tokenNames c ! 0) = chars ''TRX'' \<and> tc_tokenNamesLength c ! 0 = 4)"

lemma validated_finish_transfer:
  assumes "sdk_ok k" "steady n k s0 s" "validated_transfer k s" "25 \<le> max_printable_amount_size k"
    "print_amount (tc_amount (txContent s) ! 0) b 100 6 = Some (Inr (G_io_apdu_buffer s, l))" "100 \<le> length b"
    "cstr (TRC20ActionSendAllow s) = chars ''To''"
    "bip32_derive_ecdsa_sign_rs k (path_of (tr_bip32_path (transactionContext s))) (tr_hash (transactionContext s)) = Some (r, v, par)"
  shows "\<exists>s'. finish_transfer k False s = (Returned, s') \<and>
    outputs s' = outputs s @ [SendData (r @ v @ [if par then 1 else 0]) E_OK]"
proof -
  let ?c = "txContent s" and ?v = "G_swap_validated s"
  define s1 where "s1 = copy_token_name (set_recipient_address k (tc_destination ?c) s)"
  have a: "G_called_from_swap s" "sv_initialized ?v" "sv_decimals ?v = 6" "cstr (sv_ticker ?v) = chars ''TRX''"
    "val256 (sv_amount ?v) = unat (tc_amount ?c ! 0)" "0 < unat (tc_amount ?c ! 0)" "unat (tc_amount ?c ! 0) < 10 ^ 19"
    "tc_destination ?c ! 0 = 0x41" "cstr (sv_recipient ?v) = base58 k (tc_destination ?c)"
    "tc_contractType ?c = TRANSFERCONTRACT" "tc_feeLimit ?c \<le> 100000000"
    "cstr (tc_tokenNames ?c ! 0) = chars ''TRX''" "tc_tokenNamesLength ?c ! 0 = 4"
    using assms(3) by (simp_all add: validated_transfer_def Let_def)
  have len: "length (tc_destination ?c) = 21" "length (toAddress s) = 35" "length (tc_tokenNames ?c ! 0) = 67"
    "length (tr_signature (transactionContext s)) = 65"
    using steady_lengths(2,6) [OF assms(2)] wf_content_nth [OF steady_lengths(1) [OF assms(2)], of 0]
      wf_content_lengths [OF steady_lengths(1) [OF assms(2)]]
    by (simp_all add: wf_transaction_def)
  obtain t where t: "printable_of k (sv_amount ?v) 6 = Some (True, t)" "cstr (G_io_apdu_buffer s) = cstr t"
    using same_text [OF assms(1) a(6,7) _ assms(4) a(5), of 6 100 b] assms(5,6) by auto
  have "strlen (tc_tokenNames ?c ! 0) = 3" using a(12) by (simp add: strlen_def chars_def)
  then have n: "cstr (fullContract s1) = chars ''TRX''"
    using cstr_copy [of "tc_tokenNames ?c ! 0" 5 "fullContract s"] a(12,13) len(3)
    by (simp add: s1_def copy_token_name_def set_recipient_address_def)
  have b: "cstr (toAddress s1) = base58 k (tc_destination ?c)"
    using cstr_getBase58FromAddress(1) [OF assms(1) len(1) a(8), of 0 "toAddress s"] len(2)
    by (simp add: s1_def copy_token_name_def set_recipient_address_def)
  have s1: "txContent s1 = ?c" "G_swap_validated s1 = ?v" "G_called_from_swap s1" "G_io_apdu_buffer s1 = G_io_apdu_buffer s"
    "TRC20ActionSendAllow s1 = TRC20ActionSendAllow s" "transactionContext s1 = transactionContext s" "outputs s1 = outputs s"
    using a(1) by (simp_all add: s1_def copy_token_name_def set_recipient_address_def)
  have "swap_check_validity k s1 (G_io_apdu_buffer s1) (fullContract s1) (TRC20ActionSendAllow s1) (toAddress s1) = Some True"
    using t a(2,3,4,9) n b assms(7) by (intro swap_check_ok [of _ _ t]) (simp_all add: s1)
  moreover have "\<not> tc_feeLimit ?c > MAX_SWAP_FEE_LIMIT" using a(11) by (simp add: MAX_SWAP_FEE_LIMIT_def not_less)
  ultimately have "finish_transfer k False s = (Returned, snd (ui_callback_tx_ok k False s1))"
    using a(10) s1(1,3) by (simp add: finish_transfer_eq swap_or_review_def s1_def [symmetric])
  moreover have "outputs (snd (ui_callback_tx_ok k False s1)) = outputs s @ [SendData (r @ v @ [if par then 1 else 0]) E_OK]"
    using signTransaction_ok [OF assms(1,8) len(4)] sdk_sign [OF assms(1,8)]
    by (simp add: ui_callback_tx_ok_def sign_and_send_def s1 io_send_response_pointer_def terminate_signing_session_def)
  ultimately show ?thesis by blast
qed

lemma validated_signed:
  assumes "sdk_ok k" "wf_state n k s" "validated_transfer k s" "25 \<le> max_printable_amount_size k"
    "bip32_derive_ecdsa_sign_rs k (path_of (tr_bip32_path (transactionContext s))) (cx_sha256 k (tx_sha2 (txContext s))) =
     Some (r, v, par)"
  shows "\<exists>s'. finish_sign k s = (Returned, s') \<and>
    outputs s' = outputs s @ [SendData (r @ v @ [if par then 1 else 0]) E_OK]"
proof -
  let ?c = "txContent s" and ?s1 = "set_sender k (hashed k s)"
  let ?s2 = "?s1\<lparr>TRC20ActionSendAllow := strcpy (TRC20ActionSendAllow ?s1) ''To''\<rparr>"
  have a: "G_called_from_swap s" "0 < unat (tc_amount ?c ! 0)" "unat (tc_amount ?c ! 0) < 10 ^ 19"
    "tc_contractType ?c = TRANSFERCONTRACT" "tc_dataBytes ?c = 0" "tc_permission_id ?c = 0"
    using assms(3) by (simp_all add: validated_transfer_def Let_def)
  have "steady n k s (hashed k s)" using steady_refl [OF assms(2)] assms(1) by (simp add: steady_simps)
  then have st: "steady n k s ?s1" using assms(1) by (simp add: steady_simps)
  then have len: "length (G_io_apdu_buffer ?s1) = n" "260 \<le> n" "length (TRC20ActionSendAllow ?s1) = 8"
    by (simp_all add: steady_lengths)
  have s1: "txContent ?s1 = ?c" "G_called_from_swap ?s1" "outputs ?s1 = outputs s" "G_swap_validated ?s1 = G_swap_validated s"
    "tr_hash (transactionContext ?s1) = cx_sha256 k (tx_sha2 (txContext s))"
    "tr_bip32_path (transactionContext ?s1) = tr_bip32_path (transactionContext s)"
    using a(1) by (simp_all add: set_sender_def Let_def)
  obtain out l where out: "print_amount (tc_amount ?c ! 0) (G_io_apdu_buffer ?s1) 100 6 = Some (Inr (out, l))"
      "length out = n"
    using print_amount_positive [OF a(2,3), of 6 100 "G_io_apdu_buffer ?s1"] len by auto
  let ?s3 = "?s2\<lparr>G_io_apdu_buffer := out\<rparr>"
  have "finish_sign k s = sign_switch k False ?s1"
    using a s1 by (simp add: finish_sign_def Let_def MAX_PERMISSION_ID_def)
  also have "\<dots> = sign_transfer k False ?s1" using a(4) s1(1) by (simp add: sign_switch_def)
  also have "\<dots> = finish_transfer k False ?s3"
    using a(4) s1(1) out by (simp add: sign_transfer_def print_apdu_def with_print_def header_constants Let_def)
  finally have e: "finish_sign k s = finish_transfer k False ?s3" .
  have "steady n k s ?s3" using st len out(2) by (simp add: steady_simps)
  moreover have "validated_transfer k ?s3" using assms(3) s1 by (simp add: validated_transfer_def Let_def)
  moreover have "cstr (TRC20ActionSendAllow ?s3) = chars ''To''" by (simp add: strcpy_text chars_def)
  ultimately show ?thesis
    using validated_finish_transfer [OF assms(1) _ _ assms(4), of n s ?s3 "G_io_apdu_buffer ?s1" l r v par]
      e out len assms(5) s1 by simp
qed

text \<open>The recipient whose text passed the comparison.\<close>

lemma zeroed_text:
  assumes "sdk_ok k"
  shows "cstr (getBase58FromAddress k a (replicate 35 0) 0) =
    (case base58_encode k (addchecksum k a) 34 of Some t \<Rightarrow> t | None \<Rightarrow> [])"
proof (cases "base58_encode k (addchecksum k a) 34")
  case None
  then show ?thesis by (simp add: getBase58FromAddress_def header_constants buf_set_def buf_write_def cstr_def numeral_eq_Suc)
next
  case (Some t)
  have t: "length t \<le> 34" "0 \<notin> set t" using sdk_base58 [OF assms Some] by simp_all
  then have "getBase58FromAddress k a (replicate 35 0) 0 = t @ replicate (35 - length t) 0"
    by (simp add: getBase58FromAddress_def Some header_constants buf_set_def buf_write_def)
      (simp add: replicate_append_same [symmetric] Suc_diff_le numeral_eq_Suc)
  then show ?thesis using t Some by (cases "35 - length t") simp_all
qed

lemma recipient_text:
  assumes "sdk_ok k" "length a = 21" "length out = 35"
    "a ! 0 = 0x41 \<or> out = replicate 35 0 \<and> length (cstr recipient) = 34"
    "strneq recipient (getBase58FromAddress k a out 0) 35"
  shows "base58_encode k (addchecksum k a) 34 = Some (cstr recipient)"
proof (cases "a ! 0 = 0x41")
  case True
  have "cstr (getBase58FromAddress k a out 0) = base58 k a"
    using cstr_getBase58FromAddress(1) [OF assms(1,2) True, of 0 out] assms(3) by simp
  then show ?thesis using strneq_short [OF assms(5)] base58_mainnet [OF assms(1,2) True] by simp
next
  case False
  then have z: "out = replicate 35 0" "length (cstr recipient) = 34" using assms(4) by simp_all
  have "length (cstr (getBase58FromAddress k a out 0)) < 35"
    using sdk_base58 [OF assms(1), of "addchecksum k a" 34] unfolding z(1) zeroed_text [OF assms(1)]
    by (auto split: option.splits)
  from strneq_short [OF assms(5) this] z show ?thesis
    unfolding z(1) zeroed_text [OF assms(1)] by (auto split: option.splits)
qed

section \<open>Properties\<close>

text \<open>C10: A swap signs only what the user validated in the Exchange application: when a signature is sent in a
  swap, the validated parameters were set, the transaction is a TRX transfer or a TRC20 transfer call without
  extra data, its fee limit is at most 100 TRX, its amount is the validated amount - as numbers, whatever the
  decimals of the two, although the code compares texts -, the text the code makes of the recipient's address agrees
  with the validated recipient, and the text it makes of the token name agrees with the validated ticker on the 15
  bytes of the ticker. The text of the recipient is the base58 text of its address whenever the address has the
  mainnet prefix, and for any other 21 bytes when the text was empty before, as it is when a swap starts, and the
  validated recipient has 34 characters, as the swap library requires; the text of the token name is the name when its
  recorded length covers it.\<close>

theorem swap_signs_only_validated:
  assumes "sdk_ok k" "wf_state n k s" "G_called_from_swap s" "finish_sign k s = (Returned, s')"
    "outputs s' = outputs s @ [SendData sig E_OK]"
  shows "let v = G_swap_validated s; c = txContent s in
    sv_initialized v \<and> tc_dataBytes c = 0 \<and> tc_feeLimit c \<le> 100000000 \<and>
    (tc_contractType c = TRANSFERCONTRACT \<or> tc_contractType c = TRIGGERSMARTCONTRACT \<and> tc_TRC20Method c = 1) \<and>
    transfer_amount c * 10 ^ unat (sv_decimals v) = val256 (sv_amount v) * 10 ^ transfer_decimals c \<and>
    take 35 (cstr (sv_recipient v)) = take 35 (cstr (getBase58FromAddress k (tc_destination c) (toAddress s) 0)) \<and>
    take 15 (cstr (fullContract (copy_token_name s))) = take 15 (cstr (sv_ticker v)) \<and>
    (tc_destination c ! 0 = 0x41 \<or> toAddress s = replicate 35 0 \<and> length (cstr (sv_recipient v)) = 34 \<longrightarrow>
      base58_encode k (addchecksum k (tc_destination c)) 34 = Some (cstr (sv_recipient v))) \<and>
    (strlen (tc_tokenNames c ! 0) \<le> unat (tc_tokenNamesLength c ! 0) \<longrightarrow>
      take 15 (cstr (tc_tokenNames c ! 0)) = take 15 (cstr (sv_ticker v)))"
proof -
  let ?c = "txContent s" and ?v = "G_swap_validated s" and ?s1 = "set_sender k (hashed k s)"
  have sr: "signed_reply s (finish_sign k s)" using assms(4,5) by (simp add: signed_reply_def)
  obtain s3 where f: "tc_dataBytes ?c = 0" "tc_contractType ?c = TRANSFERCONTRACT \<or>
      tc_contractType ?c = TRIGGERSMARTCONTRACT \<and> tc_TRC20Method ?c = 1"
      "transfer_printed ?s1 s3" "signed_reply s (finish_transfer k False s3)"
    using signed_finish_sign [OF assms(1-3) sr] by blast
  have s1: "txContent ?s1 = ?c" "G_called_from_swap ?s1" "outputs ?s1 = outputs s" "fullContract ?s1 = fullContract s"
    "toAddress ?s1 = toAddress s" "G_swap_validated ?s1 = ?v"
    using assms(3) by (simp_all add: set_sender_def Let_def)
  have s3: "quiet ?s1 s3" "txContent s3 = ?c" "G_called_from_swap s3" "toAddress s3 = toAddress s" "fullContract s3 = fullContract s"
    "G_swap_validated s3 = ?v" "denotes (cstr (G_io_apdu_buffer s3)) (transfer_amount ?c) (transfer_decimals ?c)"
    using f(3) s1 by (simp_all add: transfer_printed_def quiet_def core_def)
  have "signed_reply ?s1 (finish_transfer k False s3)" using f(4) signed_frame [OF s1(3)] by simp
  from signed_finish_transfer [OF this s3(1,3)] have fee: "tc_feeLimit ?c \<le> 100000000"
    and ck: "swap_check_validity k s3 (G_io_apdu_buffer s3) (fullContract (copy_token_name s3)) (TRC20ActionSendAllow s3)
      (getBase58FromAddress k (tc_destination ?c) (toAddress s) 0) = Some True"
    by (simp_all add: s3 MAX_SWAP_FEE_LIMIT_def)
  have ck1: "sv_initialized ?v" "check_swap_amount k s3 (G_io_apdu_buffer s3) (sv_decimals ?v) = Some True"
    "strneq (fullContract (copy_token_name s3)) (sv_ticker ?v) 15"
    "strneq (sv_recipient ?v) (getBase58FromAddress k (tc_destination ?c) (toAddress s) 0) 35"
    using ck by (auto simp: swap_check_validity_def s3 MAX_SWAP_TOKEN_LENGTH_def header_constants Let_def
        split: if_splits bind_splits)
  have st: "steady n k s s" using assms(2) by (rule steady_refl)
  have len: "length (tc_destination ?c) = 21" "length (toAddress s) = 35" "length (tc_tokenNames ?c ! 0) = 67"
    "unat (tc_tokenNamesLength ?c ! 0) \<le> 66"
    using st wf_content_nth [OF steady_lengths(1) [OF st], of 0] by (simp_all add: steady_simps wf_content_lengths)
  have "transfer_amount ?c * 10 ^ unat (sv_decimals ?v) = val256 (sv_amount ?v) * 10 ^ transfer_decimals ?c"
    using swap_check_amount [OF assms(1) ck1(2) s3(7)] s3(6) by simp
  moreover have "take 35 (cstr (sv_recipient ?v)) = take 35 (cstr (getBase58FromAddress k (tc_destination ?c) (toAddress s) 0))"
    using ck1(4) by (simp add: strneq_def)
  moreover have "fullContract (copy_token_name s3) = fullContract (copy_token_name s)" by (simp add: copy_token_name_def s3)
  then have name: "take 15 (cstr (fullContract (copy_token_name s))) = take 15 (cstr (sv_ticker ?v))"
    using ck1(3) by (simp add: strneq_def)
  moreover have "base58_encode k (addchecksum k (tc_destination ?c)) 34 = Some (cstr (sv_recipient ?v))"
    if "tc_destination ?c ! 0 = 0x41 \<or> toAddress s = replicate 35 0 \<and> length (cstr (sv_recipient ?v)) = 34"
    using recipient_text [OF assms(1) len(1,2) that ck1(4)] .
  moreover have "take 15 (cstr (tc_tokenNames ?c ! 0)) = take 15 (cstr (sv_ticker ?v))"
    if "strlen (tc_tokenNames ?c ! 0) \<le> unat (tc_tokenNamesLength ?c ! 0)"
    using cstr_copy [of "tc_tokenNames ?c ! 0" "unat (tc_tokenNamesLength ?c ! 0) + 1" "fullContract s"] that len name
    by (simp add: copy_token_name_def)
  ultimately show ?thesis using f(1,2) fee ck1(1) unfolding Let_def by blast
qed

text \<open>C11: A swap of TRX that matches what the user validated is signed: with the validated amount, ticker and
  recipient in the transaction, no extra data and a fee limit of at most 100 TRX, the reply is the signature of
  the digest of the bytes received. The check never refuses it, although amount and name go through
  different routines and buffers before they are compared as texts.\<close>

theorem validated_swap_signed:
  assumes "sdk_ok k" "wf_state n k s" "validated_transfer k s" "25 \<le> max_printable_amount_size k"
    "bip32_derive_ecdsa_sign_rs k (path_of (tr_bip32_path (transactionContext s))) (cx_sha256 k (tx_sha2 (txContext s))) =
     Some (r, v, par)"
  shows "\<exists>s'. finish_sign k s = (Returned, s') \<and>
    outputs s' = outputs s @ [SendData (r @ v @ [if par then 1 else 0]) E_OK]"
  by (rule validated_signed [OF assms])

text \<open>C12: Where the device and the Exchange application show the same text for an amount: for every 64-bit amount, every
  precision up to 22 and a buffer of at least 26 bytes, the routine of the swap library - 256-bit division - writes the
  amount in decimal; \<^verbatim>\<open>print_amount\<close> - 64-bit arithmetic, digit by digit - writes the same characters for every positive
  amount below \<open>10 ^ 19\<close>, writes \<open>0.\<close> and as many zeros as the precision for zero, where the library writes \<open>0\<close>, and
  throws for every larger amount.\<close>

theorem swap_and_review_text_agree:
  assumes "sdk_ok k" "unat d \<le> 22" "25 \<le> max_printable_amount_size k"
    "val256 x = unat v" "26 \<le> unat outlen" "unat outlen \<le> length out"
  shows "\<exists>t. printable_of k x d = Some (True, t) \<and> denotes (cstr t) (unat v) (unat d) \<and>
    (if 10 ^ 19 \<le> unat v then print_amount v out outlen d = Some (Inl E_INCORRECT_LENGTH)
     else \<exists>out' l. print_amount v out outlen d = Some (Inr (out', l)) \<and>
       cstr out' = (if v = 0 then ch_0 # ch_dot # replicate (unat d) ch_0 else cstr t))"
proof -
  have "text_fits (decimal (unat v)) (unat d) 25" using amount_text_fits [of "unat v" "unat d"] unat64_less [of v] assms(2) by simp
  then have "text_fits (decimal (val256 x)) (unat d) (max_printable_amount_size k)"
    using assms(3,4) by (auto simp: text_fits_def)
  from printable_of_ok [OF assms(1) this] obtain t where t: "printable_of k x d = Some (True, t)"
      "cstr t = decimal_text (decimal (unat v)) (unat d)"
    using assms(4) by auto
  have "if 10 ^ 19 \<le> unat v then print_amount v out outlen d = Some (Inl E_INCORRECT_LENGTH)
     else \<exists>out' l. print_amount v out outlen d = Some (Inr (out', l)) \<and>
       cstr out' = (if v = 0 then ch_0 # ch_dot # replicate (unat d) ch_0 else cstr t)"
  proof (cases "10 ^ 19 \<le> unat v")
    case True
    then show ?thesis using print_amount_20_digits by simp
  next
    case False
    have "\<exists>out' l. print_amount v out outlen d = Some (Inr (out', l)) \<and>
       cstr out' = (if v = 0 then ch_0 # ch_dot # replicate (unat d) ch_0 else cstr t)"
    proof (cases "v = 0")
      case True
      then show ?thesis using print_amount_zero [of d outlen out] assms(2,5,6) by (auto simp: fit_text_def)
    next
      case pos: False
      then have "0 < unat v" by (simp add: unat_gt_0)
      with same_text [OF assms(1) this _ assms(2-6)] False t(1) pos show ?thesis by auto
    qed
    with False show ?thesis by simp
  qed
  then show ?thesis using t decimal_text_denotes_val [of "unat v" "unat d"] by (intro exI [of _ t]) simp
qed

theorem swap_and_review_text_agree_witness:
  "\<exists>out' l t. print_amount 1500000 (replicate 100 0) 100 6 = Some (Inr (out', l)) \<and>
    printable_of sample_sdk (UInt256 (UInt128 0 0) (UInt128 0 1500000)) 6 = Some (True, t) \<and> cstr out' = cstr t"
  using swap_and_review_text_agree [OF sample_sdk_ok, of 6 "UInt256 (UInt128 0 0) (UInt128 0 1500000)" 1500000 100 "replicate 100 0"]
  by (auto simp: sample_sdk_def val256_def val128_def)

section \<open>Witnesses\<close>

text \<open>A swap of 1.5 TRX.\<close>

definition swap_state :: app_state where
  "swap_state = sample_state
     \<lparr>G_called_from_swap := True, txContent := trx_content sample_address sample_address 1500000,
      G_swap_validated := \<lparr>sv_initialized = True, sv_decimals = 6, sv_ticker = chars ''TRX'' @ 0 # replicate 11 0,
        sv_amount = UInt256 (UInt128 0 0) (UInt128 0 1500000), sv_recipient = replicate 34 0x54 @ [0]\<rparr>\<rparr>"

lemma swap_state_ok:
  "wf_state 260 sample_sdk swap_state" "validated_transfer sample_sdk swap_state" "25 \<le> max_printable_amount_size sample_sdk"
  "G_called_from_swap swap_state" "txContent swap_state = trx_content sample_address sample_address 1500000"
proof -
  have "wf_content (trx_content sample_address sample_address 1500000)"
    by (simp add: wf_content_def trx_content_def sample_address_def zero_content_def header_constants chars_def wf_name_def
        list_all_iff)
  then have "wf_state 260 sample_sdk swap_state"
    using sample_facts(1) by (simp add: swap_state_def wf_state_def)
  moreover have "cstr (sv_ticker (G_swap_validated swap_state)) = chars ''TRX''" "cstr (chars ''TRX'' @ 0 # replicate 63 0) = chars ''TRX''"
    by (simp_all add: swap_state_def cstr_def chars_def)
  moreover have "base58 sample_sdk sample_address = replicate 34 0x54" by (simp add: base58_def sample_sdk_def)
  moreover have "takeWhile (\<lambda>c. c \<noteq> 0) (replicate 34 0x54 @ [0]) = replicate 34 (0x54 :: u8)"
    by (subst takeWhile_append2) simp_all
  ultimately show "wf_state 260 sample_sdk swap_state" "validated_transfer sample_sdk swap_state"
    by (simp_all add: validated_transfer_def swap_state_def trx_content_def zero_content_def sample_address_def
        val256_def val128_def cstr_def Let_def)
qed (simp_all add: sample_sdk_def swap_state_def)

theorem validated_swap_signed_witness:
  "\<exists>s' sig. finish_sign sample_sdk swap_state = (Returned, s') \<and> outputs s' = outputs swap_state @ [SendData sig E_OK]"
  using validated_swap_signed [OF sample_sdk_ok swap_state_ok(1-3)] by (fastforce simp: sample_sdk_def)

theorem swap_signs_only_validated_witness:
  "\<exists>s' sig. finish_sign sample_sdk swap_state = (Returned, s') \<and> outputs s' = outputs swap_state @ [SendData sig E_OK] \<and>
    cstr (sv_recipient (G_swap_validated swap_state)) = base58 sample_sdk sample_address"
proof -
  obtain s' sig where f: "finish_sign sample_sdk swap_state = (Returned, s')"
      "outputs s' = outputs swap_state @ [SendData sig E_OK]"
    using validated_signed [OF sample_sdk_ok swap_state_ok(1-3)] by (fastforce simp: sample_sdk_def)
  show ?thesis
    using swap_signs_only_validated [OF sample_sdk_ok swap_state_ok(1,4) f] f swap_state_ok(5)
    by (auto simp: trx_content_def sample_address_def base58_def Let_def)
qed

end
