(* ===== verification/Paths.thy ===== *)
theory Paths
  imports Session
begin

text \<open>
  Key derivation paths: reading the path of a command is the inverse of encoding it, only paths under
  \<open>44'/195'\<close> are accepted, and what a refused path leaves behind.
\<close>

section \<open>Encoding\<close>

definition enc_path :: "u32 list \<Rightarrow> bytes" where
  "enc_path ps = of_nat (length ps) # concat (map (\<lambda>p. be_bytes 4 (unat p)) ps)"

lemma U4BE_be_bytes: "U4BE (be_bytes 4 (unat p) @ rest) 0 = p"
proof -
  have "be_val (be_bytes 4 (unat p)) = unat p" using unat32_less [of p] by (intro be_val_be_bytes) simp
  then show ?thesis by (simp add: U4BE_def)
qed

lemma read_indices_enc:
  assumes "i + length ps \<le> length ind"
  shows "read_indices (concat (map (\<lambda>p. be_bytes 4 (unat p)) ps) @ rest) ind i (length ps) = buf_write ind i ps"
  using assms
proof (induction ps arbitrary: ind i)
  case (Cons p ps)
  have "read_indices (concat (map (\<lambda>p. be_bytes 4 (unat p)) ps) @ rest) (buf_set ind i p) (Suc i) (length ps) =
      buf_write (buf_set ind i p) (Suc i) ps"
    using Cons.prems by (intro Cons.IH) (simp add: length_buf_set)
  then show ?case using Cons.prems by (simp add: U4BE_be_bytes buf_write_Cons)
qed simp

lemma length_enc_path: "length (enc_path ps) = 1 + 4 * length ps"
  by (induction ps) (simp_all add: enc_path_def)

text \<open>Whether a path is under \<open>44'/195'\<close>.\<close>

definition tron_indices :: "u32 list \<Rightarrow> bool" where
  "tron_indices ps \<longleftrightarrow> take 2 ps = [0x8000002C, 0x800000C3]"

lemma read_bip32_path_enc:
  assumes "wf_path p" "0 < length ps" "length ps \<le> 10"
  shows "read_bip32_path (enc_path ps @ rest) p =
    (if tron_indices ps then Some (1 + 4 * length ps) else None,
     p\<lparr>bp_length := length ps, bp_indices := ps @ drop (length ps) (bp_indices p)\<rparr>)"
proof -
  have l: "length (bp_indices p) = 10" using assms(1) by (simp add: wf_path_def header_constants)
  have n: "unat (of_nat (length ps) :: u8) = length ps" using assms(3) by (simp add: unat_of_nat)
  have "read_indices (concat (map (\<lambda>p. be_bytes 4 (unat p)) ps) @ rest) (bp_indices p) 0 (length ps) =
      ps @ drop (length ps) (bp_indices p)"
    using read_indices_enc [of 0 ps "bp_indices p" rest] assms(3) l by (simp add: buf_write_def)
  moreover have "tron_indices ps \<longleftrightarrow> \<not> (length ps < 2 \<or> (ps @ x) ! 0 \<noteq> TRON_BIP32_PREFIX_0 \<or> (ps @ x) ! 1 \<noteq> TRON_BIP32_PREFIX_1)" for x
    by (cases ps; cases "tl ps") (auto simp: tron_indices_def TRON_BIP32_PREFIX_0_def TRON_BIP32_PREFIX_1_def nth_append)
  moreover have "length (enc_path ps @ rest) = 1 + 4 * length ps + length rest" by (simp add: length_enc_path)
  ultimately show ?thesis
    using assms(2,3) n by (auto simp: read_bip32_path_def enc_path_def Let_def header_constants)
qed

section \<open>Properties\<close>

text \<open>C21: Reading a path inverts encoding it: the path of a command, encoded as its length and its indices in
  big-endian order, is read back exactly when it has at most ten indices and starts with \<open>44'/195'\<close>, and the
  bytes after it are left for the handler; every other path of at most ten indices is refused.\<close>

theorem bip32_path_roundtrip:
  assumes "wf_path p" "0 < length ps" "length ps \<le> 10"
  shows "(tron_indices ps \<longrightarrow> (\<exists>p'. read_bip32_path (enc_path ps @ rest) p = (Some (length (enc_path ps)), p') \<and>
      path_of p' = ps \<and> wf_path p')) \<and>
    (\<not> tron_indices ps \<longrightarrow> fst (read_bip32_path (enc_path ps @ rest) p) = None)"
proof -
  have "length (bp_indices p) = 10" using assms(1) by (simp add: wf_path_def header_constants)
  then show ?thesis
    using read_bip32_path_enc [OF assms, of rest] assms(3)
    by (simp add: length_enc_path path_of_def wf_path_def header_constants)
qed

theorem bip32_path_roundtrip_witness:
  "\<exists>p'. read_bip32_path (enc_path [0x8000002C, 0x800000C3, 0x80000000, 0, 7] @ [1, 2]) zero_path =
     (Some (length (enc_path [0x8000002C, 0x800000C3, 0x80000000, 0, 7])), p') \<and>
     path_of p' = [0x8000002C, 0x800000C3, 0x80000000, 0, 7]"
proof -
  have "wf_path zero_path" by (simp add: zero_path_def wf_path_def header_constants)
  with bip32_path_roundtrip [of zero_path "[0x8000002C, 0x800000C3, 0x80000000, 0, 7]" "[1, 2]"] show ?thesis
    by (auto simp: tron_indices_def)
qed

text \<open>C32: A refused path is kept: when a first chunk with a path outside \<open>44'/195'\<close> arrives while a transaction is
  being received, it is answered with the status word for a bad path, but its indices have replaced those of the
  open session, which goes on: the chunks received so far stay hashed, and the key of the refused path is the one
  used if the transaction is completed and approved.\<close>

theorem refused_path_replaces_session_path:
  assumes "session_inv path bs s" "wf_path path" "0 < length ps" "length ps \<le> 10" "\<not> tron_indices ps"
  shows "\<exists>s'. handleSign k P1_FIRST 0 (enc_path ps) s = (Returned, s') \<and>
    outputs s' = outputs s @ [SendSW E_INCORRECT_BIP32_PATH] \<and>
    tx_initialized (txContext s') \<and> txContent s' = txContent s \<and>
    (\<forall>d s2. handleSign k P1_LAST 0 d s' = (Returned, s2) \<and> outputs s2 = outputs s' \<longrightarrow>
       path_of (tr_bip32_path (transactionContext s2)) = ps \<and> tr_hash (transactionContext s2) = cx_sha256 k (bs @ d))"
proof -
  let ?s = "io_send_sw E_INCORRECT_BIP32_PATH
    (set_path (path\<lparr>bp_length := length ps, bp_indices := ps @ drop (length ps) (bp_indices path)\<rparr>) s)"
  have s: "tr_bip32_path (transactionContext s) = path" "tx_initialized (txContext s)" "tx_sha2 (txContext s) = bs"
    "\<not> G_called_from_swap s"
    using assms(1) by (simp_all add: session_inv_def)
  then have "handleSign k P1_FIRST 0 (enc_path ps) s = (Returned, ?s)"
    using read_bip32_path_enc [OF assms(2-4), of "[]"] assms(5) by (simp add: handleSign_def ret_sw_def)
  moreover have "path_of (tr_bip32_path (transactionContext s2)) = ps \<and> tr_hash (transactionContext s2) = cx_sha256 k (bs @ d)"
    if "handleSign k P1_LAST 0 d ?s = (Returned, s2)" "outputs s2 = outputs ?s" for d s2
  proof -
    have "sign_chunk k P1_LAST d ?s = (Returned, s2)" using that(1) by (simp add: handleSign_def)
    from sign_chunk_review [OF this _ that(2)] show ?thesis using s by (simp add: io_send_sw_def path_of_def)
  qed
  ultimately show ?thesis using s(2) by (intro exI [of _ ?s]) (auto simp: io_send_sw_def)
qed

theorem refused_path_replaces_session_path_witness:
  "\<exists>s s'. tx_initialized (txContext s) \<and> handleSign sample_sdk P1_FIRST 0 (enc_path [0x8000002C, 0x8000003C]) s = (Returned, s') \<and>
    tx_initialized (txContext s')"
proof -
  let ?p = "\<lparr>bp_indices = 0x8000002C # 0x800000C3 # replicate 8 0, bp_length = 2\<rparr>"
  let ?s = "(set_path ?p sample_state)\<lparr>txContext := \<lparr>tx_sha2 = [1], tx_initialized = True\<rparr>\<rparr>"
  have "\<not> G_called_from_swap sample_state"
    by (simp add: sample_state_def app_init_def zero_state_def nv_app_state_init_def ui_idle_def
        terminate_signing_session_def Let_def)
  then have i: "session_inv ?p [1] ?s"
    by (simp add: session_inv_def tron_path_def path_of_def header_constants TRON_BIP32_PREFIX_0_def
        TRON_BIP32_PREFIX_1_def numeral_2_eq_2)
  have "wf_path ?p" by (simp add: wf_path_def header_constants)
  from refused_path_replaces_session_path [OF i this, of "[0x8000002C, 0x8000003C]" sample_sdk]
  have "\<exists>s'. handleSign sample_sdk P1_FIRST 0 (enc_path [0x8000002C, 0x8000003C]) ?s = (Returned, s') \<and>
      tx_initialized (txContext s')"
    by (auto simp: tron_indices_def)
  moreover have "tx_initialized (txContext ?s)" by simp
  ultimately show ?thesis by blast
qed

end
