(* ===== verification/Message_Signing.thy ===== *)
theory Message_Signing
  imports Guards Paths
begin

text \<open>
  Personal messages: the digest that waits for approval after the last chunk, and what the review shows; and what
  a message command in the middle of a transaction does to the transaction.
\<close>

section \<open>Receiving a message\<close>

text \<open>
  A message of \<open>n\<close> bytes, of which \<open>bs\<close> have arrived, after a first command with the path and any number of further
  ones, each answered with success.
\<close>

inductive receiving_message :: "sdk \<Rightarrow> bip32_path_t \<Rightarrow> nat \<Rightarrow> bytes \<Rightarrow> app_state \<Rightarrow> bool" for k path n where
  first_chunk:
    "handleSignPersonalMessage k p1 0 d s = (Returned, s') \<Longrightarrow> outputs s' = outputs s @ [SendSW E_OK] \<Longrightarrow>
     p1 = P1_FIRST \<or> p1 = P1_SIGN \<Longrightarrow> read_bip32_path d (tr_bip32_path (transactionContext s)) = (Some m, path) \<Longrightarrow>
     n = be_val (take 4 (drop m d)) \<Longrightarrow> length d \<le> 255 \<Longrightarrow> wf_state sz k s \<Longrightarrow> receiving_message k path n (drop (m + 4) d) s'"
| next_chunk:
    "receiving_message k path n bs s \<Longrightarrow> handleSignPersonalMessage k P1_MORE 0 d s = (Returned, s') \<Longrightarrow>
     outputs s' = outputs s @ [SendSW E_OK] \<Longrightarrow> length d \<le> 255 \<Longrightarrow> receiving_message k path n (bs @ d) s'"

text \<open>The message whose last bytes a command delivered: no reply yet.\<close>

inductive message_received :: "sdk \<Rightarrow> bip32_path_t \<Rightarrow> nat \<Rightarrow> bytes \<Rightarrow> app_state \<Rightarrow> bool" for k path n where
  single_chunk:
    "handleSignPersonalMessage k p1 0 d s = (Returned, s') \<Longrightarrow> outputs s' = outputs s \<Longrightarrow>
     p1 = P1_FIRST \<or> p1 = P1_SIGN \<Longrightarrow> read_bip32_path d (tr_bip32_path (transactionContext s)) = (Some m, path) \<Longrightarrow>
     n = be_val (take 4 (drop m d)) \<Longrightarrow> length d \<le> 255 \<Longrightarrow> wf_state sz k s \<Longrightarrow> message_received k path n (drop (m + 4) d) s'"
| last_chunk:
    "receiving_message k path n bs s \<Longrightarrow> handleSignPersonalMessage k P1_MORE 0 d s = (Returned, s') \<Longrightarrow>
     outputs s' = outputs s \<Longrightarrow> length d \<le> 255 \<Longrightarrow> message_received k path n (bs @ d) s'"

definition message_inv :: "bip32_path_t \<Rightarrow> nat \<Rightarrow> bytes \<Rightarrow> app_state \<Rightarrow> bool" where
  "message_inv path n bs s \<longleftrightarrow>
     pm_sha3 (personal_msg_ctx s) = SIGN_MAGIC @ decimal n @ bs \<and> unat (tc_dataBytes (txContent s)) + length bs = n \<and>
     tr_bip32_path (transactionContext s) = path \<and> length (fullContract s) = 67 \<and> length (fromAddress s) = 40 \<and>
     length (tr_signature (transactionContext s)) = 65"

text \<open>The digest of a message as wallets compute it.\<close>

definition message_digest :: "sdk \<Rightarrow> bytes \<Rightarrow> bytes" where
  "message_digest k m = cx_keccak256 k (SIGN_MAGIC @ decimal (length m) @ m)"

definition message_review :: "sdk \<Rightarrow> bip32_path_t \<Rightarrow> nat \<Rightarrow> bytes \<Rightarrow> app_state \<Rightarrow> bool" where
  "message_review k path n bs s \<longleftrightarrow> length bs = n \<and> the_screen s = TransactionScreen \<and>
     ti_state (txInfos s) = APPROVAL_SIGN_PERSONAL_MESSAGE \<and>
     tr_hash (transactionContext s) = message_digest k bs \<and> tr_bip32_path (transactionContext s) = path \<and>
     length (tr_signature (transactionContext s)) = 65 \<and>
     (\<exists>pub chain t. bip32_derive_get_pubkey k (path_of path) = Some (pub, chain) \<and>
        format_hex k (message_digest k bs) 67 = Some t \<and>
        shown s = [(chars ''Message hash'', t, None),
          address_row (chars ''Sign with'') (g_sender_contact s) (base58 k (getAddressFromPublicKey k pub))])"

lemma message_display:
  "\<exists>s'. ux_flow_display k APPROVAL_SIGN_PERSONAL_MESSAGE False s = (Returned, s') \<and> outputs s' = outputs s \<and>
    the_screen s' = TransactionScreen \<and> ti_state (txInfos s') = APPROVAL_SIGN_PERSONAL_MESSAGE \<and>
    transactionContext s' = transactionContext s \<and> g_sender_contact s' = g_sender_contact s \<and>
    shown s' = [(chars ''Message hash'', cstr (fullContract s), None),
      address_row (chars ''Sign with'') (g_sender_contact s) (cstr (fromAddress s))]"
proof -
  let ?fs = "[field (Literal ''Message hash'') FullContract, field (Literal ''Sign with'') FromAddress]"
  let ?s1 = "s\<lparr>txInfos := (titled ''Review message'' ''Sign message'' (fresh_infos APPROVAL_SIGN_PERSONAL_MESSAGE False))
    \<lparr>ti_fields := map (aliased s) ?fs\<rparr>\<rparr>"
  have "prepareTxInfos k APPROVAL_SIGN_PERSONAL_MESSAGE False s = (Inr True, ?s1)"
    by (cases "g_recipient_service s")
      (simp_all add: prepareTxInfos_def tx_infos_1_def tx_infos_2_def insert_known_service_label_def apply_aliases Let_def)
  moreover have "shown (reviewStart ?s1) = map (row_of s \<circ> aliased s) ?fs"
    by (simp add: shown_def reviewStart_def row_of_def)
  ultimately show ?thesis
    by (intro exI [of _ "reviewStart ?s1"]) (simp add: ux_flow_display_def aliased_rows, simp add: reviewStart_def)
qed

text \<open>The address of a public key, as text.\<close>

lemma base58_of_key:
  assumes "sdk_ok k" "35 \<le> length out"
  shows "cstr (getBase58FromPublicKey k pub out) = base58 k (getAddressFromPublicKey k pub)"
proof -
  have "length (getAddressFromPublicKey k pub) = 21" "getAddressFromPublicKey k pub ! 0 = 0x41"
    using sdk_keccak256 [OF assms(1)]
    by (simp_all add: getAddressFromPublicKey_def header_constants Let_def length_buf_set buf_set_def buf_write_def nth_append)
  from cstr_getBase58FromAddress(1) [OF assms(1) this, of 0 out] assms(2) show ?thesis
    by (simp add: getBase58FromPublicKey_def)
qed

text \<open>One more chunk.\<close>

lemma personal_chunk_step:
  assumes "message_inv path n bs s" "personal_chunk k 0 d s = (Returned, s')" "length d \<le> 255" "sdk_ok k"
  shows "outputs s' = outputs s @ [SendSW E_OK] \<Longrightarrow> message_inv path n (bs @ d) s'"
    "outputs s' = outputs s \<Longrightarrow> message_review k path n (bs @ d) s'"
proof -
  let ?w = "tc_dataBytes (txContent s)"
  have u: "unat (of_nat (length d) :: u64) = length d" using assms(3) by (simp add: unat_of_nat take_bit_nat_eq_self)
  have inv: "pm_sha3 (personal_msg_ctx s) = SIGN_MAGIC @ decimal n @ bs" "unat ?w + length bs = n"
    "tr_bip32_path (transactionContext s) = path" "length (fullContract s) = 67" "length (fromAddress s) = 40"
    "length (tr_signature (transactionContext s)) = 65"
    using assms(1) by (simp_all add: message_inv_def)
  have "(outputs s' = outputs s @ [SendSW E_OK] \<longrightarrow> message_inv path n (bs @ d) s') \<and>
    (outputs s' = outputs s \<longrightarrow> message_review k path n (bs @ d) s')"
  proof (cases "of_nat (length d) > ?w")
    case True
    then show ?thesis using assms(2) by (auto simp: personal_chunk_def ret_sw_def io_send_sw_def clear_personal_def)
  next
    case False
    then have le: "length d \<le> unat ?w" using u by (simp add: word_le_nat_alt not_less)
    then have m: "unat (?w - of_nat (length d)) = unat ?w - length d" using u False by (simp add: unat_sub not_less)
    show ?thesis
    proof (cases "?w - of_nat (length d) = 0")
      case more: False
      then have "s' = io_send_sw E_OK (set_dataBytes (?w - of_nat (length d))
          (s\<lparr>personal_msg_ctx := (personal_msg_ctx s)\<lparr>pm_sha3 := pm_sha3 (personal_msg_ctx s) @ d\<rparr>\<rparr>))"
        using assms(2) False by (simp add: personal_chunk_def ret_sw_def Let_def)
      then show ?thesis using inv le m by (simp add: io_send_sw_def message_inv_def)
    next
      case last: True
      then have n: "n = length (bs @ d)" using m inv(2) le by simp
      let ?h = "cx_keccak256 k (SIGN_MAGIC @ decimal n @ bs @ d)"
      define s4 where "s4 = (let s3 = clear_personal ((set_dataBytes 0
          (s\<lparr>personal_msg_ctx := (personal_msg_ctx s)\<lparr>pm_sha3 := pm_sha3 (personal_msg_ctx s) @ d\<rparr>\<rparr>))
          \<lparr>transactionContext := (transactionContext s)\<lparr>tr_hash := ?h\<rparr>\<rparr>) in s3\<lparr>fullContract := write_hex k ?h (fullContract s3)\<rparr>)"
      obtain t where t: "format_hex k ?h 67 = Some t" using sdk_hex_fits [OF assms(4), of ?h 67] sdk_keccak256 [OF assms(4)] by auto
      have s4: "outputs s4 = outputs s" "tr_hash (transactionContext s4) = ?h" "tr_bip32_path (transactionContext s4) = path"
        "cstr (fullContract s4) = t" "length (fromAddress s4) = 40" "length (tr_signature (transactionContext s4)) = 65"
        using inv(3-6) t sdk_hex [OF assms(4) t] by (simp_all add: s4_def clear_personal_def write_hex_def buf_write_def Let_def)
      have r: "(case initPublicKeyContext k (tr_bip32_path (transactionContext s4)) (fromAddress s4) (publicKeyContext s4) of
             None \<Rightarrow> ret_sw E_SECURITY_STATUS_NOT_SATISFIED s4
           | Some (pkc, address58) \<Rightarrow>
               ux_flow_display k APPROVAL_SIGN_PERSONAL_MESSAGE False
                 (s4\<lparr>publicKeyContext := pkc, fromAddress := address58\<rparr>)) = (Returned, s')"
        using assms(2) False last inv(1) by (simp add: personal_chunk_def s4_def clear_personal_def Let_def cong del: option.case_cong_weak)
      show ?thesis
      proof (cases "initPublicKeyContext k (tr_bip32_path (transactionContext s4)) (fromAddress s4) (publicKeyContext s4)")
        case None
        then show ?thesis using r s4(1) by (auto simp: ret_sw_def io_send_sw_def status_words)
      next
        case (Some p)
        then obtain pub chain where p: "bip32_derive_get_pubkey k (path_of path) = Some (pub, chain)"
            "p = ((publicKeyContext s4)\<lparr>pk_publicKey := pub, pk_chainCode := chain\<rparr>, getBase58FromPublicKey k pub (fromAddress s4))"
          using s4(3) by (auto simp: initPublicKeyContext_def split: option.splits)
        have "cstr (getBase58FromPublicKey k pub (fromAddress s4)) = base58 k (getAddressFromPublicKey k pub)"
          using base58_of_key [OF assms(4), of "fromAddress s4" pub] s4(5) by simp
        then show ?thesis
          using r Some s4 n t p message_display [of k "s4\<lparr>publicKeyContext := fst p, fromAddress := snd p\<rparr>"]
          by (auto simp: message_review_def message_digest_def)
      qed
    qed
  qed
  then show "outputs s' = outputs s @ [SendSW E_OK] \<Longrightarrow> message_inv path n (bs @ d) s'"
    "outputs s' = outputs s \<Longrightarrow> message_review k path n (bs @ d) s'" by blast+
qed

text \<open>The first command, after its path.\<close>

lemma length_text:
  assumes "n < 2 ^ 31"
  shows "cstr (snprintf (replicate 11 0) 11 (fmt_signed (sint (of_nat n :: u32)))) = decimal n"
proof -
  have "sint (of_nat n :: u32) = int n"
    using assms by (simp add: signed_of_nat signed_take_bit_int_eq_self)
  moreover have "length (decimal n) \<le> 10" using length_digits_le [of 10 n 9] assms by (simp add: decimal_def)
  moreover have "0 \<notin> set (decimal n)" using is_number_chars [OF is_number_decimal] by simp
  ultimately show ?thesis by (simp add: snprintf_def cstr_strlcpy fmt_signed_def)
qed

lemma first_chunk_inv:
  assumes "handleSignPersonalMessage k p1 0 d s = (Returned, s')" "outputs s' = outputs s @ [SendSW E_OK] \<or> outputs s' = outputs s"
    "p1 = P1_FIRST \<or> p1 = P1_SIGN" "read_bip32_path d (tr_bip32_path (transactionContext s)) = (Some m, path)"
    "n = be_val (take 4 (drop m d))" "n < 2 ^ 31" "wf_state sz k s"
  shows "\<exists>s2. message_inv path n [] s2 \<and> outputs s2 = outputs s \<and> personal_chunk k 0 (drop (m + 4) d) s2 = (Returned, s')"
proof -
  let ?t = "U4BE (drop m d) 0"
  have t: "?t = of_nat n" using assms(5) by (simp add: U4BE_def)
  have "HAS_SETTING s S_SIGN_BY_HASH" "\<not> length (drop m d) < 4"
    using assms(1-4) by (auto simp: handleSignPersonalMessage_def ret_sw_def io_send_sw_def clear_personal_def status_words
        split: if_splits)
  then have "personal_chunk k 0 (drop 4 (drop m d)) ((set_dataBytes (ucast ?t) (set_path path s))
      \<lparr>personal_msg_ctx := \<lparr>pm_sha3 = SIGN_MAGIC @ cstr (snprintf (replicate 11 0) 11 (fmt_signed (sint ?t))),
         pm_initialized = True\<rparr>\<rparr>) = (Returned, s')"
    using assms(1,3,4) by (auto simp: handleSignPersonalMessage_def Let_def)
  moreover have "unat (ucast (of_nat n :: u32) :: u64) = n"
    using assms(6) by (simp add: unsigned_ucast_eq unsigned_of_nat take_bit_nat_eq_self)
  ultimately show ?thesis
    using assms(7) unfolding t length_text [OF assms(6)] drop_drop
    by (intro exI conjI) (auto simp: message_inv_def add.commute wf_state_def wf_transaction_def)
qed

lemma receiving_message_inv: "receiving_message k path n bs s \<Longrightarrow> n < 2 ^ 31 \<Longrightarrow> sdk_ok k \<Longrightarrow> message_inv path n bs s"
proof (induction rule: receiving_message.induct)
  case (first_chunk p1 d s s' m sz)
  then obtain s2 where s2: "message_inv path n [] s2" "outputs s2 = outputs s" "personal_chunk k 0 (drop (m + 4) d) s2 = (Returned, s')"
    using first_chunk_inv [of k p1 d s s' m path n sz] by blast
  then show ?case using personal_chunk_step(1) [OF s2(1,3)] first_chunk by simp
next
  case (next_chunk bs s d s')
  then have "personal_chunk k 0 d s = (Returned, s')"
    by (auto simp: handleSignPersonalMessage_def ret_sw_def io_send_sw_def status_words split: if_splits)
  then show ?case using personal_chunk_step(1) [OF next_chunk.IH] next_chunk by simp
qed

lemma message_received_review: "message_received k path n bs s \<Longrightarrow> n < 2 ^ 31 \<Longrightarrow> sdk_ok k \<Longrightarrow> message_review k path n bs s"
proof (induction rule: message_received.induct)
  case (single_chunk p1 d s s' m sz)
  then obtain s2 where s2: "message_inv path n [] s2" "outputs s2 = outputs s" "personal_chunk k 0 (drop (m + 4) d) s2 = (Returned, s')"
    using first_chunk_inv [of k p1 d s s' m path n sz] by blast
  then show ?case using personal_chunk_step(2) [OF s2(1,3)] single_chunk by simp
next
  case (last_chunk bs s d s')
  then have "personal_chunk k 0 d s = (Returned, s')"
    by (auto simp: handleSignPersonalMessage_def ret_sw_def io_send_sw_def status_words split: if_splits)
  then show ?case using personal_chunk_step(2) [OF receiving_message_inv [OF last_chunk(1)]] last_chunk by simp
qed

section \<open>Properties\<close>

text \<open>C14: Personal messages: when the review of a message of \<open>n\<close> bytes appears, exactly \<open>n\<close> bytes have arrived, in
  any number of commands; the review shows the digest of
  \<open>0x19 "TRON Signed Message:" newline, n in decimal, the bytes in order\<close> in hexadecimal and the address of the key of the
  path; and accepting it sends the signature of this digest with that key, and nothing else.\<close>

theorem personal_message_signed:
  assumes "sdk_ok k" "message_received k path n bs s" "n < 2 ^ 31"
    "bip32_derive_ecdsa_sign_rs k (path_of path) (message_digest k bs) = Some (r, v, par)"
  shows "length bs = n \<and>
    (\<exists>pub chain t. bip32_derive_get_pubkey k (path_of path) = Some (pub, chain) \<and> format_hex k (message_digest k bs) 67 = Some t \<and>
       shown s = [(chars ''Message hash'', t, None),
         address_row (chars ''Sign with'') (g_sender_contact s) (base58 k (getAddressFromPublicKey k pub))]) \<and>
    (\<exists>s'. user_choice k True s = (Returned, s') \<and> outputs s' = outputs s @ [SendData (r @ v @ [if par then 1 else 0]) E_OK])"
proof -
  have m: "message_review k path n bs s" using message_received_review [OF assms(2,3,1)] .
  then have s: "the_screen s = TransactionScreen" "ti_state (txInfos s) = APPROVAL_SIGN_PERSONAL_MESSAGE"
    "bip32_derive_ecdsa_sign_rs k (path_of (tr_bip32_path (transactionContext s))) (tr_hash (transactionContext s)) = Some (r, v, par)"
    "length (tr_signature (transactionContext s)) = 65"
    using assms(4) by (simp_all add: message_review_def)
  have "outputs (snd (ui_callback_signMessage_ok k False s)) = outputs s @ [SendData (r @ v @ [if par then 1 else 0]) E_OK]"
    using signTransaction_ok [OF assms(1) s(3,4)] sdk_sign [OF assms(1) s(3)]
    by (simp add: ui_callback_signMessage_ok_def sign_and_send_def io_send_response_pointer_def)
  then have "\<exists>s'. user_choice k True s = (Returned, s') \<and> outputs s' = outputs s @ [SendData (r @ v @ [if par then 1 else 0]) E_OK]"
    using s(1,2) by (simp add: user_choice_def reviewChoice_def status_page_def)
  with m show ?thesis by (simp add: message_review_def)
qed

text \<open>C27: The warning about extra data can be lost: the number of data bytes of a transaction shares its variable with
  the length of a personal message, so that a message command for an empty message between the chunks - answered
  with an error because of its second parameter - resets it. The transaction goes on, with the same digest, but
  its review starts without the warning that it would have had.\<close>

theorem data_warning_lost:
  assumes "session_inv path bs s" "wf_path path" "0 < length ps" "length ps \<le> 10" "tron_indices ps"
    "HAS_SETTING s S_DATA_ALLOWED" "HAS_SETTING s S_SIGN_BY_HASH" "tc_dataBytes (txContent s) > 0"
    "tc_contractType (txContent s) = WITHDRAWBALANCECONTRACT" "tc_permission_id (txContent s) = 0"
  shows "(\<exists>s1. handleSign k P1_LAST 0 [] s = (Returned, s1) \<and> the_screen s1 = DataWarningScreen \<and>
      tr_hash (transactionContext s1) = cx_sha256 k bs) \<and>
    (\<exists>s2 s3. handleSignPersonalMessage k P1_FIRST 1 (enc_path ps @ [0, 0, 0, 0]) s = (Returned, s2) \<and>
      outputs s2 = outputs s @ [SendSW E_INCORRECT_P1_P2] \<and>
      handleSign k P1_LAST 0 [] s2 = (Returned, s3) \<and> the_screen s3 = TransactionScreen \<and>
      tr_hash (transactionContext s3) = cx_sha256 k bs)"
proof -
  have s: "tr_bip32_path (transactionContext s) = path" "tx_initialized (txContext s)" "tx_sha2 (txContext s) = bs"
    "\<not> G_called_from_swap s"
    using assms(1) by (simp_all add: session_inv_def)
  have last: "handleSign k P1_LAST 0 [] x = finish_sign k (x\<lparr>txContext := (txContext x)\<lparr>tx_sha2 := tx_sha2 (txContext x)\<rparr>\<rparr>)"
    if "tx_initialized (txContext x)" "\<not> G_called_from_swap x" for x
    using that by (simp add: handleSign_def sign_chunk_def processTx_def Let_def)
  let ?p = "path\<lparr>bp_length := length ps, bp_indices := ps @ drop (length ps) (bp_indices path)\<rparr>"
  define s2 where "s2 = io_send_sw E_INCORRECT_P1_P2 ((set_dataBytes 0 (set_path ?p s))
      \<lparr>personal_msg_ctx := \<lparr>pm_sha3 = SIGN_MAGIC @ cstr (snprintf (replicate 11 0) 11 (fmt_signed 0)), pm_initialized = True\<rparr>\<rparr>)"
  have "U4BE [0, 0, 0, 0] 0 = 0" by (simp add: U4BE_def be_val_def)
  then have m: "handleSignPersonalMessage k P1_FIRST 1 (enc_path ps @ [0, 0, 0, 0]) s = (Returned, s2)"
    using read_bip32_path_enc [OF assms(2-4), of "[0, 0, 0, 0]"] assms(5,7) s(1) length_enc_path [of ps]
    by (simp add: handleSignPersonalMessage_def personal_chunk_def ret_sw_def s2_def Let_def)
  have s2: "tx_initialized (txContext s2)" "\<not> G_called_from_swap s2" "tx_sha2 (txContext s2) = bs"
    "HAS_SETTING s2 S_DATA_ALLOWED" "tc_dataBytes (txContent s2) = 0" "outputs s2 = outputs s @ [SendSW E_INCORRECT_P1_P2]"
    "tc_contractType (txContent s2) = WITHDRAWBALANCECONTRACT" "tc_permission_id (txContent s2) = 0"
    using s assms(6,9,10) by (simp_all add: s2_def io_send_sw_def HAS_SETTING_def)
  have f: "\<exists>y. handleSign k P1_LAST 0 [] x = (Returned, y) \<and> tr_hash (transactionContext y) = cx_sha256 k (tx_sha2 (txContext x)) \<and>
      the_screen y = (if tc_dataBytes (txContent x) > 0 then DataWarningScreen else TransactionScreen)"
    if "tx_initialized (txContext x)" "\<not> G_called_from_swap x" "HAS_SETTING x S_DATA_ALLOWED"
      "tc_contractType (txContent x) = WITHDRAWBALANCECONTRACT" "tc_permission_id (txContent x) = 0" for x
  proof -
    let ?x = "x\<lparr>txContext := (txContext x)\<lparr>tx_sha2 := tx_sha2 (txContext x)\<rparr>\<rparr>"
    have "HAS_SETTING ?x S_DATA_ALLOWED" using that(3) by (simp add: HAS_SETTING_def)
    then show ?thesis
      using finish_withdraw [of ?x k] that last [OF that(1,2)] by (cases "finish_sign k ?x") simp
  qed
  from f [OF s(2,4) assms(6,9,10)] f [OF s2(1,2,4,7,8)] show ?thesis
    using m s(3) s2(3,5,6) assms(8) by auto
qed

section \<open>Witnesses\<close>

lemma sample_settings: "HAS_SETTING sample_state S_DATA_ALLOWED" "HAS_SETTING sample_state S_SIGN_BY_HASH"
  by (simp_all add: sample_state_def app_init_def zero_state_def nv_app_state_init_def ui_idle_def
      terminate_signing_session_def HAS_SETTING_def Let_def)

text \<open>The message \<open>"hi"\<close> in one command.\<close>

lemma sample_message: "\<exists>s. message_received sample_sdk sample_bip32 2 (chars ''hi'') s"
proof -
  let ?d = "sample_path @ [0, 0, 0, 2] @ chars ''hi''"
  have r: "read_bip32_path ?d (tr_bip32_path (transactionContext sample_state)) = (Some 13, sample_bip32)"
    using sample_read by (simp add: sample_facts)
  have c: "\<exists>s'. personal_chunk sample_sdk 0 (chars ''hi'') x = (Returned, s') \<and> outputs s' = outputs x"
    if "tc_dataBytes (txContent x) = 2" for x
  proof -
    have "\<not> of_nat (length (chars ''hi'')) > (2 :: u64)" "(2 :: u64) - of_nat (length (chars ''hi'')) = 0"
      by (simp_all add: chars_def)
    moreover obtain pub ch where "bip32_derive_get_pubkey sample_sdk p = Some (pub, ch)" for p
      by (simp add: sample_sdk_def)
    then obtain f g where "initPublicKeyContext sample_sdk p a c = Some (f p a c, g p a c)" for p a c
      by (simp add: initPublicKeyContext_def)
    moreover obtain h where "ux_flow_display sample_sdk APPROVAL_SIGN_PERSONAL_MESSAGE False y = (Returned, h y)"
        "outputs (h y) = outputs y" for y
      using message_display [of sample_sdk] by metis
    ultimately show ?thesis using that by (simp add: personal_chunk_def clear_personal_def Let_def)
  qed
  define x where "x = (set_dataBytes (ucast (2 :: u32)) (set_path sample_bip32 sample_state))
    \<lparr>personal_msg_ctx := \<lparr>pm_sha3 = SIGN_MAGIC @ cstr (snprintf (replicate 11 0) 11 (fmt_signed (sint (2 :: u32)))),
       pm_initialized = True\<rparr>\<rparr>"
  have l: "length sample_path = 13" by (simp add: sample_path_def)
  moreover have "U4BE ([0, 0, 0, 2] @ chars ''hi'') 0 = 2" by (simp add: U4BE_def be_val_def)
  ultimately have "handleSignPersonalMessage sample_sdk P1_FIRST 0 ?d sample_state = personal_chunk sample_sdk 0 (chars ''hi'') x"
    using r sample_settings(2) by (simp add: handleSignPersonalMessage_def x_def Let_def)
  moreover have "tc_dataBytes (txContent x) = 2" "outputs x = outputs sample_state" by (simp_all add: x_def)
  ultimately obtain s' where "handleSignPersonalMessage sample_sdk P1_FIRST 0 ?d sample_state = (Returned, s')"
      "outputs s' = outputs sample_state"
    using c [of x] by auto
  moreover have "drop 13 ?d = [0, 0, 0, 2] @ chars ''hi''" "drop (13 + 4) ?d = chars ''hi''" "length ?d \<le> 255"
    using l by simp_all
  moreover have "2 = be_val (take 4 ([0, 0, 0, 2] @ chars ''hi''))" by (simp add: be_val_def)
  ultimately show ?thesis
    using message_received.single_chunk [of sample_sdk P1_FIRST ?d sample_state s' 13 sample_bip32 2 260] r sample_facts(1) by metis
qed

theorem personal_message_signed_witness:
  "\<exists>s s'. user_choice sample_sdk True s = (Returned, s') \<and>
    outputs s' = outputs s @ [SendData (message_digest sample_sdk (chars ''hi'') @ replicate 32 1 @ [0]) E_OK]"
proof -
  obtain s where s: "message_received sample_sdk sample_bip32 2 (chars ''hi'') s" using sample_message by blast
  have "length (message_digest sample_sdk (chars ''hi'')) = 32" using sdk_keccak256 [OF sample_sdk_ok] by (simp add: message_digest_def)
  then have "bip32_derive_ecdsa_sign_rs sample_sdk (path_of sample_bip32) (message_digest sample_sdk (chars ''hi'')) =
      Some (message_digest sample_sdk (chars ''hi''), replicate 32 1, False)"
    by (simp add: sample_sdk_def)
  from personal_message_signed [OF sample_sdk_ok s _ this] show ?thesis by auto
qed

theorem data_warning_lost_witness:
  "\<exists>s s1 s2 s3. handleSign sample_sdk P1_LAST 0 [] s = (Returned, s1) \<and> the_screen s1 = DataWarningScreen \<and>
    handleSignPersonalMessage sample_sdk P1_FIRST 1 (enc_path [0x8000002C, 0x800000C3] @ [0, 0, 0, 0]) s = (Returned, s2) \<and>
    handleSign sample_sdk P1_LAST 0 [] s2 = (Returned, s3) \<and> the_screen s3 = TransactionScreen"
proof -
  let ?p = "\<lparr>bp_indices = 0x8000002C # 0x800000C3 # replicate 8 0, bp_length = 2\<rparr>"
  let ?s = "(set_path ?p sample_state)\<lparr>txContext := \<lparr>tx_sha2 = [1], tx_initialized = True\<rparr>,
    txContent := zero_content\<lparr>tc_contractType := WITHDRAWBALANCECONTRACT, tc_dataBytes := 5\<rparr>\<rparr>"
  have i: "session_inv ?p [1] ?s"
    using sample_facts(2) by (simp add: session_inv_def tron_path_def path_of_def header_constants TRON_BIP32_PREFIX_0_def
        TRON_BIP32_PREFIX_1_def numeral_2_eq_2)
  have h: "HAS_SETTING ?s S_DATA_ALLOWED" "HAS_SETTING ?s S_SIGN_BY_HASH" using sample_settings by (simp_all add: HAS_SETTING_def)
  have w: "wf_path ?p" by (simp add: wf_path_def header_constants)
  have "tron_indices [0x8000002C, 0x800000C3]" by (simp add: tron_indices_def)
  from data_warning_lost [OF i w _ _ this h] show ?thesis by (simp add: zero_content_def) blast
qed

end
