(* ===== verification/Token_Review.thy ===== *)
theory Token_Review
  imports Transfer_Review
begin

text \<open>
  The review of a call of a known TRC20 token, \<^verbatim>\<open>transfer\<close> or \<^verbatim>\<open>approve\<close>: from the bytes a wallet sends to the rows on
  the screen.
\<close>

section \<open>Calls\<close>

definition enc_trigger :: "bytes \<Rightarrow> bytes \<Rightarrow> bytes \<Rightarrow> bytes" where
  "enc_trigger owner contract data = enc_len 1 owner @ enc_len 2 contract @ enc_len 4 data"

text \<open>The two functions, with the parser's number for them and the label of the row with the address.\<close>

datatype trc20_function = Transfer | Approve

definition selector :: "trc20_function \<Rightarrow> bytes" where
  "selector f = (case f of Transfer \<Rightarrow> SELECTOR_transfer | Approve \<Rightarrow> SELECTOR_approve)"

definition method_of :: "trc20_function \<Rightarrow> u8" where
  "method_of f = (case f of Transfer \<Rightarrow> 1 | Approve \<Rightarrow> 2)"

definition label_of :: "trc20_function \<Rightarrow> bytes" where
  "label_of f = (case f of Transfer \<Rightarrow> chars ''To'' | Approve \<Rightarrow> chars ''Allow'')"

text \<open>Call data: selector, the address padded to 32 bytes, the amount as a 32-byte number.\<close>

definition enc_call :: "trc20_function \<Rightarrow> bytes \<Rightarrow> bytes \<Rightarrow> nat \<Rightarrow> bytes" where
  "enc_call f pad address amount = selector f @ pad @ address @ be_bytes 32 amount"

lemma selector_simps [simp]: "length (selector f) = 4" "SELECTOR_transfer \<noteq> SELECTOR_approve"
  "selector f = SELECTOR_transfer \<longleftrightarrow> f = Transfer" "selector f = SELECTOR_approve \<longleftrightarrow> f = Approve"
  by (cases f; simp add: selector_def SELECTOR_transfer_def SELECTOR_approve_def)+

lemma pb_read_append: "length a = n \<Longrightarrow> 0 < n \<Longrightarrow> pb_read (IStream g p (a @ b)) n = Some (a, IStream g (p + n) b)"
  by (auto simp: pb_read_def buf_read_def bytes_left_def)

text \<open>What the callback for the call data stores.\<close>

definition call_update :: "trc20_function \<Rightarrow> bytes \<Rightarrow> nat \<Rightarrow> txContent_t \<Rightarrow> txContent_t" where
  "call_update f address amount c = c\<lparr>tc_customSelector := U4BE (selector f) 0, tc_TRC20Method := method_of f,
     tc_destination := 0x41 # address, tc_TRC20Amount := be_bytes 32 amount\<rparr>"

lemma call_data_decoded:
  assumes "length pad = 12" "length address = 20"
  shows "callback_loop trigger_callbacks 6 (IStream g p (enc_call f pad address amount)) c = Some (call_update f address amount c)"
proof -
  let ?w = "pad @ address" and ?a = "be_bytes 32 amount"
  have w: "length ?w = 32" "buf_set (take 21 (drop 11 ?w)) 0 (0x41 :: u8) = 0x41 # address"
    using assms(1,2) by (cases pad rule: rev_cases; simp add: buf_set_def buf_write_def)+
  have r: "pb_read (IStream g p (selector f @ ?w @ ?a)) 4 = Some (selector f, IStream g (p + 4) (?w @ ?a))"
    "pb_read (IStream g q (?w @ ?a)) 32 = Some (?w, IStream g (q + 32) ?a)"
    "pb_read (IStream g q ?a) 32 = Some (?a, IStream g (q + 32) [])" for q
    using pb_read_append [of "selector f" 4 g p "?w @ ?a"] pb_read_append [of ?w 32 g q ?a] pb_read_append [of ?a 32 g q "[]"] w(1)
    by simp_all
  have "pb_decode_trigger_smart_contract_data (IStream g p (selector f @ ?w @ ?a)) c =
      Some (IStream g (p + 68) [], call_update f address amount c)"
    using r w assms(1,2) unfolding call_update_def
    by (cases f) (simp_all add: pb_decode_trigger_smart_contract_data_def bytes_left_def method_of_def header_constants Let_def)
  then show ?thesis
    by (subst callback_loop.simps)
      (simp add: pb_default_field_callback_def trigger_callbacks_def enc_call_def bytes_left_def)
qed

lemma decode_trigger:
  assumes "length owner = 21" "length contract = 21" "length data < 2 ^ 32" "\<And>g p. callback_loop trigger_callbacks 6 (IStream g p data) c = Some c'"
  shows "\<exists>m. pb_decode trigger_callbacks protocol_TriggerSmartContract (IStream g p (enc_trigger owner contract data)) c = Some (m, c') \<and>
    m_buf m 1 = owner \<and> m_buf m 2 = contract \<and> m_int m 3 = 0 \<and> m_int m 5 = 0 \<and> m_int m 6 = 0"
proof -
  let ?fs = "protocol_TriggerSmartContract"
  let ?m0 = "pb_message_set_to_defaults ?fs"
  let ?m1 = "set_slot ?m0 (Slot (of_nat 1) (s_has (get_slot ?m0 (of_nat 1))) [VBuf owner])"
  let ?m2 = "set_slot ?m1 (Slot (of_nat 2) (s_has (get_slot ?m1 (of_nat 2))) [VBuf contract])"
  let ?p1 = "p + length (enc_len 1 owner)"
  let ?p2 = "?p1 + length (enc_len 2 contract)"
  note d = protocol_TriggerSmartContract_def pb_field_iter_find_def
  have "pb_decode_inner trigger_callbacks ?fs (IStream g p (enc_len 1 owner @ enc_len 2 contract @ enc_len 4 data)) ?m0 c =
      pb_decode_inner trigger_callbacks ?fs (IStream g ?p1 (enc_len 2 contract @ enc_len 4 data)) ?m1 c"
    by (rule inner_fixed [where n = 21]) (simp_all add: d assms)
  also have "\<dots> = pb_decode_inner trigger_callbacks ?fs (IStream g ?p2 (enc_len 4 data)) ?m2 c"
    by (rule inner_fixed [where n = 21]) (simp_all add: d assms)
  also have "\<dots> = pb_decode_inner trigger_callbacks ?fs (IStream g ?p2 (enc_len 4 data @ [])) ?m2 c" by simp
  also have "\<dots> = pb_decode_inner trigger_callbacks ?fs (IStream g (?p2 + length (enc_len 4 data)) []) ?m2 c'"
    by (rule inner_callback [where i = 6]) (use assms(3,4) in \<open>simp_all add: d\<close>)
  finally show ?thesis
    by (simp add: pb_decode_def enc_trigger_def inner_end)
      (simp add: protocol_TriggerSmartContract_def pb_message_set_to_defaults_def set_slot_def get_slot_def m_buf_def m_int_def)
qed

section \<open>The content after parsing\<close>

text \<open>What the rest of the handler reads of the content.\<close>

definition call_content :: "trc20_function \<Rightarrow> tokenDefinition_t \<Rightarrow> bytes \<Rightarrow> bytes \<Rightarrow> nat \<Rightarrow> nat \<Rightarrow> txContent_t \<Rightarrow> bool" where
  "call_content f t owner address amount fee c \<longleftrightarrow>
     tc_contractType c = TRIGGERSMARTCONTRACT \<and> tc_permission_id c = 0 \<and> tc_dataBytes c = 0 \<and>
     unat (tc_feeLimit c) = fee \<and> tc_TRC20Method c = method_of f \<and> tc_amount c ! 0 = 0 \<and> tc_callTokenValue c = 0 \<and>
     tc_account c = owner \<and> tc_destination c = 0x41 # address \<and> be_val (tc_TRC20Amount c) = amount \<and>
     tc_decimals c ! 0 = td_decimals t \<and> cstr (tc_tokenNames c ! 0) = td_ticker t \<and>
     unat (tc_tokenNamesLength c ! 0) = length (td_ticker t) + 1"

lemma token_text:
  assumes "wf_token t" "length out = 67"
  shows "cstr (buf_write out 0 (take (strlen (td_ticker t) + 1) (td_ticker t @ [0]))) = td_ticker t"
    "unat (of_nat (strlen (td_ticker t) + 1) :: u8) = length (td_ticker t) + 1"
  using assms unat_of_nat [where 'a = 8, of "length (td_ticker t) + 1"]
  by (simp_all add: wf_token_def strlen_def buf_write_def take_bit_nat_eq_self)

lemma trigger_enc:
  assumes "length owner = 21" "length contract = 21" "length pad = 12" "length address = 20" "amount < 2 ^ 256" "fee < 2 ^ 64"
    "getKnownToken contract = Some t"
  defines "c \<equiv> tx_content 31 fee (zero_content\<lparr>tc_contractType := INVALID_CONTRACT\<rparr>)"
  shows "\<exists>c' m. trigger_smart_contract (IStream g p (enc_trigger owner contract (enc_call f pad address amount))) c = (True, c', m) \<and>
    call_content f t owner address amount fee c'"
proof -
  have "length (enc_call f pad address amount) < 2 ^ 32" using assms(3,4) by (simp add: enc_call_def)
  from decode_trigger [OF assms(1,2) this call_data_decoded [OF assms(3,4)]] obtain m where m:
    "pb_decode trigger_callbacks protocol_TriggerSmartContract
       (IStream g p (enc_trigger owner contract (enc_call f pad address amount))) c =
       Some (m, call_update f address amount c)"
    "m_buf m 1 = owner" "m_buf m 2 = contract" "m_int m 3 = 0" "m_int m 5 = 0" "m_int m 6 = 0"
    by blast
  have w: "wf_token t" using getKnownToken_wf [OF assms(7)] by simp
  have c: "tc_contractType c = TRIGGERSMARTCONTRACT" "tc_permission_id c = 0" "tc_dataBytes c = 0" "unat (tc_feeLimit c) = fee"
    "length (tc_amount c) = 2" "length (tc_decimals c) = 2" "length (tc_tokenNames c) = 2" "length (tc_tokenNamesLength c) = 2"
    "length (tc_tokenNames c ! 0) = 67"
    using assms(6) by (simp_all add: c_def tx_content_def zero_content_def unat_of_nat take_bit_nat_eq_self)
  have "be_val (be_bytes 32 amount) = amount" using be_val_be_bytes [of amount 32] assms(5) by simp
  then show ?thesis
    using m assms(7) token_text [OF w c(9)] c
    by (simp add: trigger_smart_contract_def call_content_def call_update_def Let_def)
qed

section \<open>The review\<close>

definition call_rows :: "sdk \<Rightarrow> contact_list \<Rightarrow> trc20_function \<Rightarrow> tokenDefinition_t \<Rightarrow> bytes \<Rightarrow> bytes \<Rightarrow> bytes \<Rightarrow> bytes \<Rightarrow> row list" where
  "call_rows k contacts f t owner address amount_text fee_text =
     [(chars ''Amount'', amount_text, None), (chars ''Token'', td_ticker t, None)] @
     service_rows (get_known_service_label (0x41 # address)) @
     [address_row (label_of f) (get_address_book_contact contacts (0x41 # address)) (base58 k (0x41 # address)),
      address_row (chars ''From'') (get_address_book_contact contacts owner) (base58 k owner),
      (chars ''Max Fee'', fee_text, None)]"

lemma finish_sign_call:
  assumes k: "sdk_ok k" and wf: "wf_state n k s" and sw: "\<not> G_called_from_swap s"
    and c: "call_content f t owner address amount fee (txContent s)" and t: "fee < 10 ^ 19" "owner ! 0 = 0x41"
  shows "\<exists>s' x y. finish_sign k s = (Returned, s') \<and> quiet (hashed k s) (s'\<lparr>the_screen := the_screen s\<rparr>) \<and>
    the_screen s' = TransactionScreen \<and> denotes x amount (unat (td_decimals t)) \<and> denotes y fee 6 \<and>
    shown s' = call_rows k (ab_contacts s) f t owner address x y"
proof -
  let ?c = "txContent s"
  have c: "tc_contractType ?c = TRIGGERSMARTCONTRACT" "tc_permission_id ?c = 0" "tc_dataBytes ?c = 0"
    "unat (tc_feeLimit ?c) = fee" "tc_TRC20Method ?c = method_of f" "tc_amount ?c ! 0 = 0" "tc_callTokenValue ?c = 0"
    "tc_account ?c = owner" "tc_destination ?c = 0x41 # address" "be_val (tc_TRC20Amount ?c) = amount"
    "tc_decimals ?c ! 0 = td_decimals t" "cstr (tc_tokenNames ?c ! 0) = td_ticker t"
    "unat (tc_tokenNamesLength ?c ! 0) = length (td_ticker t) + 1"
    using c by (simp_all add: call_content_def)
  define s1 where "s1 = set_sender k (hashed k s)"
  have "tc_account ?c ! 0 = 0x41" using c(8) t(2) by simp
  note s1 = sender_state [OF k wf c(2) this, folded s1_def]
  define s2 where "s2 = s1\<lparr>TRC20ActionSendAllow := (case f of Transfer \<Rightarrow> strcpy (TRC20ActionSendAllow s1) ''To''
      | Approve \<Rightarrow> strcpy (strcpy (TRC20ActionSendAllow s1) ''To'') ''Allow''),
    TRC20Action := strcpy (TRC20Action s1) (case f of Transfer \<Rightarrow> ''Asset'' | Approve \<Rightarrow> ''Approve'')\<rparr>"
  have st2: "steady n k s s2"
    using s1(1) by (cases f) (simp_all add: s2_def steady_simps length_strcpy)
  obtain b where b: "print_trc20_amount s2 = Some (True, s2\<lparr>G_io_apdu_buffer := b\<rparr>)" "length b = n"
      "cstr b = decimal_text (decimal amount) (unat (td_decimals t))"
    using print_trc20_text [OF st2] s1(2) c(10,11) by (auto simp: s2_def)
  define s3 where "s3 = s2\<lparr>G_io_apdu_buffer := b\<rparr>"
  have "finish_sign k s = sign_switch k False s1"
    using sw by (simp add: finish_sign_def Let_def c s1_def set_sender_def MAX_PERMISSION_ID_def)
  also have "\<dots> = finish_transfer k False s3"
    using b(1) by (cases f) (simp_all add: sign_switch_def sign_transfer_def s2_def s3_def s1(2) c method_of_def Let_def)
  finally have f: "finish_sign k s = finish_transfer k False s3" .
  have s3: "txContent s3 = ?c" "ab_contacts s3 = ab_contacts s" "G_io_apdu_buffer s3 = b" "fromAddress s3 = fromAddress s1"
    "cstr (TRC20ActionSendAllow s3) = label_of f" "g_sender_contact s3 = g_sender_contact s1" "the_screen s3 = the_screen s"
    "\<not> G_called_from_swap s3" "quiet (hashed k s) s3"
    using s1 sw by (cases f; simp add: s3_def s2_def strcpy_text chars_def label_of_def)+
  have st: "steady n k s s3" using st2 b(2) steady_lengths(15) [OF st2] by (simp add: s3_def steady_simps)
  have "strlen (tc_tokenNames ?c ! 0) \<le> unat (tc_tokenNamesLength ?c ! 0)" by (simp add: strlen_def c(12,13))
  moreover have "denotes (cstr b) amount (unat (td_decimals t))"
    using decimal_text_denotes [OF is_number_decimal, of amount "unat (td_decimals t)"] b(3) by (simp add: dval_decimal)
  ultimately show ?thesis
    using finish_transfer_shown [OF k st s3(8)] c t(1) s1(6,8) s3(9) unfolding f s3
    by (fastforce simp: call_rows_def transfer_rows_def intro: quiet_trans)
qed

lemma call_processed:
  assumes "sdk_ok k" "length owner = 21" "length contract = 21" "length pad = 12" "length address = 20" "amount < 2 ^ 256"
    "fee < 2 ^ 64" "getKnownToken contract = Some t"
    "length (enc_tx ref_bytes ref_hash expiration 31 url (enc_trigger owner contract (enc_call f pad address amount)) timestamp fee) < 2 ^ 32"
  shows "\<exists>c. call_content f t owner address amount fee c \<and> wf_content c \<and>
    (\<forall>s. txContent s = zero_content\<lparr>tc_contractType := INVALID_CONTRACT\<rparr> \<longrightarrow>
      (\<exists>g. processTx k (enc_tx ref_bytes ref_hash expiration 31 url (enc_trigger owner contract (enc_call f pad address amount)) timestamp fee) s =
        (USTREAM_PROCESSING, s\<lparr>txContent := c, msg := g\<rparr>)))"
proof -
  let ?v = "enc_trigger owner contract (enc_call f pad address amount)"
  let ?c = "tx_content 31 fee (zero_content\<lparr>tc_contractType := INVALID_CONTRACT\<rparr>)"
  let ?st = "IStream RInput (value_offset ref_bytes ref_hash expiration 31 url ?v) ?v"
  have sw: "contract_switch k (of_nat 31) = Some trigger_smart_contract" by (simp add: contract_switch_def)
  have len: "length (enc_contract 31 url ?v) < 2 ^ 32" "length ref_bytes < 2 ^ 32" "length ref_hash < 2 ^ 32"
    using assms(9) by (simp_all add: enc_tx_def enc_len_def split: if_splits)
  have ne: "?v \<noteq> []" by (simp add: enc_trigger_def enc_len_def)
  obtain c m where c: "trigger_smart_contract ?st ?c = (True, c, m)" "call_content f t owner address amount fee c"
    using trigger_enc [OF assms(2-8)] by blast
  have "wf_content ?c" by (simp add: wf_content_def tx_content_def zero_content_def wf_name_def list_all_iff)
  then have "wf_content c" using wf_trigger_smart_contract [of ?c ?st] c(1) by simp
  moreover have "\<exists>g. processTx k (enc_tx ref_bytes ref_hash expiration 31 url ?v timestamp fee) s =
      (USTREAM_PROCESSING, s\<lparr>txContent := c, msg := g\<rparr>)" if "txContent s = zero_content\<lparr>tc_contractType := INVALID_CONTRACT\<rparr>" for s
    using processTx_enc [OF len(2,3,1) assms(1) _ assms(7) ne _ _ _ sw, of s expiration True c m timestamp] c(1) that
    by (intro exI [of _ m]) (simp add: zero_content_def)
  ultimately show ?thesis using c(2) by blast
qed

section \<open>Property\<close>

text \<open>C4: What you see is what you sign, for known tokens: for every transaction with one call of \<^verbatim>\<open>transfer\<close> or \<^verbatim>\<open>approve\<close>
  of a token of the table, sent in one command, with any recipient, any amount of 256 bits and any fee limit below
  \<open>10 ^ 19\<close>, the device shows the amount of the signed bytes, exactly, in the unit of the table's decimals, the ticker of
  the table, the address of the call data - with the mainnet prefix, labelled \<open>To\<close> or \<open>Allow\<close> -, the sender and the fee
  limit in TRX; and what waits for approval is the SHA-256 digest of exactly these bytes.\<close>

theorem trc20_call_shown:
  assumes "sdk_ok k" "wf_state n k s" "\<not> G_called_from_swap s"
    "read_bip32_path d (tr_bip32_path (transactionContext s)) = (Some m, path)"
    "drop m d = enc_tx ref_bytes ref_hash expiration 31 url (enc_trigger owner contract (enc_call f pad address amount)) timestamp fee"
    "length d \<le> 255" "length owner = 21" "owner ! 0 = 0x41" "length contract = 21" "length pad = 12" "length address = 20"
    "amount < 2 ^ 256" "fee < 10 ^ 19" "getKnownToken contract = Some t"
  shows "\<exists>s' x y. handleSign k P1_SIGN 0 d s = (Returned, s') \<and> outputs s' = outputs s \<and> the_screen s' = TransactionScreen \<and>
    tr_hash (transactionContext s') = cx_sha256 k (drop m d) \<and> tr_bip32_path (transactionContext s') = path \<and>
    denotes x amount (unat (td_decimals t)) \<and> denotes y fee 6 \<and>
    shown s' = call_rows k (ab_contacts s) f t owner address x y"
proof -
  have "length (drop m d) < 2 ^ 32" "fee < 2 ^ 64" using assms(6,13) by simp_all
  then obtain c where c: "call_content f t owner address amount fee c" "wf_content c"
      "\<And>s. txContent s = zero_content\<lparr>tc_contractType := INVALID_CONTRACT\<rparr> \<Longrightarrow>
        \<exists>g. processTx k (drop m d) s = (USTREAM_PROCESSING, s\<lparr>txContent := c, msg := g\<rparr>)"
    using call_processed [OF assms(1,7,9-12) _ assms(14), of fee ref_bytes ref_hash expiration url f timestamp]
    unfolding assms(5) by blast
  obtain s3 where s3: "handleSign k P1_SIGN 0 d s = finish_sign k s3" "wf_state n k s3" "outputs s3 = outputs s"
      "the_screen s3 = the_screen s" "\<not> G_called_from_swap s3" "txContent s3 = c"
      "ab_contacts s3 = ab_contacts s" "tr_bip32_path (transactionContext s3) = path" "tx_sha2 (txContext s3) = drop m d"
    using handleSign_content [OF assms(1-4) c(2,3)] by blast
  from finish_sign_call [OF assms(1) s3(2,5) _ assms(13,8)] c(1) s3(6)
  obtain s' x y where "finish_sign k s3 = (Returned, s')" "quiet (hashed k s3) (s'\<lparr>the_screen := the_screen s3\<rparr>)"
    "the_screen s' = TransactionScreen" "denotes x amount (unat (td_decimals t))" "denotes y fee 6"
    "shown s' = call_rows k (ab_contacts s3) f t owner address x y"
    by blast
  then show ?thesis using s3 by (auto simp: quiet_def core_def)
qed

section \<open>Witness\<close>

text \<open>A transfer of the first token of the table.\<close>

definition sample_token :: tokenDefinition_t where
  "sample_token = hd TOKENS_TRC20"

definition sample_call :: bytes where
  "sample_call = enc_tx [1, 2] [3, 4] 1000 31 []
     (enc_trigger sample_address (td_address sample_token) (enc_call Transfer (replicate 12 0) (replicate 20 7) 2500000)) 2000 100000000"

lemma sample_token_known: "getKnownToken (td_address sample_token) = Some sample_token" "length (td_address sample_token) = 21"
  by (simp_all add: getKnownToken_def sample_token_def TOKENS_TRC20_def TOKENS_TRC20_1_def memeq_def token_def)

lemma sample_call_length: "length (sample_path @ sample_call) \<le> 255"
  by (simp add: sample_call_def sample_path_def sample_address_def enc_tx_def enc_contract_def enc_any_def enc_trigger_def
      enc_call_def enc_len_def enc_int_def enc_key_def enc_varint.simps sample_token_known(2))

theorem trc20_call_shown_witness:
  "\<exists>s' x y. handleSign sample_sdk P1_SIGN 0 (sample_path @ sample_call) sample_state = (Returned, s') \<and>
    tr_hash (transactionContext s') = cx_sha256 sample_sdk sample_call \<and>
    denotes x 2500000 (unat (td_decimals sample_token)) \<and> denotes y 100000000 6 \<and>
    shown s' = call_rows sample_sdk [] Transfer sample_token sample_address (replicate 20 7) x y"
proof -
  have r: "read_bip32_path (sample_path @ sample_call) (tr_bip32_path (transactionContext sample_state)) = (Some 13, sample_bip32)"
    by (simp add: sample_facts sample_read)
  have d: "drop 13 (sample_path @ sample_call) = sample_call"
    by (simp only: sample_drop)
  show ?thesis
    using trc20_call_shown [OF sample_sdk_ok sample_facts(1,2) r trans [OF d sample_call_def] sample_call_length _ _
        sample_token_known(2) _ _ _ _ sample_token_known(1)]
    unfolding d sample_facts(4) by (simp add: sample_address_def) blast
qed

end
