(* ===== verification/Contact_Edits.thy ===== *)
theory Contact_Edits
  imports Sample
begin

text \<open>
  The contacts as a table keyed by address: what a confirmed edit does to the lookup, and that the review shows it.
\<close>

section \<open>What an edit does to the lookup\<close>

text \<open>The address is the key of the store: no two contacts share one.\<close>

definition unique_addresses :: "contact_list \<Rightarrow> bool" where
  "unique_addresses l \<longleftrightarrow> distinct (map ab_identifier l)"

lemma lookup_none:
  assumes "wf_contacts sz l" "length a = 21"
  shows "get_address_book_contact l a = None \<longleftrightarrow> a \<notin> ab_identifier ` set l"
  using assms by (induction l) (auto simp: memeq_def wf_contact_def)

lemma edit_lookup:
  assumes "wf_contacts sz l" "unique_addresses l" "length old = 21" "length new = 21"
    "get_address_book_contact l old = Some c" "ab_type c = AB_CONTACT_IDENTITY" "get_address_book_contact l new = None"
    "length a = 21"
  shows "get_address_book_contact (update_contact_identifier l old new) a =
    (if a = new then Some (c\<lparr>ab_identifier := new\<rparr>) else if a = old then None else get_address_book_contact l a)"
  using assms
proof (induction l)
  case (Cons d l)
  have w: "wf_contact sz d" "wf_contacts sz l" using Cons.prems(1) by simp_all
  have d: "length (ab_identifier d) = 21" "wf_contacts sz l" "unique_addresses l" "ab_identifier d \<notin> ab_identifier ` set l"
    using w Cons.prems(2) by (simp_all add: unique_addresses_def) (simp add: wf_contact_def)
  have dn: "ab_identifier d \<noteq> new" "get_address_book_contact l new = None"
    using Cons.prems(4,7) d(1) by (auto simp: memeq_def split: if_splits)
  show ?case
  proof (cases "ab_identifier d = old")
    case True
    then have c: "c = d" "ab_type d = AB_CONTACT_IDENTITY" using Cons.prems(5,6) by (auto simp: memeq_def)
    have "get_address_book_contact l old = None" using lookup_none [OF d(2), of old] True d(1,4) by simp
    then show ?thesis
      using c True d(1) Cons.prems(4,8) dn by (auto simp: memeq_def buf_write_def)
  next
    case False
    then have "get_address_book_contact l old = Some c" using Cons.prems(3,5) d(1) by (simp add: memeq_def split: if_splits)
    from Cons.IH [OF d(2,3) Cons.prems(3,4) this Cons.prems(6) dn(2) Cons.prems(8)] show ?thesis
      using False Cons.prems(3,4,8) d(1) dn(1) by (auto simp: memeq_def)
  qed
qed simp

text \<open>In any list of contacts, the first identity with the old address is the one that moves.\<close>

definition at_address :: "bytes \<Rightarrow> s_ab_contact \<Rightarrow> bool" where
  "at_address a c \<longleftrightarrow> ab_type c = AB_CONTACT_IDENTITY \<and> ab_identifier c = a"

lemma at_address_iff:
  "wf_contact sz c \<Longrightarrow> length a = 21 \<Longrightarrow> ab_type c = AB_CONTACT_IDENTITY \<and> memeq (ab_identifier c) a 21 \<longleftrightarrow> at_address a c"
  by (auto simp: at_address_def memeq_def wf_contact_def)

lemma edit_moves_first:
  assumes "wf_contacts sz l" "length old = 21" "length new = 21"
  shows "if \<exists>c \<in> set l. at_address old c
    then \<exists>xs d ys. l = xs @ d # ys \<and> at_address old d \<and> (\<forall>c \<in> set xs. \<not> at_address old c) \<and>
      update_contact_identifier l old new = xs @ d\<lparr>ab_identifier := new\<rparr> # ys
    else update_contact_identifier l old new = l"
  using assms
proof (induction l)
  case (Cons d l)
  have d: "wf_contact sz d" "length (ab_identifier d) = 21" using Cons.prems(1) by (simp_all add: wf_contact_def)
  note m = at_address_iff [OF d(1) Cons.prems(2)]
  show ?case
  proof (cases "at_address old d")
    case True
    then have "update_contact_identifier (d # l) old new = [] @ d\<lparr>ab_identifier := new\<rparr> # l"
      using m d(2) Cons.prems(3) by (simp add: buf_write_def)
    then show ?thesis using True by (intro if_P [THEN iffD2]) (fastforce intro: exI [of _ "[]"])+
  next
    case False
    then have u: "update_contact_identifier (d # l) old new = d # update_contact_identifier l old new" using m by auto
    show ?thesis
    proof (cases "\<exists>c \<in> set l. at_address old c")
      case True
      then obtain xs e ys where "l = xs @ e # ys" "at_address old e" "\<forall>c \<in> set xs. \<not> at_address old c"
          "update_contact_identifier l old new = xs @ e\<lparr>ab_identifier := new\<rparr> # ys"
        using Cons by auto
      then have "d # l = (d # xs) @ e # ys" "\<forall>c \<in> set (d # xs). \<not> at_address old c"
          "update_contact_identifier (d # l) old new = (d # xs) @ e\<lparr>ab_identifier := new\<rparr> # ys"
        using False u by simp_all
      then have "\<exists>xs e ys. d # l = xs @ e # ys \<and> at_address old e \<and> (\<forall>c \<in> set xs. \<not> at_address old c) \<and>
          update_contact_identifier (d # l) old new = xs @ e\<lparr>ab_identifier := new\<rparr> # ys"
        using \<open>at_address old e\<close> by blast
      moreover have "\<exists>c \<in> set (d # l). at_address old c" using True by simp
      ultimately show ?thesis by (simp only: if_True)
    next
      case none: False
      then show ?thesis using Cons False u by auto
    qed
  qed
qed simp

lemma edit_keeps_others:
  "wf_contacts sz l \<Longrightarrow> length old = 21 \<Longrightarrow> length new = 21 \<Longrightarrow> length a = 21 \<Longrightarrow> a \<noteq> old \<Longrightarrow> a \<noteq> new \<Longrightarrow>
   get_address_book_contact (update_contact_identifier l old new) a = get_address_book_contact l a"
proof (induction l)
  case (Cons d l)
  then have "length (ab_identifier d) = 21" by (simp add: wf_contact_def)
  with Cons show ?case by (auto simp: memeq_def buf_write_def)
qed simp

section \<open>Properties\<close>

text \<open>C30: Editing the address of a contact: when the check of an edit succeeds, the review has exactly four rows - the
  contact name and the address name of the request, the base58 text of its old and of its new address -, and a failed
  check leaves no buffer allocated. The confirmed edit moves one contact, the first identity at the old address in the
  order of the list, which keeps its place, name and scope, and changes nothing when there is none; the lookup of
  every third address is as before. If addresses are unique in the list and the new one is not in use, the contact is
  found under the new address and nothing under the old one.\<close>

theorem edit_identifier_correct:
  assumes "sdk_ok k" "handle_check_edit_identifier k mem (Some p)
      \<lparr>ei_contact_name = None, ei_scope = None, ei_old_identifier_text = None, ei_new_identifier_text = None\<rparr> = (ok, ctx)"
    "ei_old_identifier p = old" "id_identifier (ei_identity p) = new" "length old = 21" "length new = 21"
    "wf_contacts (ab_sizes_of k) l"
  defines "moved \<equiv> \<lambda>c. ab_type c = AB_CONTACT_IDENTITY \<and> ab_identifier c = old"
    and "l' \<equiv> on_edit_identifier_applied (Some p) l"
  shows "(ok \<longrightarrow> map (\<lambda>i. get_edit_identifier_tagValue i ctx) [0, 1, 2, 3, 4] =
       [Some (chars ''Contact name'', Some (take (CONTACT_NAME_LENGTH (ab_sizes_of k) - 1) (cstr (id_contact_name (ei_identity p))))),
        Some (chars ''Address name'', Some (take (SCOPE_LENGTH (ab_sizes_of k) - 1) (cstr (id_scope (ei_identity p))))),
        Some (chars ''Old address'', Some (base58 k old)), Some (chars ''New address'', Some (base58 k new)), None]) \<and>
    (\<not> ok \<longrightarrow> ctx = \<lparr>ei_contact_name = None, ei_scope = None, ei_old_identifier_text = None, ei_new_identifier_text = None\<rparr>) \<and>
    (if \<exists>c \<in> set l. moved c
     then \<exists>xs d ys. l = xs @ d # ys \<and> moved d \<and> (\<forall>c \<in> set xs. \<not> moved c) \<and> l' = xs @ d\<lparr>ab_identifier := new\<rparr> # ys
     else l' = l) \<and>
    (\<forall>a. length a = 21 \<and> a \<noteq> old \<and> a \<noteq> new \<longrightarrow> get_address_book_contact l' a = get_address_book_contact l a) \<and>
    (\<forall>c. distinct (map ab_identifier l) \<and> get_address_book_contact l new = None \<and> get_address_book_contact l old = Some c \<and> moved c \<longrightarrow>
      get_address_book_contact l' new = Some (c\<lparr>ab_identifier := new\<rparr>) \<and> get_address_book_contact l' old = None)"
proof -
  have t: "cstr (address_text k a) = base58 k a" if "length a = 21" "a ! 0 = 0x41" for a
    using cstr_getBase58FromAddress(1) [OF assms(1) that, of 0 "replicate AB_ADDR_STR_SIZE 0"]
    by (simp add: AB_ADDR_STR_SIZE_def header_constants)
  have "ok \<Longrightarrow> new ! 0 = 0x41 \<and> old ! 0 = 0x41"
    using assms(2-4) by (auto simp: handle_check_edit_identifier_def is_valid_tron_identifier_def header_constants
        split: if_splits)
  then have "ok \<Longrightarrow> cstr (address_text k new) = base58 k new \<and> cstr (address_text k old) = base58 k old"
    using t assms(5,6) by blast
  then have rows: "(ok \<longrightarrow> map (\<lambda>i. get_edit_identifier_tagValue i ctx) [0, 1, 2, 3, 4] =
       [Some (chars ''Contact name'', Some (take (CONTACT_NAME_LENGTH (ab_sizes_of k) - 1) (cstr (id_contact_name (ei_identity p))))),
        Some (chars ''Address name'', Some (take (SCOPE_LENGTH (ab_sizes_of k) - 1) (cstr (id_scope (ei_identity p))))),
        Some (chars ''Old address'', Some (base58 k old)), Some (chars ''New address'', Some (base58 k new)), None]) \<and>
    (\<not> ok \<longrightarrow> ctx = \<lparr>ei_contact_name = None, ei_scope = None, ei_old_identifier_text = None, ei_new_identifier_text = None\<rparr>)"
    using assms(2-4) sdk_names [OF assms(1)]
    by (auto simp: handle_check_edit_identifier_def get_edit_identifier_tagValue_def free_edit_identifier_buffers_def
        cstr_strlcpy Let_def split: if_splits)
  have l': "l' = update_contact_identifier l old new" using assms(3,4) by (simp add: l'_def on_edit_identifier_applied_def)
  have m: "moved = at_address old" by (simp add: moved_def at_address_def fun_eq_iff)
  have u: "get_address_book_contact l' new = Some (c\<lparr>ab_identifier := new\<rparr>) \<and> get_address_book_contact l' old = None"
    if "distinct (map ab_identifier l)" "get_address_book_contact l new = None" "get_address_book_contact l old = Some c" "moved c" for c
  proof -
    have "unique_addresses l" "ab_type c = AB_CONTACT_IDENTITY" using that(1,4) by (simp_all add: unique_addresses_def moved_def)
    note e = edit_lookup [OF assms(7) this(1) assms(5,6) that(3) this(2) that(2)]
    have "old \<noteq> new" using that(2,3) by auto
    then show ?thesis unfolding l' using e [OF assms(5)] e [OF assms(6)] by simp
  qed
  show ?thesis
    using rows edit_moves_first [OF assms(7,5,6)] edit_keeps_others [OF assms(7,5,6)] u unfolding l' m by blast
qed

theorem edit_identifier_correct_witness:
  "\<exists>l p. get_address_book_contact (on_edit_identifier_applied (Some p) l) (0x41 # replicate 20 1) = None \<and>
     map_option (cstr \<circ> ab_contact_name)
       (get_address_book_contact (on_edit_identifier_applied (Some p) l) (0x41 # replicate 20 2)) = Some (chars ''Bob'')"
proof -
  let ?old = "0x41 # replicate 20 (1 :: u8)" and ?new = "0x41 # replicate 20 (2 :: u8)"
  let ?i = "\<lparr>id_family_tron = True, id_contact_name = chars ''Bob'', id_scope = [], id_identifier_len = 21,
      id_identifier = ?new\<rparr>"
  let ?p = "\<lparr>ei_identity = ?i, ei_old_identifier = ?old, ei_old_identifier_len = 21\<rparr>"
  let ?c = "\<lparr>ab_type = AB_CONTACT_IDENTITY, ab_contact_name = chars ''Bob'' @ 0 # replicate 29 0,
      ab_scope = replicate 33 0, ab_identifier = ?old\<rparr>"
  let ?ctx = "\<lparr>ei_contact_name = None, ei_scope = None, ei_old_identifier_text = None, ei_new_identifier_text = None\<rparr>"
  obtain ok ctx where h: "handle_check_edit_identifier sample_sdk (\<lambda>_. True) (Some ?p) ?ctx = (ok, ctx)" by fastforce
  have "get_address_book_contact [?c] ?old = Some ?c" "get_address_book_contact [?c] ?new = None"
    by (simp_all add: memeq_def numeral_eq_Suc)
  moreover have "wf_contacts (ab_sizes_of sample_sdk) [?c]" "unique_addresses [?c]"
    by (simp_all add: wf_contact_def sample_sdk_def unique_addresses_def chars_def)
  moreover have "?old \<noteq> ?new" by (simp add: numeral_eq_Suc)
  moreover have "cstr (chars ''Bob'' @ 0 # replicate 29 0) = chars ''Bob''" by (simp add: cstr_def chars_def)
  ultimately show ?thesis
    using edit_identifier_correct [OF sample_sdk_ok h, of ?old ?new "[?c]"]
    by (intro exI [of _ "[?c]"] exI [of _ ?p]) (simp add: unique_addresses_def)
qed

end
