(* ===== verification/Message_Types.thy ===== *)
theory Message_Types
  imports Memory Encoded_Tx
begin

text \<open>
  The type of what the decoder writes, for any message descriptor and any callbacks, and that every descriptor of
  the application is one the theorem applies to.
\<close>

text \<open>C26: whatever the bytes and the callbacks, a message the decoder accepts has the type its descriptor gives it:
  every member in its place, fixed-length arrays full, strings ended inside their array, bytes and repeated members
  within the capacity of the structure, at every depth of nesting. Only the descriptor has to be well-formed, and
  that holds of the transfer, the vote, the call and the permission messages among others.\<close>

theorem pb_decode_well_typed:
  assumes "wf_fields fs" "pb_decode cb fs stream u = Some (m, u')"
  shows "wf_msg fs m \<and> map s_tag m = map f_tag fs \<and>
    (\<forall>tag n. fixed_size fs tag = Some n \<longrightarrow> length (m_buf m tag) = n) \<and>
    (\<forall>tag n gs. pb_field_iter_find fs tag = Some (Field tag STATIC (REPEATED n) (LT_SUBMESSAGE gs)) \<longrightarrow>
       length (m_msgs m tag) \<le> n \<and> (\<forall>x \<in> set (m_msgs m tag). wf_msg gs x))"
proof -
  have m: "wf_msg fs m" by (rule wf_decode [OF assms(2,1)])
  then have "map s_tag m = map f_tag fs"
    by (auto simp: wf_msg_def list_all2_conv_all_nth wf_slot_tag intro: nth_equalityI)
  with m length_m_buf [OF m] wf_m_msgs [OF m] show ?thesis by blast
qed

theorem pb_decode_well_typed_witness:
  "\<exists>m. pb_decode no_callbacks protocol_TransferContract
      (IStream RInput 0 (enc_transfer (replicate 21 65) (replicate 21 66) 1000)) () = Some (m, ()) \<and>
    wf_msg protocol_TransferContract m \<and> length (m_buf m 2) = 21"
proof -
  obtain m where m: "pb_decode no_callbacks protocol_TransferContract
      (IStream RInput 0 (enc_transfer (replicate 21 65) (replicate 21 66) 1000)) () = Some (m, ())"
    using decode_transfer [of "replicate 21 65" "replicate 21 66" 1000 RInput 0] by auto
  have "fixed_size protocol_TransferContract 2 = Some 21"
    by (simp add: fixed_size_def protocol_TransferContract_def pb_field_iter_find_def)
  with m show ?thesis
    using pb_decode_well_typed [OF wf_descriptors(2) m] by blast
qed

end
