(* ===== verification/Uint256_Mul.thy ===== *)
theory Uint256_Mul
  imports Uint256
begin

text \<open>
  Multiplication, \<^verbatim>\<open>mul128\<close> and \<^verbatim>\<open>mul256\<close> of \<^verbatim>\<open>src/src/uint256.c\<close>: schoolbook multiplication of four digits, of 32
  and of 64 bits. The first one is exact modulo \<open>2 ^ 128\<close>; the second one puts the carry of its second digit one
  place too high.
\<close>

section \<open>Code\<close>

definition mul128 :: "uint128_t \<Rightarrow> uint128_t \<Rightarrow> uint128_t" where
  "mul128 number1 number2 =
     (let top = [drop_bit 32 (upper128 number1), upper128 number1 AND 0xffffffff,
                 drop_bit 32 (lower128 number1), lower128 number1 AND 0xffffffff];
          bottom = [drop_bit 32 (upper128 number2), upper128 number2 AND 0xffffffff,
                    drop_bit 32 (lower128 number2), lower128 number2 AND 0xffffffff];
          products = (\<lambda>i y. top ! (3 - i) * bottom ! y);
          fourth32 = products 0 3 AND 0xffffffff;
          third32 = (products 0 2 AND 0xffffffff) + drop_bit 32 (products 0 3);
          second32 = (products 0 1 AND 0xffffffff) + drop_bit 32 (products 0 2);
          first32 = (products 0 0 AND 0xffffffff) + drop_bit 32 (products 0 1);
          third32 = third32 + (products 1 3 AND 0xffffffff);
          second32 = second32 + ((products 1 2 AND 0xffffffff) + drop_bit 32 (products 1 3));
          first32 = first32 + ((products 1 1 AND 0xffffffff) + drop_bit 32 (products 1 2));
          second32 = second32 + (products 2 3 AND 0xffffffff);
          first32 = first32 + ((products 2 2 AND 0xffffffff) + drop_bit 32 (products 2 3));
          first32 = first32 + (products 3 3 AND 0xffffffff);
          target = add128 (UInt128 (push_bit 32 first32) 0) (UInt128 (drop_bit 32 third32) (push_bit 32 third32));
          tmp2 = add128 (UInt128 second32 0) target
      in add128 (UInt128 0 fourth32) tmp2)"

text \<open>A 64-bit word as a 128-bit number: the assignments to the two halves of \<^verbatim>\<open>tmp\<close> in \<^verbatim>\<open>mul256\<close>.\<close>

definition wide :: "u64 \<Rightarrow> uint128_t" where
  "wide w = UInt128 0 w"

definition mul256 :: "uint256_t \<Rightarrow> uint256_t \<Rightarrow> uint256_t" where
  "mul256 number1 number2 =
     (let top = [wide (upper128 (upper256 number1)), wide (lower128 (upper256 number1)),
                 wide (upper128 (lower256 number1)), wide (lower128 (lower256 number1))];
          bottom = [wide (upper128 (upper256 number2)), wide (lower128 (upper256 number2)),
                    wide (upper128 (lower256 number2)), wide (lower128 (lower256 number2))];
          products = (\<lambda>i y. mul128 (top ! (3 - i)) (bottom ! y));
          fourth64 = wide (lower128 (products 0 3));
          third64 = add128 (wide (lower128 (products 0 2))) (wide (upper128 (products 0 3)));
          second64 = add128 (wide (lower128 (products 0 1))) (wide (upper128 (products 0 2)));
          first64 = add128 (wide (lower128 (products 0 0))) (wide (upper128 (products 0 1)));
          third64 = add128 (wide (lower128 (products 1 3))) third64;
          tmp2 = add128 (wide (lower128 (products 1 2))) second64;
          second64 = add128 (wide (upper128 (products 1 3))) tmp2;
          tmp2 = add128 (wide (lower128 (products 1 1))) first64;
          first64 = add128 (wide (upper128 (products 1 2))) tmp2;
          second64 = add128 (wide (lower128 (products 2 3))) second64;
          tmp2 = add128 (wide (lower128 (products 2 2))) first64;
          first64 = add128 (wide (upper128 (products 2 3))) tmp2;
          first64 = add128 (wide (lower128 (products 3 3))) first64;
          target1 = UInt256 (shiftl128 first64 64) clear128;
          target2 = UInt256 (UInt128 (upper128 third64) 0) (shiftl128 third64 64);
          target = add256 target1 target2;
          target2 = add256 (UInt256 (copy128 second64) clear128) target
      in add256 (UInt256 clear128 (copy128 fourth64)) target2)"

section \<open>Schoolbook multiplication\<close>

text \<open>
  The digits of a product of two numbers of four digits, as the code sums them: each product of two digits
  contributes its low part at its place and its high part at the next one.
\<close>

definition column0 :: "nat \<Rightarrow> (nat \<Rightarrow> nat) \<Rightarrow> (nat \<Rightarrow> nat) \<Rightarrow> nat" where
  "column0 B x y = x 0 * y 0 mod B"

definition column1 :: "nat \<Rightarrow> (nat \<Rightarrow> nat) \<Rightarrow> (nat \<Rightarrow> nat) \<Rightarrow> nat" where
  "column1 B x y = x 0 * y 1 mod B + x 0 * y 0 div B + x 1 * y 0 mod B"

definition column2 :: "nat \<Rightarrow> (nat \<Rightarrow> nat) \<Rightarrow> (nat \<Rightarrow> nat) \<Rightarrow> nat" where
  "column2 B x y = x 0 * y 2 mod B + x 0 * y 1 div B + (x 1 * y 1 mod B + x 1 * y 0 div B) + x 2 * y 0 mod B"

definition column3 :: "nat \<Rightarrow> (nat \<Rightarrow> nat) \<Rightarrow> (nat \<Rightarrow> nat) \<Rightarrow> nat" where
  "column3 B x y = x 0 * y 3 mod B + x 0 * y 2 div B + (x 1 * y 2 mod B + x 1 * y 1 div B) +
     (x 2 * y 1 mod B + x 2 * y 0 div B) + x 3 * y 0 mod B"

definition number4 :: "nat \<Rightarrow> (nat \<Rightarrow> nat) \<Rightarrow> nat" where
  "number4 B x = x 0 + x 1 * B + x 2 * B ^ 2 + x 3 * B ^ 3"

lemma schoolbook:
  "number4 B x * number4 B y mod B ^ 4 =
   (column0 B x y + column1 B x y * B + column2 B x y * B ^ 2 + column3 B x y * B ^ 3) mod B ^ 4"
proof -
  define l where "l i j = x i * y j mod B" for i j
  define h where "h i j = x i * y j div B" for i j
  have p: "x i * y j = l i j + h i j * B" for i j by (simp add: l_def h_def)
  let ?k = "h 0 3 + h 1 2 + h 2 1 + h 3 0 + x 1 * y 3 + x 2 * y 2 + x 3 * y 1 + (x 2 * y 3 + x 3 * y 2) * B + x 3 * y 3 * B ^ 2"
  have "number4 B x * number4 B y =
      x 0 * y 0 + (x 0 * y 1 + x 1 * y 0) * B + (x 0 * y 2 + x 1 * y 1 + x 2 * y 0) * B ^ 2 +
      (x 0 * y 3 + x 1 * y 2 + x 2 * y 1 + x 3 * y 0) * B ^ 3 +
      (x 1 * y 3 + x 2 * y 2 + x 3 * y 1 + (x 2 * y 3 + x 3 * y 2) * B + x 3 * y 3 * B ^ 2) * B ^ 4"
    unfolding number4_def by algebra
  also have "\<dots> = column0 B x y + column1 B x y * B + column2 B x y * B ^ 2 + column3 B x y * B ^ 3 + ?k * B ^ 4"
    unfolding column0_def column1_def column2_def column3_def l_def [symmetric] h_def [symmetric]
    unfolding p [of 0 0] p [of 0 1] p [of 1 0] p [of 0 2] p [of 1 1] p [of 2 0] p [of 0 3] p [of 1 2] p [of 2 1] p [of 3 0]
    by algebra
  finally show ?thesis by simp
qed

section \<open>128 bits\<close>

text \<open>The four 32-bit digits of a 128-bit number, and the four 64-bit digits of a 256-bit number.\<close>

definition digits32 :: "uint128_t \<Rightarrow> nat \<Rightarrow> nat" where
  "digits32 a i = [unat (lower128 a) mod 2 ^ 32, unat (lower128 a) div 2 ^ 32,
     unat (upper128 a) mod 2 ^ 32, unat (upper128 a) div 2 ^ 32] ! i"

lemma unat_low32: "unat (w AND 0xffffffff :: u64) = unat w mod 2 ^ 32"
proof -
  have "(0xffffffff :: u64) = mask 32" by (simp add: mask_eq_exp_minus_1)
  then show ?thesis by (simp only: take_bit_eq_mask [symmetric] unsigned_take_bit_eq) (simp add: take_bit_eq_mod)
qed

lemma unat_high32: "unat (drop_bit 32 (w :: u64)) = unat w div 2 ^ 32"
  by (rule unat64_drop_bit)

lemma number4_halves: "l mod B + l div B * B + u mod B * B ^ 2 + u div B * B ^ 3 = u * B ^ 2 + (l :: nat)"
proof -
  have "u * B ^ 2 = (u mod B + u div B * B) * B ^ 2" by simp
  also have "\<dots> = u mod B * B ^ 2 + u div B * B ^ 3" by (simp only: distrib_right power2_eq_square power3_eq_cube mult.assoc)
  finally show ?thesis by simp
qed

lemma number4_digits32: "number4 (2 ^ 32) (digits32 a) = val128 a"
  using number4_halves [of "unat (lower128 a)" "2 ^ 32" "unat (upper128 a)"]
  by (simp add: number4_def digits32_def val128_def power_mult [symmetric])

lemma digits32_less:
  assumes "i < 4"
  shows "digits32 a i < 2 ^ 32"
proof -
  have h: "unat w div 2 ^ 32 < 2 ^ 32" for w :: u64 using unat64_less [of w] by (simp add: less_mult_imp_div_less)
  consider "i = 0" | "i = 1" | "i = 2" | "i = 3" using assms by linarith
  then show ?thesis using h by cases (simp_all add: digits32_def)
qed

text \<open>Sums of digits stay below \<open>8 B\<close>.\<close>

lemma column_bounds:
  assumes "0 < B" "\<And>i. i < 4 \<Longrightarrow> x i < B" "\<And>i. i < 4 \<Longrightarrow> y i < B"
  shows "column0 B x y < B" "column1 B x y < 3 * B" "column2 B x y < 5 * B" "column3 B x y < 7 * B"
proof -
  have h: "x i * y j div B < B" if "i < 4" "j < 4" for i j
  proof -
    have "x i * y j < B * B" using assms(2) [OF that(1)] assms(3) [OF that(2)] by (intro mult_strict_mono) simp_all
    then show ?thesis by (simp add: less_mult_imp_div_less)
  qed
  have l: "x i * y j mod B < B" for i j using assms(1) by simp
  show "column0 B x y < B" using l by (simp add: column0_def)
  show "column1 B x y < 3 * B" using l [of 0 1] h [of 0 0] l [of 1 0] unfolding column1_def by linarith
  show "column2 B x y < 5 * B"
    using l [of 0 2] h [of 0 1] l [of 1 1] h [of 1 0] l [of 2 0] unfolding column2_def by linarith
  show "column3 B x y < 7 * B"
    using l [of 0 3] h [of 0 2] l [of 1 2] h [of 1 1] l [of 2 1] h [of 2 0] l [of 3 0] unfolding column3_def by linarith
qed

text \<open>Additions and shifts of the code, as numbers.\<close>

lemma unat64_add_less: "unat a + unat b < 2 ^ 64 \<Longrightarrow> unat (a + b) = unat a + unat b" for a b :: u64
  by (simp add: unat64_add)

lemma unat64_mult_less: "unat a < 2 ^ 32 \<Longrightarrow> unat b < 2 ^ 32 \<Longrightarrow> unat (a * b) = unat a * unat b" for a b :: u64
proof -
  assume "unat a < 2 ^ 32" "unat b < 2 ^ 32"
  then have "unat a * unat b < 2 ^ 32 * 2 ^ 32" by (intro mult_strict_mono) simp_all
  then show ?thesis by (simp add: unat_word_ariths)
qed

lemma shifted_halves: "w div B * (B * B) + w * B mod (B * B) = (w :: nat) * B"
proof -
  have "w div B * (B * B) + w * B mod (B * B) = (w div B * B + w mod B) * B"
    by (simp only: mult_mod_left distrib_right mult.assoc)
  then show ?thesis by simp
qed

lemma place1: "val128 (UInt128 (drop_bit 32 w) (push_bit 32 w)) = unat w * 2 ^ 32"
proof -
  have "(2 ^ 64 :: nat) = 2 ^ 32 * 2 ^ 32" by simp
  then show ?thesis unfolding val128_def uint128_t.sel unat64_push_bit unat64_drop_bit by (simp only: shifted_halves)
qed

lemma place3: "val128 (UInt128 (push_bit 32 w) 0) = unat w * 2 ^ 96 mod 2 ^ 128"
proof -
  have e: "(2 ^ 96 :: nat) = 2 ^ 32 * 2 ^ 64" "(2 ^ 128 :: nat) = 2 ^ 64 * 2 ^ 64" by simp_all
  show ?thesis
    unfolding val128_def uint128_t.sel unat64_push_bit e by (simp only: mult_mod_left mult.assoc unsigned_0 add_0_right)
qed

lemma place2: "val128 (UInt128 w 0) = unat w * 2 ^ 64"
  by (simp add: val128_def)

lemma place0: "val128 (UInt128 0 w) = unat w"
  by (simp add: val128_def)

lemma sum_places:
  "(d0 + (d2 * B ^ 2 + (d3 * B ^ 3 mod B ^ 4 + d1 * B) mod B ^ 4) mod B ^ 4) mod B ^ 4 =
   (d0 + d1 * B + d2 * B ^ 2 + d3 * B ^ 3) mod (B ^ 4 :: nat)"
proof -
  have "(d0 + (d2 * B ^ 2 + (d3 * B ^ 3 mod B ^ 4 + d1 * B) mod B ^ 4) mod B ^ 4) mod B ^ 4 =
      (d0 + (d2 * B ^ 2 + (d3 * B ^ 3 + d1 * B))) mod B ^ 4"
    by (simp only: mod_add_right_eq mod_add_left_eq)
  then show ?thesis by (simp only: ac_simps)
qed

text \<open>The halves of a list of digits given from the top.\<close>

definition halves32 :: "uint128_t \<Rightarrow> u64 list" where
  "halves32 a = [drop_bit 32 (upper128 a), upper128 a AND 0xffffffff, drop_bit 32 (lower128 a), lower128 a AND 0xffffffff]"

lemma unat_halves32: "y < 4 \<Longrightarrow> unat (halves32 a ! y) = digits32 a (3 - y)"
proof -
  assume "y < 4"
  then consider "y = 0" | "y = 1" | "y = 2" | "y = 3" by linarith
  then show ?thesis by cases (simp_all add: halves32_def digits32_def unat_low32 unat_high32)
qed

lemma unat_product32:
  assumes "i < 4" "y < 4"
  shows "unat (halves32 a ! (3 - i) * halves32 b ! y) = digits32 a i * digits32 b (3 - y)"
proof -
  have "unat (halves32 a ! (3 - i)) = digits32 a i" using unat_halves32 [of "3 - i" a] assms(1) by simp
  then show ?thesis
    using unat_halves32 [OF assms(2), of b] digits32_less [OF assms(1), of a] digits32_less [of "3 - y" b]
    by (subst unat64_mult_less) simp_all
qed

lemma powers32: "2 ^ 64 = (2 ^ 32 :: nat) ^ 2" "2 ^ 96 = (2 ^ 32 :: nat) ^ 3" "2 ^ 128 = (2 ^ 32 :: nat) ^ 4"
  by (simp_all only: power_mult [symmetric]) simp_all

lemma unat_sum_list: "sum_list (map unat ws) < 2 ^ 64 \<Longrightarrow> unat (sum_list ws) = sum_list (map unat ws)" for ws :: "u64 list"
  by (induction ws) (simp_all add: unat64_add_less)

lemma unat_sum:
  assumes "w = sum_list ws" "sum_list (map unat ws) = n" "n < 2 ^ 64"
  shows "unat (w :: u64) = n"
  using unat_sum_list [of ws] assms by simp

lemma val128_mul: "val128 (mul128 a b) = (val128 a * val128 b) mod 2 ^ 128"
proof -
  let ?x = "digits32 a" and ?y = "digits32 b" and ?B = "2 ^ 32 :: nat"
  define p where "p i y = halves32 a ! (3 - i) * halves32 b ! y" for i y
  have "unat (p i y) = ?x i * ?y j" if "i < 4" "y < 4" "j = 3 - y" for i j y
    unfolding p_def using unat_product32 [OF that(1,2), of a b] that(3) by simp
  then have p: "unat (p 0 3) = ?x 0 * ?y 0" "unat (p 0 2) = ?x 0 * ?y 1" "unat (p 0 1) = ?x 0 * ?y 2" "unat (p 0 0) = ?x 0 * ?y 3"
    "unat (p 1 3) = ?x 1 * ?y 0" "unat (p 1 2) = ?x 1 * ?y 1" "unat (p 1 1) = ?x 1 * ?y 2"
    "unat (p 2 3) = ?x 2 * ?y 0" "unat (p 2 2) = ?x 2 * ?y 1" "unat (p 3 3) = ?x 3 * ?y 0"
    by simp_all
  note columns = unat_low32 unat_high32 p list.map sum_list_simps add.assoc add_0_right
  have less: "column1 ?B ?x ?y < 2 ^ 64" "column2 ?B ?x ?y < 2 ^ 64" "column3 ?B ?x ?y < 2 ^ 64"
    using column_bounds [of ?B ?x ?y, OF _ digits32_less digits32_less] by (simp_all add: less_le_trans)
  define f where "f = p 0 3 AND 0xffffffff"
  define t where "t = (p 0 2 AND 0xffffffff) + drop_bit 32 (p 0 3) + (p 1 3 AND 0xffffffff)"
  define s where "s = (p 0 1 AND 0xffffffff) + drop_bit 32 (p 0 2) + ((p 1 2 AND 0xffffffff) + drop_bit 32 (p 1 3)) +
    (p 2 3 AND 0xffffffff)"
  define r where "r = (p 0 0 AND 0xffffffff) + drop_bit 32 (p 0 1) + ((p 1 1 AND 0xffffffff) + drop_bit 32 (p 1 2)) +
    ((p 2 2 AND 0xffffffff) + drop_bit 32 (p 2 3)) + (p 3 3 AND 0xffffffff)"
  have "unat f = column0 ?B ?x ?y" by (simp only: f_def columns column0_def)
  moreover have "unat t = column1 ?B ?x ?y"
    using less(1) by (intro unat_sum [of _ "[p 0 2 AND 0xffffffff, drop_bit 32 (p 0 3), p 1 3 AND 0xffffffff]"])
      (simp_all only: t_def column1_def columns)
  moreover have "unat s = column2 ?B ?x ?y"
    using less(2) by (intro unat_sum [of _ "[p 0 1 AND 0xffffffff, drop_bit 32 (p 0 2), p 1 2 AND 0xffffffff, drop_bit 32 (p 1 3), p 2 3 AND 0xffffffff]"])
      (simp_all only: s_def column2_def columns)
  moreover have "unat r = column3 ?B ?x ?y"
    using less(3) by (intro unat_sum [of _ "[p 0 0 AND 0xffffffff, drop_bit 32 (p 0 1), p 1 1 AND 0xffffffff, drop_bit 32 (p 1 2), p 2 2 AND 0xffffffff,
        drop_bit 32 (p 2 3), p 3 3 AND 0xffffffff]"])
      (simp_all only: r_def column3_def columns)
  moreover have "mul128 a b = add128 (UInt128 0 f) (add128 (UInt128 s 0)
      (add128 (UInt128 (push_bit 32 r) 0) (UInt128 (drop_bit 32 t) (push_bit 32 t))))"
    unfolding mul128_def Let_def halves32_def [symmetric] p_def [symmetric] f_def t_def s_def r_def by (rule refl)
  ultimately have "val128 (mul128 a b) = (column0 ?B ?x ?y + (column2 ?B ?x ?y * ?B ^ 2 +
      (column3 ?B ?x ?y * ?B ^ 3 mod ?B ^ 4 + column1 ?B ?x ?y * ?B) mod ?B ^ 4) mod ?B ^ 4) mod ?B ^ 4"
    by (simp only: val128_add place0 place1 place2 [of s] place3 [of r] powers32)
  also have "\<dots> = number4 ?B ?x * number4 ?B ?y mod ?B ^ 4"
    by (simp only: sum_places schoolbook)
  finally show ?thesis by (simp only: number4_digits32 powers32)
qed

section \<open>256 bits\<close>

definition digits64 :: "uint256_t \<Rightarrow> nat \<Rightarrow> nat" where
  "digits64 a i = [unat (lower128 (lower256 a)), unat (upper128 (lower256 a)),
     unat (lower128 (upper256 a)), unat (upper128 (upper256 a))] ! i"

definition halves64 :: "uint256_t \<Rightarrow> uint128_t list" where
  "halves64 a = [wide (upper128 (upper256 a)), wide (lower128 (upper256 a)),
     wide (upper128 (lower256 a)), wide (lower128 (lower256 a))]"

lemma powers64: "2 ^ 128 = (2 ^ 64 :: nat) ^ 2" "2 ^ 192 = (2 ^ 64 :: nat) ^ 3" "2 ^ 256 = (2 ^ 64 :: nat) ^ 4"
  by (simp_all only: power_mult [symmetric]) simp_all

lemma number4_digits64: "number4 (2 ^ 64) (digits64 a) = val256 a"
proof -
  have "number4 B (\<lambda>i. [l0, l1, u0, u1] ! i) = (u1 * B + u0) * B ^ 2 + (l1 * B + l0)" for B l0 l1 u0 u1 :: nat
    by (simp add: number4_def algebra_simps power2_eq_square power3_eq_cube)
  from this [of "2 ^ 64"] show ?thesis
    unfolding val256_def val128_def powers64 by (simp only: digits64_def [abs_def])
qed

lemma digits64_less: "i < 4 \<Longrightarrow> digits64 a i < 2 ^ 64"
proof -
  assume "i < 4"
  then consider "i = 0" | "i = 1" | "i = 2" | "i = 3" by linarith
  then show ?thesis using unat64_less by cases (simp_all add: digits64_def)
qed

lemma val_wide [simp]: "val128 (wide w) = unat w"
  by (simp add: wide_def val128_def)

lemma val_halves64: "y < 4 \<Longrightarrow> val128 (halves64 a ! y) = digits64 a (3 - y)"
proof -
  assume "y < 4"
  then consider "y = 0" | "y = 1" | "y = 2" | "y = 3" by linarith
  then show ?thesis by cases (simp_all add: halves64_def digits64_def)
qed

lemma val_product64:
  assumes "i < 4" "y < 4"
  shows "val128 (mul128 (halves64 a ! (3 - i)) (halves64 b ! y)) = digits64 a i * digits64 b (3 - y)"
proof -
  have "digits64 a i * digits64 b (3 - y) < 2 ^ 64 * 2 ^ 64"
    using digits64_less [OF assms(1), of a] digits64_less [of "3 - y" b] by (intro mult_strict_mono) simp_all
  then show ?thesis
    using val_halves64 [of "3 - i" a] val_halves64 [OF assms(2), of b] assms(1) by (simp add: val128_mul)
qed

lemma unat_low64: "unat (lower128 x) = val128 x mod 2 ^ 64"
  using unat64_less [of "lower128 x"] by (simp add: val128_def)

lemma unat_high64: "unat (upper128 x) = val128 x div 2 ^ 64"
  using unat64_less [of "lower128 x"] by (simp add: val128_def)

text \<open>A sum of 128-bit numbers that does not wrap.\<close>

lemma val_sum_list:
  "sum_list (map val128 ws) + val128 z < 2 ^ 128 \<Longrightarrow>
   val128 (foldr add128 ws z) = sum_list (map val128 ws) + val128 z"
  by (induction ws) (simp_all add: val128_add)

lemma val_sum:
  assumes "w = foldr add128 ws z" "sum_list (map val128 ws) + val128 z = n" "n < 2 ^ 128"
  shows "val128 w = n"
  using val_sum_list [of ws z] assms by simp

lemma place256:
  "val256 (UInt256 (shiftl128 f 64) clear128) = val128 f * 2 ^ 192 mod 2 ^ 256"
  "val256 (UInt256 (copy128 s) clear128) = val128 s * 2 ^ 128"
  "val256 (UInt256 clear128 (copy128 l)) = val128 l"
  "val256 (UInt256 (UInt128 (upper128 t) 0) (shiftl128 t 64)) =
     val128 t div 2 ^ 64 * 2 ^ 192 + val128 t mod 2 ^ 64 * 2 ^ 64"
proof -
  have e: "(2 ^ 192 :: nat) = 2 ^ 64 * 2 ^ 128" "(2 ^ 256 :: nat) = 2 ^ 128 * 2 ^ 128" "(2 ^ 128 :: nat) = 2 ^ 64 * 2 ^ 64"
    by simp_all
  have n: "unat (64 :: u32) = 64" by simp
  show "val256 (UInt256 (shiftl128 f 64) clear128) = val128 f * 2 ^ 192 mod 2 ^ 256"
    unfolding val256_def uint256_t.sel val128_shiftl n e(1,2) by (simp only: mult_mod_left mult.assoc val128_clear add_0_right)
  show "val256 (UInt256 (copy128 s) clear128) = val128 s * 2 ^ 128" "val256 (UInt256 clear128 (copy128 l)) = val128 l"
    by (simp_all add: val256_def copy128_id val128_clear)
  have "val128 (shiftl128 t 64) = val128 t mod 2 ^ 64 * 2 ^ 64"
    unfolding val128_shiftl n e(3) by (simp only: mult_mod_left)
  moreover have "val128 (UInt128 (upper128 t) 0) = val128 t div 2 ^ 64 * 2 ^ 64" by (simp only: place2 unat_high64)
  ultimately show "val256 (UInt256 (UInt128 (upper128 t) 0) (shiftl128 t 64)) =
      val128 t div 2 ^ 64 * 2 ^ 192 + val128 t mod 2 ^ 64 * 2 ^ 64"
    unfolding val256_def uint256_t.sel e(1) by (simp only: mult.assoc)
qed

text \<open>The carry out of the second digit.\<close>

definition carry64 :: "uint256_t \<Rightarrow> uint256_t \<Rightarrow> nat" where
  "carry64 a b = column1 (2 ^ 64) (digits64 a) (digits64 b) div 2 ^ 64"

lemma columns64:
  defines "B \<equiv> 2 ^ 64 :: nat"
  shows "val256 (mul256 a b) = (column0 B (digits64 a) (digits64 b) + (column2 B (digits64 a) (digits64 b) * B ^ 2 +
    (column3 B (digits64 a) (digits64 b) * B ^ 3 mod B ^ 4 +
     (carry64 a b * B ^ 3 + column1 B (digits64 a) (digits64 b) mod B * B)) mod B ^ 4) mod B ^ 4) mod B ^ 4"
proof -
  let ?x = "digits64 a" and ?y = "digits64 b"
  define p where "p i y = mul128 (halves64 a ! (3 - i)) (halves64 b ! y)" for i y
  have "val128 (p i y) = ?x i * ?y j" if "i < 4" "y < 4" "j = 3 - y" for i j y
    unfolding p_def using val_product64 [OF that(1,2), of a b] that(3) by simp
  then have p: "val128 (p 0 3) = ?x 0 * ?y 0" "val128 (p 0 2) = ?x 0 * ?y 1" "val128 (p 0 1) = ?x 0 * ?y 2"
    "val128 (p 0 0) = ?x 0 * ?y 3" "val128 (p 1 3) = ?x 1 * ?y 0" "val128 (p 1 2) = ?x 1 * ?y 1" "val128 (p 1 1) = ?x 1 * ?y 2"
    "val128 (p 2 3) = ?x 2 * ?y 0" "val128 (p 2 2) = ?x 2 * ?y 1" "val128 (p 3 3) = ?x 3 * ?y 0"
    by simp_all
  let ?l = "\<lambda>i y. wide (lower128 (p i y))" and ?h = "\<lambda>i y. wide (upper128 (p i y))"
  have less: "column1 B ?x ?y < 2 ^ 128" "column2 B ?x ?y < 2 ^ 128" "column3 B ?x ?y < 2 ^ 128"
    using column_bounds [of B ?x ?y] digits64_less by (simp_all add: B_def less_le_trans)
  note columns = val_wide unat_low64 unat_high64 p list.map sum_list_simps add.assoc add_0_right foldr.simps o_apply id_apply
  define t where "t = add128 (?l 1 3) (add128 (?l 0 2) (?h 0 3))"
  define s where "s = add128 (?l 2 3) (add128 (?h 1 3) (add128 (?l 1 2) (add128 (?l 0 1) (?h 0 2))))"
  define r where "r = add128 (?l 3 3) (add128 (?h 2 3) (add128 (?l 2 2) (add128 (?h 1 2) (add128 (?l 1 1)
    (add128 (?l 0 0) (?h 0 1))))))"
  have "val128 t = column1 B ?x ?y"
    using less(1) by (intro val_sum [of _ "[?l 1 3, ?l 0 2]" "?h 0 3"])
      (simp_all only: t_def column1_def columns B_def ac_simps)
  moreover have "val128 s = column2 B ?x ?y"
    using less(2) by (intro val_sum [of _ "[?l 2 3, ?h 1 3, ?l 1 2, ?l 0 1]" "?h 0 2"])
      (simp_all only: s_def column2_def columns B_def ac_simps)
  moreover have "val128 r = column3 B ?x ?y"
    using less(3) by (intro val_sum [of _ "[?l 3 3, ?h 2 3, ?l 2 2, ?h 1 2, ?l 1 1, ?l 0 0]" "?h 0 1"])
      (simp_all only: r_def column3_def columns B_def ac_simps)
  moreover have "val128 (?l 0 3) = column0 B ?x ?y" by (simp only: columns column0_def B_def)
  moreover have "mul256 a b = add256 (UInt256 clear128 (copy128 (?l 0 3))) (add256 (UInt256 (copy128 s) clear128)
      (add256 (UInt256 (shiftl128 r 64) clear128) (UInt256 (UInt128 (upper128 t) 0) (shiftl128 t 64))))"
    unfolding mul256_def Let_def halves64_def [symmetric] p_def [symmetric] t_def s_def r_def by (rule refl)
  ultimately show ?thesis
    unfolding carry64_def B_def by (simp only: val256_add place256 powers64)
qed

lemma mul256_carry:
  "(val256 (mul256 a b) + carry64 a b * 2 ^ 128) mod 2 ^ 256 = (val256 a * val256 b + carry64 a b * 2 ^ 192) mod 2 ^ 256"
proof -
  define B where "B = (2 ^ 64 :: nat)"
  define c where "c = carry64 a b"
  define d0 where "d0 = column0 B (digits64 a) (digits64 b)"
  define d1 where "d1 = column1 B (digits64 a) (digits64 b)"
  define d2 where "d2 = column2 B (digits64 a) (digits64 b)"
  define d3 where "d3 = column3 B (digits64 a) (digits64 b)"
  have d1: "d1 mod B + c * B = d1" by (simp add: c_def carry64_def d1_def B_def)
  have "val256 (mul256 a b) = (d0 + (d2 * B ^ 2 + (d3 * B ^ 3 mod B ^ 4 + (c * B ^ 3 + d1 mod B * B)) mod B ^ 4) mod B ^ 4) mod B ^ 4"
    unfolding d0_def d1_def d2_def d3_def c_def B_def by (rule columns64)
  then have "(val256 (mul256 a b) + c * B ^ 2) mod B ^ 4 = (d0 + (d2 * B ^ 2 + (d3 * B ^ 3 + (c * B ^ 3 + d1 mod B * B))) + c * B ^ 2) mod B ^ 4"
    by (simp only: mod_add_right_eq mod_add_left_eq)
  also have "d0 + (d2 * B ^ 2 + (d3 * B ^ 3 + (c * B ^ 3 + d1 mod B * B))) + c * B ^ 2 =
      d0 + (d1 mod B + c * B) * B + d2 * B ^ 2 + d3 * B ^ 3 + c * B ^ 3"
    by (simp add: distrib_right power2_eq_square)
  also have "\<dots> mod B ^ 4 = ((d0 + d1 * B + d2 * B ^ 2 + d3 * B ^ 3) mod B ^ 4 + c * B ^ 3) mod B ^ 4"
    by (simp only: d1 mod_add_left_eq)
  also have "\<dots> = (number4 B (digits64 a) * number4 B (digits64 b) + c * B ^ 3) mod B ^ 4"
    unfolding d0_def d1_def d2_def d3_def by (simp only: schoolbook [symmetric] mod_add_left_eq)
  finally show ?thesis unfolding c_def B_def by (simp only: number4_digits64 powers64)
qed

lemma carry64_less: "carry64 a b < 3"
  using column_bounds(2) [of "2 ^ 64" "digits64 a" "digits64 b"] digits64_less
  by (simp add: carry64_def less_mult_imp_div_less)

lemma mul256_exact_iff: "val256 (mul256 a b) = val256 a * val256 b mod 2 ^ 256 \<longleftrightarrow> carry64 a b = 0"
proof
  let ?v = "val256 (mul256 a b)" and ?c = "carry64 a b"
  assume "?v = val256 a * val256 b mod 2 ^ 256"
  then have "(?v + ?c * 2 ^ 192) mod 2 ^ 256 = (val256 a * val256 b + ?c * 2 ^ 192) mod 2 ^ 256" by (simp only: mod_add_left_eq)
  then have "(?v + ?c * 2 ^ 192) mod 2 ^ 256 = (?v + ?c * 2 ^ 128) mod 2 ^ 256" using mul256_carry [of a b] by simp
  then have "2 ^ 256 dvd (?v + ?c * 2 ^ 192) - (?v + ?c * 2 ^ 128)" by (subst (asm) mod_eq_dvd_iff_nat) simp_all
  moreover have "(?v + ?c * 2 ^ 192) - (?v + ?c * 2 ^ 128) < 2 ^ 256" using carry64_less [of a b] by simp
  ultimately have "(?v + ?c * 2 ^ 192) - (?v + ?c * 2 ^ 128) = 0" by (meson dvd_imp_le leD not_gr_zero)
  then show "?c = 0" by simp
next
  assume "carry64 a b = 0"
  then show "val256 (mul256 a b) = val256 a * val256 b mod 2 ^ 256"
    using mul256_carry [of a b] val256_less [of "mul256 a b"] by simp
qed

section \<open>Properties\<close>

text \<open>C31: Multiplication: \<^verbatim>\<open>mul128\<close> is exact modulo \<open>2 ^ 128\<close>. \<^verbatim>\<open>mul256\<close> is exact modulo \<open>2 ^ 256\<close> if and only if the sum of the
  second 64-bit digit has no carry, because the carry is added at \<open>2 ^ 192\<close> and not at \<open>2 ^ 128\<close>; the square of
  \<open>2 ^ 128 - 1\<close> is one of the wrong results.\<close>

theorem wide_multiplication:
  "val128 (mul128 a b) = val128 a * val128 b mod 2 ^ 128 \<and>
   (val256 (mul256 x y) = val256 x * val256 y mod 2 ^ 256 \<longleftrightarrow> carry64 x y = 0) \<and>
   (let m = UInt256 (UInt128 0 0) (UInt128 0xFFFFFFFFFFFFFFFF 0xFFFFFFFFFFFFFFFF) in
    val256 m = 2 ^ 128 - 1 \<and> val256 (mul256 m m) \<noteq> val256 m * val256 m mod 2 ^ 256)"
proof -
  let ?m = "UInt256 (UInt128 0 0) (UInt128 0xFFFFFFFFFFFFFFFF 0xFFFFFFFFFFFFFFFF)"
  have "carry64 ?m ?m = 1" by (simp add: carry64_def column1_def digits64_def)
  then have "val256 (mul256 ?m ?m) \<noteq> val256 ?m * val256 ?m mod 2 ^ 256" by (simp only: mul256_exact_iff)
  moreover have "val256 ?m = 2 ^ 128 - 1" by (simp add: val256_def val128_def)
  ultimately show ?thesis unfolding Let_def using val128_mul mul256_exact_iff by blast
qed

end
