(* ===== verification/Uint256_Spec.thy ===== *)
theory Uint256_Spec
  imports Uint256_Mul Uint256_Div "HOL-Library.Monad_Syntax"
begin

text \<open>
  The 256-bit routines as an implementation of arithmetic on numbers: every program built from them computes what
  the same program computes on natural numbers modulo \<open>2 ^ 256\<close>. Quotients of a zero divisor have no value on
  either side.
\<close>

section \<open>Programs\<close>

datatype arith =
    Input nat
  | Plus arith arith
  | Minus arith arith
  | Or arith arith
  | ShiftL arith u32
  | ShiftR arith u32
  | Div arith arith
  | Mod arith arith

text \<open>On the pairs of machine words of the code.\<close>

primrec run256 :: "(nat \<Rightarrow> uint256_t) \<Rightarrow> arith \<Rightarrow> uint256_t option" where
  "run256 env (Input i) = Some (env i)"
| "run256 env (Plus a b) = do { x \<leftarrow> run256 env a; y \<leftarrow> run256 env b; Some (add256 x y) }"
| "run256 env (Minus a b) = do { x \<leftarrow> run256 env a; y \<leftarrow> run256 env b; Some (minus256 x y) }"
| "run256 env (Or a b) = do { x \<leftarrow> run256 env a; y \<leftarrow> run256 env b; Some (or256 x y) }"
| "run256 env (ShiftL a n) = do { x \<leftarrow> run256 env a; Some (shiftl256 x n) }"
| "run256 env (ShiftR a n) = do { x \<leftarrow> run256 env a; Some (shiftr256 x n) }"
| "run256 env (Div a b) = do { x \<leftarrow> run256 env a; y \<leftarrow> run256 env b; (q, r) \<leftarrow> divmod256 x y; Some q }"
| "run256 env (Mod a b) = do { x \<leftarrow> run256 env a; y \<leftarrow> run256 env b; (q, r) \<leftarrow> divmod256 x y; Some r }"

text \<open>The specification.\<close>

primrec spec256 :: "(nat \<Rightarrow> nat) \<Rightarrow> arith \<Rightarrow> nat option" where
  "spec256 env (Input i) = Some (env i)"
| "spec256 env (Plus a b) = do { x \<leftarrow> spec256 env a; y \<leftarrow> spec256 env b; Some ((x + y) mod 2 ^ 256) }"
| "spec256 env (Minus a b) = do { x \<leftarrow> spec256 env a; y \<leftarrow> spec256 env b; Some ((x + 2 ^ 256 - y) mod 2 ^ 256) }"
| "spec256 env (Or a b) = do { x \<leftarrow> spec256 env a; y \<leftarrow> spec256 env b; Some (x OR y) }"
| "spec256 env (ShiftL a n) = do { x \<leftarrow> spec256 env a; Some (x * 2 ^ unat n mod 2 ^ 256) }"
| "spec256 env (ShiftR a n) = do { x \<leftarrow> spec256 env a; Some (x div 2 ^ unat n) }"
| "spec256 env (Div a b) = do { x \<leftarrow> spec256 env a; y \<leftarrow> spec256 env b; if y = 0 then None else Some (x div y) }"
| "spec256 env (Mod a b) = do { x \<leftarrow> spec256 env a; y \<leftarrow> spec256 env b; if y = 0 then None else Some (x mod y) }"

section \<open>Refinement\<close>

lemma divmod256_cases:
  "if val256 y = 0 then divmod256 x y = None
   else \<exists>q r. divmod256 x y = Some (q, r) \<and> val256 q = val256 x div val256 y \<and> val256 r = val256 x mod val256 y"
  using w256.divmod_correct [of y x] w256.divmod_zero_diverges [of y x] by auto

lemma refines_div:
  "map_option val256 (do { (q, r) \<leftarrow> divmod256 x y; Some q }) = (if val256 y = 0 then None else Some (val256 x div val256 y))"
  "map_option val256 (do { (q, r) \<leftarrow> divmod256 x y; Some r }) = (if val256 y = 0 then None else Some (val256 x mod val256 y))"
  using divmod256_cases [of y x] by (auto split: if_splits)

lemma map_option_bind2:
  "map_option f (do { x \<leftarrow> m; y \<leftarrow> n; g x y }) = do { x \<leftarrow> m; y \<leftarrow> n; map_option f (g x y) }"
  by (cases m; cases n) simp_all

lemma bind_map_option2:
  "do { x \<leftarrow> map_option f m; y \<leftarrow> map_option f n; g x y } = do { x \<leftarrow> m; y \<leftarrow> n; g (f x) (f y) }"
  by (cases m; cases n) simp_all

lemma map_option_bind1: "map_option f (do { x \<leftarrow> m; Some (g x) }) = do { x \<leftarrow> m; Some (f (g x)) }"
  "do { x \<leftarrow> map_option f m; h x } = do { x \<leftarrow> m; h (f x) }"
  by (cases m; simp)+

lemma run256_spec:
  assumes "\<And>i. env' i = val256 (env i)"
  shows "spec256 env' e = map_option val256 (run256 env e)"
  by (induction e) (simp_all only: run256.simps spec256.simps map_option_bind2 bind_map_option2 map_option_bind1 refines_div
      option.map val256_add val256_minus val256_or val256_shiftl val256_shiftr assms)

section \<open>Property\<close>

text \<open>C25: The 256-bit routines refine arithmetic on natural numbers: every program built from addition, subtraction,
  union, shifts and division, on all inputs, gives the number that the specification gives modulo \<open>2 ^ 256\<close>, and
  returns nothing exactly when the specification divides by zero; comparisons of results agree as well.\<close>

theorem uint256_refines_nat:
  "map_option val256 (run256 env e) = spec256 (val256 \<circ> env) e \<and>
   (gt256 x y \<longleftrightarrow> val256 x > val256 y) \<and> (gte256 x y \<longleftrightarrow> val256 x \<ge> val256 y) \<and>
   (equal256 x y \<longleftrightarrow> val256 x = val256 y) \<and> (zero256 x \<longleftrightarrow> val256 x = 0) \<and> unat (bits256 x) = bit_len (val256 x)"
  using run256_spec [of "val256 \<circ> env" env e] by (simp add: gt256_iff gte256_iff val256_inj zero256_iff unat_bits256)

end
