(* ===== verification/Nanopb_Encode.thy ===== *)
theory Nanopb_Encode
  imports Wire
begin

text \<open>
  The encoder of \<^verbatim>\<open>src/nanopb/pb_encode.c\<close>, over the descriptors and message values of the decoder. The
  application only decodes, but the encoder is linked with it; here it is the other half of the wire format. An
  encoder that returns false is \<^const>\<open>None\<close>. A stream is made by \<^verbatim>\<open>pb_ostream_from_buffer\<close> or is a sizing stream, whose
  \<^verbatim>\<open>callback\<close> is null; \<^verbatim>\<open>size_t\<close> has 32 bits.
\<close>

unbundle bit_operations_syntax

section \<open>Output streams\<close>

text \<open>\<open>os_state\<close> is what has been stored below the pointer \<^verbatim>\<open>state\<close>.\<close>

record pb_ostream_t =
  os_callback :: bool
  os_state :: bytes
  os_max_size :: u32
  os_bytes_written :: u32

type_synonym encoder = "pb_ostream_t \<Rightarrow> pb_ostream_t option"

definition PB_OSTREAM_SIZING :: pb_ostream_t where
  "PB_OSTREAM_SIZING = \<lparr>os_callback = False, os_state = [], os_max_size = 0, os_bytes_written = 0\<rparr>"

definition pb_ostream_from_buffer :: "u32 \<Rightarrow> pb_ostream_t" where
  "pb_ostream_from_buffer bufsize = \<lparr>os_callback = True, os_state = [], os_max_size = bufsize, os_bytes_written = 0\<rparr>"

definition stream_write :: "bytes \<Rightarrow> u32 \<Rightarrow> pb_ostream_t \<Rightarrow> pb_ostream_t" where
  "stream_write buf count s = s\<lparr>os_state := os_state s @ take (unat count) buf\<rparr>"

definition pb_write :: "bytes \<Rightarrow> u32 \<Rightarrow> encoder" where
  "pb_write buf count s =
     (if count > 0 \<and> os_callback s then
        if os_bytes_written s + count < os_bytes_written s \<or> os_bytes_written s + count > os_max_size s then None
        else Some ((stream_write buf count s)\<lparr>os_bytes_written := os_bytes_written s + count\<rparr>)
      else Some (s\<lparr>os_bytes_written := os_bytes_written s + count\<rparr>))"

section \<open>Scalars\<close>

text \<open>The two loops of \<^verbatim>\<open>pb_encode_varint_32\<close>; the index \<^verbatim>\<open>i\<close> is the number of bytes in the buffer.\<close>

function low_loop :: "u32 \<Rightarrow> u32 \<Rightarrow> u8 \<Rightarrow> bytes \<Rightarrow> u8 \<times> bytes" where
  "low_loop low high byte buffer =
     (if length buffer < 4 \<and> (low \<noteq> 0 \<or> high \<noteq> 0)
      then low_loop (drop_bit 7 low) high (ucast (low AND 0x7F)) (buffer @ [byte OR 0x80])
      else (byte, buffer))"
  by pat_completeness auto
termination by (relation "measure (\<lambda>(_, _, _, buffer). 4 - length buffer)") auto

lemma unat_drop_bit: "unat (drop_bit n w) = unat w div 2 ^ n" for w :: "'a::len word"
  by (simp add: unsigned_drop_bit_eq) (simp add: drop_bit_eq_div take_bit_nat_eq_self unsigned_less)

lemma drop_bit_less: "w \<noteq> 0 \<Longrightarrow> 0 < n \<Longrightarrow> unat (drop_bit n w) < unat w" for w :: "'a::len word"
  unfolding unat_drop_bit using one_less_power [of "2 :: nat" n] by (intro div_less_dividend) (simp_all add: unat_gt_0)

function high_loop :: "u32 \<Rightarrow> u8 \<Rightarrow> bytes \<Rightarrow> u8 \<times> bytes" where
  "high_loop high byte buffer =
     (if high \<noteq> 0 then high_loop (drop_bit 7 high) (ucast (high AND 0x7F)) (buffer @ [byte OR 0x80])
      else (byte, buffer))"
  by pat_completeness auto
termination by (relation "measure (\<lambda>(high, _, _). unat high)") (auto simp: drop_bit_less)

declare low_loop.simps [simp del] high_loop.simps [simp del]

definition pb_encode_varint_32 :: "u32 \<Rightarrow> u32 \<Rightarrow> encoder" where
  "pb_encode_varint_32 low high s =
     (case low_loop (drop_bit 7 low) high (ucast (low AND 0x7F)) [] of
        (byte, buffer) \<Rightarrow>
          (case (if high \<noteq> 0
                 then high_loop (drop_bit 3 high) (ucast (ucast byte OR push_bit 4 (high AND 0x07))) buffer
                 else (byte, buffer)) of
             (byte', buffer') \<Rightarrow> pb_write (buffer' @ [byte']) (of_nat (length (buffer' @ [byte']))) s))"

definition pb_encode_varint :: "u64 \<Rightarrow> encoder" where
  "pb_encode_varint value s =
     (if value \<le> 0x7F then pb_write [ucast value] 1 s
      else pb_encode_varint_32 (ucast value) (ucast (drop_bit 32 value)) s)"

definition pb_encode_svarint :: "u64 \<Rightarrow> encoder" where
  "pb_encode_svarint value s =
     pb_encode_varint (if sint value < 0 then NOT (push_bit 1 value) else push_bit 1 value) s"

definition pb_encode_fixed32 :: "u32 \<Rightarrow> encoder" where
  "pb_encode_fixed32 val s = pb_write (map (\<lambda>i. ucast (drop_bit (8 * i) val AND 0xFF)) [0..<4]) 4 s"

definition pb_encode_fixed64 :: "u64 \<Rightarrow> encoder" where
  "pb_encode_fixed64 val s = pb_write (map (\<lambda>i. ucast (drop_bit (8 * i) val AND 0xFF)) [0..<8]) 8 s"

definition pb_encode_tag :: "u32 \<Rightarrow> u32 \<Rightarrow> encoder" where
  "pb_encode_tag wiretype field_number s =
     pb_encode_varint (push_bit 3 (ucast field_number) OR ucast wiretype) s"

definition pb_encode_tag_for_field :: "u32 \<Rightarrow> ltype \<Rightarrow> encoder" where
  "pb_encode_tag_for_field tag lt s =
     (case lt of
        LT_BOOL \<Rightarrow> pb_encode_tag PB_WT_VARINT tag s
      | LT_VARINT _ \<Rightarrow> pb_encode_tag PB_WT_VARINT tag s
      | LT_UVARINT _ \<Rightarrow> pb_encode_tag PB_WT_VARINT tag s
      | _ \<Rightarrow> pb_encode_tag PB_WT_STRING tag s)"

definition pb_encode_string :: "bytes \<Rightarrow> u32 \<Rightarrow> encoder" where
  "pb_encode_string buffer sz s = pb_encode_varint (ucast sz) s \<bind> pb_write buffer sz"

section \<open>Values\<close>

text \<open>
  Integers of a message are kept sign- or zero-extended to 64 bits; the member the code reads has \<open>data_size\<close> bytes.
  A value that is not of the type of its field does not exist in the program.
\<close>

definition pb_enc_bool :: "pval \<Rightarrow> encoder" where
  "pb_enc_bool v s = (case v of VInt w \<Rightarrow> pb_encode_varint (if w \<noteq> 0 then 1 else 0) s | _ \<Rightarrow> None)"

definition read_unsigned :: "nat \<Rightarrow> u64 \<Rightarrow> u64 option" where
  "read_unsigned data_size w =
     (if data_size = 1 then Some (ucast (ucast w :: u8))
      else if data_size = 2 then Some (ucast (ucast w :: u16))
      else if data_size = 4 then Some (ucast (ucast w :: u32))
      else if data_size = 8 then Some w
      else None)"

definition read_signed :: "nat \<Rightarrow> u64 \<Rightarrow> u64 option" where
  "read_signed data_size w =
     (if data_size = 1 then Some (scast (ucast w :: u8))
      else if data_size = 2 then Some (scast (ucast w :: u16))
      else if data_size = 4 then Some (scast (ucast w :: u32))
      else if data_size = 8 then Some w
      else None)"

text \<open>A \<^verbatim>\<open>bool\<close> of a packed array is read as a signed integer of one byte.\<close>

definition pb_enc_varint :: "ltype \<Rightarrow> pval \<Rightarrow> encoder" where
  "pb_enc_varint lt v s =
     (case (lt, v) of
        (LT_UVARINT n, VInt w) \<Rightarrow> read_unsigned n w \<bind> (\<lambda>value. pb_encode_varint value s)
      | (LT_VARINT n, VInt w) \<Rightarrow> read_signed n w \<bind> (\<lambda>value. pb_encode_varint value s)
      | (LT_BOOL, VInt w) \<Rightarrow> read_signed 1 w \<bind> (\<lambda>value. pb_encode_varint value s)
      | _ \<Rightarrow> None)"

definition pb_enc_bytes :: "nat \<Rightarrow> pval \<Rightarrow> encoder" where
  "pb_enc_bytes n v s =
     (case v of
        VBytes sz bs \<Rightarrow> if sz > n then None else pb_encode_string bs (of_nat sz) s
      | _ \<Rightarrow> None)"

definition pb_enc_string :: "nat \<Rightarrow> pval \<Rightarrow> encoder" where
  "pb_enc_string data_size v s =
     (case v of
        VBuf str \<Rightarrow>
          if data_size = 0 then None
          else
            let size = length (takeWhile (\<lambda>c. c \<noteq> 0) (take (data_size - 1) str)) in
            if str ! size \<noteq> 0 then None else pb_encode_string str (of_nat size) s
      | _ \<Rightarrow> None)"

definition pb_enc_fixed_length_bytes :: "nat \<Rightarrow> pval \<Rightarrow> encoder" where
  "pb_enc_fixed_length_bytes data_size v s =
     (case v of VBuf bs \<Rightarrow> pb_encode_string bs (of_nat data_size) s | _ \<Rightarrow> None)"

section \<open>Presence\<close>

text \<open>
  \<^verbatim>\<open>pb_check_proto3_default_value\<close>. The callbacks are numbered as in the descriptors; one whose \<^verbatim>\<open>funcs.encode\<close> is
  null is \<^const>\<open>None\<close>. No message has default values.
\<close>

type_synonym encode_callbacks = "nat \<Rightarrow> encoder option"

primrec default_value :: "ltype \<Rightarrow> encode_callbacks \<Rightarrow> pval \<Rightarrow> bool"
  and pb_check_proto3_default_value :: "pb_field \<Rightarrow> encode_callbacks \<Rightarrow> slot \<Rightarrow> bool" where
  "default_value LT_BOOL = (\<lambda>ecb v. case v of VInt w \<Rightarrow> take_bit 8 w = 0 | _ \<Rightarrow> False)"
| "default_value (LT_VARINT n) = (\<lambda>ecb v. case v of VInt w \<Rightarrow> take_bit (8 * n) w = 0 | _ \<Rightarrow> False)"
| "default_value (LT_UVARINT n) = (\<lambda>ecb v. case v of VInt w \<Rightarrow> take_bit (8 * n) w = 0 | _ \<Rightarrow> False)"
| "default_value (LT_BYTES n) = (\<lambda>ecb v. case v of VBytes sz _ \<Rightarrow> sz = 0 | _ \<Rightarrow> False)"
| "default_value (LT_STRING n) = (\<lambda>ecb v. case v of VBuf str \<Rightarrow> str ! 0 = 0 | _ \<Rightarrow> False)"
| "default_value (LT_FIXED_LENGTH_BYTES n) = (\<lambda>ecb v. n = 0)"
| "default_value (LT_SUBMESSAGE fs) =
     (\<lambda>ecb v. case v of VMsg m \<Rightarrow> list_all2 (\<lambda>check sl. check ecb sl) (map pb_check_proto3_default_value fs) m | _ \<Rightarrow> False)"
| "pb_check_proto3_default_value (Field tag atype htype lt) =
     (\<lambda>ecb sl.
       (case atype of
          STATIC \<Rightarrow>
            (case htype of
               REPEATED _ \<Rightarrow> s_vals sl = []
             | OPTIONAL \<Rightarrow> \<not> s_has sl
             | SINGULAR \<Rightarrow> (case s_vals sl of [v] \<Rightarrow> default_value lt ecb v | _ \<Rightarrow> False))
        | CALLBACK i \<Rightarrow> ecb i = None))"

section \<open>Messages\<close>

text \<open>\<^verbatim>\<open>pb_encode_submessage\<close>: the encoder of the submessage runs twice, first only to count.\<close>

definition pb_encode_submessage :: "encoder \<Rightarrow> encoder" where
  "pb_encode_submessage encode s =
     do { sizing \<leftarrow> encode PB_OSTREAM_SIZING;
          let size = os_bytes_written sizing;
          s1 \<leftarrow> pb_encode_varint (ucast size) s;
          if \<not> os_callback s1 then pb_write [] size s1
          else if os_bytes_written s1 + size > os_max_size s1 then None
          else
            do { sub \<leftarrow> encode \<lparr>os_callback = True, os_state = os_state s1, os_max_size = size, os_bytes_written = 0\<rparr>;
                 if os_bytes_written sub \<noteq> size then None
                 else Some (s1\<lparr>os_bytes_written := os_bytes_written s1 + os_bytes_written sub, os_state := os_state sub\<rparr>) } }"

text \<open>A sequence of encoders, one after the other on the same stream.\<close>

fun encode_all :: "encoder list \<Rightarrow> encoder" where
  "encode_all [] s = Some s"
| "encode_all (e # es) s = e s \<bind> encode_all es"

text \<open>\<^verbatim>\<open>encode_array\<close>, given the encoders of the elements with their keys.\<close>

definition encode_array :: "u32 \<Rightarrow> ltype \<Rightarrow> nat \<Rightarrow> pval list \<Rightarrow> encoder list \<Rightarrow> encoder" where
  "encode_array tag lt array_size vals elements s =
     (if length vals = 0 then Some s
      else if length vals > array_size then None
      else if packable lt then
        do { s1 \<leftarrow> pb_encode_tag PB_WT_STRING tag s;
             sizing \<leftarrow> encode_all (map (pb_enc_varint lt) vals) PB_OSTREAM_SIZING;
             let size = os_bytes_written sizing;
             s2 \<leftarrow> pb_encode_varint (ucast size) s1;
             if \<not> os_callback s2 then pb_write [] size s2
             else encode_all (map (pb_enc_varint lt) vals) s2 }
      else encode_all elements s)"

definition encode_callback_field :: "encode_callbacks \<Rightarrow> nat \<Rightarrow> encoder" where
  "encode_callback_field ecb i s = (case ecb i of None \<Rightarrow> Some s | Some encode \<Rightarrow> encode s)"

text \<open>
  The value of \<^verbatim>\<open>encode_basic_field\<close> after its key, and \<^verbatim>\<open>encode_field\<close>; they call each other through the fields of
  submessages.
\<close>

primrec encode_value :: "ltype \<Rightarrow> encode_callbacks \<Rightarrow> pval \<Rightarrow> encoder"
  and encode_field :: "pb_field \<Rightarrow> encode_callbacks \<Rightarrow> slot \<Rightarrow> encoder" where
  "encode_value LT_BOOL = (\<lambda>ecb. pb_enc_bool)"
| "encode_value (LT_VARINT n) = (\<lambda>ecb. pb_enc_varint (LT_VARINT n))"
| "encode_value (LT_UVARINT n) = (\<lambda>ecb. pb_enc_varint (LT_UVARINT n))"
| "encode_value (LT_BYTES n) = (\<lambda>ecb. pb_enc_bytes n)"
| "encode_value (LT_STRING n) = (\<lambda>ecb. pb_enc_string n)"
| "encode_value (LT_FIXED_LENGTH_BYTES n) = (\<lambda>ecb. pb_enc_fixed_length_bytes n)"
| "encode_value (LT_SUBMESSAGE fs) =
     (\<lambda>ecb v. case v of
        VMsg m \<Rightarrow> pb_encode_submessage (encode_all (map2 (\<lambda>encode sl. encode ecb sl) (map encode_field fs) m))
      | _ \<Rightarrow> (\<lambda>s. None))"
| "encode_field (Field tag atype htype lt) =
     (\<lambda>ecb sl s.
       let basic = (\<lambda>v s. pb_encode_tag_for_field tag lt s \<bind> encode_value lt ecb v) in
       case atype of
         CALLBACK i \<Rightarrow> encode_callback_field ecb i s
       | STATIC \<Rightarrow>
           (case htype of
              SINGULAR \<Rightarrow>
                if pb_check_proto3_default_value (Field tag atype htype lt) ecb sl then Some s
                else basic (hd (s_vals sl)) s
            | OPTIONAL \<Rightarrow> if \<not> s_has sl then Some s else basic (hd (s_vals sl)) s
            | REPEATED n \<Rightarrow> encode_array tag lt n (s_vals sl) (map basic (s_vals sl)) s))"

definition pb_encode :: "encode_callbacks \<Rightarrow> pb_field list \<Rightarrow> slot list \<Rightarrow> encoder" where
  "pb_encode ecb fs m = encode_all (map2 (\<lambda>f sl. encode_field f ecb sl) fs m)"

definition pb_get_encoded_size :: "encode_callbacks \<Rightarrow> pb_field list \<Rightarrow> slot list \<Rightarrow> u32 option" where
  "pb_get_encoded_size ecb fs m = map_option os_bytes_written (pb_encode ecb fs m PB_OSTREAM_SIZING)"

text \<open>\<^verbatim>\<open>pb_encode_ex\<close> with its flags as truth values.\<close>

definition pb_encode_ex :: "bool \<Rightarrow> bool \<Rightarrow> encode_callbacks \<Rightarrow> pb_field list \<Rightarrow> slot list \<Rightarrow> encoder" where
  "pb_encode_ex delimited nullterminated ecb fs m s =
     (if delimited then pb_encode_submessage (pb_encode ecb fs m) s
      else if nullterminated then pb_encode ecb fs m s \<bind> pb_write [0] 1
      else pb_encode ecb fs m s)"

end
