(* ===== verification/Encoder_Bytes.thy ===== *)
theory Encoder_Bytes
  imports Nanopb_Encode
begin

text \<open>
  What the encoder writes. Every encoder is shown to append a sequence of bytes that does not depend on the
  stream - to count it on a sizing stream -, given by a reference encoder over the wire format of \<^verbatim>\<open>Wire\<close>. The
  writers compose, so that the proof follows the structure of the descriptors.
\<close>

unbundle bit_operations_syntax

section \<open>Appending bytes to a stream\<close>

definition emit :: "bytes \<Rightarrow> encoder" where
  "emit bs s =
     (if os_callback s \<and> bs \<noteq> [] \<and> unat (os_bytes_written s) + length bs > unat (os_max_size s) then None
      else Some (s\<lparr>os_state := (if os_callback s then os_state s @ bs else os_state s),
                   os_bytes_written := os_bytes_written s + of_nat (length bs)\<rparr>))"

text \<open>The guard rules out a stream that would hold four gigabytes, where the check of \<^verbatim>\<open>pb_encode_submessage\<close> wraps.\<close>

definition emits :: "encoder \<Rightarrow> bytes \<Rightarrow> bool" where
  "emits e bs \<longleftrightarrow> (\<forall>s. (os_callback s \<longrightarrow> unat (os_bytes_written s) + length bs < 2 ^ 32) \<longrightarrow> e s = emit bs s)"

lemma emitsI: "(\<And>s. os_callback s \<longrightarrow> unat (os_bytes_written s) + length bs < 2 ^ 32 \<Longrightarrow> e s = emit bs s) \<Longrightarrow> emits e bs"
  by (simp add: emits_def)

lemma emitsD: "emits e bs \<Longrightarrow> os_callback s \<longrightarrow> unat (os_bytes_written s) + length bs < 2 ^ 32 \<Longrightarrow> e s = emit bs s"
  by (simp add: emits_def)

lemma emit_Nil [simp]: "emit [] s = Some s"
  by (simp add: emit_def)

lemma unat32_add_le:
  assumes "unat (b :: u32) + n \<le> unat (m :: u32)"
  shows "unat (b + of_nat n) = unat b + n"
proof -
  have "unat b + n < 2 ^ 32" using assms unsigned_less [of m, where 'a = nat] by simp
  then show ?thesis by (simp add: unat_word_ariths unat_of_nat)
qed

lemma emit_append: "emit a s \<bind> emit b = emit (a @ b) s"
proof (cases "os_callback s \<and> a \<noteq> [] \<and> b \<noteq> []")
  case True
  show ?thesis
  proof (cases "unat (os_bytes_written s) + length a \<le> unat (os_max_size s)")
    case le: True
    show ?thesis using True le unat32_add_le [OF le] by (auto simp: emit_def add.assoc)
  next
    case False
    with True show ?thesis by (auto simp: emit_def)
  qed
next
  case False
  then show ?thesis by (auto simp: emit_def add.assoc)
qed

lemma emit_written:
  assumes "emit bs s = Some s'" "os_callback s" "unat (os_bytes_written s) + length bs < 2 ^ 32"
  shows "os_callback s'" "unat (os_bytes_written s') = unat (os_bytes_written s) + length bs"
proof -
  have "unat (os_bytes_written s + of_nat (length bs)) = unat (os_bytes_written s) + length bs"
    using assms(3) by (simp add: unat_word_ariths unat_of_nat)
  then show "os_callback s'" "unat (os_bytes_written s') = unat (os_bytes_written s) + length bs"
    using assms(1,2) by (auto simp: emit_def split: if_splits)
qed

lemma emits_then:
  assumes "emits e a" "emits f b"
  shows "emits (\<lambda>s. e s \<bind> f) (a @ b)"
proof (rule emitsI)
  fix s :: pb_ostream_t
  assume s: "os_callback s \<longrightarrow> unat (os_bytes_written s) + length (a @ b) < 2 ^ 32"
  then have e: "e s = emit a s" by (intro emitsD [OF assms(1)]) auto
  have "f s' = emit b s'" if "emit a s = Some s'" for s'
  proof (cases "os_callback s")
    case True
    with that s emit_written [OF that] show ?thesis by (intro emitsD [OF assms(2)]) simp
  next
    case False
    with that have "\<not> os_callback s'" by (auto simp: emit_def)
    then show ?thesis by (intro emitsD [OF assms(2)]) simp
  qed
  then have "emit a s \<bind> f = emit a s \<bind> emit b" by (cases "emit a s") simp_all
  then show "e s \<bind> f = emit (a @ b) s" by (simp add: e emit_append)
qed

lemma emits_all: "list_all2 emits es bss \<Longrightarrow> emits (encode_all es) (concat bss)"
proof (induction es bss rule: list_all2_induct)
  case (Cons e es b bss)
  then show ?case using emits_then [of e b "encode_all es" "concat bss"] by (simp add: emits_def)
qed (simp add: emits_def)

lemma emits_write:
  assumes "length bs < 2 ^ 32" "take (length bs) buf = bs"
  shows "emits (pb_write buf (of_nat (length bs))) bs"
proof (rule emitsI)
  fix s :: pb_ostream_t
  have n: "unat (of_nat (length bs) :: u32) = length bs" using assms(1) by (simp only: unat_of_nat) simp
  have z: "(0 :: u32) < of_nat (length bs) \<longleftrightarrow> bs \<noteq> []" using n by (simp add: word_less_nat_alt)
  let ?b = "os_bytes_written s"
  have "unat (?b + of_nat (length bs)) = (unat ?b + length bs) mod 2 ^ 32"
    by (simp add: unat_word_ariths n)
  moreover have "unat ?b < 2 ^ 32" "unat (os_max_size s) < 2 ^ 32"
    using unsigned_less [of ?b, where 'a = nat] unsigned_less [of "os_max_size s", where 'a = nat] by simp_all
  ultimately have "(?b + of_nat (length bs) < ?b \<or> ?b + of_nat (length bs) > os_max_size s) \<longleftrightarrow>
      unat ?b + length bs > unat (os_max_size s)"
    using assms(1) by (auto simp: word_less_nat_alt mod_if)
  then show "pb_write buf (of_nat (length bs)) s = emit bs s"
    using assms(2) by (auto simp: pb_write_def emit_def stream_write_def z n)
qed

lemma emits_count: "\<not> os_callback s \<Longrightarrow> pb_write buf (of_nat (length bs)) s = emit bs s"
  by (simp add: pb_write_def emit_def)

section \<open>Varints\<close>

lemma byte_or_80: "unat (b :: u8) = v mod 128 \<Longrightarrow> b OR 0x80 = of_nat (128 + v mod 128)"
proof -
  assume b: "unat b = v mod 128"
  have "unat (b OR push_bit 7 (ucast (1 :: u8))) = unat b + unat (1 :: u8) * 2 ^ 7"
    by (rule or_chunk) (simp_all add: b)
  then have "unat (b OR 0x80) = 128 + v mod 128" by (simp add: b)
  then show ?thesis by (metis of_nat_unat ucast_id)
qed

lemma unat_low7: "unat (ucast (w AND 0x7F) :: u8) = unat w mod 128" for w :: u32
proof -
  have "unat (w AND 0x7F) = unat w AND mask 7" by (simp add: unsigned_and_eq mask_eq_exp_minus_1)
  then have "unat (w AND 0x7F) = unat w mod 128" by (simp add: take_bit_eq_mask [symmetric] take_bit_eq_mod)
  moreover have "unat (ucast (w AND 0x7F) :: u8) = unat (w AND 0x7F) mod 2 ^ 8"
    by (simp add: unsigned_ucast_eq take_bit_eq_mod)
  ultimately show ?thesis by simp
qed

lemma enc_varint_small: "v < 128 \<Longrightarrow> unat b = v \<Longrightarrow> enc_varint v = [b]"
  by (subst enc_varint.simps) (metis of_nat_unat ucast_id)

lemma enc_varint_step: "128 \<le> v \<Longrightarrow> enc_varint v = of_nat (128 + v mod 128) # enc_varint (v div 128)"
  by (subst enc_varint.simps) simp

lemma low_loop_zero:
  assumes "unat byte = v mod 128" "unat low = v div 128" "v < 128 ^ (5 - length buffer)" "length buffer \<le> 4"
  shows "(case low_loop low 0 byte buffer of (b, buf) \<Rightarrow> buf @ [b]) = buffer @ enc_varint v"
  using assms
proof (induction "4 - length buffer" arbitrary: v low byte buffer)
  case 0
  then have "length buffer = 4" "v < 128" by simp_all
  with 0 show ?case by (subst low_loop.simps) (simp add: enc_varint_small)
next
  case (Suc n)
  show ?case
  proof (cases "v < 128")
    case True
    then have "low = 0" using Suc.prems(2) by (simp add: unat_eq_0)
    with True Suc.prems(1) show ?thesis by (subst low_loop.simps) (simp add: enc_varint_small)
  next
    case False
    then have "low \<noteq> 0" using Suc.prems(2) by (auto simp: div_eq_0_iff)
    moreover have "length buffer < 4" using Suc.hyps(2) by simp
    moreover from this have "v div 128 < 128 ^ (5 - length (buffer @ [byte OR 0x80]))"
    proof -
      have "5 - length buffer = Suc (5 - length (buffer @ [byte OR 0x80]))" using \<open>length buffer < 4\<close> by simp
      then have "v < 128 ^ (5 - length (buffer @ [byte OR 0x80])) * 128" using Suc.prems(3) by (simp only: power_Suc2)
      then show ?thesis by (rule less_mult_imp_div_less)
    qed
    ultimately show ?thesis
      using Suc.hyps(1) [of "buffer @ [byte OR 0x80]" "ucast (low AND 0x7F)" "v div 128" "drop_bit 7 low"] Suc.hyps(2)
        Suc.prems(1,2) enc_varint_step [of v] byte_or_80 [OF Suc.prems(1)] False
      by (subst low_loop.simps) (simp add: unat_low7 unat_drop_bit)
  qed
qed

lemma low_loop_full:
  assumes "high \<noteq> 0" "unat byte = v mod 128" "unat low = v div 128" "length buffer + n = 4" "0 < h"
  shows "\<exists>b buf. low_loop low high byte buffer = (b, buf) \<and> unat b = v div 128 ^ n mod 128 \<and>
    buf @ enc_varint (v div 128 ^ n + h) = buffer @ enc_varint (v + h * 128 ^ n)"
  using assms
proof (induction n arbitrary: v low byte buffer)
  case 0
  then show ?case by (subst low_loop.simps) simp
next
  case (Suc n)
  have "1 \<le> h * 128 ^ n" using Suc.prems(5) by (simp add: Suc_le_eq)
  moreover have "h * 128 ^ Suc n = 128 * (h * 128 ^ n)" by simp
  ultimately have "128 \<le> v + h * 128 ^ Suc n" by linarith
  moreover have "(v + h * 128 ^ Suc n) mod 128 = v mod 128" "(v + h * 128 ^ Suc n) div 128 = v div 128 + h * 128 ^ n"
    by (simp_all add: mult.left_commute [of h])
  ultimately have e: "enc_varint (v + h * 128 ^ Suc n) = of_nat (128 + v mod 128) # enc_varint (v div 128 + h * 128 ^ n)"
    using enc_varint_step [of "v + h * 128 ^ Suc n"] by simp
  from Suc.IH [of "ucast (low AND 0x7F)" "v div 128" "drop_bit 7 low" "buffer @ [byte OR 0x80]"] Suc.prems
  show ?case
    by (subst low_loop.simps)
      (simp add: unat_low7 unat_drop_bit e [unfolded power_Suc] byte_or_80 [OF Suc.prems(2)] div_mult2_eq)
qed
lemma high_loop_enc:
  assumes "unat byte = v mod 128" "unat high = v div 128"
  shows "(case high_loop high byte buffer of (b, buf) \<Rightarrow> buf @ [b]) = buffer @ enc_varint v"
  using assms
proof (induction v arbitrary: byte high buffer rule: less_induct)
  case (less v)
  show ?case
  proof (cases "v < 128")
    case True
    then have "high = 0" using less.prems(2) by (simp add: unat_eq_0)
    with True less.prems(1) show ?thesis by (subst high_loop.simps) (simp add: enc_varint_small)
  next
    case False
    then have "high \<noteq> 0" using less.prems(2) by (auto simp: div_eq_0_iff)
    with False less.IH [of "v div 128" "ucast (high AND 0x7F)" "drop_bit 7 high" "buffer @ [byte OR 0x80]"] less.prems
    show ?thesis
      by (subst high_loop.simps)
        (simp add: unat_low7 unat_drop_bit enc_varint_step [of v] byte_or_80 [OF less.prems(1)])
  qed
qed

lemma middle_byte:
  fixes high :: u32
  assumes "unat (b :: u8) < 16"
  shows "unat (ucast (ucast b OR push_bit 4 (high AND 0x07)) :: u8) = unat b + 16 * (unat high mod 8)"
proof -
  have "unat (high AND 0x07) = unat high AND mask 3" by (simp add: unsigned_and_eq mask_eq_exp_minus_1)
  then have h: "unat (high AND 0x07) = unat high mod 8" by (simp add: take_bit_eq_mask [symmetric] take_bit_eq_mod)
  have "high AND 0x07 = take_bit 3 high" by (simp add: take_bit_eq_mask mask_eq_exp_minus_1)
  then have c: "(ucast (ucast (high AND 0x07) :: u8) :: u32) = high AND 0x07"
    by (simp only:) (rule bit_word_eqI, auto simp: bit_simps)
  have b32: "unat (ucast b :: u32) = unat b" using assms by (simp add: unsigned_ucast_eq take_bit_nat_eq_self)
  have "unat (ucast (high AND 0x07) :: u8) = unat high mod 8"
    using h by (simp add: unsigned_ucast_eq take_bit_nat_eq_self)
  moreover have "unat (ucast b OR push_bit 4 (ucast (ucast (high AND 0x07) :: u8)) :: u32) =
      unat (ucast b :: u32) + unat (ucast (high AND 0x07) :: u8) * 2 ^ 4"
    by (rule or_chunk) (use assms calculation in \<open>simp_all add: unsigned_ucast_eq take_bit_nat_eq_self\<close>)
  ultimately have "unat (ucast b OR push_bit 4 (high AND 0x07) :: u32) = unat b + 16 * (unat high mod 8)"
    using b32 by (simp only: c) simp
  moreover from this have "\<dots> < 2 ^ 8" proof -
    have "unat high mod 8 < 8" by simp
    with assms have "unat b + 16 * (unat high mod 8) < 256" by linarith
    then show ?thesis by simp
  qed
  ultimately show ?thesis by (simp only: unsigned_ucast_eq) (simp add: take_bit_nat_eq_self)
qed

lemma split_16:
  fixes a h :: nat
  assumes "a < 16"
  shows "(a + 16 * h) mod 128 = a + 16 * (h mod 8)" "(a + 16 * h) div 128 = h div 8"
proof -
  have "(a + 16 * h) div 16 = h" "(a + 16 * h) mod 16 = a" using assms by simp_all
  then show "(a + 16 * h) mod 128 = a + 16 * (h mod 8)" "(a + 16 * h) div 128 = h div 8"
    using mod_mult2_eq [of "a + 16 * h" 16 8] div_mult2_eq [of "a + 16 * h" 16 8] by simp_all
qed

lemma varint_32_bytes:
  "pb_encode_varint_32 low high = pb_write (enc_varint (unat low + unat high * 2 ^ 32))
     (of_nat (length (enc_varint (unat low + unat high * 2 ^ 32))))"
proof (cases "high = 0")
  case True
  have "unat low < 128 ^ 5" using unsigned_less [of low, where 'a = nat] by simp
  moreover obtain b buf where l: "low_loop (drop_bit 7 low) high (ucast (low AND 0x7F)) [] = (b, buf)" by fastforce
  ultimately have "buf @ [b] = enc_varint (unat low + unat high * 2 ^ 32)"
    using True low_loop_zero [of "ucast (low AND 0x7F)" "unat low" "drop_bit 7 low" "[]"]
    by (simp add: unat_low7 unat_drop_bit)
  with True show ?thesis unfolding fun_eq_iff pb_encode_varint_32_def l prod.case by (simp del: length_append)
next
  case False
  then have "0 < 16 * unat high" by (simp add: unat_gt_0)
  then obtain b buf where l: "low_loop (drop_bit 7 low) high (ucast (low AND 0x7F)) [] = (b, buf)"
      "unat b = unat low div 128 ^ 4 mod 128"
      "buf @ enc_varint (unat low div 128 ^ 4 + 16 * unat high) = enc_varint (unat low + 16 * unat high * 128 ^ 4)"
    using low_loop_full [OF False, of "ucast (low AND 0x7F)" "unat low" "drop_bit 7 low" "[]" 4 "16 * unat high"]
    unfolding unat_low7 unat_drop_bit by auto
  have p: "(128 :: nat) ^ 4 = 2 ^ 28" "16 * unat high * 2 ^ 28 = unat high * 2 ^ 32" by simp_all
  note l = l [unfolded p]
  have "unat low < 16 * 2 ^ 28" using unsigned_less [of low, where 'a = nat] by simp
  then have "unat low div 2 ^ 28 < 16" by (rule less_mult_imp_div_less)
  with l(2) have b: "unat b = unat low div 2 ^ 28" "unat b < 16" by simp_all
  note d = split_16 [OF b(2), of "unat high"]
  have "(case high_loop (drop_bit 3 high) (ucast (ucast b OR push_bit 4 (high AND 0x07))) buf of (c, d) \<Rightarrow> d @ [c]) =
      buf @ enc_varint (unat b + 16 * unat high)"
    by (intro high_loop_enc) (simp_all only: middle_byte [OF b(2)] unat_drop_bit d, simp)
  then obtain c d where h: "high_loop (drop_bit 3 high) (ucast (ucast b OR push_bit 4 (high AND 0x07))) buf = (c, d)"
      "d @ [c] = enc_varint (unat low + unat high * 2 ^ 32)"
    using l(3) b(1) by (auto split: prod.splits)
  with False show ?thesis unfolding fun_eq_iff pb_encode_varint_32_def l(1) prod.case by (simp del: length_append)
qed

lemma length_enc_varint: "v < 128 ^ Suc n \<Longrightarrow> length (enc_varint v) \<le> Suc n"
proof (induction n arbitrary: v)
  case (Suc n)
  then have "v < 128 ^ Suc n * 128" by simp
  then have "v div 128 < 128 ^ Suc n" by (rule less_mult_imp_div_less)
  from Suc.IH [OF this] show ?case by (subst enc_varint.simps) simp
qed (simp add: enc_varint.simps)

lemma emits_varint: "emits (pb_encode_varint w) (enc_varint (unat w))"
proof -
  have "unat w < 128 ^ Suc 9" using unsigned_less [of w, where 'a = nat] by simp
  from length_enc_varint [OF this] have "length (enc_varint (unat w)) < 2 ^ 32" by simp
  then have e: "emits (pb_write (enc_varint (unat w)) (of_nat (length (enc_varint (unat w))))) (enc_varint (unat w))"
    by (rule emits_write) simp
  show ?thesis
  proof (cases "w \<le> 0x7F")
    case True
    then have "unat w < 128" by (simp add: word_le_nat_alt)
    moreover from this have "unat (ucast w :: u8) = unat w" by (simp add: unsigned_ucast_eq take_bit_nat_eq_self)
    ultimately have "enc_varint (unat w) = [ucast w]" by (rule enc_varint_small)
    with e True show ?thesis by (simp add: emits_def pb_encode_varint_def)
  next
    case False
    have "unat (ucast w :: u32) + unat (ucast (drop_bit 32 w) :: u32) * 2 ^ 32 = unat w"
    proof -
      have "unat (drop_bit 32 w) < 2 ^ 32"
        unfolding unat_drop_bit using unsigned_less [of w, where 'a = nat] by (intro less_mult_imp_div_less) simp
      then have "unat (ucast (drop_bit 32 w) :: u32) = unat w div 2 ^ 32"
        by (simp add: unsigned_ucast_eq take_bit_nat_eq_self unat_drop_bit)
      moreover have "unat (ucast w :: u32) = unat w mod 2 ^ 32" by (simp add: unsigned_ucast_eq take_bit_eq_mod)
      ultimately show ?thesis by simp
    qed
    with e False show ?thesis by (simp add: emits_def pb_encode_varint_def varint_32_bytes)
  qed
qed
section \<open>Keys, strings and submessages\<close>

lemma unat_key: "unat (push_bit 3 (ucast tag) :: u64) = 8 * unat tag" for tag :: u32
proof -
  have "unat tag < 2 ^ 32" using unsigned_less [of tag, where 'a = nat] by simp
  then have "unat (ucast tag :: u64) = unat tag" "unat tag * 8 < 2 ^ 64"
    by (simp_all add: unsigned_ucast_eq take_bit_nat_eq_self)
  then show ?thesis by (simp only: unsigned_push_bit_eq) (simp add: push_bit_eq_mult take_bit_nat_eq_self)
qed

lemma emits_key:
  "emits (pb_encode_tag PB_WT_VARINT tag) (enc_key (unat tag) 0)"
  "emits (pb_encode_tag PB_WT_STRING tag) (enc_key (unat tag) 2)"
proof -
  let ?k = "push_bit 3 (ucast tag) :: u64"
  have or2: "?k OR 2 = ?k + 2"
    by (rule disjunctive_add [symmetric]) (auto simp: bit_simps bit_2_iff)
  have "unat tag < 2 ^ 32" using unsigned_less [of tag, where 'a = nat] by simp
  then have "unat (?k + 2) = 8 * unat tag + 2" by (simp add: unat_word_ariths unat_key)
  then show "emits (pb_encode_tag PB_WT_VARINT tag) (enc_key (unat tag) 0)"
    "emits (pb_encode_tag PB_WT_STRING tag) (enc_key (unat tag) 2)"
    using emits_varint [of ?k] emits_varint [of "?k + 2"] or2
    by (simp_all add: emits_def pb_encode_tag_def enc_key_def unat_key)
qed

lemma emits_length: "n < 2 ^ 32 \<Longrightarrow> emits (pb_encode_varint (ucast (of_nat n :: u32))) (enc_varint n)"
proof -
  assume "n < 2 ^ 32"
  then have "unat (ucast (of_nat n :: u32) :: u64) = n"
    by (simp add: unsigned_ucast_eq unat_of_nat take_bit_nat_eq_self)
  then show ?thesis using emits_varint [of "ucast (of_nat n :: u32)"] by simp
qed

lemma emits_string:
  assumes "length bs < 2 ^ 32" "take (length bs) buf = bs" "n = length bs"
  shows "emits (pb_encode_string buf (of_nat n)) (enc_varint n @ bs)"
  using emits_then [OF emits_length [OF assms(1)] emits_write [OF assms(1,2)]]
  by (simp add: pb_encode_string_def emits_def assms(3))

lemma emits_sizing: "emits e x \<Longrightarrow> map_option os_bytes_written (e PB_OSTREAM_SIZING) = Some (of_nat (length x))"
  using emitsD [of e x PB_OSTREAM_SIZING] by (simp add: PB_OSTREAM_SIZING_def emit_def)

lemma emits_submessage:
  assumes "emits e x" "length x < 2 ^ 32"
  shows "emits (pb_encode_submessage e) (enc_varint (length x) @ x)"
proof (rule emitsI)
  fix s :: pb_ostream_t
  let ?v = "enc_varint (length x)" and ?n = "of_nat (length x) :: u32"
  assume s: "os_callback s \<longrightarrow> unat (os_bytes_written s) + length (?v @ x) < 2 ^ 32"
  have n: "unat ?n = length x" using assms(2) by (simp only: unat_of_nat) simp
  obtain z where z: "e PB_OSTREAM_SIZING = Some z" "os_bytes_written z = ?n" using emits_sizing [OF assms(1)] by auto
  have v: "pb_encode_varint (ucast ?n) s = emit ?v s" by (rule emitsD [OF emits_length [OF assms(2)]]) (use s in auto)
  show "pb_encode_submessage e s = emit (?v @ x) s"
  proof (cases "emit ?v s")
    case None
    then show ?thesis using emit_append [of ?v s x] by (simp add: pb_encode_submessage_def z v)
  next
    case (Some s1)
    have x: "emit (?v @ x) s = emit x s1" using emit_append [of ?v s x] Some by simp
    show ?thesis
    proof (cases "os_callback s")
      case False
      with Some have "\<not> os_callback s1" by (auto simp: emit_def)
      then show ?thesis using emits_count [of s1 "[]" x] by (simp add: pb_encode_submessage_def z v Some x)
    next
      case True
      with s Some have s1: "os_callback s1" "unat (os_bytes_written s1) + length x < 2 ^ 32"
        using emit_written [OF Some] by simp_all
      have le: "unat (os_bytes_written s1) \<le> unat (os_max_size s1)"
        using Some True emit_written(2) [OF Some] s by (auto simp: emit_def split: if_splits)
      have sum: "unat (os_bytes_written s1 + ?n) = unat (os_bytes_written s1) + length x"
        using s1(2) by (simp add: unat_word_ariths n)
      let ?sub = "\<lparr>os_callback = True, os_state = os_state s1, os_max_size = ?n, os_bytes_written = 0\<rparr>"
      have "e ?sub = emit x ?sub" by (rule emitsD [OF assms(1)]) (use assms(2) in simp)
      then have "e ?sub = Some (?sub\<lparr>os_state := os_state s1 @ x, os_bytes_written := ?n\<rparr>)"
        by (simp add: emit_def n)
      then have "pb_encode_submessage e s = (if unat (os_bytes_written s1) + length x > unat (os_max_size s1) then None
          else Some (s1\<lparr>os_state := os_state s1 @ x, os_bytes_written := os_bytes_written s1 + ?n\<rparr>))"
        by (simp add: pb_encode_submessage_def z v Some s1(1) Let_def word_less_nat_alt sum)
      also have "\<dots> = emit x s1" using le s1(1) by (auto simp: emit_def)
      finally show ?thesis by (simp add: x)
    qed
  qed
qed
section \<open>Reference encoder\<close>

abbreviation no_encode_callbacks :: encode_callbacks where
  "no_encode_callbacks \<equiv> \<lambda>i. None"

fun wire_type_of :: "ltype \<Rightarrow> nat" where
  "wire_type_of lt = (if packable lt then 0 else 2)"

primrec enc_value :: "ltype \<Rightarrow> pval \<Rightarrow> bytes" and enc_field :: "pb_field \<Rightarrow> slot \<Rightarrow> bytes" where
  "enc_value LT_BOOL = (\<lambda>v. case v of VInt w \<Rightarrow> enc_varint (unat w) | _ \<Rightarrow> [])"
| "enc_value (LT_VARINT n) = (\<lambda>v. case v of VInt w \<Rightarrow> enc_varint (unat w) | _ \<Rightarrow> [])"
| "enc_value (LT_UVARINT n) = (\<lambda>v. case v of VInt w \<Rightarrow> enc_varint (unat w) | _ \<Rightarrow> [])"
| "enc_value (LT_BYTES n) = (\<lambda>v. case v of VBytes k b \<Rightarrow> enc_varint k @ take k b | _ \<Rightarrow> [])"
| "enc_value (LT_STRING n) = (\<lambda>v. case v of VBuf b \<Rightarrow> enc_varint (strlen b) @ cstr b | _ \<Rightarrow> [])"
| "enc_value (LT_FIXED_LENGTH_BYTES n) = (\<lambda>v. case v of VBuf b \<Rightarrow> enc_varint n @ b | _ \<Rightarrow> [])"
| "enc_value (LT_SUBMESSAGE fs) =
     (\<lambda>v. case v of
        VMsg m \<Rightarrow> let x = concat (map2 (\<lambda>e sl. e sl) (map enc_field fs) m) in enc_varint (length x) @ x
      | _ \<Rightarrow> [])"
| "enc_field (Field tag atype htype lt) =
     (\<lambda>sl.
       let basic = (\<lambda>v. enc_key (unat tag) (wire_type_of lt) @ enc_value lt v) in
       case atype of
         CALLBACK _ \<Rightarrow> []
       | STATIC \<Rightarrow>
           (case htype of
              SINGULAR \<Rightarrow>
                if pb_check_proto3_default_value (Field tag atype htype lt) no_encode_callbacks sl then []
                else basic (hd (s_vals sl))
            | OPTIONAL \<Rightarrow> if s_has sl then basic (hd (s_vals sl)) else []
            | REPEATED n \<Rightarrow>
                if s_vals sl = [] then []
                else if packable lt then
                  let x = concat (map (enc_value lt) (s_vals sl)) in enc_key (unat tag) 2 @ enc_varint (length x) @ x
                else concat (map basic (s_vals sl))))"

definition enc_msg :: "pb_field list \<Rightarrow> slot list \<Rightarrow> bytes" where
  "enc_msg fs m = concat (map2 enc_field fs m)"

text \<open>Descriptors whose sizes fit in \<^verbatim>\<open>pb_size_t\<close> and whose tags are distinct.\<close>

primrec ok_ltype :: "ltype \<Rightarrow> bool" and ok_field :: "pb_field \<Rightarrow> bool" where
  "ok_ltype LT_BOOL = True"
| "ok_ltype (LT_VARINT n) = (n \<in> {1, 2, 4, 8})"
| "ok_ltype (LT_UVARINT n) = (n \<in> {1, 2, 4, 8})"
| "ok_ltype (LT_BYTES n) = (n \<le> 0xFFFF)"
| "ok_ltype (LT_STRING n) = (0 < n \<and> n \<le> 0xFFFF)"
| "ok_ltype (LT_FIXED_LENGTH_BYTES n) = (n \<le> 0xFFFF)"
| "ok_ltype (LT_SUBMESSAGE fs) = (distinct (map f_tag fs) \<and> list_all id (map ok_field fs))"
| "ok_field (Field tag atype htype lt) = (0 < unat tag \<and> unat tag < 2 ^ 16 \<and> (atype = STATIC \<longrightarrow> ok_ltype lt))"

definition ok_fields :: "pb_field list \<Rightarrow> bool" where
  "ok_fields fs \<longleftrightarrow> distinct (map f_tag fs) \<and> list_all ok_field fs"

text \<open>
  The memory of a message without leftovers: well-typed, zero after the end of strings and bytes, and with default
  values in optional members that are absent.
\<close>

primrec canon_value :: "ltype \<Rightarrow> pval \<Rightarrow> bool" and canon_field :: "pb_field \<Rightarrow> slot \<Rightarrow> bool" where
  "canon_value LT_BOOL = (\<lambda>v. v = VInt 0 \<or> v = VInt 1)"
| "canon_value (LT_VARINT n) = (\<lambda>v. \<exists>w. v = VInt w \<and> read_signed n w = Some w)"
| "canon_value (LT_UVARINT n) = (\<lambda>v. \<exists>w. v = VInt w \<and> read_unsigned n w = Some w)"
| "canon_value (LT_BYTES n) = (\<lambda>v. \<exists>b. v = VBytes (length b) (b @ replicate (n - length b) 0) \<and> length b \<le> n)"
| "canon_value (LT_STRING n) = (\<lambda>v. \<exists>b. v = VBuf (b @ replicate (n - length b) 0) \<and> length b < n \<and> 0 \<notin> set b)"
| "canon_value (LT_FIXED_LENGTH_BYTES n) = (\<lambda>v. \<exists>b. v = VBuf b \<and> length b = n)"
| "canon_value (LT_SUBMESSAGE fs) = (\<lambda>v. \<exists>m. v = VMsg m \<and> list_all2 (\<lambda>p sl. p sl) (map canon_field fs) m)"
| "canon_field (Field tag atype htype lt) =
     (\<lambda>sl. s_tag sl = tag \<and>
       (case atype of
          CALLBACK _ \<Rightarrow> \<not> s_has sl \<and> s_vals sl = []
        | STATIC \<Rightarrow>
            (case htype of
               SINGULAR \<Rightarrow> \<not> s_has sl \<and> (\<exists>v. s_vals sl = [v] \<and> canon_value lt v)
             | OPTIONAL \<Rightarrow> \<exists>v. s_vals sl = [v] \<and> canon_value lt v \<and> (s_has sl \<or> v = default_val lt)
             | REPEATED n \<Rightarrow> \<not> s_has sl \<and> length (s_vals sl) \<le> n \<and> list_all (canon_value lt) (s_vals sl))))"

definition canon_msg :: "pb_field list \<Rightarrow> slot list \<Rightarrow> bool" where
  "canon_msg fs m \<longleftrightarrow> list_all2 canon_field fs m"

lemma map2_map: "map2 (\<lambda>e x. e x) (map f xs) ys = map2 f xs ys"
  by (induction xs arbitrary: ys) (auto simp: zip_Cons1 split: list.splits)

lemma submessage_simps [simp]:
  "enc_value (LT_SUBMESSAGE fs) (VMsg m) = enc_varint (length (enc_msg fs m)) @ enc_msg fs m"
  "ok_ltype (LT_SUBMESSAGE fs) \<longleftrightarrow> ok_fields fs"
  "canon_value (LT_SUBMESSAGE fs) v \<longleftrightarrow> (\<exists>m. v = VMsg m \<and> canon_msg fs m)"
  by (simp_all add: enc_msg_def map2_map ok_fields_def canon_msg_def list_all2_map1 list_all_iff Let_def)

lemma encode_value_submessage [simp]:
  "encode_value (LT_SUBMESSAGE fs) ecb (VMsg m) = pb_encode_submessage (pb_encode ecb fs m)"
proof -
  have "map2 (\<lambda>encode. encode ecb) (map encode_field fs) m = map2 (\<lambda>f. encode_field f ecb) fs m"
    by (induction fs arbitrary: m) (auto simp: zip_Cons1 split: list.splits)
  then show ?thesis by (simp add: pb_encode_def)
qed

declare enc_value.simps(7) [simp del] ok_ltype.simps(7) [simp del] canon_value.simps(7) [simp del]
  encode_value.simps(7) [simp del]

section \<open>The encoder writes the reference encoding\<close>

lemma emits_tag_for_field: "emits (pb_encode_tag_for_field tag lt) (enc_key (unat tag) (wire_type_of lt))"
  using emits_key [of tag] by (cases lt) (simp_all add: emits_def pb_encode_tag_for_field_def)

lemma read_signed_bool: "v = VInt 0 \<or> v = VInt 1 \<Longrightarrow> \<exists>w. v = VInt w \<and> read_signed 1 w = Some w"
  by (auto simp: read_signed_def)

lemma emits_packable:
  assumes "packable lt" "canon_value lt v"
  shows "emits (pb_enc_varint lt v) (enc_value lt v)"
  using assms emits_varint read_signed_bool
  by (cases lt) (fastforce simp: emits_def pb_enc_varint_def)+

lemma emits_array:
  assumes "packable lt" "list_all (canon_value lt) vals" "vals \<noteq> []" "length vals \<le> n"
    "length (concat (map (enc_value lt) vals)) < 2 ^ 32"
  shows "emits (encode_array tag lt n vals es)
    (let x = concat (map (enc_value lt) vals) in enc_key (unat tag) 2 @ enc_varint (length x) @ x)"
proof -
  let ?x = "concat (map (enc_value lt) vals)" and ?e = "encode_all (map (pb_enc_varint lt) vals)"
  have e: "emits ?e ?x"
    using assms(1,2) by (intro emits_all) (simp add: list_all2_conv_all_nth emits_packable list_all_length)
  obtain z where z: "?e PB_OSTREAM_SIZING = Some z" "os_bytes_written z = of_nat (length ?x)"
    using emits_sizing [OF e] by auto
  have "emits (\<lambda>s. if \<not> os_callback s then pb_write [] (of_nat (length ?x)) s else ?e s) ?x"
    using emitsD [OF e] emits_count [of _ "[]" ?x] by (intro emitsI) simp
  from emits_then [OF emits_key(2) [of tag] emits_then [OF emits_length [OF assms(5)] this]]
  show ?thesis using assms(1,3,4) by (simp add: emits_def encode_array_def z Let_def cong: if_cong)
qed

lemma length_concat_nth: "i < length xs \<Longrightarrow> length (xs ! i) \<le> length (concat xs)"
  by (simp add: length_concat member_le_sum_list)

lemma emits_message:
  assumes "\<And>f sl. f \<in> set fs \<Longrightarrow> canon_field f sl \<Longrightarrow> length (enc_field f sl) < 2 ^ 32 \<Longrightarrow>
      emits (encode_field f no_encode_callbacks sl) (enc_field f sl)"
    "canon_msg fs m" "length (enc_msg fs m) < 2 ^ 32"
  shows "emits (pb_encode no_encode_callbacks fs m) (enc_msg fs m)"
proof -
  have "emits (encode_field (fs ! i) no_encode_callbacks (m ! i)) (enc_field (fs ! i) (m ! i))" if "i < length fs" for i
  proof -
    have i: "i < length m" "canon_field (fs ! i) (m ! i)"
      using assms(2) that by (auto simp: canon_msg_def list_all2_conv_all_nth)
    have "length (enc_field (fs ! i) (m ! i)) \<le> length (enc_msg fs m)"
      using that i(1) length_concat_nth [of i "map2 enc_field fs m"] by (simp add: enc_msg_def)
    with assms(1,3) that i show ?thesis by simp
  qed
  then have "list_all2 emits (map2 (\<lambda>f. encode_field f no_encode_callbacks) fs m) (map2 enc_field fs m)"
    using assms(2) by (auto simp: list_all2_conv_all_nth canon_msg_def)
  then show ?thesis unfolding pb_encode_def enc_msg_def by (rule emits_all)
qed

lemma emits_repeated:
  assumes "canon_field (Field tag STATIC (REPEATED n) lt) sl" "length (enc_field (Field tag STATIC (REPEATED n) lt) sl) < 2 ^ 32"
    "\<And>v. canon_value lt v \<Longrightarrow> length (enc_key (unat tag) (wire_type_of lt) @ enc_value lt v) < 2 ^ 32 \<Longrightarrow>
       emits (basic v) (enc_key (unat tag) (wire_type_of lt) @ enc_value lt v)"
  shows "emits (encode_array tag lt n (s_vals sl) (map basic (s_vals sl))) (enc_field (Field tag STATIC (REPEATED n) lt) sl)"
proof -
  let ?f = "Field tag STATIC (REPEATED n) lt" and ?vals = "s_vals sl"
  let ?enc = "\<lambda>v. enc_key (unat tag) (wire_type_of lt) @ enc_value lt v"
  have c: "list_all (canon_value lt) ?vals" "length ?vals \<le> n" using assms(1) by simp_all
  consider "?vals = []" | "?vals \<noteq> []" "packable lt" | "?vals \<noteq> []" "\<not> packable lt" by blast
  then show ?thesis
  proof cases
    case 1
    then show ?thesis by (simp add: Let_def emits_def encode_array_def)
  next
    case 2
    then have e: "enc_field ?f sl =
        (let x = concat (map (enc_value lt) ?vals) in enc_key (unat tag) 2 @ enc_varint (length x) @ x)"
      by (simp add: Let_def)
    with assms(2) have "length (concat (map (enc_value lt) ?vals)) < 2 ^ 32" by (simp add: Let_def)
    from emits_array [OF 2(2) c(1) 2(1) c(2) this] show ?thesis unfolding e .
  next
    case 3
    then have e: "enc_field ?f sl = concat (map ?enc ?vals)" by (simp add: Let_def)
    have "length (?enc v) < 2 ^ 32" if "v \<in> set ?vals" for v
      using that assms(2) length_concat_nth [of _ "map ?enc ?vals"] unfolding e in_set_conv_nth by fastforce
    then have "list_all2 emits (map basic ?vals) (map ?enc ?vals)"
      using c(1) assms(3) by (auto simp: list_all2_conv_all_nth list_all_length)
    from emits_all [OF this] show ?thesis
      unfolding e using 3 c(2) by (simp add: emits_def encode_array_def)
  qed
qed

lemma emits_value_and_field:
  "ok_ltype lt \<Longrightarrow> canon_value lt v \<Longrightarrow> length (enc_value lt v) < 2 ^ 32 \<Longrightarrow>
    emits (encode_value lt no_encode_callbacks v) (enc_value lt v)"
  "ok_field f \<Longrightarrow> canon_field f sl \<Longrightarrow> length (enc_field f sl) < 2 ^ 32 \<Longrightarrow>
    emits (encode_field f no_encode_callbacks sl) (enc_field f sl)"
proof (induction lt and f arbitrary: v and sl)
  case LT_BOOL
  then show ?case using emits_varint [of 0] emits_varint [of 1] by (auto simp: emits_def pb_enc_bool_def)
next
  case (LT_VARINT n)
  then show ?case using emits_packable [of "LT_VARINT n" v] by simp
next
  case (LT_UVARINT n)
  then show ?case using emits_packable [of "LT_UVARINT n" v] by simp
next
  case (LT_BYTES n)
  then obtain b where b: "v = VBytes (length b) (b @ replicate (n - length b) 0)" "length b \<le> n" by auto
  with LT_BYTES.prems(1) emits_string [of b "b @ replicate (n - length b) 0"] show ?case
    by (simp add: emits_def pb_enc_bytes_def)
next
  case (LT_STRING n)
  then obtain b where b: "v = VBuf (b @ replicate (n - length b) 0)" "length b < n" "0 \<notin> set b" by auto
  then have "takeWhile (\<lambda>c. c \<noteq> 0) (take (n - 1) (b @ replicate (n - length b) 0)) = b"
    using cstr_append [OF b(3), of "replicate (n - Suc (length b)) 0"] by (cases "n - Suc (length b)") (simp_all add: cstr_def)
  moreover have "cstr (b @ replicate (n - length b) 0) = b"
    using cstr_append [OF b(3), of "replicate (n - length b) 0"] by (cases "n - length b") simp_all
  ultimately show ?case
    using LT_STRING.prems(1) b emits_string [of b "b @ replicate (n - length b) 0"]
    by (simp add: emits_def pb_enc_string_def strlen_def nth_append)
next
  case (LT_FIXED_LENGTH_BYTES n)
  then obtain b where "v = VBuf b" "length b = n" by auto
  with LT_FIXED_LENGTH_BYTES.prems(1) emits_string [of b b] show ?case
    by (auto simp: emits_def pb_enc_fixed_length_bytes_def)
next
  case (LT_SUBMESSAGE fs)
  then obtain m where m: "v = VMsg m" "canon_msg fs m" by auto
  have l: "length (enc_msg fs m) < 2 ^ 32" using LT_SUBMESSAGE.prems(3) m(1) by simp
  have "emits (pb_encode no_encode_callbacks fs m) (enc_msg fs m)"
    by (rule emits_message [OF _ m(2) l]) (use LT_SUBMESSAGE in \<open>auto simp: ok_fields_def list_all_iff\<close>)
  from emits_submessage [OF this l] show ?case by (simp add: m(1))
next
  case (Field tag a h lt)
  let ?basic = "\<lambda>v s. pb_encode_tag_for_field tag lt s \<bind> encode_value lt no_encode_callbacks v"
  let ?enc = "\<lambda>v. enc_key (unat tag) (wire_type_of lt) @ enc_value lt v"
  have basic: "emits (?basic v) (?enc v)" if "a = STATIC" "canon_value lt v" "length (?enc v) < 2 ^ 32" for v
    using emits_then [OF emits_tag_for_field Field.IH [of v]] Field.prems(1) that by simp
  have none: "emits (\<lambda>s. Some s) []" by (simp add: emits_def)
  show ?case
  proof (cases a)
    case (CALLBACK i)
    then show ?thesis using none by (simp add: encode_callback_field_def emits_def)
  next
    case STATIC
    show ?thesis
    proof (cases h)
      case SINGULAR
      then show ?thesis using basic Field.prems none STATIC by (auto simp: Let_def emits_def)
    next
      case OPTIONAL
      then show ?thesis using basic Field.prems none STATIC by (auto simp: Let_def emits_def)
    next
      case (REPEATED n)
      then show ?thesis using Field.prems STATIC basic by (auto simp: Let_def simp del: enc_field.simps intro!: emits_repeated)
    qed
  qed
qed

end
