(* ===== verification/Message_Roundtrip.thy ===== *)
theory Message_Roundtrip
  imports Encoder_Bytes Messages
begin

text \<open>
  The decoder on encoded messages: it gives back every message in the form in which the decoder leaves its memory.
  With the theory of the bytes the encoder writes this is the round trip of the protocol-buffer library.
\<close>

unbundle bit_operations_syntax

section \<open>Values\<close>

lemma read_append: "pb_read (IStream g q (bs @ rest)) (length bs) = Some (bs, IStream g (q + length bs) rest)"
  by (auto simp: pb_read_def buf_read_def bytes_left_def)

lemma signed_narrow:
  "scast (ucast (scast x :: u64) :: u32) = (scast x :: u64)"
  "scast (ucast (scast y :: u64) :: u32) = (scast y :: u64)" for x :: u8 and y :: u16
  by (rule bit_word_eqI, auto simp: bit_simps min.assoc [symmetric])+

lemma read_signed_32: "read_signed n w = Some w \<Longrightarrow> n \<noteq> 8 \<Longrightarrow> scast (ucast w :: u32) = w"
  using signed_narrow(1) [of "ucast w"] signed_narrow(2) [of "ucast w"] by (auto simp: read_signed_def split: if_splits)

lemma unat64_less_pow: "unat (w :: u64) < 2 ^ 64"
  using unsigned_less [of w, where 'a = nat] by simp

lemma varint_enc:
  "read_signed n w = Some w \<Longrightarrow> pb_dec_svarint n (IStream g p (enc_varint (unat w) @ rest)) =
     Some (VInt w, IStream g (p + length (enc_varint (unat w))) rest)"
  "read_unsigned n w = Some w \<Longrightarrow> pb_dec_uvarint n (IStream g p (enc_varint (unat w) @ rest)) =
     Some (VInt w, IStream g (p + length (enc_varint (unat w))) rest)"
  using read_signed_32 [of n w]
  by (auto simp: pb_dec_svarint_def pb_dec_uvarint_def pb_decode_varint_enc [OF unat64_less_pow] read_signed_def
      read_unsigned_def Let_def split: if_splits)

lemma of_nat_size:
  assumes "n \<le> 0xFFFF"
  shows "unat (of_nat n :: u32) = n" "\<not> (of_nat n :: u32) > 0xFFFF" "(of_nat n :: u32) \<noteq> 0xFFFFFFFF"
proof -
  show n: "unat (of_nat n :: u32) = n" using assms by (simp only: unat_of_nat) simp
  show "\<not> (of_nat n :: u32) > 0xFFFF" using assms n by (simp add: word_less_nat_alt)
  show "(of_nat n :: u32) \<noteq> 0xFFFFFFFF"
  proof
    assume "(of_nat n :: u32) = 0xFFFFFFFF"
    with n have "unat (0xFFFFFFFF :: u32) = n" by simp
    with assms show False by simp
  qed
qed

lemma fill_zeros: "length b \<le> n \<Longrightarrow> buf_write (replicate n 0) 0 b = b @ replicate (n - length b) 0"
  by (simp add: buf_write_def)

lemma decode_value:
  assumes "ok_ltype lt" "canon_value lt v" "\<And>fs. lt \<noteq> LT_SUBMESSAGE fs"
    "wt = of_nat (wire_type_of lt) \<or> packable lt \<and> wt = PB_WT_PACKED"
  shows "decode_basic_field lt wt (default_val lt) (IStream g p (enc_value lt v @ rest)) =
    Some (v, IStream g (p + length (enc_value lt v)) rest)"
proof (cases lt)
  case LT_BOOL
  then show ?thesis
    using assms(2,4) pb_decode_varint32_enc [of 0 g p rest] pb_decode_varint32_enc [of 1 g p rest]
    by (auto simp: decode_basic_field_def pb_decode_bool_def)
next
  case (LT_VARINT n)
  then show ?thesis using assms(2,4) by (auto simp: decode_basic_field_def varint_enc)
next
  case (LT_UVARINT n)
  then show ?thesis using assms(2,4) by (auto simp: decode_basic_field_def varint_enc)
next
  case (LT_BYTES n)
  with assms obtain b where b: "v = VBytes (length b) (b @ replicate (n - length b) 0)" "length b \<le> n" "n \<le> 0xFFFF" by auto
  note o = of_nat_size [OF le_trans [OF b(2,3)]]
  have "length b < 2 ^ 32" using b by simp
  with LT_BYTES b o assms(4) show ?thesis
    by (simp add: decode_basic_field_def pb_dec_bytes_def pb_decode_varint32_enc read_append fill_zeros)
next
  case (LT_STRING n)
  with assms obtain b where b: "v = VBuf (b @ replicate (n - length b) 0)" "length b < n" "n \<le> 0xFFFF" "0 \<notin> set b" by auto
  have c: "cstr (b @ replicate (n - length b) 0) = b"
    using cstr_append [OF b(4), of "replicate (n - length b) 0"] b(2) by (cases "n - length b") simp_all
  have "length b \<le> 0xFFFF" using b by simp
  note o = of_nat_size [OF this]
  have "length b < 2 ^ 32" "buf_set (replicate n 0) (length b) (0 :: u8) = replicate n 0"
    using b by (simp_all add: buf_set_eq_list_update list_eq_iff_nth_eq nth_list_update)
  with LT_STRING b o c assms(4) show ?thesis
    by (simp add: decode_basic_field_def pb_dec_string_def strlen_def pb_decode_varint32_enc read_append fill_zeros)
next
  case (LT_FIXED_LENGTH_BYTES n)
  with assms obtain b where b: "v = VBuf b" "length b = n" "n \<le> 0xFFFF" by auto
  note o = of_nat_size [OF b(3)]
  have "n < 2 ^ 32" "(of_nat n :: u32) = 0 \<longleftrightarrow> n = 0" using b o(1) by (auto simp: unat_eq_0 [symmetric])
  with LT_FIXED_LENGTH_BYTES b o assms(4) show ?thesis
    using read_append [of g _ b rest] by (auto simp: decode_basic_field_def pb_dec_fixed_length_bytes_def pb_decode_varint32_enc)
qed (use assms(3) in auto)
text \<open>What is not encoded because it is zero is what the decoder starts from.\<close>

lemma ucast_take_bit_0:
  fixes w :: u64
  shows "take_bit 8 w = 0 \<Longrightarrow> (ucast w :: u8) = 0" "take_bit 16 w = 0 \<Longrightarrow> (ucast w :: u16) = 0"
    "take_bit 32 w = 0 \<Longrightarrow> (ucast w :: u32) = 0" "take_bit 64 w = w"
  by (simp_all add: unat_eq_0 [symmetric] unsigned_ucast_eq take_bit_word_eq_self flip: unsigned_take_bit_eq)

lemma zero_is_default:
  "ok_ltype lt \<Longrightarrow> canon_value lt v \<Longrightarrow> default_value lt no_encode_callbacks v \<Longrightarrow> v = default_val lt"
  "ok_field f \<Longrightarrow> canon_field f sl \<Longrightarrow> pb_check_proto3_default_value f no_encode_callbacks sl \<Longrightarrow> sl = default_slot f"
proof (induction lt and f arbitrary: v and sl)
  case LT_BOOL
  then show ?case by auto
next
  case (LT_VARINT n)
  then show ?case using ucast_take_bit_0 by (auto simp: read_signed_def split: if_splits)
next
  case (LT_UVARINT n)
  then show ?case using ucast_take_bit_0 by (auto simp: read_unsigned_def split: if_splits)
next
  case (LT_STRING n)
  then obtain b where "v = VBuf (b @ replicate (n - length b) 0)" "length b < n" "0 \<notin> set b" by auto
  with LT_STRING show ?case by (cases b) auto
next
  case (LT_SUBMESSAGE fs)
  then obtain m where m: "v = VMsg m" "canon_msg fs m"
      "list_all2 (\<lambda>f sl. pb_check_proto3_default_value f no_encode_callbacks sl) fs m"
    by (auto simp: list_all2_map1)
  have "m ! i = default_slot (fs ! i)" if "i < length m" for i
    using LT_SUBMESSAGE.IH [of "fs ! i" "m ! i"] LT_SUBMESSAGE.prems(1) m(2,3) that
    by (auto simp: ok_fields_def list_all_length canon_msg_def list_all2_conv_all_nth)
  then show ?case using m(1,2) by (auto simp: canon_msg_def list_all2_conv_all_nth intro: nth_equalityI)
next
  case (Field tag a h lt)
  then show ?case by (cases sl) (auto split: atype.splits htype.splits)
qed auto

section \<open>Slots\<close>

lemma tags_set_slot [simp]: "map s_tag (set_slot m sl) = map s_tag m"
  by (auto simp: set_slot_def)

lemma get_set_slot: "s_tag sl \<in> s_tag ` set m \<Longrightarrow> get_slot (set_slot m sl) (s_tag sl) = sl"
  by (induction m) (auto simp: get_slot_def set_slot_def split: option.splits)

lemma set_set_slot: "s_tag a = s_tag b \<Longrightarrow> set_slot (set_slot m a) b = set_slot m b"
  by (auto simp: set_slot_def)

lemma get_slot_distinct: "distinct (map s_tag m) \<Longrightarrow> t \<in> set m \<Longrightarrow> get_slot m (s_tag t) = t"
  by (induction m) (auto simp: get_slot_def split: option.splits)

lemma set_get_slot: "distinct (map s_tag m) \<Longrightarrow> set_slot m (get_slot m tag) = m"
  unfolding set_slot_def get_slot_tag by (rule map_idI) (auto simp: get_slot_distinct)

section \<open>Fields\<close>

text \<open>
  The decoder at the bytes of a field of the message it decodes into: \<open>ready\<close> says that the message has the field
  and holds \<open>sl\<close> there.
\<close>

definition ready :: "pb_field list \<Rightarrow> pb_field \<Rightarrow> slot list \<Rightarrow> slot \<Rightarrow> bool" where
  "ready fs f m sl \<longleftrightarrow> pb_field_iter_find fs (f_tag f) = Some f \<and> distinct (map s_tag m) \<and>
     f_tag f \<in> set (map s_tag m) \<and> get_slot m (f_tag f) = sl"

lemma ready_set: "ready fs f m sl \<Longrightarrow> s_tag sl' = f_tag f \<Longrightarrow> ready fs f (set_slot m sl') sl'"
proof -
  assume a: "ready fs f m sl" "s_tag sl' = f_tag f"
  then have "get_slot (set_slot m sl') (f_tag f) = sl'" using get_set_slot [of sl' m] by (simp add: ready_def)
  with a show ?thesis unfolding ready_def tags_set_slot by simp
qed

lemma tag_number: "unat (tag :: u32) < 2 ^ 16 \<Longrightarrow> of_nat (unat tag) = tag \<and> unat tag < 2 ^ 29"
  by simp

text \<open>One element of a field, with its key.\<close>

definition store :: "htype \<Rightarrow> slot \<Rightarrow> pval \<Rightarrow> slot" where
  "store h sl v =
     (case h of
        SINGULAR \<Rightarrow> Slot (s_tag sl) (s_has sl) [v]
      | OPTIONAL \<Rightarrow> Slot (s_tag sl) True [v]
      | REPEATED n \<Rightarrow> Slot (s_tag sl) (s_has sl) (s_vals sl @ [v]))"

definition room :: "htype \<Rightarrow> ltype \<Rightarrow> slot \<Rightarrow> bool" where
  "room h lt sl \<longleftrightarrow> (case h of REPEATED n \<Rightarrow> length (s_vals sl) < n \<and> \<not> packable lt | _ \<Rightarrow> s_vals sl = [default_val lt])"

lemma decode_element:
  assumes "ready fs (Field tag STATIC h lt) m sl" "0 < unat tag" "unat tag < 2 ^ 16" "ok_ltype lt" "canon_value lt v"
    "room h lt sl" "length (enc_value lt v) < 2 ^ 32"
    "\<And>gs sm g p u. lt = LT_SUBMESSAGE gs \<Longrightarrow> v = VMsg sm \<Longrightarrow>
       pb_decode_inner cb gs (IStream g p (enc_msg gs sm)) (map default_slot gs) u = Some (sm, u)"
  shows "pb_decode_inner cb fs (IStream g p ((enc_key (unat tag) (wire_type_of lt) @ enc_value lt v) @ rest)) m u =
    pb_decode_inner cb fs (IStream g (p + length (enc_key (unat tag) (wire_type_of lt) @ enc_value lt v)) rest)
      (set_slot m (store h sl v)) u"
proof -
  note tag = tag_number [OF assms(3)]
  have find: "pb_field_iter_find fs (of_nat (unat tag)) = Some (Field tag STATIC h lt)" "get_slot m tag = sl"
    using assms(1) by (simp_all add: ready_def)
  show ?thesis
  proof (cases "\<exists>gs. lt = LT_SUBMESSAGE gs")
    case True
    then obtain gs sm where g: "lt = LT_SUBMESSAGE gs" "v = VMsg sm" using assms(5) by auto
    have "length (enc_msg gs sm) < 2 ^ 32" using assms(7) g by simp
    moreover have "submessage_target (Field tag STATIC h lt) gs (get_slot m (of_nat (unat tag))) = Some (map default_slot gs)"
      using assms(6) g find(2) by (auto simp: submessage_target_def room_def pb_message_set_to_defaults_def split: htype.splits)
    ultimately show ?thesis
      using inner_submessage [OF find(1), of gs "enc_msg gs sm" m "map default_slot gs" cb g p u sm u rest] assms(2,8) tag g find(2)
      by (simp add: enc_len_def submessage_store_def store_def)
  next
    case False
    have "decode_basic_field lt (of_nat (wire_type_of lt)) (default_val lt) (IStream g q (enc_value lt v @ rest)) =
        Some (v, IStream g (q + length (enc_value lt v)) rest)" for q
      using decode_value [OF assms(4,5), of "of_nat (wire_type_of lt)" g q rest] False by blast
    moreover have "submessage (Field tag STATIC h lt) = None" using False by (cases lt) auto
    ultimately show ?thesis
      using assms(2,6) tag find
      by (simp only: append_assoc) (subst inner_field [OF _ _ _ find(1)],
        auto simp: decode_field_def decode_static_field_def store_def room_def split: htype.splits)
  qed
qed
text \<open>The elements of a packed array and of an array of separate elements.\<close>

lemma packed_loop_enc:
  assumes "packable lt" "ok_ltype lt" "list_all (canon_value lt) vals" "length acc + length vals \<le> n"
  shows "packed_loop lt n acc (IStream g p (concat (map (enc_value lt) vals))) =
    Some (acc @ vals, IStream g (p + length (concat (map (enc_value lt) vals))) [])"
  using assms(3,4)
proof (induction vals arbitrary: acc p)
  case Nil
  then show ?case by (subst packed_loop.simps) (simp add: bytes_left_def)
next
  case (Cons v vals)
  have "enc_value lt v \<noteq> []" using assms(1) Cons.prems(1) by (cases lt) auto
  moreover have "\<And>fs. lt \<noteq> LT_SUBMESSAGE fs" using assms(1) by auto
  ultimately show ?case
    using Cons.IH [of "acc @ [v]" "p + length (enc_value lt v)"] Cons.prems assms(1,2)
      decode_value [of lt v PB_WT_PACKED g p "concat (map (enc_value lt) vals)"]
    by (subst packed_loop.simps) (simp add: bytes_left_def add.assoc)
qed

lemma decode_packed:
  assumes "ready fs (Field tag STATIC (REPEATED n) lt) m (Slot tag b [])" "0 < unat tag" "unat tag < 2 ^ 16" "packable lt"
    "ok_ltype lt" "list_all (canon_value lt) vals" "length vals \<le> n" "length (concat (map (enc_value lt) vals)) < 2 ^ 32"
  shows "pb_decode_inner cb fs (IStream g p (enc_len (unat tag) (concat (map (enc_value lt) vals)) @ rest)) m u =
    pb_decode_inner cb fs (IStream g (p + length (enc_len (unat tag) (concat (map (enc_value lt) vals)))) rest)
      (set_slot m (Slot tag b vals)) u"
proof -
  note tag = tag_number [OF assms(3)]
  have find: "pb_field_iter_find fs (of_nat (unat tag)) = Some (Field tag STATIC (REPEATED n) lt)" "get_slot m tag = Slot tag b []"
    using assms(1) by (simp_all add: ready_def)
  have "submessage (Field tag STATIC (REPEATED n) lt) = None" using assms(4) by (cases lt) auto
  then show ?thesis
    using assms(2,4,7) tag find packed_loop_enc [OF assms(4-6), of "[]" n]
    unfolding enc_len_def append_assoc
    by (subst inner_field [OF _ _ _ find(1)])
      (simp_all add: decode_field_def decode_static_field_def substream_enc [OF assms(8)] bytes_left_def add.assoc)
qed

lemma decode_elements:
  assumes "ready fs (Field tag STATIC (REPEATED n) lt) m (Slot tag b acc)" "0 < unat tag" "unat tag < 2 ^ 16" "\<not> packable lt"
    "ok_ltype lt" "list_all (canon_value lt) vals" "length acc + length vals \<le> n"
    "\<And>v. v \<in> set vals \<Longrightarrow> length (enc_value lt v) < 2 ^ 32"
    "\<And>gs sm g p u. lt = LT_SUBMESSAGE gs \<Longrightarrow> VMsg sm \<in> set vals \<Longrightarrow>
       pb_decode_inner cb gs (IStream g p (enc_msg gs sm)) (map default_slot gs) u = Some (sm, u)"
  shows "pb_decode_inner cb fs (IStream g p (concat (map (\<lambda>v. enc_key (unat tag) (wire_type_of lt) @ enc_value lt v) vals) @ rest)) m u =
    pb_decode_inner cb fs
      (IStream g (p + length (concat (map (\<lambda>v. enc_key (unat tag) (wire_type_of lt) @ enc_value lt v) vals))) rest)
      (set_slot m (Slot tag b (acc @ vals))) u"
  using assms(1,6-9)
proof (induction vals arbitrary: acc m p)
  case Nil
  then have "Slot tag b acc = get_slot m tag" "distinct (map s_tag m)" by (simp_all add: ready_def)
  then show ?case by (simp add: set_get_slot)
next
  case (Cons v vals)
  let ?e = "enc_key (unat tag) (wire_type_of lt) @ enc_value lt v"
  let ?r = "concat (map (\<lambda>v. enc_key (unat tag) (wire_type_of lt) @ enc_value lt v) vals) @ rest"
  have "pb_decode_inner cb fs (IStream g p (?e @ ?r)) m u =
      pb_decode_inner cb fs (IStream g (p + length ?e) ?r) (set_slot m (store (REPEATED n) (Slot tag b acc) v)) u"
    by (rule decode_element [OF Cons.prems(1) assms(2,3,5)]) (use Cons.prems assms(4) in \<open>auto simp: room_def\<close>)
  also have "store (REPEATED n) (Slot tag b acc) v = Slot tag b (acc @ [v])" by (simp add: store_def)
  also have "pb_decode_inner cb fs (IStream g (p + length ?e) ?r) (set_slot m (Slot tag b (acc @ [v]))) u =
      pb_decode_inner cb fs
        (IStream g (p + length ?e + length (concat (map (\<lambda>v. enc_key (unat tag) (wire_type_of lt) @ enc_value lt v) vals))) rest)
        (set_slot (set_slot m (Slot tag b (acc @ [v]))) (Slot tag b ((acc @ [v]) @ vals))) u"
    by (rule Cons.IH [OF ready_set [OF Cons.prems(1)]]) (use Cons.prems in auto)
  finally show ?case by (simp add: set_set_slot add.assoc)
qed
section \<open>Messages\<close>

text \<open>What the decoder does at the bytes of a field, as a statement about the descriptor of the field.\<close>

definition field_decodes :: "'s pb_callback \<Rightarrow> pb_field \<Rightarrow> bool" where
  "field_decodes cb f \<longleftrightarrow>
     (\<forall>fs sl m g p rest u. ready fs f m (default_slot f) \<longrightarrow> canon_field f sl \<longrightarrow> length (enc_field f sl) < 2 ^ 32 \<longrightarrow>
        pb_decode_inner cb fs (IStream g p (enc_field f sl @ rest)) m u =
          pb_decode_inner cb fs (IStream g (p + length (enc_field f sl)) rest) (set_slot m sl) u)"

lemma tag_default_slot [simp]: "s_tag (default_slot f) = f_tag f"
  by (cases f) simp

lemma canon_tag: "canon_field f sl \<Longrightarrow> s_tag sl = f_tag f"
  by (cases f) simp

lemma find_distinct: "distinct (map f_tag fs) \<Longrightarrow> f \<in> set fs \<Longrightarrow> pb_field_iter_find fs (f_tag f) = Some f"
  unfolding pb_field_iter_find_def by (induction fs) auto

lemma decode_fields:
  assumes "list_all (field_decodes cb) fs2" "distinct (map f_tag (fs1 @ fs2))" "map s_tag m1 = map f_tag fs1"
    "canon_msg fs2 m2" "length (enc_msg fs2 m2) < 2 ^ 32"
  shows "pb_decode_inner cb (fs1 @ fs2) (IStream g p (enc_msg fs2 m2)) (m1 @ map default_slot fs2) u = Some (m1 @ m2, u)"
  using assms
proof (induction fs2 arbitrary: fs1 m1 m2 p)
  case Nil
  then show ?case by (simp add: canon_msg_def enc_msg_def inner_end)
next
  case (Cons f fs2)
  then obtain sl m where m: "m2 = sl # m" "canon_field f sl" "canon_msg fs2 m"
    by (auto simp: canon_msg_def list_all2_Cons1)
  have e: "enc_msg (f # fs2) m2 = enc_field f sl @ enc_msg fs2 m" by (simp add: m enc_msg_def)
  have l: "length (enc_field f sl) < 2 ^ 32" "length (enc_msg fs2 m) < 2 ^ 32" using Cons.prems(5) unfolding e by simp_all
  let ?m = "m1 @ default_slot f # map default_slot fs2"
  have t: "map s_tag ?m = map f_tag (fs1 @ f # fs2)" using Cons.prems(3) by simp
  have d: "distinct (map s_tag ?m)" unfolding t using Cons.prems(2) by simp
  have "ready (fs1 @ f # fs2) f ?m (default_slot f)"
    using find_distinct [OF Cons.prems(2)] d get_slot_distinct [OF d, of "default_slot f"] by (simp add: ready_def)
  moreover have "set_slot ?m sl = m1 @ sl # map default_slot fs2"
    using d canon_tag [OF m(2)] by (auto simp: set_slot_def image_iff intro!: map_idI)
  ultimately have "pb_decode_inner cb (fs1 @ f # fs2) (IStream g p (enc_msg (f # fs2) m2)) ?m u =
      pb_decode_inner cb (fs1 @ f # fs2) (IStream g (p + length (enc_field f sl)) (enc_msg fs2 m)) (m1 @ sl # map default_slot fs2) u"
    using Cons.prems(1) m(2) l(1) unfolding e by (simp add: field_decodes_def)
  also have "\<dots> = Some ((m1 @ [sl]) @ m, u)"
    using Cons.IH [of "fs1 @ [f]" "m1 @ [sl]" m] Cons.prems(1-3) m l(2) canon_tag [OF m(2)] by simp
  finally show ?case by (simp add: m(1))
qed

lemma decode_message:
  assumes "list_all (field_decodes cb) fs" "distinct (map f_tag fs)" "canon_msg fs m" "length (enc_msg fs m) < 2 ^ 32"
  shows "pb_decode_inner cb fs (IStream g p (enc_msg fs m)) (map default_slot fs) u = Some (m, u)"
  using decode_fields [of cb fs "[]" "[]" m g p u] assms by simp

lemma repeated_decodes:
  assumes "ok_ltype lt" "0 < unat tag" "unat tag < 2 ^ 16"
    "\<And>gs sm g p u. lt = LT_SUBMESSAGE gs \<Longrightarrow> canon_msg gs sm \<Longrightarrow> length (enc_msg gs sm) < 2 ^ 32 \<Longrightarrow>
       pb_decode_inner cb gs (IStream g p (enc_msg gs sm)) (map default_slot gs) u = Some (sm, u)"
    "ready fs (Field tag STATIC (REPEATED n) lt) m (Slot tag False [])"
    "canon_field (Field tag STATIC (REPEATED n) lt) sl" "length (enc_field (Field tag STATIC (REPEATED n) lt) sl) < 2 ^ 32"
    "sl = Slot tag False [] \<Longrightarrow> set_slot m sl = m"
  shows "pb_decode_inner cb fs (IStream g p (enc_field (Field tag STATIC (REPEATED n) lt) sl @ rest)) m u =
    pb_decode_inner cb fs (IStream g (p + length (enc_field (Field tag STATIC (REPEATED n) lt) sl)) rest) (set_slot m sl) u"
proof -
  let ?f = "Field tag STATIC (REPEATED n) lt"
  have v: "length (s_vals sl) \<le> n" "list_all (canon_value lt) (s_vals sl)" using assms(6) by simp_all
  have sl: "sl = Slot tag False (s_vals sl)" using assms(6) by (cases sl) simp
  consider "s_vals sl = []" | "s_vals sl \<noteq> []" "packable lt" | "s_vals sl \<noteq> []" "\<not> packable lt" by blast
  then show ?thesis
  proof cases
    case 1
    with sl assms(8) show ?thesis by simp
  next
    case 2
    then have e: "enc_field ?f sl = enc_len (unat tag) (concat (map (enc_value lt) (s_vals sl)))"
      by (simp add: Let_def enc_len_def)
    with assms(7) have "length (concat (map (enc_value lt) (s_vals sl))) < 2 ^ 32" by (simp add: enc_len_def)
    from decode_packed [OF assms(5,2,3) 2(2) assms(1) v(2,1) this, of cb g p rest u] show ?thesis
      unfolding e by (simp add: sl [symmetric])
  next
    case 3
    let ?e = "\<lambda>v. enc_key (unat tag) (wire_type_of lt) @ enc_value lt v"
    have e: "enc_field ?f sl = concat (map ?e (s_vals sl))" using 3 by (simp add: Let_def)
    have lv: "length (enc_value lt v) < 2 ^ 32" if "v \<in> set (s_vals sl)" for v
      using that assms(7) length_concat_nth [of _ "map ?e (s_vals sl)"] unfolding e in_set_conv_nth by fastforce
    have "pb_decode_inner cb gs (IStream g p (enc_msg gs sm)) (map default_slot gs) u = Some (sm, u)"
      if "lt = LT_SUBMESSAGE gs" "VMsg sm \<in> set (s_vals sl)" for gs sm g p u
      using assms(4) [OF that(1)] that v(2) lv [OF that(2)] by (auto simp: list_all_iff)
    from decode_elements [OF assms(5,2,3) 3(2) assms(1) v(2) _ lv this, of g p rest u] v(1) show ?thesis
      unfolding e by (simp add: sl [symmetric])
  qed
qed

lemma field_decodes_static:
  assumes "ok_ltype lt" "0 < unat tag" "unat tag < 2 ^ 16"
    "\<And>gs sm g p u. lt = LT_SUBMESSAGE gs \<Longrightarrow> canon_msg gs sm \<Longrightarrow> length (enc_msg gs sm) < 2 ^ 32 \<Longrightarrow>
       pb_decode_inner cb gs (IStream g p (enc_msg gs sm)) (map default_slot gs) u = Some (sm, u)"
  shows "field_decodes cb (Field tag STATIC h lt)"
  unfolding field_decodes_def
proof (intro allI impI)
  fix fs sl m g p rest u
  let ?f = "Field tag STATIC h lt"
  assume r: "ready fs ?f m (default_slot ?f)" and c: "canon_field ?f sl" and l: "length (enc_field ?f sl) < 2 ^ 32"
  have s: "s_tag sl = tag" using c by simp
  have absent: "set_slot m sl = m" if "sl = default_slot ?f"
    using r that set_get_slot [of m tag] by (auto simp: ready_def)
  have element: "pb_decode_inner cb fs (IStream g p ((enc_key (unat tag) (wire_type_of lt) @ enc_value lt v) @ rest)) m u =
      pb_decode_inner cb fs (IStream g (p + length (enc_key (unat tag) (wire_type_of lt) @ enc_value lt v)) rest) (set_slot m sl) u"
    if v: "canon_value lt v" "length (enc_value lt v) < 2 ^ 32" "room h lt (default_slot ?f)" "store h (default_slot ?f) v = sl" for v
  proof -
    have "pb_decode_inner cb gs (IStream g p (enc_msg gs sm)) (map default_slot gs) u = Some (sm, u)"
      if "lt = LT_SUBMESSAGE gs" "v = VMsg sm" for gs sm g p u
      using assms(4) [OF that(1)] that v(1,2) by simp
    from decode_element [OF r assms(2,3,1) v(1,3,2) this, of g p rest u] show ?thesis by (simp only: v(4))
  qed
  show "pb_decode_inner cb fs (IStream g p (enc_field ?f sl @ rest)) m u =
          pb_decode_inner cb fs (IStream g (p + length (enc_field ?f sl)) rest) (set_slot m sl) u"
  proof (cases h)
    case SINGULAR
    then obtain v where v: "s_vals sl = [v]" "canon_value lt v" "\<not> s_has sl" using c by auto
    show ?thesis
    proof (cases "pb_check_proto3_default_value ?f no_encode_callbacks sl")
      case True
      then have "sl = default_slot ?f" using zero_is_default(2) [OF _ c] assms(1-3) by simp
      with True absent SINGULAR show ?thesis by simp
    next
      case False
      have "store h (default_slot ?f) v = sl" using SINGULAR v s by (cases sl) (simp add: store_def)
      with False element [of v] v l SINGULAR show ?thesis by (simp add: room_def Let_def)
    qed
  next
    case OPTIONAL
    then obtain v where v: "s_vals sl = [v]" "canon_value lt v" "s_has sl \<or> v = default_val lt" using c by auto
    show ?thesis
    proof (cases "s_has sl")
      case True
      then have "store h (default_slot ?f) v = sl" using OPTIONAL v s by (cases sl) (simp add: store_def)
      with True element [of v] v l OPTIONAL show ?thesis by (simp add: room_def Let_def)
    next
      case False
      with v s OPTIONAL have "sl = default_slot ?f" by (cases sl) simp
      with False absent OPTIONAL show ?thesis by simp
    qed
  next
    case (REPEATED n)
    show ?thesis unfolding REPEATED
      by (rule repeated_decodes) (use r c l absent assms REPEATED in simp_all)
  qed
qed

lemma decodes_value_and_field:
  "ok_ltype lt \<Longrightarrow> lt = LT_SUBMESSAGE gs \<Longrightarrow> canon_msg gs sm \<Longrightarrow> length (enc_msg gs sm) < 2 ^ 32 \<Longrightarrow>
     pb_decode_inner cb gs (IStream g p (enc_msg gs sm)) (map default_slot gs) u = Some (sm, u)"
  "ok_field f \<Longrightarrow> field_decodes cb f"
proof (induction lt and f arbitrary: gs sm g p u)
  case (LT_SUBMESSAGE fs)
  then show ?case by (intro decode_message) (auto simp: ok_fields_def list_all_iff)
next
  case (Field tag a h lt)
  show ?case
  proof (cases a)
    case STATIC
    with Field show ?thesis by (auto intro!: field_decodes_static)
  next
    case (CALLBACK i)
    have "set_slot m sl = m" if "ready fs (Field tag a h lt) m (default_slot (Field tag a h lt))"
      "canon_field (Field tag a h lt) sl" for fs m sl
    proof -
      have "sl = get_slot m tag" using that CALLBACK by (cases sl) (simp add: ready_def)
      with that(1) set_get_slot [of m tag] show ?thesis by (simp add: ready_def)
    qed
    then show ?thesis using CALLBACK by (simp add: field_decodes_def)
  qed
qed auto

lemma decode_canonical:
  assumes "ok_fields fs" "canon_msg fs m" "length (enc_msg fs m) < 2 ^ 32"
  shows "pb_decode cb fs (IStream g p (enc_msg fs m)) u = Some (m, u)"
  unfolding pb_decode_def pb_message_set_to_defaults_def
  by (rule decode_message [OF _ _ assms(2,3)])
    (use assms(1) in \<open>auto simp: ok_fields_def list_all_iff intro: decodes_value_and_field\<close>)

section \<open>Properties\<close>

text \<open>C36: The protocol-buffer library round-trips: for every descriptor whose sizes fit, every message without leftovers
  and a buffer of any size, the sizing pass returns the length of the encoding, the encoder succeeds exactly when
  the buffer has room for it and then stores it, and the decoder gives back the same message from these bytes.\<close>

theorem encode_decode_roundtrip:
  assumes "ok_fields fs" "canon_msg fs m" "length (enc_msg fs m) < 2 ^ 32"
  shows "pb_get_encoded_size no_encode_callbacks fs m = Some (of_nat (length (enc_msg fs m))) \<and>
    (\<forall>bufsize. map_option os_state (pb_encode no_encode_callbacks fs m (pb_ostream_from_buffer bufsize)) =
       (if length (enc_msg fs m) \<le> unat bufsize then Some (enc_msg fs m) else None)) \<and>
    pb_decode cb fs (pb_istream_from_buffer RInput 0 (enc_msg fs m)) u = Some (m, u)"
proof -
  have e: "emits (pb_encode no_encode_callbacks fs m) (enc_msg fs m)"
    by (rule emits_message [OF _ assms(2,3)]) (use assms(1) in \<open>auto simp: ok_fields_def list_all_iff intro: emits_value_and_field\<close>)
  have "pb_encode no_encode_callbacks fs m (pb_ostream_from_buffer bufsize) = emit (enc_msg fs m) (pb_ostream_from_buffer bufsize)"
    for bufsize
    by (rule emitsD [OF e]) (use assms(3) in \<open>simp add: pb_ostream_from_buffer_def\<close>)
  then have "map_option os_state (pb_encode no_encode_callbacks fs m (pb_ostream_from_buffer bufsize)) =
      (if length (enc_msg fs m) \<le> unat bufsize then Some (enc_msg fs m) else None)" for bufsize
    by (auto simp: emit_def pb_ostream_from_buffer_def)
  moreover have "pb_decode cb fs (pb_istream_from_buffer RInput 0 (enc_msg fs m)) u = Some (m, u)"
    unfolding pb_istream_from_buffer_def by (rule decode_canonical [OF assms])
  ultimately show ?thesis using emits_sizing [OF e] by (simp add: pb_get_encoded_size_def)
qed

lemma ok_descriptors:
  "ok_fields protocol_TransferContract" "ok_fields protocol_TransferAssetContract" "ok_fields protocol_VoteWitnessContract"
  "ok_fields protocol_TriggerSmartContract" "ok_fields protocol_ExchangeCreateContract" "ok_fields ExchangeDetails"
  "ok_fields TokenDetails"
  by (simp_all add: ok_fields_def descriptor_defs)

text \<open>A vote for two candidates: a message with a repeated submessage.\<close>

definition sample_votes :: "slot list" where
  "sample_votes =
     [Slot 1 False [VBuf (replicate 21 65)],
      Slot 2 False [VMsg [Slot 1 False [VBuf (replicate 21 66)], Slot 2 False [VInt 5]],
                    VMsg [Slot 1 False [VBuf (replicate 21 67)], Slot 2 False [VInt 300]]]]"

theorem encode_decode_roundtrip_witness:
  "map_option os_state (pb_encode no_encode_callbacks protocol_VoteWitnessContract sample_votes (pb_ostream_from_buffer 255)) =
     Some (enc_msg protocol_VoteWitnessContract sample_votes) \<and>
   pb_decode (\<lambda>_. None) protocol_VoteWitnessContract
     (pb_istream_from_buffer RInput 0 (enc_msg protocol_VoteWitnessContract sample_votes)) () = Some (sample_votes, ())"
proof -
  have c: "canon_msg protocol_VoteWitnessContract sample_votes"
    by (simp add: canon_msg_def descriptor_defs sample_votes_def read_signed_def)
  have "length (enc_msg protocol_VoteWitnessContract sample_votes) \<le> 255"
    by (simp add: enc_msg_def descriptor_defs sample_votes_def enc_key_def enc_varint.simps)
  with encode_decode_roundtrip [OF ok_descriptors(3) c, of "\<lambda>_. None" "()"] show ?thesis by simp
qed

end
