(* ===== verification/Wire_Scalars.thy ===== *)
theory Wire_Scalars
  imports Message_Roundtrip
begin

text \<open>
  The scalar formats of the wire: varints, zigzag varints and the two fixed-width integers, with an encoder in
  \<^verbatim>\<open>pb_encode.c\<close> and a decoder in \<^verbatim>\<open>pb_decode.c\<close> each. The messages of the application use only the first; the contract of
  a format is a locale, and what follows from it - a sequence of values can be written one after the other and read
  back - is proved once.
\<close>

unbundle bit_operations_syntax

section \<open>Decoders\<close>

definition pb_decode_svarint :: "pb_istream_t \<Rightarrow> (u64 \<times> pb_istream_t) option" where
  "pb_decode_svarint s =
     do { (value, s') \<leftarrow> pb_decode_varint s;
          Some (if value AND 1 \<noteq> 0 then NOT (drop_bit 1 value) else drop_bit 1 value, s') }"

definition pb_decode_fixed32 :: "pb_istream_t \<Rightarrow> (u32 \<times> pb_istream_t) option" where
  "pb_decode_fixed32 s =
     do { (b, s') \<leftarrow> pb_read s 4;
          Some (ucast (b ! 0) OR push_bit 8 (ucast (b ! 1)) OR push_bit 16 (ucast (b ! 2)) OR push_bit 24 (ucast (b ! 3)), s') }"

definition pb_decode_fixed64 :: "pb_istream_t \<Rightarrow> (u64 \<times> pb_istream_t) option" where
  "pb_decode_fixed64 s =
     do { (b, s') \<leftarrow> pb_read s 8;
          Some (ucast (b ! 0) OR push_bit 8 (ucast (b ! 1)) OR push_bit 16 (ucast (b ! 2)) OR push_bit 24 (ucast (b ! 3)) OR
                push_bit 32 (ucast (b ! 4)) OR push_bit 40 (ucast (b ! 5)) OR push_bit 48 (ucast (b ! 6)) OR
                push_bit 56 (ucast (b ! 7)), s') }"

section \<open>The contract of a format\<close>

primrec read_all :: "(pb_istream_t \<Rightarrow> ('v \<times> pb_istream_t) option) \<Rightarrow> nat \<Rightarrow> pb_istream_t \<Rightarrow> ('v list \<times> pb_istream_t) option" where
  "read_all rd 0 s = Some ([], s)"
| "read_all rd (Suc n) s = do { (v, s1) \<leftarrow> rd s; (vs, s2) \<leftarrow> read_all rd n s1; Some (v # vs, s2) }"

locale scalar_format =
  fixes enc :: "'v \<Rightarrow> encoder" and bytes_of :: "'v \<Rightarrow> bytes" and rd :: "pb_istream_t \<Rightarrow> ('v \<times> pb_istream_t) option"
  assumes enc_emits: "emits (enc v) (bytes_of v)"
    and rd_bytes: "rd (IStream g p (bytes_of v @ rest)) = Some (v, IStream g (p + length (bytes_of v)) rest)"
    and short: "length (bytes_of v) \<le> 10"
begin

lemma read_sequence:
  "read_all rd (length vs) (IStream g p (concat (map bytes_of vs) @ rest)) =
     Some (vs, IStream g (p + length (concat (map bytes_of vs))) rest)"
  by (induction vs arbitrary: p) (simp_all add: rd_bytes add.assoc)

lemma length_sequence: "length (concat (map bytes_of vs)) \<le> 10 * length vs"
proof (induction vs)
  case (Cons v vs)
  then show ?case using short [of v] by simp
qed simp

lemma prefix_free: "bytes_of v @ r = bytes_of w @ r' \<Longrightarrow> v = w \<and> r = r'"
proof -
  assume "bytes_of v @ r = bytes_of w @ r'"
  from rd_bytes [of RInput 0 v r, unfolded this rd_bytes] show ?thesis by simp
qed

lemma buffer_roundtrip:
  assumes "length vs < 2 ^ 28" "encode_all (map enc vs) (pb_ostream_from_buffer bufsize) = Some s"
  shows "read_all rd (length vs) (pb_istream_from_buffer RInput 0 (os_state s)) = Some (vs, IStream RInput (length (os_state s)) [])"
proof -
  have e: "emits (encode_all (map enc vs)) (concat (map bytes_of vs))"
    by (rule emits_all) (simp add: list_all2_conv_all_nth enc_emits)
  have "10 * length vs < 2 ^ 32" using assms(1) by simp
  with length_sequence [of vs] have "length (concat (map bytes_of vs)) < 2 ^ 32" by linarith
  then have "encode_all (map enc vs) (pb_ostream_from_buffer bufsize) =
      emit (concat (map bytes_of vs)) (pb_ostream_from_buffer bufsize)"
    by (intro emitsD [OF e]) (simp add: pb_ostream_from_buffer_def)
  with assms(2) have "os_state s = concat (map bytes_of vs)"
    by (auto simp: emit_def pb_ostream_from_buffer_def split: if_splits)
  then show ?thesis using read_sequence [of vs RInput 0 "[]"] by (simp add: pb_istream_from_buffer_def)
qed

end

section \<open>The four formats\<close>

interpretation varint: scalar_format pb_encode_varint "\<lambda>w. enc_varint (unat w)" pb_decode_varint
proof
  fix w :: u64 and g p rest
  show "emits (pb_encode_varint w) (enc_varint (unat w))" by (rule emits_varint)
  show "pb_decode_varint (IStream g p (enc_varint (unat w) @ rest)) =
      Some (w, IStream g (p + length (enc_varint (unat w))) rest)"
    using pb_decode_varint_enc [OF unat64_less_pow [of w]] by simp
  have "unat w < 128 ^ Suc 9" using unat64_less_pow [of w] by simp
  from length_enc_varint [OF this] show "length (enc_varint (unat w)) \<le> 10" by simp
qed

definition zigzag :: "u64 \<Rightarrow> u64" where
  "zigzag value = (if sint value < 0 then NOT (push_bit 1 value) else push_bit 1 value)"

lemma zigzag_inverse: "(if zigzag w AND 1 \<noteq> 0 then NOT (drop_bit 1 (zigzag w)) else drop_bit 1 (zigzag w)) = w"
proof -
  have "sint w < 0 \<longleftrightarrow> bit w 63" using bit_last_iff [of w] by simp
  moreover have "zigzag w AND 1 \<noteq> 0 \<longleftrightarrow> sint w < 0"
  proof -
    have "x AND 1 \<noteq> 0 \<longleftrightarrow> bit x 0" for x :: u64 using and_exp_eq_0_iff_not_bit [of x 0] by simp
    moreover have "bit (NOT (push_bit 1 w)) 0" "\<not> bit (push_bit 1 w) 0"
      by (simp_all only: bit_not_iff_eq bit_push_bit_iff) simp_all
    ultimately show ?thesis by (simp only: zigzag_def split: if_splits) simp
  qed
  moreover have "NOT (drop_bit 1 (NOT (push_bit 1 w))) = w" if "bit w 63"
  proof (rule bit_word_eqI)
    fix n assume "n < LENGTH(64)"
    then show "bit (NOT (drop_bit 1 (NOT (push_bit 1 w)))) n = bit w n"
      using that by (cases "n = 63") (simp_all only: bit_simps bit_drop_bit_eq comp_apply, simp_all)
  qed
  moreover have "drop_bit 1 (push_bit 1 w) = w" if "\<not> bit w 63"
  proof (rule bit_word_eqI)
    fix n assume "n < LENGTH(64)"
    then show "bit (drop_bit 1 (push_bit 1 w)) n = bit w n"
      using that by (cases "n = 63") (simp_all only: bit_simps bit_drop_bit_eq comp_apply, simp_all)
  qed
  ultimately show ?thesis by (auto simp: zigzag_def)
qed

interpretation svarint: scalar_format pb_encode_svarint "\<lambda>w. enc_varint (unat (zigzag w))" pb_decode_svarint
proof
  fix w :: u64 and g p rest
  show "emits (pb_encode_svarint w) (enc_varint (unat (zigzag w)))"
    using emits_varint [of "zigzag w"] by (simp add: emits_def pb_encode_svarint_def zigzag_def)
  show "pb_decode_svarint (IStream g p (enc_varint (unat (zigzag w)) @ rest)) =
      Some (w, IStream g (p + length (enc_varint (unat (zigzag w)))) rest)"
    using zigzag_inverse [of w] by (simp add: pb_decode_svarint_def varint.rd_bytes)
  show "length (enc_varint (unat (zigzag w))) \<le> 10" by (rule varint.short)
qed
text \<open>Byte \<open>j div 8\<close> of an integer, back in its place.\<close>

lemma bit_byte:
  fixes v :: "'a::len word"
  shows "bit (push_bit j (ucast (ucast (drop_bit j v AND 0xFF) :: u8) :: 'a word)) n \<longleftrightarrow> j \<le> n \<and> n < j + 8 \<and> bit v n"
proof -
  have m: "(0xFF :: 'a word) = mask 8" by (simp add: mask_eq_exp_minus_1)
  have "n < LENGTH('a)" if "bit v n" using that by (rule bit_imp_le_length)
  then show ?thesis unfolding m by (auto simp: bit_simps)
qed

lemma bit_byte_0:
  fixes v :: "'a::len word"
  shows "bit (ucast (ucast (drop_bit 0 v AND 0xFF) :: u8) :: 'a word) n \<longleftrightarrow> n < 8 \<and> bit v n"
  using bit_byte [of 0 v n] by (simp only: push_bit_of_0 push_bit_0_id id_apply) simp

interpretation fixed32: scalar_format pb_encode_fixed32 "\<lambda>v. map (\<lambda>i. ucast (drop_bit (8 * i) v AND 0xFF)) [0..<4]" pb_decode_fixed32
proof
  fix v :: u32 and g p rest
  let ?b = "map (\<lambda>i. ucast (drop_bit (8 * i) v AND 0xFF) :: u8) [0..<4]"
  show "emits (pb_encode_fixed32 v) ?b"
    using emits_write [of ?b ?b] by (simp add: emits_def pb_encode_fixed32_def)
  have n: "?b ! 0 = ucast (drop_bit 0 v AND 0xFF)" "?b ! 1 = ucast (drop_bit 8 v AND 0xFF)"
      "?b ! 2 = ucast (drop_bit 16 v AND 0xFF)" "?b ! 3 = ucast (drop_bit 24 v AND 0xFF)"
    by simp_all
  have "ucast (?b ! 0) OR push_bit 8 (ucast (?b ! 1)) OR push_bit 16 (ucast (?b ! 2)) OR push_bit 24 (ucast (?b ! 3)) = v"
    unfolding n by (rule bit_word_eqI) (simp only: bit_or_iff bit_byte bit_byte_0, auto)
  then show "pb_decode_fixed32 (IStream g p (?b @ rest)) = Some (v, IStream g (p + length ?b) rest)"
    using read_append [of g p ?b rest] by (simp add: pb_decode_fixed32_def del: upt_Suc)
  show "length ?b \<le> 10" by simp
qed
interpretation fixed64: scalar_format pb_encode_fixed64 "\<lambda>v. map (\<lambda>i. ucast (drop_bit (8 * i) v AND 0xFF)) [0..<8]" pb_decode_fixed64
proof
  fix v :: u64 and g p rest
  let ?b = "map (\<lambda>i. ucast (drop_bit (8 * i) v AND 0xFF) :: u8) [0..<8]"
  show "emits (pb_encode_fixed64 v) ?b"
    using emits_write [of ?b ?b] by (simp add: emits_def pb_encode_fixed64_def)
  have n: "?b ! 0 = ucast (drop_bit 0 v AND 0xFF)" "?b ! 1 = ucast (drop_bit 8 v AND 0xFF)"
      "?b ! 2 = ucast (drop_bit 16 v AND 0xFF)" "?b ! 3 = ucast (drop_bit 24 v AND 0xFF)"
      "?b ! 4 = ucast (drop_bit 32 v AND 0xFF)" "?b ! 5 = ucast (drop_bit 40 v AND 0xFF)"
      "?b ! 6 = ucast (drop_bit 48 v AND 0xFF)" "?b ! 7 = ucast (drop_bit 56 v AND 0xFF)"
    by simp_all
  have "ucast (?b ! 0) OR push_bit 8 (ucast (?b ! 1)) OR push_bit 16 (ucast (?b ! 2)) OR push_bit 24 (ucast (?b ! 3)) OR
      push_bit 32 (ucast (?b ! 4)) OR push_bit 40 (ucast (?b ! 5)) OR push_bit 48 (ucast (?b ! 6)) OR push_bit 56 (ucast (?b ! 7)) = v"
    unfolding n by (rule bit_word_eqI) (simp only: bit_or_iff bit_byte bit_byte_0, auto)
  then show "pb_decode_fixed64 (IStream g p (?b @ rest)) = Some (v, IStream g (p + length ?b) rest)"
    using read_append [of g p ?b rest] by (simp add: pb_decode_fixed64_def del: upt_Suc)
  show "length ?b \<le> 10" by simp
qed

section \<open>Property\<close>

text \<open>C37: The scalar formats round-trip: a sequence of values written one after the other into a buffer of any size, when
  it fits, is read back as the same sequence, up to the last byte - for varints, zigzag varints and the fixed-width
  integers of 32 and 64 bits.\<close>

theorem scalars_roundtrip:
  assumes "length vs < 2 ^ 28" "length ws < 2 ^ 28"
  shows "(encode_all (map pb_encode_varint vs) (pb_ostream_from_buffer n) = Some s \<longrightarrow>
      read_all pb_decode_varint (length vs) (pb_istream_from_buffer RInput 0 (os_state s)) = Some (vs, IStream RInput (length (os_state s)) [])) \<and>
    (encode_all (map pb_encode_svarint vs) (pb_ostream_from_buffer n) = Some s \<longrightarrow>
      read_all pb_decode_svarint (length vs) (pb_istream_from_buffer RInput 0 (os_state s)) = Some (vs, IStream RInput (length (os_state s)) [])) \<and>
    (encode_all (map pb_encode_fixed32 ws) (pb_ostream_from_buffer n) = Some s \<longrightarrow>
      read_all pb_decode_fixed32 (length ws) (pb_istream_from_buffer RInput 0 (os_state s)) = Some (ws, IStream RInput (length (os_state s)) [])) \<and>
    (encode_all (map pb_encode_fixed64 vs) (pb_ostream_from_buffer n) = Some s \<longrightarrow>
      read_all pb_decode_fixed64 (length vs) (pb_istream_from_buffer RInput 0 (os_state s)) = Some (vs, IStream RInput (length (os_state s)) []))"
  using varint.buffer_roundtrip svarint.buffer_roundtrip fixed32.buffer_roundtrip fixed64.buffer_roundtrip assms by blast

text \<open>Minus one and three hundred, as zigzag varints.\<close>

theorem scalars_roundtrip_witness:
  "\<exists>s. encode_all (map pb_encode_svarint [-1, 300]) (pb_ostream_from_buffer 8) = Some s \<and> os_state s = [1, 0xD8, 4] \<and>
    read_all pb_decode_svarint 2 (pb_istream_from_buffer RInput 0 (os_state s)) = Some ([-1, 300], IStream RInput 3 [])"
proof -
  have "emits (encode_all (map pb_encode_svarint [-1, 300])) (concat (map (\<lambda>w. enc_varint (unat (zigzag w))) [-1, 300]))"
    by (rule emits_all) (simp only: list.map list_all2_Cons list_all2_Nil svarint.enc_emits simp_thms)
  moreover have "concat (map (\<lambda>w. enc_varint (unat (zigzag w))) [-1, 300]) = [1, 0xD8, 4]"
    by (simp add: zigzag_def enc_varint.simps)
  ultimately have e: "emits (encode_all (map pb_encode_svarint [-1, 300])) [1, 0xD8, 4]" by (simp only:)
  obtain s where s: "encode_all (map pb_encode_svarint [-1, 300]) (pb_ostream_from_buffer 8) = Some s"
      "os_state s = [1, 0xD8, 4]"
    using emitsD [OF e, of "pb_ostream_from_buffer 8"] by (auto simp: emit_def pb_ostream_from_buffer_def)
  have l: "length [-1, 300 :: u64] = 2" "length [1, 0xD8, 4 :: u8] = 3" by simp_all
  have "length [-1, 300 :: u64] < 2 ^ 28" "length ([] :: u32 list) < 2 ^ 28" by simp_all
  from scalars_roundtrip [OF this, of 8 s] s(1)
  have "read_all pb_decode_svarint (length [-1, 300 :: u64]) (pb_istream_from_buffer RInput 0 (os_state s)) =
      Some ([-1, 300], IStream RInput (length (os_state s)) [])" by blast
  with s show ?thesis unfolding l by (intro exI [of _ s]) (simp only: l simp_thms)
qed

end
