(* ===== verification/Descriptor_Words.thy ===== *)
theory Descriptor_Words
  imports Descriptors
begin

text \<open>
  Reading back the packed words of a field: under the static assertions of \<^verbatim>\<open>PB_FIELDINFO_ASSERT_n\<close>, what
  \<^verbatim>\<open>load_descriptor_values\<close> extracts from the words of width \<open>n\<close> are the arguments of \<^verbatim>\<open>PB_FIELDINFO_n\<close>.
\<close>

unbundle bit_operations_syntax

lemma masks:
  "(0x0F :: u32) = mask 4" "(0x3F :: u32) = mask 6" "(0xFF :: u32) = mask 8" "(0xFFF :: u32) = mask 12"
  "(0xFFFF :: u32) = mask 16" "(0x3C0 :: u32) = push_bit 6 (mask 4)" "(0xFFFFFF00 :: u32) = push_bit 8 (mask 24)"
  "(3 :: u32) = mask 2" "(2 :: u32) = push_bit 1 (mask 1)" "(1 :: u32) = mask 1"
  by (simp_all add: mask_eq_exp_minus_1)

lemma fits_bit:
  assumes "PB_FITS v k" "k < 32" "bit v n"
  shows "n < k"
proof -
  have "(2 :: nat) ^ k < 2 ^ 32" using assms(2) by (intro power_strict_increasing) simp_all
  then have "unat (push_bit k 1 :: u32) = 2 ^ k"
    by (simp only: unsigned_push_bit_eq) (simp add: push_bit_eq_mult take_bit_nat_eq_self assms(2))
  then have "unat v < 2 ^ k" using assms(1) by (simp add: PB_FITS_def word_less_nat_alt)
  then have "take_bit k (unat v) = unat v" by (simp add: take_bit_nat_eq_self)
  then have "bit (take_bit k (unat v)) n" using assms(3) by (simp add: bit_simps)
  then show ?thesis by (simp add: bit_simps)
qed

lemmas fieldinfo_defs = PB_FIELDINFO_def PB_FIELDINFO_1_def PB_FIELDINFO_2_def PB_FIELDINFO_4_def PB_FIELDINFO_8_def


lemma word0_bits:
  "(PB_FIELDINFO_1 e ! 0) AND 3 = 0" "(PB_FIELDINFO_2 e ! 0) AND 3 = 1" "(PB_FIELDINFO_4 e ! 0) AND 3 = 2" "(PB_FIELDINFO_8 e ! 0) AND 3 = 3"
  unfolding fieldinfo_defs nth_Cons_0 masks
  by (rule bit_word_eqI, simp only: bit_simps comp_apply, auto)+

lemma word0_type:
  "ucast (drop_bit 8 (PB_FIELDINFO_1 e ! 0) AND 0xFF) = fi_type e" "ucast (drop_bit 8 (PB_FIELDINFO_2 e ! 0) AND 0xFF) = fi_type e"
  "ucast (drop_bit 8 (PB_FIELDINFO_4 e ! 0) AND 0xFF) = fi_type e" "ucast (drop_bit 8 (PB_FIELDINFO_8 e ! 0) AND 0xFF) = fi_type e"
  unfolding fieldinfo_defs nth_Cons_0 masks
  by (rule bit_word_eqI, simp only: bit_simps comp_apply, auto)+

lemma mask_eqI: "(\<And>n. n < k \<Longrightarrow> bit v n = bit w n) \<Longrightarrow> v AND mask k = w AND mask k" for v w :: "'a::len word"
  by (rule bit_word_eqI) (auto simp: bit_and_iff bit_mask_iff)

lemma fits_eqI: "PB_FITS v k \<Longrightarrow> k < 32 \<Longrightarrow> (\<And>n. n < k \<Longrightarrow> bit x n = bit v n) \<Longrightarrow> x AND mask k = v"
  by (rule bit_word_eqI) (auto simp: bit_and_iff bit_mask_iff dest: fits_bit)

lemma bit_u8: "8 \<le> n \<Longrightarrow> bit (t :: u8) n = False"
  using bit_imp_le_length [of t n] by auto

lemma bit_u32: "32 \<le> n \<Longrightarrow> bit (t :: u32) n = False"
  using bit_imp_le_length [of t n] by auto

lemma word0_tag:
  "drop_bit 2 (PB_FIELDINFO_1 e ! 0) AND 0x3F = fi_tag e AND 0x3F" "drop_bit 2 (PB_FIELDINFO_2 e ! 0) AND 0x3F = fi_tag e AND 0x3F"
  "drop_bit 2 (PB_FIELDINFO_4 e ! 0) AND 0x3F = fi_tag e AND 0x3F" "drop_bit 2 (PB_FIELDINFO_8 e ! 0) AND 0x3F = fi_tag e AND 0x3F"
  unfolding fieldinfo_defs nth_Cons_0 masks
  by (rule mask_eqI, simp only: bit_simps comp_apply, simp)+

lemma unpack_1:
  assumes "PB_FIELDINFO_ASSERT_1 e"
  shows "drop_bit 24 (PB_FIELDINFO_1 e ! 0) AND 0x0F = fi_size_offset e" "drop_bit 16 (PB_FIELDINFO_1 e ! 0) AND 0xFF = fi_data_offset e"
    "drop_bit 28 (PB_FIELDINFO_1 e ! 0) AND 0x0F = fi_data_size e" "drop_bit 2 (PB_FIELDINFO_1 e ! 0) AND 0x3F = fi_tag e"
  using assms unfolding PB_FIELDINFO_ASSERT_1_def fieldinfo_defs nth_Cons_0 masks
  by - ((rule fits_eqI, blast, simp, simp only: bit_simps comp_apply, auto simp: bit_u8 bit_u32)+)

lemma unpack_2:
  assumes "PB_FIELDINFO_ASSERT_2 e"
  shows "drop_bit 16 (PB_FIELDINFO_2 e ! 0) AND 0xFFF = fi_array_size e" "drop_bit 28 (PB_FIELDINFO_2 e ! 0) AND 0x0F = fi_size_offset e"
    "PB_FIELDINFO_2 e ! 1 AND 0xFFFF = fi_data_offset e" "drop_bit 16 (PB_FIELDINFO_2 e ! 1) AND 0xFFF = fi_data_size e"
  using assms unfolding PB_FIELDINFO_ASSERT_2_def fieldinfo_defs nth_Cons_0 One_nat_def nth_Cons_Suc masks
  by - ((rule fits_eqI, blast, simp, simp only: bit_simps comp_apply, auto simp: bit_u8 bit_u32)+)
lemma tag_2:
  assumes "PB_FIELDINFO_ASSERT_2 e"
  shows "(drop_bit 2 (PB_FIELDINFO_2 e ! 0) AND 0x3F) OR push_bit 6 (drop_bit 28 (PB_FIELDINFO_2 e ! 1)) = fi_tag e"
proof -
  have f: "PB_FITS (fi_tag e) 10" "PB_FITS (fi_data_size e) 12" using assms by (simp_all add: PB_FIELDINFO_ASSERT_2_def)
  show ?thesis
    unfolding word0_tag unfolding fieldinfo_defs One_nat_def nth_Cons_Suc nth_Cons_0 masks
  proof (rule bit_word_eqI)
    fix n assume "n < LENGTH(32)"
    show "bit (fi_tag e AND mask 6 OR
        push_bit 6 (drop_bit 28 (fi_data_offset e AND mask 16 OR push_bit 16 (fi_data_size e AND mask 12) OR push_bit 22 (fi_tag e AND push_bit 6 (mask 4)))))
        n = bit (fi_tag e) n"
      using fits_bit [OF f(1), of n] fits_bit [OF f(2), of "6 + n"] \<open>n < LENGTH(32)\<close>
      by (cases "n < 6"; cases "n < 10") (simp_all only: bit_simps comp_apply, auto)
  qed
qed
lemma tag_wide:
  assumes "PB_FITS (size_offset_byte e) 8" "PB_FITS (fi_tag e) 16"
  shows "(fi_tag e AND 0x3F) OR push_bit 6 (drop_bit 8 (size_offset_byte e OR (push_bit 2 (fi_tag e) AND 0xFFFFFF00))) = fi_tag e"
  unfolding masks
proof (rule bit_word_eqI)
  fix n assume "n < LENGTH(32)"
  then show "bit (fi_tag e AND mask 6 OR push_bit 6 (drop_bit 8 (size_offset_byte e OR (push_bit 2 (fi_tag e) AND push_bit 8 (mask 24))))) n = bit (fi_tag e) n"
    using fits_bit [OF assms(1), of "2 + n"] fits_bit [OF assms(2), of n]
    by (cases "n < 6") (simp_all only: bit_simps comp_apply, auto)
qed

lemma size_wide: "ucast ((size_offset_byte e OR (push_bit 2 (fi_tag e) AND 0xFFFFFF00)) AND 0xFF) = (ucast (fi_size_offset e) :: u8)"
  unfolding masks size_offset_byte_def
  by (rule bit_word_eqI) (simp only: bit_simps comp_apply, auto)

lemma array_wide: "ucast (drop_bit 16 (PB_FIELDINFO_4 e ! 0)) = (ucast (fi_array_size e) :: u16)"
  unfolding fieldinfo_defs nth_Cons_0 masks
  by (rule bit_word_eqI) (simp only: bit_simps comp_apply, auto simp: bit_u8)

text \<open>Reading back a field.\<close>

definition ok_entry :: "field_entry \<Rightarrow> bool" where
  "ok_entry e \<longleftrightarrow> PB_FIELDINFO_ASSERT (e_width e) (e_info e) \<and> (e_width e = W1 \<longrightarrow> fi_array_size (e_info e) = 1) \<and>
     0 < fi_tag (e_info e) \<and> PB_LTYPE (fi_type (e_info e)) \<noteq> PB_LTYPE_EXTENSION \<and>
     (e_submsg e \<noteq> None \<longleftrightarrow> PB_LTYPE_IS_SUBMSG (fi_type (e_info e)))"

definition words :: "field_entry \<Rightarrow> u32 list" where
  "words e = PB_FIELDINFO (e_width e) (e_info e)"

definition info_at :: "pb_field_iter_t \<Rightarrow> field_entry \<Rightarrow> bool" where
  "info_at it e \<longleftrightarrow> (\<exists>rest. drop (unat (it_field_info_index it)) (field_info (it_descriptor it)) = words e @ rest)"

lemma info_word_at: "info_at it e \<Longrightarrow> k < length (words e) \<Longrightarrow> info_word it k = words e ! k"
proof -
  assume "info_at it e" "k < length (words e)"
  then obtain rest where d: "drop (unat (it_field_info_index it)) (field_info (it_descriptor it)) = words e @ rest"
    by (auto simp: info_at_def)
  have "length (drop (unat (it_field_info_index it)) (field_info (it_descriptor it))) = length (words e) + length rest"
    unfolding d by simp
  with \<open>k < length (words e)\<close> have l: "unat (it_field_info_index it) + k < length (field_info (it_descriptor it))" by simp
  then have "field_info (it_descriptor it) ! (unat (it_field_info_index it) + k) = (words e @ rest) ! k"
    unfolding d [symmetric] by simp
  with l \<open>k < length (words e)\<close> show ?thesis by (simp add: info_word_def nth_append)
qed

lemma length_words: "length (words e) = (case e_width e of W1 \<Rightarrow> 1 | W2 \<Rightarrow> 2 | W4 \<Rightarrow> 4 | W8 \<Rightarrow> 8)"
  by (cases "e_width e") (simp_all add: words_def fieldinfo_defs)

lemma unpack_entry:
  assumes "info_at it e" "ok_entry e"
  shows "unpack it = (ucast (fi_array_size (e_info e)), ucast (fi_tag (e_info e)), ucast (fi_size_offset (e_info e)),
      fi_data_offset (e_info e), ucast (fi_data_size (e_info e)))"
    "ucast (drop_bit 8 (info_word it 0) AND 0xFF) = fi_type (e_info e)"
    "drop_bit 2 (info_word it 0) AND 0x3F = fi_tag (e_info e) AND 0x3F"
    "push_bit (unat (info_word it 0 AND 3)) 1 = (of_nat (length (words e)) :: u16)"
proof -
  note ok = assms(2) [unfolded ok_entry_def PB_FIELDINFO_ASSERT_def]
  have i: "info_word it k = (case e_width e of W1 \<Rightarrow> PB_FIELDINFO_1 | W2 \<Rightarrow> PB_FIELDINFO_2 | W4 \<Rightarrow> PB_FIELDINFO_4 | W8 \<Rightarrow> PB_FIELDINFO_8)
      (e_info e) ! k" if "k < (case e_width e of W1 \<Rightarrow> 1 | W2 \<Rightarrow> 2 | W4 \<Rightarrow> 4 | W8 \<Rightarrow> 8)" for k
    using info_word_at [OF assms(1), unfolded length_words, OF that] by (simp only: words_def PB_FIELDINFO_def)
  have "0 < (case e_width e of W1 \<Rightarrow> 1 | W2 \<Rightarrow> 2 | W4 \<Rightarrow> 4 | W8 \<Rightarrow> (8 :: nat))" by (cases "e_width e") simp_all
  note i0 = i [OF this]
  show "ucast (drop_bit 8 (info_word it 0) AND 0xFF) = fi_type (e_info e)"
    by (cases "e_width e") (simp_all only: i0 width.case word0_type)
  show "drop_bit 2 (info_word it 0) AND 0x3F = fi_tag (e_info e) AND 0x3F"
    by (cases "e_width e") (simp_all only: i0 width.case word0_tag)
  show "push_bit (unat (info_word it 0 AND 3)) 1 = (of_nat (length (words e)) :: u16)"
    by (cases "e_width e") (simp_all only: i0 width.case word0_bits length_words, simp_all add: push_bit_eq_mult)
  show "unpack it = (ucast (fi_array_size (e_info e)), ucast (fi_tag (e_info e)), ucast (fi_size_offset (e_info e)),
      fi_data_offset (e_info e), ucast (fi_data_size (e_info e)))"
  proof (cases "e_width e")
    case W1
    with ok have a: "PB_FIELDINFO_ASSERT_1 (e_info e)" "fi_array_size (e_info e) = 1" by simp_all
    show ?thesis unfolding unpack_def Let_def i0 W1 width.case word0_bits(1) unpack_1 [OF a(1)] a(2) by simp
  next
    case W2
    with ok have a: "PB_FIELDINFO_ASSERT_2 (e_info e)" by simp
    have i1: "info_word it 1 = PB_FIELDINFO_2 (e_info e) ! 1" using i [of 1] W2 by simp
    show ?thesis unfolding unpack_def Let_def i0 i1 W2 width.case word0_bits(2) unpack_2 [OF a] tag_2 [OF a] by simp
  next
    case W4
    with ok have a: "PB_FIELDINFO_ASSERT_4 (e_info e)" by simp
    have "info_word it 1 = size_offset_byte (e_info e) OR (push_bit 2 (fi_tag (e_info e)) AND 0xFFFFFF00)"
        "info_word it 2 = fi_data_offset (e_info e)" "info_word it 3 = fi_data_size (e_info e)"
      using i [of 1] i [of 2] i [of 3] unfolding W4 width.case by (simp_all add: PB_FIELDINFO_4_def)
    with a W4 show ?thesis
      unfolding unpack_def Let_def i0 W4 width.case word0_bits(3) word0_tag(3) array_wide
      by (simp only: PB_FIELDINFO_ASSERT_4_def tag_wide size_wide) simp
  next
    case W8
    with ok have a: "PB_FIELDINFO_ASSERT_8 (e_info e)" by simp
    have "info_word it 1 = size_offset_byte (e_info e) OR (push_bit 2 (fi_tag (e_info e)) AND 0xFFFFFF00)"
        "info_word it 2 = fi_data_offset (e_info e)" "info_word it 3 = fi_data_size (e_info e)"
        "info_word it 4 = fi_array_size (e_info e)"
      using i [of 1] i [of 2] i [of 3] i [of 4] unfolding W8 width.case by (simp_all add: PB_FIELDINFO_8_def)
    with a W8 show ?thesis
      unfolding unpack_def Let_def i0 W8 width.case word0_bits(4) word0_tag(4)
      by (simp only: PB_FIELDINFO_ASSERT_8_def tag_wide size_wide) simp
  qed
qed

end
