(* ===== verification/Iterator.thy ===== *)
theory Iterator
  imports Descriptor_Words
begin

text \<open>
  The field iterator refines the search in the list of fields: every iterator that the entry points of
  \<^verbatim>\<open>src/nanopb/pb_common.c\<close> reach on a packed descriptor stands at a field of it, and the search returns the same field
  as the list search of the decoder model.
\<close>

unbundle bit_operations_syntax

section \<open>Positions\<close>

definition ok_desc :: "field_entry list \<Rightarrow> bool" where
  "ok_desc es \<longleftrightarrow> list_all ok_entry es \<and> sorted_wrt (<) (map (\<lambda>e. fi_tag (e_info e)) es) \<and> length es < 0xFFFF \<and>
     length (concat (map words es)) < 2 ^ 16"

definition positioned :: "field_entry list \<Rightarrow> int \<Rightarrow> nat \<Rightarrow> pb_field_iter_t \<Rightarrow> bool" where
  "positioned es a j it \<longleftrightarrow> it_descriptor it = PB_BIND es \<and> it_message it = At a \<and> it_index it = of_nat j \<and>
     it_field_info_index it = of_nat (length (concat (map words (take j es)))) \<and>
     it_submessage_index it = of_nat (length (List.map_filter e_submsg (take j es)))"

definition loaded :: "int \<Rightarrow> field_entry \<Rightarrow> pb_field_iter_t \<Rightarrow> bool" where
  "loaded a e it \<longleftrightarrow> it_tag it = ucast (fi_tag (e_info e)) \<and> it_type it = fi_type (e_info e) \<and>
     it_data_size it = ucast (fi_data_size (e_info e)) \<and> it_array_size it = ucast (fi_array_size (e_info e)) \<and>
     it_pField it = At (a + int (unat (fi_data_offset (e_info e)))) \<and> it_submsg_desc it = e_submsg e"

lemma bind_simps [simp]:
  "field_count (PB_BIND es) = of_nat (length es)" "submsg_info (PB_BIND es) = List.map_filter e_submsg es"
  "field_info (PB_BIND es) = concat (map words es) @ [0]"
  by (simp_all add: PB_BIND_def words_def [abs_def])

lemma length_take_words: "length (concat (map words (take j es))) \<le> length (concat (map words es))"
  using length_append [of "concat (map words (take j es))" "concat (map words (drop j es))"]
  by (simp only: concat_append [symmetric] map_append [symmetric] append_take_drop_id)

lemma unat16: "n < 2 ^ 16 \<Longrightarrow> unat (of_nat n :: u16) = n"
  by (simp only: unat_of_nat) simp

lemma zero16:
  assumes "k < 2 ^ 16"
  shows "(of_nat k :: u16) = 0 \<longleftrightarrow> k = 0"
proof
  assume "(of_nat k :: u16) = 0"
  then have "unat (of_nat k :: u16) = 0" by (simp only: unat_0)
  then show "k = 0" using unat16 [OF assms] by metis
qed simp

lemma info_at_position:
  assumes "ok_desc es" "positioned es a j it" "j < length es"
  shows "info_at it (es ! j)"
proof -
  have "length (concat (map words (take j es))) < 2 ^ 16"
    using assms(1) length_take_words [of j es] by (simp add: ok_desc_def)
  then have u: "unat (it_field_info_index it) = length (concat (map words (take j es)))"
    using assms(2) unat16 by (simp add: positioned_def)
  have "concat (map words es) = concat (map words (take j es)) @ words (es ! j) @ concat (map words (drop (Suc j) es))"
    using arg_cong [OF id_take_nth_drop [OF assms(3)], of "\<lambda>x. concat (map words x)"] by simp
  moreover have "it_descriptor it = PB_BIND es" using assms(2) by (simp add: positioned_def)
  ultimately show ?thesis unfolding info_at_def u by simp
qed

lemma submsg_position:
  assumes "j < length es" "e_submsg (es ! j) = Some d"
  shows "length (List.map_filter e_submsg (take j es)) < length (List.map_filter e_submsg es) \<and>
    List.map_filter e_submsg es ! length (List.map_filter e_submsg (take j es)) = d"
proof -
  have "List.map_filter e_submsg es = List.map_filter e_submsg (take j es) @ d # List.map_filter e_submsg (drop (Suc j) es)"
    using arg_cong [OF id_take_nth_drop [OF assms(1)], of "List.map_filter e_submsg"] assms(2)
    by (simp add: List.map_filter_def)
  then show ?thesis by simp
qed

lemma load_position:
  assumes "ok_desc es" "positioned es a j it" "j < length es"
  obtains it' where "load_descriptor_values mem it = (True, it')" "positioned es a j it'" "loaded a (es ! j) it'"
proof -
  have e: "ok_entry (es ! j)" using assms(1,3) by (simp add: ok_desc_def list_all_length)
  note u = unpack_entry [OF info_at_position [OF assms] e]
  have "length (List.map_filter e_submsg (take j es)) \<le> length (take j es)"
    using length_filter_le [of "\<lambda>e. e_submsg e \<noteq> None" "take j es"] by (simp only: List.map_filter_def length_map comp_def)
  then have k: "unat (it_submessage_index it) = length (List.map_filter e_submsg (take j es))"
    using assms by (simp add: positioned_def ok_desc_def unat16)
  have i: "\<not> it_index it \<ge> field_count (it_descriptor it)"
    using assms by (simp add: positioned_def ok_desc_def word_le_nat_alt unat16)
  have s: "(if PB_LTYPE_IS_SUBMSG (fi_type (e_info (es ! j))) \<and> unat (it_submessage_index it) < length (List.map_filter e_submsg es)
      then Some (List.map_filter e_submsg es ! unat (it_submessage_index it)) else None) = e_submsg (es ! j)"
    using e submsg_position [OF assms(3)] by (cases "e_submsg (es ! j)") (auto simp: ok_entry_def k)
  show thesis
  proof (rule that)
    show "load_descriptor_values mem it = (True, snd (load_descriptor_values mem it))"
      using i by (simp add: load_descriptor_values_def Let_def u(1))
    show "positioned es a j (snd (load_descriptor_values mem it))" "loaded a (es ! j) (snd (load_descriptor_values mem it))"
      using i assms(2) s unfolding load_descriptor_values_def Let_def u(1,2)
      by (simp_all add: positioned_def loaded_def cong: if_cong)
  qed
qed


lemma advance_position:
  assumes "ok_desc es" "positioned es a j it" "j < length es"
  shows "positioned es a (if Suc j < length es then Suc j else 0) (advance_iterator it)"
proof -
  have e: "ok_entry (es ! j)" using assms(1,3) by (simp add: ok_desc_def list_all_length)
  note i = info_at_position [OF assms]
  have w: "info_word (it\<lparr>it_index := x\<rparr>) k = info_word it k" for x k by (simp add: info_word_def)
  note u = unpack_entry [OF i e] and d = unpack_entry(4) [OF i e, simplified]
  have l: "unat (of_nat (Suc j) :: u16) = Suc j" "unat (of_nat (length es) :: u16) = length es"
    by (rule unat16, use assms(1,3) in \<open>simp add: ok_desc_def\<close>)+
  have c: "it_index it + 1 \<ge> field_count (it_descriptor it) \<longleftrightarrow> length es \<le> Suc j"
    using assms(2) l by (simp add: positioned_def word_le_nat_alt add.commute)
  have t: "take (Suc j) es = take j es @ [es ! j]" using assms(3) by (rule take_Suc_conv_app_nth)
  have m: "length (List.map_filter e_submsg (take (Suc j) es)) =
      length (List.map_filter e_submsg (take j es)) + (if PB_LTYPE_IS_SUBMSG (fi_type (e_info (es ! j))) then 1 else 0)"
    using e by (simp add: t List.map_filter_def ok_entry_def)
  show ?thesis
  proof (cases "Suc j < length es")
    case True
    then show ?thesis using assms(2) c m
      by (simp add: advance_iterator_def Let_def w u d positioned_def t add.commute)
  next
    case False
    then show ?thesis using assms(2) c by (simp add: advance_iterator_def Let_def positioned_def)
  qed
qed

lemma advance_reset:
  assumes "ok_desc es" "positioned es a j it"
  shows "positioned es a 0 (advance_iterator (it\<lparr>it_index := field_count (it_descriptor it)\<rparr>))"
proof -
  have "field_count (PB_BIND es) \<le> field_count (PB_BIND es) + 1"
    using assms(1) unat16 [of "length es"] unat16 [of "Suc (length es)"] by (simp add: ok_desc_def word_le_nat_alt add.commute)
  then show ?thesis using assms(2) by (simp add: advance_iterator_def Let_def positioned_def)
qed


lemma fits_mono: "PB_FITS v k \<Longrightarrow> k \<le> 16 \<Longrightarrow> ucast (ucast v :: u16) = v"
  by (rule bit_word_eqI) (simp only: bit_simps, auto dest: fits_bit)

lemma tag_fits: "ok_entry e \<Longrightarrow> ucast (ucast (fi_tag (e_info e)) :: u16) = fi_tag (e_info e)"
  by (cases "e_width e") (auto simp: ok_entry_def PB_FIELDINFO_ASSERT_def PB_FIELDINFO_ASSERT_1_def PB_FIELDINFO_ASSERT_2_def
      PB_FIELDINFO_ASSERT_4_def PB_FIELDINFO_ASSERT_8_def intro: fits_mono)

fun chain :: "nat \<Rightarrow> nat \<Rightarrow> nat list \<Rightarrow> bool" where
  "chain n s [] \<longleftrightarrow> False"
| "chain n s [i] \<longleftrightarrow> i = s \<and> i < n"
| "chain n s (i # k # p) \<longleftrightarrow> i \<noteq> s \<and> i < n \<and> k = (if Suc i < n then Suc i else 0) \<and> chain n s (k # p)"

definition answer :: "field_entry list \<Rightarrow> int \<Rightarrow> nat \<Rightarrow> nat option \<Rightarrow> (bool \<times> pb_field_iter_t) option \<Rightarrow> bool" where
  "answer es a s found r \<longleftrightarrow>
     (case r of
        None \<Rightarrow> False
      | Some (b, it) \<Rightarrow> b = (found \<noteq> None) \<and> (let i = (case found of Some i \<Rightarrow> i | None \<Rightarrow> s) in positioned es a i it \<and> loaded a (es ! i) it))"

lemma find_step:
  assumes "ok_desc es" "positioned es a i (advance_iterator it)" "i < length es" "s < length es"
  obtains it' it'' where "positioned es a i it'" "loaded a (es ! i) it'" "positioned es a i it''"
    "find_loop mem tag (of_nat s) it =
       (if fi_tag (e_info (es ! i)) = tag then Some (True, it')
        else if i \<noteq> s then find_loop mem tag (of_nat s) it''
        else Some (False, snd (load_descriptor_values mem it'')))"
proof -
  have e: "ok_entry (es ! i)" using assms(1,3) by (simp add: ok_desc_def list_all_length)
  note c = unpack_entry(3) [OF info_at_position [OF assms(1-3)] e]
  obtain it' where l: "load_descriptor_values mem (advance_iterator it) = (True, it')" "positioned es a i it'" "loaded a (es ! i) it'"
    using load_position [OF assms(1-3)] .
  have t: "ucast (it_tag it') = fi_tag (e_info (es ! i))" "PB_LTYPE (it_type it') \<noteq> PB_LTYPE_EXTENSION"
    using l(3) tag_fits [OF e] e by (simp_all add: loaded_def ok_entry_def)
  have "unat (of_nat i :: u16) = i" "unat (of_nat s :: u16) = s"
    by (rule unat16, use assms(1,3,4) in \<open>simp add: ok_desc_def\<close>)+
  then have n: "of_nat i = (of_nat s :: u16) \<longleftrightarrow> i = s" by metis
  have x: "it_index it' = of_nat i" "it_index (advance_iterator it) = of_nat i"
    using l(2) assms(2) by (simp_all add: positioned_def)
  note r = find_loop.simps [of mem tag "of_nat s" it, unfolded Let_def c l(1) snd_conv]
  show thesis
  proof (cases "fi_tag (e_info (es ! i)) AND 0x3F = tag AND 0x3F")
    case True
    show thesis by (rule that [OF l(2,3,2)]) (simp only: r True t x n simp_thms if_True)
  next
    case False
    then have "fi_tag (e_info (es ! i)) \<noteq> tag" by auto
    then show thesis by - (rule that [OF l(2,3) assms(2)], simp only: r False t x n simp_thms if_False)
  qed
qed

lemma chain_last: "chain n s p \<Longrightarrow> s < n"
  by (induction n s p rule: chain.induct) auto

lemma find_path:
  assumes "ok_desc es" "chain (length es) s p" "positioned es a (hd p) (advance_iterator it)"
  shows "answer es a s (find (\<lambda>i. fi_tag (e_info (es ! i)) = tag) p) (find_loop mem tag (of_nat s) it)"
  using assms(2,3)
proof (induction "length es" s p arbitrary: it rule: chain.induct)
  case (2 s i)
  then have i: "i = s" "i < length es" "positioned es a i (advance_iterator it)" by simp_all
  obtain it' it'' where f: "positioned es a i it'" "loaded a (es ! i) it'" "positioned es a i it''"
      "find_loop mem tag (of_nat s) it = (if fi_tag (e_info (es ! i)) = tag then Some (True, it')
        else if i \<noteq> s then find_loop mem tag (of_nat s) it'' else Some (False, snd (load_descriptor_values mem it'')))"
    using find_step [OF assms(1) i(3,2), of s mem tag] i by metis
  obtain it3 where "load_descriptor_values mem it'' = (True, it3)" "positioned es a i it3" "loaded a (es ! i) it3"
    using load_position [OF assms(1) f(3) i(2)] .
  with f i(1) show ?case by (simp add: answer_def)
next
  case (3 s i k p)
  then have i: "i \<noteq> s" "i < length es" "positioned es a i (advance_iterator it)" "s < length es"
    by (auto dest: chain_last)
  obtain it' it'' where f: "positioned es a i it'" "loaded a (es ! i) it'" "positioned es a i it''"
      "find_loop mem tag (of_nat s) it = (if fi_tag (e_info (es ! i)) = tag then Some (True, it')
        else if i \<noteq> s then find_loop mem tag (of_nat s) it'' else Some (False, snd (load_descriptor_values mem it'')))"
    using find_step [OF assms(1) i(3,2,4), of mem tag] by metis
  have "positioned es a k (advance_iterator it'')"
    using advance_position [OF assms(1) f(3) i(2)] 3(2) by auto
  then have "answer es a s (find (\<lambda>i. fi_tag (e_info (es ! i)) = tag) (k # p)) (find_loop mem tag (of_nat s) it'')"
    using 3 by auto
  with f i(1) show ?case
    by (cases "fi_tag (e_info (es ! i)) = tag") (simp add: answer_def, simp)
qed simp


lemma chain_upto: "m \<le> j \<Longrightarrow> j < n \<Longrightarrow> chain n j [m..<Suc j]"
proof (induction "j - m" arbitrary: m)
  case (Suc k)
  then have m: "m < j" "m < Suc j" "Suc m < Suc j" by auto
  then have "[m..<Suc j] = m # Suc m # [Suc (Suc m)..<Suc j]" "[Suc m..<Suc j] = Suc m # [Suc (Suc m)..<Suc j]"
    by (simp_all only: upt_conv_Cons)
  moreover have "chain n j [Suc m..<Suc j]" using Suc by simp
  ultimately show ?case using m(1) \<open>j < n\<close> by (simp del: upt_Suc)
qed simp

lemma chain_wrap: "j < m \<Longrightarrow> m \<le> n \<Longrightarrow> chain n j ([m..<n] @ [0..<Suc j])"
proof (induction "n - m" arbitrary: m)
  case 0
  then show ?case using chain_upto [of 0 j n] by (simp del: upt_Suc)
next
  case (Suc k)
  have c: "chain n j ([Suc m..<n] @ [0..<Suc j])" using Suc by simp
  have u: "[m..<n] = m # [Suc m..<n]" using Suc by (simp add: upt_conv_Cons)
  have h: "[Suc m..<n] @ [0..<Suc j] = (if Suc m < n then Suc m else 0) # tl ([Suc m..<n] @ [0..<Suc j])"
    using upt_conv_Cons [of "Suc m" n] upt_conv_Cons [of 0 "Suc j"] by (simp del: upt_Suc)
  show ?case unfolding u append_Cons
    by (subst h, subst chain.simps, use c h Suc in \<open>simp del: upt_Suc\<close>)
qed

lemma hd_wrap: "j < n \<Longrightarrow> hd ([Suc j..<n] @ [0..<Suc j]) = (if Suc j < n then Suc j else 0)"
  by (simp add: hd_append upt_conv_Cons del: upt_Suc)

text \<open>Tags are in increasing order.\<close>

lemma tag_less:
  assumes "ok_desc es" "i < k" "k < length es"
  shows "fi_tag (e_info (es ! i)) < fi_tag (e_info (es ! k))"
  using assms sorted_wrt_nth_less [of "(<)" "map (\<lambda>e. fi_tag (e_info e)) es" i k] by (simp add: ok_desc_def)

lemma tag_inj:
  assumes "ok_desc es" "i < length es" "k < length es" "fi_tag (e_info (es ! i)) = fi_tag (e_info (es ! k))"
  shows "i = k"
  using assms tag_less [OF assms(1), of i k] tag_less [OF assms(1), of k i] by (cases i k rule: linorder_cases) auto

lemma largest_tag_last: "es \<noteq> [] \<Longrightarrow> largest_tag (PB_BIND es) = ucast (fi_tag (e_info (last es)))"
  by (induction es rule: rev_induct) (simp_all add: PB_BIND_def)

lemma tag_le_largest:
  assumes "ok_desc es" "i < length es"
  shows "fi_tag (e_info (es ! i)) \<le> ucast (largest_tag (PB_BIND es))"
proof -
  have n: "es \<noteq> []" "length es - 1 < length es" using assms(2) by auto
  then have l: "ok_entry (last es)" using assms(1) by (simp add: ok_desc_def list_all_iff)
  have "fi_tag (e_info (es ! i)) \<le> fi_tag (e_info (last es))"
  proof (cases "i = length es - 1")
    case False
    then have "i < length es - 1" using assms(2) by auto
    then show ?thesis using tag_less [OF assms(1) _ n(2)] by (auto simp: last_conv_nth n(1) less_imp_le)
  qed (simp add: last_conv_nth n(1))
  then show ?thesis using tag_fits [OF l] largest_tag_last [OF n(1)] by simp
qed


lemma find_eq_Some_iff:
  assumes "\<forall>k \<in> set p. k \<noteq> i \<longrightarrow> \<not> P k" "i \<in> set p" "P i"
  shows "find P p = Some i"
  using assms
proof (induction p)
  case (Cons k p)
  then show ?case by (cases "k = i") simp_all
qed simp

lemma find_eq_None: "(\<And>k. k \<in> set p \<Longrightarrow> \<not> P k) \<Longrightarrow> find P p = None"
  by (simp add: find_None_iff)

lemma answer_here:
  assumes "positioned es a j it" "loaded a (es ! j) it"
  shows "answer es a j (Some j) (Some (True, it))" "answer es a j None (Some (False, it))"
  using assms by (simp_all add: answer_def)

lemma find_whole:
  fixes es tag
  defines "P \<equiv> \<lambda>i. fi_tag (e_info (es ! i)) = tag"
  assumes "ok_desc es" "set p \<subseteq> {..<length es}" "\<And>i. i < length es \<Longrightarrow> P i \<Longrightarrow> i \<in> set p"
  shows "find P p = find P [0..<length es]"
proof (cases "\<exists>i<length es. P i")
  case True
  then obtain i where i: "i < length es" "P i" by auto
  have "k = i" if "k < length es" "P k" for k using tag_inj [OF assms(2) that(1) i(1)] that(2) i(2) by (simp add: P_def)
  then have "\<forall>k \<in> set p. k \<noteq> i \<longrightarrow> \<not> P k" "\<forall>k \<in> set [0..<length es]. k \<noteq> i \<longrightarrow> \<not> P k" using assms(3) by auto
  moreover have "i \<in> set p" "i \<in> set [0..<length es]" using i assms(4) by auto
  ultimately show ?thesis using find_eq_Some_iff [where P = P and i = i] i(2) by metis
next
  case False
  then have "find P p = None" "find P [0..<length es] = None" using assms(3) by (auto intro!: find_eq_None)
  then show ?thesis by simp
qed

lemma iter_find_answer:
  assumes "ok_desc es" "positioned es a j it" "loaded a (es ! j) it" "j < length es"
  shows "answer es a j (find (\<lambda>i. fi_tag (e_info (es ! i)) = tag) [0..<length es]) (iter_find mem it tag)"
proof -
  let ?P = "\<lambda>i. fi_tag (e_info (es ! i)) = tag"
  have e: "ok_entry (es ! j)" using assms(1,4) by (simp add: ok_desc_def list_all_length)
  have t: "ucast (it_tag it) = fi_tag (e_info (es ! j))" using assms(3) tag_fits [OF e] by (simp add: loaded_def)
  have d: "it_descriptor it = PB_BIND es" "it_index it = of_nat j" using assms(2) by (simp_all add: positioned_def)
  consider "fi_tag (e_info (es ! j)) = tag" | "fi_tag (e_info (es ! j)) \<noteq> tag" "tag > ucast (largest_tag (PB_BIND es))"
    | "tag < fi_tag (e_info (es ! j))" "\<not> tag > ucast (largest_tag (PB_BIND es))"
    | "tag > fi_tag (e_info (es ! j))" "\<not> tag > ucast (largest_tag (PB_BIND es))"
    using neq_iff by blast
  then show ?thesis
  proof cases
    case 1
    have "\<forall>k \<in> set [0..<length es]. k \<noteq> j \<longrightarrow> \<not> ?P k"
      using tag_inj [OF assms(1) _ assms(4)] 1 by (metis atLeastLessThan_iff set_upt)
    then have "find ?P [0..<length es] = Some j" using assms(4) 1 by (intro find_eq_Some_iff) simp_all
    then show ?thesis using 1 answer_here(1) [OF assms(2,3)] by (simp add: iter_find_def t)
  next
    case 2
    have "\<not> ?P i" if "i < length es" for i
      using tag_le_largest [OF assms(1) that] 2(2) leD by metis
    then have "find ?P [0..<length es] = None" by (intro find_eq_None) simp
    then show ?thesis using 2 answer_here(2) [OF assms(2,3)] by (simp add: iter_find_def t d)
  next
    case 3
    have "i \<in> set [0..<Suc j]" if "i < length es" "?P i" for i
      using tag_less [OF assms(1) _ that(1), of j] that 3 by (cases "j < i") (auto simp: not_less less_Suc_eq_le)
    then have "find ?P [0..<Suc j] = find ?P [0..<length es]" using assms(4) by (intro find_whole [OF assms(1)]) auto
    moreover have "answer es a j (find ?P [0..<Suc j])
        (find_loop mem tag (of_nat j) (it\<lparr>it_index := field_count (it_descriptor it)\<rparr>))"
      using advance_reset [OF assms(1,2)] chain_upto [of 0 j] assms(4)
      by (intro find_path [OF assms(1)]) (simp_all add: upt_conv_Cons del: upt_Suc)
    moreover have "fi_tag (e_info (es ! j)) \<noteq> tag" using 3(1) by auto
    ultimately show ?thesis using 3 by (simp add: iter_find_def t d del: upt_Suc)
  next
    case 4
    have "find ?P ([Suc j..<length es] @ [0..<Suc j]) = find ?P [0..<length es]" using assms(4) by (intro find_whole [OF assms(1)]) auto
    moreover have "answer es a j (find ?P ([Suc j..<length es] @ [0..<Suc j])) (find_loop mem tag (of_nat j) it)"
      using advance_position [OF assms(1,2,4)] assms(4)
      by (intro find_path [OF assms(1) chain_wrap]) (simp, simp, simp only: hd_wrap)
    moreover have "fi_tag (e_info (es ! j)) \<noteq> tag" "\<not> tag < fi_tag (e_info (es ! j))" using 4(1) by auto
    ultimately show ?thesis using 4 by (simp add: iter_find_def t d del: upt_Suc)
  qed
qed


section \<open>Reachable iterators\<close>

text \<open>The iterators that the three entry points produce on a message at address \<open>a\<close>.\<close>

inductive walked :: "(int \<Rightarrow> pb_ptr) \<Rightarrow> field_entry list \<Rightarrow> int \<Rightarrow> pb_field_iter_t \<Rightarrow> bool" for mem es a where
  iter_begin: "pb_field_iter_begin mem (PB_BIND es) (At a) = (b, it) \<Longrightarrow> walked mem es a it"
| iter_next: "walked mem es a it \<Longrightarrow> pb_field_iter_next mem it = (b, it') \<Longrightarrow> walked mem es a it'"
| iter_search: "walked mem es a it \<Longrightarrow> iter_find mem it tag = Some (b, it') \<Longrightarrow> walked mem es a it'"

definition at_field :: "field_entry list \<Rightarrow> int \<Rightarrow> nat \<Rightarrow> pb_field_iter_t \<Rightarrow> bool" where
  "at_field es a j it \<longleftrightarrow> j < length es \<and> positioned es a j it \<and> loaded a (es ! j) it"

lemma begin_position:
  assumes "ok_desc es" "es \<noteq> []"
  shows "\<exists>it. pb_field_iter_begin mem (PB_BIND es) (At a) = (True, it) \<and> at_field es a 0 it"
proof -
  let ?it = "\<lparr>it_descriptor = PB_BIND es, it_message = At a, it_index = 0, it_field_info_index = 0, it_required_field_index = 0,
        it_submessage_index = 0, it_tag = 0, it_data_size = 0, it_array_size = 0, it_type = 0, it_pField = Null,
        it_pData = Null, it_pSize = Null, it_submsg_desc = None\<rparr>"
  have "positioned es a 0 ?it" by (simp add: positioned_def)
  then obtain it' where "load_descriptor_values mem ?it = (True, it')" "positioned es a 0 it'" "loaded a (es ! 0) it'"
    using load_position [OF assms(1), of a 0 ?it mem] assms(2) by auto
  then show ?thesis using assms(2) by (simp add: pb_field_iter_begin_def at_field_def)
qed

lemma next_position:
  assumes "ok_desc es" "at_field es a j it"
  shows "\<exists>it'. pb_field_iter_next mem it = (Suc j < length es, it') \<and> at_field es a (if Suc j < length es then Suc j else 0) it'"
proof -
  let ?k = "if Suc j < length es then Suc j else 0"
  have j: "j < length es" "positioned es a j it" using assms(2) by (simp_all add: at_field_def)
  then have k: "?k < length es" by auto
  obtain it' where l: "load_descriptor_values mem (advance_iterator it) = (True, it')" "positioned es a ?k it'" "loaded a (es ! ?k) it'"
    using load_position [OF assms(1) advance_position [OF assms(1) j(2,1)] k] .
  have "?k < 2 ^ 16" using k assms(1) by (simp add: ok_desc_def)
  then have "(of_nat ?k :: u16) = 0 \<longleftrightarrow> ?k = 0" by (rule zero16)
  moreover have "it_index it' = of_nat ?k" using l(2) by (simp add: positioned_def)
  ultimately have "(it_index it' \<noteq> 0) = (Suc j < length es)" by simp
  with l k show ?thesis by (simp add: pb_field_iter_next_def at_field_def)
qed

lemma find_position:
  assumes "ok_desc es" "at_field es a j it"
  shows "\<exists>it'. iter_find mem it tag =
      Some (find (\<lambda>i. fi_tag (e_info (es ! i)) = tag) [0..<length es] \<noteq> None, it') \<and>
      at_field es a (case find (\<lambda>i. fi_tag (e_info (es ! i)) = tag) [0..<length es] of Some i \<Rightarrow> i | None \<Rightarrow> j) it'"
proof -
  have "i < length es" if "find (\<lambda>i. fi_tag (e_info (es ! i)) = tag) [0..<length es] = Some i" for i
    using that by (auto simp: find_Some_iff)
  then show ?thesis
    using iter_find_answer [OF assms(1), of a j it tag mem] assms(2)
    by (auto simp: answer_def at_field_def split: option.splits)
qed

lemma walked_at:
  assumes "walked mem es a it" "ok_desc es" "es \<noteq> []"
  shows "\<exists>j. at_field es a j it"
  using assms
proof (induction rule: walked.induct)
  case (iter_begin b it)
  then show ?case using begin_position [of es mem a] by auto
next
  case (iter_next it b it')
  then show ?case using next_position [of es a _ it mem] by fastforce
next
  case (iter_search it tag b it')
  then show ?case using find_position [of es a _ it mem tag] by fastforce
qed

definition describes :: "field_entry list \<Rightarrow> pb_field list \<Rightarrow> bool" where
  "describes es fs \<longleftrightarrow> list_all2 (\<lambda>e f. fi_tag (e_info e) = f_tag f \<and> fi_type (e_info e) = type_byte f) es fs"

lemma find_nth: "find P (map f xs) = map_option f (find (P \<circ> f) xs)"
  by (induction xs) auto

lemma describes_find:
  assumes "describes es fs"
  shows "pb_field_iter_find fs tag = map_option ((!) fs) (find (\<lambda>i. fi_tag (e_info (es ! i)) = tag) [0..<length es])"
proof -
  have l: "length es = length fs" and t: "\<And>i. i < length fs \<Longrightarrow> fi_tag (e_info (es ! i)) = f_tag (fs ! i)"
    using assms by (auto simp: describes_def list_all2_conv_all_nth)
  have "find (\<lambda>f. f_tag f = tag) fs = find (\<lambda>f. f_tag f = tag) (map ((!) fs) [0..<length fs])" by (simp add: map_nth)
  also have "\<dots> = map_option ((!) fs) (find ((\<lambda>f. f_tag f = tag) \<circ> (!) fs) [0..<length fs])" by (rule find_nth)
  also have "find ((\<lambda>f. f_tag f = tag) \<circ> (!) fs) [0..<length fs] = find (\<lambda>i. fi_tag (e_info (es ! i)) = tag) [0..<length es]"
    unfolding l by (rule find_cong) (simp_all add: t)
  finally show ?thesis by (simp add: pb_field_iter_find_def)
qed

text \<open>C38: From any iterator that \<^verbatim>\<open>pb_field_iter_begin\<close>, \<^verbatim>\<open>pb_field_iter_next\<close> and \<^verbatim>\<open>pb_field_iter_find\<close> reach on a packed
  descriptor, the search for a tag returns. It succeeds exactly when the search in the list of fields succeeds, and
  then the iterator stands at that field with its tag, type, sizes, address and submessage descriptor unpacked; when it
  fails, the iterator stands at the field where it started.
\<close>

theorem iter_find_refines_list_search:
  assumes "ok_desc es" "describes es fs" "es \<noteq> []" "walked mem es a it"
  shows "\<exists>j it'. at_field es a j it \<and>
    (case pb_field_iter_find fs tag of
       Some f \<Rightarrow> \<exists>i. iter_find mem it tag = Some (True, it') \<and> at_field es a i it' \<and> fs ! i = f \<and>
         it_type it' = type_byte f \<and> ucast (it_tag it') = tag
     | None \<Rightarrow> iter_find mem it tag = Some (False, it') \<and> at_field es a j it')"
proof -
  obtain j where j: "at_field es a j it" using walked_at [OF assms(4,1,3)] by auto
  obtain it' where f: "iter_find mem it tag = Some (find (\<lambda>i. fi_tag (e_info (es ! i)) = tag) [0..<length es] \<noteq> None, it')"
      "at_field es a (case find (\<lambda>i. fi_tag (e_info (es ! i)) = tag) [0..<length es] of Some i \<Rightarrow> i | None \<Rightarrow> j) it'"
    using find_position [OF assms(1) j] by metis
  show ?thesis
  proof (cases "find (\<lambda>i. fi_tag (e_info (es ! i)) = tag) [0..<length es]")
    case None
    then show ?thesis using f j describes_find [OF assms(2)] by auto
  next
    case (Some i)
    then have i: "fi_tag (e_info (es ! i)) = tag" "i < length es" by (auto simp: find_Some_iff)
    have "it_type it' = type_byte (fs ! i)" "ucast (it_tag it') = tag"
      using f(2) Some assms(1,2) i tag_fits [of "es ! i"]
      by (auto simp: at_field_def loaded_def describes_def list_all2_conv_all_nth ok_desc_def list_all_length)
    then show ?thesis using f j Some describes_find [OF assms(2)] by auto
  qed
qed


text \<open>The descriptor of \<^verbatim>\<open>protocol_TransferContract\<close> with the widths that \<^verbatim>\<open>AUTO\<close> chooses.\<close>

definition transfer_entries :: "field_entry list" where
  "transfer_entries =
     map2 (\<lambda>f (offset, size). Entry (PB_FIELDINFO_WIDTH_AUTO f) (field_info_t.make (f_tag f) (type_byte f) offset size 0 1) None)
       protocol_TransferContract [(0, 21), (21, 21), (48, 8)]"

lemma transfer_entries_eq:
  "transfer_entries = [Entry W2 (field_info_t.make 1 0x1B 0 21 0 1) None, Entry W2 (field_info_t.make 2 0x1B 21 21 0 1) None,
     Entry W1 (field_info_t.make 3 0x11 48 8 0 1) None]"
  by (simp add: transfer_entries_def protocol_TransferContract_def PB_FIELDINFO_WIDTH_AUTO_def type_byte_def)

lemma transfer_entries_ok: "ok_desc transfer_entries" "describes transfer_entries protocol_TransferContract"
proof -
  show "ok_desc transfer_entries"
    unfolding transfer_entries_eq ok_desc_def ok_entry_def PB_FIELDINFO_ASSERT_def PB_FIELDINFO_ASSERT_1_def PB_FIELDINFO_ASSERT_2_def
      PB_FITS_def PB_LTYPE_IS_SUBMSG_def PB_LTYPE_def
    by (simp add: field_info_t.defs length_words)
  show "describes transfer_entries protocol_TransferContract"
    by (simp add: transfer_entries_eq describes_def protocol_TransferContract_def type_byte_def field_info_t.defs)
qed

theorem iter_find_refines_list_search_witness:
  "\<exists>it it'. pb_field_iter_begin (\<lambda>_. Null) (PB_BIND transfer_entries) (At 0x1000) = (True, it) \<and>
     iter_find (\<lambda>_. Null) it 3 = Some (True, it') \<and> it_type it' = 0x11 \<and> ucast (it_tag it') = (3 :: u32)"
proof -
  obtain it where it: "pb_field_iter_begin (\<lambda>_. Null) (PB_BIND transfer_entries) (At 0x1000) = (True, it)"
    using begin_position [OF transfer_entries_ok(1), of "\<lambda>_. Null"] by (auto simp: transfer_entries_eq)
  have "pb_field_iter_find protocol_TransferContract 3 = Some (Field 3 STATIC SINGULAR (LT_VARINT 8))"
    by (simp add: pb_field_iter_find_def protocol_TransferContract_def)
  then show ?thesis
    using iter_find_refines_list_search [OF transfer_entries_ok _ walked.iter_begin [OF it], of 3] it
    by (auto simp: transfer_entries_eq type_byte_def)
qed

section \<open>Extension fields\<close>

lemma ext_step:
  assumes "ok_desc es" "positioned es a i (advance_iterator it)" "i < length es" "s < length es"
  shows "ext_loop mem (of_nat s) it =
    (if i \<noteq> s then ext_loop mem (of_nat s) (advance_iterator it)
     else Some (False, snd (load_descriptor_values mem (advance_iterator it))))"
proof -
  have e: "ok_entry (es ! i)" using assms(1,3) by (simp add: ok_desc_def list_all_length)
  note c = unpack_entry(2) [OF info_at_position [OF assms(1-3)] e]
  have t: "PB_LTYPE (fi_type (e_info (es ! i))) \<noteq> PB_LTYPE_EXTENSION" using e by (simp add: ok_entry_def)
  have "unat (of_nat i :: u16) = i" "unat (of_nat s :: u16) = s"
    by (rule unat16, use assms(1,3,4) in \<open>simp add: ok_desc_def\<close>)+
  then have n: "of_nat i = (of_nat s :: u16) \<longleftrightarrow> i = s" by metis
  have "it_index (advance_iterator it) = of_nat i" using assms(2) by (simp add: positioned_def)
  then show ?thesis using ext_loop.simps [of mem "of_nat s" it, unfolded Let_def c] t n by (simp only: if_False)
qed

lemma ext_path:
  assumes "ok_desc es" "chain (length es) s p" "positioned es a (hd p) (advance_iterator it)"
  shows "\<exists>it'. ext_loop mem (of_nat s) it = Some (False, it') \<and> at_field es a s it'"
  using assms(2,3)
proof (induction "length es" s p arbitrary: it rule: chain.induct)
  case (2 s i)
  then have i: "i = s" "i < length es" "positioned es a i (advance_iterator it)" by simp_all
  obtain it' where "load_descriptor_values mem (advance_iterator it) = (True, it')" "positioned es a i it'" "loaded a (es ! i) it'"
    using load_position [OF assms(1) i(3,2)] .
  then show ?case using ext_step [OF assms(1) i(3,2), of s mem] i by (simp add: at_field_def)
next
  case (3 s i k p)
  then have i: "i \<noteq> s" "i < length es" "positioned es a i (advance_iterator it)" "s < length es"
    by (auto dest: chain_last)
  have "positioned es a k (advance_iterator (advance_iterator it))"
    using advance_position [OF assms(1) i(3,2)] 3(2) by auto
  then have "\<exists>it'. ext_loop mem (of_nat s) (advance_iterator it) = Some (False, it') \<and> at_field es a s it'" using 3 by auto
  then show ?case using ext_step [OF assms(1) i(3,2,4), of mem] i(1) by simp
qed simp

text \<open>On the descriptors of the application, which have no extension fields, the search for an extension field ends
  after one turn over the fields, reports that there is none and leaves the iterator where it was.
\<close>

theorem find_extension_none:
  assumes "ok_desc es" "es \<noteq> []" "walked mem es a it"
  shows "\<exists>j it'. at_field es a j it \<and> pb_field_iter_find_extension mem it = Some (False, it') \<and> at_field es a j it'"
proof -
  obtain j where j: "at_field es a j it" using walked_at [OF assms(3,1,2)] by auto
  then have p: "positioned es a j it" "j < length es" "it_index it = of_nat j" by (simp_all add: at_field_def positioned_def)
  have "chain (length es) j ([Suc j..<length es] @ [0..<Suc j])" using p(2) by (intro chain_wrap) simp_all
  moreover have "positioned es a (hd ([Suc j..<length es] @ [0..<Suc j])) (advance_iterator it)"
    using advance_position [OF assms(1) p(1,2)] by (simp only: hd_wrap [OF p(2)])
  ultimately obtain it' where "ext_loop mem (of_nat j) it = Some (False, it')" "at_field es a j it'"
    using ext_path [OF assms(1)] by blast
  moreover have "PB_LTYPE (it_type it) \<noteq> PB_LTYPE_EXTENSION"
    using j assms(1) by (auto simp: at_field_def loaded_def ok_desc_def ok_entry_def list_all_length)
  ultimately show ?thesis using j p(3) by (auto simp: pb_field_iter_find_extension_def)
qed

theorem find_extension_none_witness:
  "\<exists>it it'. pb_field_iter_begin (\<lambda>_. Null) (PB_BIND transfer_entries) (At 0x1000) = (True, it) \<and>
     pb_field_iter_find_extension (\<lambda>_. Null) it = Some (False, it')"
proof -
  obtain it where it: "pb_field_iter_begin (\<lambda>_. Null) (PB_BIND transfer_entries) (At 0x1000) = (True, it)"
    using begin_position [OF transfer_entries_ok(1), of "\<lambda>_. Null"] by (auto simp: transfer_entries_eq)
  then show ?thesis
    using find_extension_none [OF transfer_entries_ok(1) _ walked.iter_begin [OF it]] by (auto simp: transfer_entries_eq)
qed

end
