(* ===== verification/Vote_Review.thy ===== *)
theory Vote_Review
  imports Transfer_Review Message_Roundtrip
begin

text \<open>
  The review of a vote: from the bytes that the encoder writes for the contract to the rows on the screen. The texts
  of the rows share the buffer of the command, one slot of 50 bytes for each vote.
\<close>

section \<open>Texts in the slots of the buffer\<close>

lemma cstr_prefix:
  assumes "take e b = take e c" "p + strlen (drop p c) < e" "p + strlen (drop p c) < length c"
  shows "cstr (drop p b) = cstr (drop p c)"
proof -
  have s: "drop p c = cstr (drop p c) @ 0 # drop (Suc (strlen (drop p c))) (drop p c)"
    using assms(3) by (intro cstr_split) simp
  have "take (e - p) (drop p b) = take (e - p) (drop p c)" using assms(1) by (metis take_drop drop_take)
  then have "take (Suc (strlen (drop p c))) (drop p b) = take (Suc (strlen (drop p c))) (drop p c)"
    using assms(2) by (metis Suc_leI add.commute less_diff_conv min.absorb1 take_take)
  moreover have "take (Suc (strlen (drop p c))) (drop p c) = cstr (drop p c) @ [0]"
    using s by (metis append.assoc append_Cons append_Nil append_eq_conv_conj length_append_singleton strlen_def)
  ultimately obtain r where "drop p b = cstr (drop p c) @ 0 # r"
    by (metis append.assoc append_Cons append_Nil append_take_drop_id)
  then show ?thesis using cstr_no_NUL by simp
qed

definition vote_text :: "nat \<Rightarrow> bytes" where
  "vote_text c = (if c < 10 ^ 13 then decimal c else [])"

lemma decimal_text_0: "decimal_text (decimal n) 0 = decimal n"
  using is_number_decimal [of n] by (simp add: decimal_text_def frac_part_def int_part_def decimal_def)

lemma digits_bound:
  assumes "2 \<le> b"
  shows "n < b ^ length (digits b n)"
proof (induction n rule: base_induct [OF assms])
  case (2 n)
  then have "n < b ^ length (digits b (n div b)) * b" using assms by (simp only: div_less_iff_less_mult [symmetric])
  with assms 2 show ?case by (simp add: digits_step mult.commute)
qed (use assms in \<open>simp_all add: digits_small\<close>)

lemma length_decimal: "length (decimal n) \<le> Suc k \<longleftrightarrow> n < 10 ^ Suc k"
proof
  assume l: "length (decimal n) \<le> Suc k"
  have "n < 10 ^ length (decimal n)" using digits_bound [of 10 n] by (simp add: decimal_def)
  also have "\<dots> \<le> 10 ^ Suc k" using l by (rule power_increasing) simp
  finally show "n < 10 ^ Suc k" .
next
  assume "n < 10 ^ Suc k"
  then show "length (decimal n) \<le> Suc k" using length_digits_le [of 10 n k] by (simp add: decimal_def)
qed

lemma vote_text_fits: "fit_text (decimal_text (decimal n) 0) 15 = vote_text n"
  using length_decimal [of n 12] by (auto simp: fit_text_def decimal_text_0 vote_text_def)

lemma positive_count:
  assumes "0 < sint (c :: u64)"
  shows "0 < unat c" "unat c < 10 ^ 19" "unat c < 2 ^ 63"
proof -
  have b: "sint c < 2 ^ 63" using sint_lt [of c] by simp
  then have "uint c = sint c" using assms by (simp add: uint_sint take_bit_int_eq_self)
  then have u: "int (unat c) = sint c" by simp
  show "0 < unat c" using u assms by linarith
  have "int (unat c) < int (2 ^ 63)" using u b by simp
  then show "unat c < 2 ^ 63" by (simp only: of_nat_less_iff)
  then show "unat c < 10 ^ 19" by simp
qed

text \<open>One slot: the address and the count of a vote.\<close>

definition slot_shows :: "sdk \<Rightarrow> bytes \<Rightarrow> nat \<Rightarrow> bytes \<times> u64 \<Rightarrow> bool" where
  "slot_shows k b i v \<longleftrightarrow> cstr (drop (VOTE_ADDRESS_slot i) b) = base58 k (fst v) \<and>
     cstr (drop (VOTE_AMOUNT_slot i) b) = vote_text (unat (snd v))"

definition ok_vote :: "bytes \<times> u64 \<Rightarrow> bool" where
  "ok_vote v \<longleftrightarrow> length (fst v) = 21 \<and> fst v ! 0 = 0x41 \<and> 0 < sint (snd v)"

lemma fill_slot:
  assumes "sdk_ok k" "ok_vote v" "i < 5" "length b = n" "260 \<le> n" "length fc = 67"
  defines "b1 \<equiv> fillVoteAddressSlot b (getBase58FromAddress k (fst v) fc 0) i"
  shows "\<exists>out l. print_amount (snd v) (drop (VOTE_AMOUNT_slot i) b1) 15 0 = Some (Inr (out, l)) \<and>
    length (take (VOTE_AMOUNT_slot i) b1 @ out) = n \<and>
    take (VOTE_ADDRESS_slot i) (take (VOTE_AMOUNT_slot i) b1 @ out) = take (VOTE_ADDRESS_slot i) b \<and>
    slot_shows k (take (VOTE_AMOUNT_slot i) b1 @ out) i v"
proof -
  have w: "length (base58 k (fst v)) = 34" "0 \<notin> set (base58 k (fst v))"
      "base58_encode k (addchecksum k (fst v)) 34 = Some (base58 k (fst v))"
    using base58_mainnet [OF assms(1), of "fst v"] assms(2) by (simp_all add: ok_vote_def)
  then have a: "take 35 (getBase58FromAddress k (fst v) fc 0) = base58 k (fst v) @ [0]"
    using assms(6) by (simp add: getBase58FromAddress_def header_constants Let_def buf_set_def buf_write_def)
  have b1: "b1 = take (i * 50) b @ (base58 k (fst v) @ [0]) @ replicate 15 0 @ drop (i * 50 + 50) b"
    using assms(3-5) w(1)
    by (simp add: b1_def fillVoteAddressSlot_def a VOTE_ADDRESS_slot_def buf_write_def)
  have l: "length (take (i * 50) b) = i * 50" "i * 50 + 50 \<le> n" using assms(3-5) by simp_all
  have d: "drop (VOTE_AMOUNT_slot i) b1 = replicate 15 0 @ drop (i * 50 + 50) b"
      "take (VOTE_AMOUNT_slot i) b1 = take (i * 50) b @ base58 k (fst v) @ [0]"
    using l w(1) by (simp_all add: b1 VOTE_AMOUNT_slot_def)
  have u: "0 < unat (snd v)" "unat (snd v) < 10 ^ 19"
    using positive_count assms(2) by (simp_all add: ok_vote_def)
  obtain out where o: "print_amount (snd v) (drop (VOTE_AMOUNT_slot i) b1) 15 0 = Some (Inr (out, of_nat (strlen out)))"
      "length out = length (drop (VOTE_AMOUNT_slot i) b1)" "cstr out = fit_text (decimal_text (decimal (unat (snd v))) 0) 15"
    using print_amount_positive [OF u, of 0 15 "drop (VOTE_AMOUNT_slot i) b1"] by (auto simp: d)
  have "length (take (i * 50) b @ base58 k (fst v) @ [0] @ out) = n"
    using o(2) l w(1) assms(4) by (simp add: d)
  moreover have "drop (VOTE_AMOUNT_slot i) (take (i * 50) b @ base58 k (fst v) @ [0] @ out) = out"
      "drop (VOTE_ADDRESS_slot i) (take (i * 50) b @ base58 k (fst v) @ [0] @ out) = base58 k (fst v) @ 0 # out"
    using l w(1) by (simp_all add: VOTE_AMOUNT_slot_def VOTE_ADDRESS_slot_def)
  ultimately show ?thesis
    using o w l unfolding d slot_shows_def by (simp add: vote_text_fits VOTE_ADDRESS_slot_def)
qed


lemma slot_shows_prefix:
  assumes "slot_shows k c i v" "take ((Suc i) * 50) b = take ((Suc i) * 50) c" "Suc i * 50 \<le> length c" "sdk_ok k" "ok_vote v"
  shows "slot_shows k b i v"
proof -
  have a: "strlen (drop (VOTE_ADDRESS_slot i) c) = 34"
    using base58_mainnet [OF assms(4), of "fst v"] assms(1,5) by (simp add: slot_shows_def strlen_def ok_vote_def)
  have l: "strlen (drop (VOTE_AMOUNT_slot i) c) < 15"
    using assms(1) length_decimal [of "unat (snd v)" 12] by (auto simp: slot_shows_def strlen_def vote_text_def)
  have "cstr (drop (VOTE_ADDRESS_slot i) b) = cstr (drop (VOTE_ADDRESS_slot i) c)"
    by (rule cstr_prefix [OF assms(2)]) (use a assms(3) in \<open>simp_all add: VOTE_ADDRESS_slot_def\<close>)
  moreover have "cstr (drop (VOTE_AMOUNT_slot i) b) = cstr (drop (VOTE_AMOUNT_slot i) c)"
    by (rule cstr_prefix [OF assms(2)]) (use l assms(3) in \<open>simp_all add: VOTE_AMOUNT_slot_def\<close>)
  ultimately show ?thesis using assms(1) by (simp add: slot_shows_def)
qed

lemma room_left:
  assumes "unat tot + unat c < 2 ^ 64"
  shows "\<not> 0xFFFFFFFFFFFFFFFF - tot < (c :: u64)"
proof -
  have "unat (- 1 - tot) = unat (- 1 :: u64) - unat tot" by (rule unat_sub) simp
  moreover have "unat (- 1 :: u64) = 2 ^ 64 - 1" by (simp add: unsigned_minus_1_eq_mask mask_eq_exp_minus_1)
  ultimately have "\<not> unat (- 1 - tot) < unat c" using assms by simp
  moreover have "(0xFFFFFFFFFFFFFFFF :: u64) = - 1" by simp
  ultimately show ?thesis unfolding word_less_nat_alt by metis
qed

lemma vote_loop_shows:
  assumes "sdk_ok k" "list_all ok_vote votes" "i + length votes \<le> 5" "length (G_io_apdu_buffer s) = n" "260 \<le> n"
    "length (fullContract s) = 67" "unat tot + (\<Sum>v\<leftarrow>votes. unat (snd v)) < 2 ^ 64"
  shows "\<exists>b fc. vote_loop k votes i tot s cont =
      cont (tot + of_nat (\<Sum>v\<leftarrow>votes. unat (snd v))) (s\<lparr>G_io_apdu_buffer := b, fullContract := fc\<rparr>) \<and>
    length b = n \<and> length fc = 67 \<and> take (i * 50) b = take (i * 50) (G_io_apdu_buffer s) \<and>
    (\<forall>j<length votes. slot_shows k b (i + j) (votes ! j))"
  using assms(2,3,4,6,7)
proof (induction votes arbitrary: i tot s)
  case Nil
  then show ?case by (intro exI [of _ "G_io_apdu_buffer s"] exI [of _ "fullContract s"]) simp
next
  case (Cons v votes)
  obtain a c where v: "v = (a, c)" by (cases v)
  have ok: "ok_vote (a, c)" "i < 5" using Cons.prems(1,2) by (simp_all add: v)
  have pos: "0 < sint c" using ok by (simp add: ok_vote_def)
  define fc where "fc = getBase58FromAddress k a (fullContract s) 0"
  have fc: "length fc = 67" using length_getBase58FromAddress [OF assms(1), of 0 "fullContract s" a] Cons.prems(4) by (simp add: fc_def)
  define b1 where "b1 = fillVoteAddressSlot (G_io_apdu_buffer s) fc i"
  obtain out l where o: "print_amount c (drop (VOTE_AMOUNT_slot i) b1) 15 0 = Some (Inr (out, l))"
      "length (take (VOTE_AMOUNT_slot i) b1 @ out) = n"
      "take (VOTE_ADDRESS_slot i) (take (VOTE_AMOUNT_slot i) b1 @ out) = take (VOTE_ADDRESS_slot i) (G_io_apdu_buffer s)"
      "slot_shows k (take (VOTE_AMOUNT_slot i) b1 @ out) i (a, c)"
    using fill_slot [OF assms(1) ok Cons.prems(3) assms(5) Cons.prems(4)] by (auto simp: b1_def fc_def)
  define b2 where "b2 = take (VOTE_AMOUNT_slot i) b1 @ out"
  have sum: "unat tot + unat c + (\<Sum>v\<leftarrow>votes. unat (snd v)) < 2 ^ 64" using Cons.prems(5) by (simp add: v)
  have "unat (tot + c) = unat tot + unat c" using sum by (intro unat_add_lem [THEN iffD1]) simp
  then have next_sum: "unat (tot + c) + (\<Sum>v\<leftarrow>votes. unat (snd v)) < 2 ^ 64" using sum by simp
  have fits: "\<not> 0xFFFFFFFFFFFFFFFF - tot < c" using room_left [of tot c] sum by simp
  let ?s = "s\<lparr>fullContract := fc, G_io_apdu_buffer := b2\<rparr>"
  have step: "vote_loop k (v # votes) i tot s cont = vote_loop k votes (Suc i) (tot + c) ?s cont"
    using pos fits o(1) by (simp add: v fc_def b1_def b2_def fillVoteAmountSlot_def print_apdu_def with_print_def)
  obtain b fc' where r: "vote_loop k votes (Suc i) (tot + c) ?s cont =
      cont (tot + c + of_nat (\<Sum>v\<leftarrow>votes. unat (snd v))) (?s\<lparr>G_io_apdu_buffer := b, fullContract := fc'\<rparr>)"
      "length b = n" "length fc' = 67" "take (Suc i * 50) b = take (Suc i * 50) b2"
      "\<And>j. j < length votes \<Longrightarrow> slot_shows k b (Suc i + j) (votes ! j)"
    using Cons.IH [of "Suc i" ?s "tot + c"] Cons.prems(1,2) o(2) fc next_sum by (auto simp: b2_def)
  have "slot_shows k b i v"
    by (rule slot_shows_prefix [OF _ r(4) _ assms(1)]) (use o(2,4) ok assms(5) in \<open>simp_all add: v b2_def\<close>)
  moreover have "take (i * 50) b = take (i * 50) (G_io_apdu_buffer s)"
    using arg_cong [OF r(4), of "take (i * 50)"] o(3) unfolding b2_def [symmetric] by (simp add: VOTE_ADDRESS_slot_def)
  moreover have "slot_shows k b (i + j) ((v # votes) ! j)" if "j < length (v # votes)" for j
    using that r(5) \<open>slot_shows k b i v\<close> by (cases j) simp_all
  ultimately show ?case
    using step r(1-3) by (intro exI [of _ b] exI [of _ fc']) (simp add: v add.assoc)
qed


section \<open>The rows\<close>

definition vote_rows :: "sdk \<Rightarrow> contact_list \<Rightarrow> bytes \<Rightarrow> (bytes \<times> u64) list \<Rightarrow> row list" where
  "vote_rows k contacts owner votes =
     map (\<lambda>(a, c). (base58 k a, vote_text (unat c), None)) votes @
     [(chars ''Total Vote Count'', decimal (length votes) @ chars '': '' @ decimal (\<Sum>v\<leftarrow>votes. unat (snd v)), None),
      address_row (chars ''From'') (get_address_book_contact contacts owner) (base58 k owner)]"

definition vote_fields :: "nat \<Rightarrow> tag_value list" where
  "vote_fields n = map (\<lambda>j. field (ApduAt (VOTE_ADDRESS_slot j)) (ApduAt (VOTE_AMOUNT_slot j))) [0..<n] @
     [field (Literal ''Total Vote Count'') FullContract, from_field]"

lemma prepare_votes:
  assumes "votes_count s \<le> 5"
  shows "prepareTxInfos k APPROVAL_WITNESSVOTE_TRANSACTION w s = (Inr True, s\<lparr>txInfos :=
     (titled (two_lines ''Review transaction to'' ''Vote'') (two_lines ''Sign transaction to'' ''Vote'')
       (fresh_infos APPROVAL_WITNESSVOTE_TRANSACTION w))\<lparr>ti_fields := map (aliased s) (vote_fields (votes_count s))\<rparr>\<rparr>)"
proof -
  have "\<not> (\<exists>f \<in> set (vote_fields n). tv_value f = ToAddress)" for n by (auto simp: vote_fields_def)
  then show ?thesis
    using assms
    by (simp add: prepareTxInfos_def tx_infos_1_def tx_infos_2_def insert_known_service_label_def MAX_TX_FIELDS_def
      apply_aliases Let_def vote_fields_def [symmetric])
qed

lemma vote_slot_rows:
  assumes "\<And>j. j < length votes \<Longrightarrow> slot_shows k (G_io_apdu_buffer s) j (votes ! j)"
  shows "map (\<lambda>j. row_of s (aliased s (field (ApduAt (VOTE_ADDRESS_slot j)) (ApduAt (VOTE_AMOUNT_slot j))))) [0..<length votes] =
    map (\<lambda>(a, c). (base58 k a, vote_text (unat c), None)) votes"
  by (rule nth_equalityI) (use assms in \<open>simp_all add: aliased_rows slot_shows_def split: prod.split\<close>)

lemma vote_display:
  assumes "votes_count s = length votes" "length votes \<le> 5" "\<And>j. j < length votes \<Longrightarrow> slot_shows k (G_io_apdu_buffer s) j (votes ! j)"
    "cstr (fullContract s) = decimal (length votes) @ chars '': '' @ decimal (\<Sum>v\<leftarrow>votes. unat (snd v))"
    "cstr (fromAddress s) = base58 k owner" "g_sender_contact s = get_address_book_contact contacts owner"
  shows "\<exists>s'. ux_flow_display k APPROVAL_WITNESSVOTE_TRANSACTION False s = (Returned, s') \<and>
    quiet s (s'\<lparr>the_screen := the_screen s\<rparr>) \<and> the_screen s' = TransactionScreen \<and> shown s' = vote_rows k contacts owner votes"
proof -
  let ?i = "(titled (two_lines ''Review transaction to'' ''Vote'') (two_lines ''Sign transaction to'' ''Vote'')
       (fresh_infos APPROVAL_WITNESSVOTE_TRANSACTION False))\<lparr>ti_fields := map (aliased s) (vote_fields (votes_count s))\<rparr>"
  let ?s1 = "s\<lparr>txInfos := ?i\<rparr>"
  have "shown (reviewStart ?s1) = map (row_of s \<circ> aliased s) (vote_fields (votes_count s))"
    by (simp add: shown_def reviewStart_def row_of_def)
  also have "\<dots> = vote_rows k contacts owner votes"
    using vote_slot_rows [OF assms(3)] assms(1,4-6) by (simp add: vote_fields_def vote_rows_def aliased_rows comp_def)
  finally show ?thesis
    using assms(1,2)
    by (intro exI [of _ "reviewStart ?s1"])
      (simp add: ux_flow_display_def prepare_votes, simp add: reviewStart_def quiet_def core_def)
qed


section \<open>The contract\<close>

definition vote_msg :: "bytes \<Rightarrow> (bytes \<times> u64) list \<Rightarrow> slot list" where
  "vote_msg owner votes =
     [Slot 1 False [VBuf owner], Slot 2 False (map (\<lambda>(a, c). VMsg [Slot 1 False [VBuf a], Slot 2 False [VInt c]]) votes)]"

definition enc_votes :: "bytes \<Rightarrow> (bytes \<times> u64) list \<Rightarrow> bytes" where
  "enc_votes owner votes = enc_msg protocol_VoteWitnessContract (vote_msg owner votes)"

definition vote_content :: "bytes \<Rightarrow> (bytes \<times> u64) list \<Rightarrow> txContent_t" where
  "vote_content owner votes = (tx_content 4 0 (zero_content\<lparr>tc_contractType := INVALID_CONTRACT\<rparr>))
     \<lparr>tc_account := owner, tc_votesCount := of_nat (length votes),
      tc_votes := votes @ replicate (5 - length votes) (replicate 21 0, 0)\<rparr>"

lemma vote_contract_enc:
  assumes "length owner = 21" "list_all ok_vote votes" "length votes \<le> 5" "length (enc_votes owner votes) < 2 ^ 32"
  shows "vote_witness_contract (IStream g p (enc_votes owner votes)) (tx_content 4 0 (zero_content\<lparr>tc_contractType := INVALID_CONTRACT\<rparr>)) =
    (True, vote_content owner votes, vote_msg owner votes)"
proof -
  have "canon_msg protocol_VoteWitnessContract (vote_msg owner votes)"
    using assms(1-3) by (auto simp: canon_msg_def vote_msg_def descriptor_defs read_signed_def list_all_iff ok_vote_def)
  then have "pb_decode no_callbacks protocol_VoteWitnessContract (IStream g p (enc_votes owner votes)) () = Some (vote_msg owner votes, ())"
    using assms(4) unfolding enc_votes_def by (intro decode_canonical ok_descriptors)
  moreover have "m_buf (vote_msg owner votes) 1 = owner" by (simp add: vote_msg_def m_buf_def get_slot_def)
  moreover have "map (\<lambda>v. (m_buf v 1, m_int v 2)) (m_msgs (vote_msg owner votes) 2) = votes"
    by (induction votes) (auto simp: vote_msg_def m_msgs_def m_buf_def m_int_def get_slot_def)
  moreover have "length (m_msgs (vote_msg owner votes) 2) = length votes" by (simp add: vote_msg_def m_msgs_def get_slot_def)
  ultimately show ?thesis
    using assms(3)
    by (simp add: vote_witness_contract_def decode_msg_def Let_def header_constants vote_content_def tx_content_def
        zero_content_def buf_write_def)
qed

lemma wf_vote_content:
  assumes "length owner = 21" "list_all ok_vote votes" "length votes \<le> 5"
  shows "wf_content (vote_content owner votes)"
  using assms
  by (auto simp: wf_content_def vote_content_def tx_content_def zero_content_def wf_name_def list_all_iff ok_vote_def
      unat_of_nat take_bit_nat_eq_self)


lemma votes_processed:
  assumes "sdk_ok k" "length owner = 21" "list_all ok_vote votes" "length votes \<le> 5"
    "length (enc_tx ref_bytes ref_hash expiration 4 url (enc_votes owner votes) timestamp 0) < 2 ^ 32"
    "txContent s = zero_content\<lparr>tc_contractType := INVALID_CONTRACT\<rparr>"
  shows "\<exists>m. processTx k (enc_tx ref_bytes ref_hash expiration 4 url (enc_votes owner votes) timestamp 0) s =
    (USTREAM_PROCESSING, s\<lparr>txContent := vote_content owner votes, msg := m\<rparr>)"
proof -
  let ?v = "enc_votes owner votes"
  have sw: "contract_switch k (of_nat 4) = Some vote_witness_contract" by (simp add: contract_switch_def)
  have len: "length (enc_contract 4 url ?v) < 2 ^ 32" "length ref_bytes < 2 ^ 32" "length ref_hash < 2 ^ 32" "length ?v < 2 ^ 32"
    using assms(5) by (simp_all add: enc_tx_def enc_len_def enc_contract_def enc_any_def)
  have ne: "?v \<noteq> []" by (simp add: enc_votes_def enc_msg_def vote_msg_def descriptor_defs enc_key_def)
  note m = vote_contract_enc [OF assms(2-4) len(4), of RInput "value_offset ref_bytes ref_hash expiration 4 url ?v"]
  show ?thesis
    using processTx_enc [OF len(2,3,1) assms(1) _ _ ne _ _ _ sw, of 0 s expiration True "vote_content owner votes" "vote_msg owner votes" timestamp]
      m
    by (intro exI [of _ "vote_msg owner votes"]) (simp add: assms(6) zero_content_def)
qed

text \<open>The text of the total.\<close>

lemma total_text:
  assumes "n \<le> 5" "m < 2 ^ 64"
  shows "cstr (snprintf fc 67 (decimal n @ chars '': '' @ decimal m)) = decimal n @ chars '': '' @ decimal m"
proof -
  have "length (decimal n) \<le> 1" "length (decimal m) \<le> 20" using assms length_decimal [of n 0] length_decimal [of m 19] by simp_all
  moreover have "0 \<notin> set (decimal n)" "0 \<notin> set (decimal m)" using is_number_chars [OF is_number_decimal] by simp_all
  moreover have "cstr (decimal n @ chars '': '' @ decimal m) = decimal n @ chars '': '' @ decimal m"
    using calculation(3,4) by (intro cstr_cstr) (simp add: chars_def)
  ultimately show ?thesis by (simp add: snprintf_def cstr_strlcpy chars_def)
qed

lemma sign_votes_display:
  assumes k: "sdk_ok k" and st: "steady n k s0 s" and c: "txContent s = vote_content owner votes"
    and v: "list_all ok_vote votes" "votes \<noteq> []" "length votes \<le> 5" "(\<Sum>v\<leftarrow>votes. unat (snd v)) < 2 ^ 64"
  obtains b fc where "sign_votes k False s = ux_flow_display k APPROVAL_WITNESSVOTE_TRANSACTION False
      (s\<lparr>txContent := set_amount 0 0 (txContent s), votes_count := length votes, G_io_apdu_buffer := b, fullContract := fc\<rparr>)"
    "\<And>j. j < length votes \<Longrightarrow> slot_shows k b j (votes ! j)"
    "cstr fc = decimal (length votes) @ chars '': '' @ decimal (\<Sum>v\<leftarrow>votes. unat (snd v))"
proof -
  let ?n = "length votes" and ?t = "\<Sum>v\<leftarrow>votes. unat (snd v)"
  have f: "take ?n (tc_votes (txContent s)) = votes" "unat (tc_votesCount (txContent s)) = ?n"
    using v(3) by (simp_all add: c vote_content_def unat_of_nat take_bit_nat_eq_self)
  define s2 where "s2 = s\<lparr>G_io_apdu_buffer := buf_write (G_io_apdu_buffer s) 0 (replicate 200 0),
     txContent := set_amount 0 0 (txContent s), votes_count := ?n\<rparr>"
  define cont where "cont = (\<lambda>total_votes s1. ux_flow_display k APPROVAL_WITNESSVOTE_TRANSACTION False
     (s1\<lparr>fullContract := snprintf (fullContract s1) (length (fullContract s1))
        (fmt_signed (int ?n) @ chars '': '' @ decimal (unat (total_votes :: u64)))\<rparr>))"
  have "length (G_io_apdu_buffer s2) = n" "260 \<le> n" "length (fullContract s2) = 67"
    using steady_lengths [OF st] by (simp_all add: s2_def buf_write_def)
  from vote_loop_shows [OF k v(1) _ this, of 0 0 cont] v(3,4)
  obtain b fc where b: "vote_loop k votes 0 0 s2 cont = cont (of_nat ?t) (s2\<lparr>G_io_apdu_buffer := b, fullContract := fc\<rparr>)"
      "length fc = 67" "\<And>j. j < ?n \<Longrightarrow> slot_shows k b j (votes ! j)"
    by auto
  have "sign_votes k False s = vote_loop k votes 0 0 s2 cont"
    using v(2) by (simp add: sign_votes_def f s2_def cont_def Let_def)
  then have "sign_votes k False s = cont (of_nat ?t) (s2\<lparr>G_io_apdu_buffer := b, fullContract := fc\<rparr>)" using b(1) by simp
  moreover have "unat (of_nat ?t :: u64) = ?t" using v(4) by (simp only: unat_of_nat) simp
  ultimately show thesis
    using b(2) by (intro that [OF _ b(3) total_text [OF v(3,4), of fc]]) (simp_all add: cont_def s2_def fmt_signed_def)
qed

lemma finish_sign_votes:
  assumes k: "sdk_ok k" and wf: "wf_state n k s" and sw: "\<not> G_called_from_swap s"
    and c: "txContent s = vote_content owner votes"
    and v: "list_all ok_vote votes" "votes \<noteq> []" "length votes \<le> 5" "(\<Sum>v\<leftarrow>votes. unat (snd v)) < 2 ^ 64" "owner ! 0 = 0x41"
  shows "\<exists>s'. finish_sign k s = (Returned, s') \<and> quiet (hashed k s) (s'\<lparr>the_screen := the_screen s\<rparr>) \<and>
    the_screen s' = TransactionScreen \<and> shown s' = vote_rows k (ab_contacts s) owner votes"
proof -
  let ?c = "txContent s"
  have f: "tc_contractType ?c = VOTEWITNESSCONTRACT" "tc_permission_id ?c = 0" "tc_dataBytes ?c = 0" "tc_account ?c = owner"
    by (simp_all add: c vote_content_def tx_content_def zero_content_def)
  define s1 where "s1 = set_sender k (hashed k s)"
  have "tc_account ?c ! 0 = 0x41" using f(4) v(5) by simp
  note s1 = sender_state [OF k wf f(2) this, folded s1_def]
  obtain b fc where b: "sign_votes k False s1 = ux_flow_display k APPROVAL_WITNESSVOTE_TRANSACTION False
      (s1\<lparr>txContent := set_amount 0 0 (txContent s1), votes_count := length votes, G_io_apdu_buffer := b, fullContract := fc\<rparr>)"
      "\<And>j. j < length votes \<Longrightarrow> slot_shows k b j (votes ! j)"
      "cstr fc = decimal (length votes) @ chars '': '' @ decimal (\<Sum>v\<leftarrow>votes. unat (snd v))"
    using sign_votes_display [OF k s1(1) _ v(1-4)] s1(2) c by metis
  define s3 where "s3 = s1\<lparr>txContent := set_amount 0 0 (txContent s1), votes_count := length votes, G_io_apdu_buffer := b, fullContract := fc\<rparr>"
  have "finish_sign k s = sign_switch k False s1"
    using sw by (simp add: finish_sign_def Let_def f s1_def set_sender_def MAX_PERMISSION_ID_def)
  also have "\<dots> = ux_flow_display k APPROVAL_WITNESSVOTE_TRANSACTION False s3"
    by (simp add: sign_switch_def s1(2) f Let_def b(1) s3_def)
  finally have e: "finish_sign k s = ux_flow_display k APPROVAL_WITNESSVOTE_TRANSACTION False s3" .
  obtain s' where "ux_flow_display k APPROVAL_WITNESSVOTE_TRANSACTION False s3 = (Returned, s')"
    "quiet s3 (s'\<lparr>the_screen := the_screen s3\<rparr>)" "the_screen s' = TransactionScreen" "shown s' = vote_rows k (ab_contacts s) owner votes"
    using vote_display [of s3 votes k owner "ab_contacts s"] v(3) b(2,3) s1(6,8) f(4) by (auto simp: s3_def)
  moreover have "quiet (hashed k s) s3" "the_screen s3 = the_screen s" using s1(5,7) by (simp_all add: s3_def)
  ultimately show ?thesis using e by (auto intro: quiet_trans)
qed

section \<open>Property\<close>

text \<open>C6: What you see is what you sign, for votes: for every transaction with one vote contract for one to five
  candidates, sent in one command, with positive counts whose sum has 64 bits, the device shows one row for each vote
  in the order of the signed bytes, with the candidate's address and its count - as long as the count has at most 13
  digits; a larger one is shown as an empty text -, then the number of votes and their exact sum, and the voter; and
  what waits for approval is the SHA-256 digest of exactly these transaction bytes under the path of the command.\<close>

theorem votes_shown:
  assumes "sdk_ok k" "wf_state n k s" "\<not> G_called_from_swap s"
    "read_bip32_path d (tr_bip32_path (transactionContext s)) = (Some m, path)"
    "drop m d = enc_tx ref_bytes ref_hash expiration 4 url (enc_votes owner votes) timestamp 0" "length d \<le> 255"
    "length owner = 21" "owner ! 0 = 0x41" "list_all ok_vote votes" "votes \<noteq> []" "length votes \<le> 5"
    "(\<Sum>v\<leftarrow>votes. unat (snd v)) < 2 ^ 64"
  shows "\<exists>s'. handleSign k P1_SIGN 0 d s = (Returned, s') \<and> outputs s' = outputs s \<and> the_screen s' = TransactionScreen \<and>
    tr_hash (transactionContext s') = cx_sha256 k (drop m d) \<and> tr_bip32_path (transactionContext s') = path \<and>
    shown s' =
      map (\<lambda>(a, c). (base58 k a, if unat c < 10 ^ 13 then decimal (unat c) else [], None)) votes @
      [(chars ''Total Vote Count'', decimal (length votes) @ chars '': '' @ decimal (\<Sum>v\<leftarrow>votes. unat (snd v)), None),
       address_row (chars ''From'') (get_address_book_contact (ab_contacts s) owner) (base58 k owner)]"
proof -
  have "length (drop m d) < 2 ^ 32" using assms(6) by simp
  then have "\<exists>g. processTx k (drop m d) s2 = (USTREAM_PROCESSING, s2\<lparr>txContent := vote_content owner votes, msg := g\<rparr>)"
    if "txContent s2 = zero_content\<lparr>tc_contractType := INVALID_CONTRACT\<rparr>" for s2
    using votes_processed [OF assms(1,7,9,11) _ that, of ref_bytes ref_hash expiration url timestamp] by (simp add: assms(5))
  then obtain s3 where s3: "handleSign k P1_SIGN 0 d s = finish_sign k s3" "wf_state n k s3" "outputs s3 = outputs s"
      "the_screen s3 = the_screen s" "\<not> G_called_from_swap s3" "txContent s3 = vote_content owner votes"
      "ab_contacts s3 = ab_contacts s" "tr_bip32_path (transactionContext s3) = path" "tx_sha2 (txContext s3) = drop m d"
    using handleSign_content [OF assms(1-4) wf_vote_content [OF assms(7,9,11)]] by blast
  from finish_sign_votes [OF assms(1) s3(2,5,6) assms(9-12,8)]
  obtain s' where "finish_sign k s3 = (Returned, s')" "quiet (hashed k s3) (s'\<lparr>the_screen := the_screen s3\<rparr>)"
    "the_screen s' = TransactionScreen" "shown s' = vote_rows k (ab_contacts s3) owner votes"
    by blast
  then show ?thesis using s3 by (auto simp: quiet_def core_def vote_rows_def vote_text_def)
qed

section \<open>Witness\<close>

text \<open>A vote for two candidates, one with more votes than the slot of its count holds.\<close>

definition sample_ballot :: bytes where
  "sample_ballot = enc_tx [1, 2] [3, 4] 1000 4 []
     (enc_votes sample_address [(sample_address, 70), (sample_address, 10000000000000)]) 2000 0"

lemma sample_ballot_length: "length (sample_path @ sample_ballot) \<le> 255"
  by (simp add: sample_ballot_def sample_path_def sample_address_def enc_tx_def enc_contract_def enc_any_def enc_votes_def
      enc_msg_def vote_msg_def descriptor_defs enc_len_def enc_int_def enc_key_def enc_varint.simps)

theorem votes_shown_witness:
  "\<exists>s'. handleSign sample_sdk P1_SIGN 0 (sample_path @ sample_ballot) sample_state = (Returned, s') \<and>
    tr_hash (transactionContext s') = cx_sha256 sample_sdk sample_ballot \<and>
    shown s' =
      [(base58 sample_sdk sample_address, decimal 70, None), (base58 sample_sdk sample_address, [], None),
       (chars ''Total Vote Count'', decimal (Suc (Suc 0)) @ chars '': '' @ decimal 10000000000070, None),
       (chars ''From'', base58 sample_sdk sample_address, None)]"
proof -
  have r: "read_bip32_path (sample_path @ sample_ballot) (tr_bip32_path (transactionContext sample_state)) = (Some 13, sample_bip32)"
    by (simp add: sample_facts sample_read)
  have d: "drop 13 (sample_path @ sample_ballot) = sample_ballot" by (simp only: sample_drop)
  have a: "length sample_address = 21" "sample_address ! 0 = 0x41" by (simp_all add: sample_address_def)
  have "list_all ok_vote [(sample_address, 70), (sample_address, 10000000000000)]" by (simp add: ok_vote_def a)
  with votes_shown [OF sample_sdk_ok sample_facts(1,2) r trans [OF d sample_ballot_def] sample_ballot_length a]
  show ?thesis unfolding d sample_facts(4) by (auto simp: address_row_def)
qed

end
