(* ===== verification/Permission_Review.thy ===== *)
theory Permission_Review
  imports Vote_Review
begin

text \<open>
  The review of a change of permissions: from the bytes that the encoder writes for any message of the contract to the
  rows on the screen.
\<close>

section \<open>Texts\<close>

definition key_text :: "sdk \<Rightarrow> slot list \<Rightarrow> bytes" where
  "key_text k key = base58 k (m_buf key 1) @ chars '' (weight '' @ fmt_signed (sint (m_int key 2)) @ chars '')''"

definition ok_key :: "slot list \<Rightarrow> bool" where
  "ok_key key \<longleftrightarrow> length (m_buf key 1) = 21 \<and> m_buf key 1 ! 0 = 0x41"

lemma fmt_signed_text: "length (fmt_signed (sint (w :: u64))) \<le> 20 \<and> 0 \<notin> set (fmt_signed (sint w))"
proof -
  have "sint w < 2 ^ 63" "- (2 ^ 63) \<le> sint w" using sint_lt [of w] sint_ge [of w] by simp_all
  then have "nat (sint w) < 10 ^ Suc 18" "nat (- sint w) < 10 ^ Suc 18" by simp_all
  then have "length (decimal (nat (sint w))) \<le> Suc 18" "length (decimal (nat (- sint w))) \<le> Suc 18"
    unfolding length_decimal by simp_all
  moreover have "0 \<notin> set (decimal x)" for x using is_number_chars [OF is_number_decimal] by simp
  ultimately show ?thesis by (simp add: fmt_signed_def chars_def)
qed

lemma cstr_snprintf: "0 \<notin> set t \<Longrightarrow> length t < n \<Longrightarrow> cstr (snprintf out n t) = t"
  by (simp add: snprintf_def cstr_strlcpy)

lemma key_text_fits:
  assumes "sdk_ok k" "ok_key key"
  shows "length (key_text k key) < 65" "0 \<notin> set (key_text k key)"
  using base58_mainnet [OF assms(1), of "m_buf key 1"] assms(2) fmt_signed_text [of "m_int key 2"]
  by (auto simp: key_text_def ok_key_def chars_def)

lemma key_lines:
  assumes "sdk_ok k" "list_all ok_key keys" "length address = 35" "i + length keys \<le> length lines"
  shows "\<exists>lines'. permission_key_lines k keys i address lines = (True, lines') \<and> length lines' = length lines \<and>
    (\<forall>j<i. lines' ! j = lines ! j) \<and> (\<forall>j<length keys. cstr (lines' ! (i + j)) = key_text k (keys ! j))"
  using assms(2-4)
proof (induction keys arbitrary: i address lines)
  case (Cons key keys)
  have ok: "ok_key key" using Cons.prems(1) by simp
  let ?a = "getBase58FromAddress k (m_buf key 1) address 0"
  have a: "cstr ?a = base58 k (m_buf key 1)" "length ?a = 35"
    using cstr_getBase58FromAddress(1) [OF assms(1), of "m_buf key 1" 0 address] ok Cons.prems(2)
      length_getBase58FromAddress [OF assms(1), of 0 address] by (simp_all add: ok_key_def)
  let ?l = "lines[i := snprintf (lines ! i) 65 (key_text k key)]"
  have step: "permission_key_lines k (key # keys) i address lines = permission_key_lines k keys (Suc i) ?a ?l"
    using key_text_fits [OF assms(1) ok] by (simp add: a(1) key_text_def Let_def)
  obtain l' where l': "permission_key_lines k keys (Suc i) ?a ?l = (True, l')" "length l' = length lines"
      "\<And>j. j < Suc i \<Longrightarrow> l' ! j = ?l ! j" "\<And>j. j < length keys \<Longrightarrow> cstr (l' ! (Suc i + j)) = key_text k (keys ! j)"
    using Cons.IH [of ?a "Suc i" ?l] Cons.prems a(2) by auto
  have "cstr (l' ! i) = key_text k key"
    using l'(3) [of i] key_text_fits [OF assms(1) ok] Cons.prems(3) by (simp add: cstr_snprintf)
  then have "cstr (l' ! (i + j)) = key_text k ((key # keys) ! j)" if "j < length (key # keys)" for j
    using that l'(4) by (cases j) simp_all
  moreover have "l' ! j = lines ! j" if "j < i" for j using that l'(3) [of j] by simp
  ultimately show ?case using step l'(1,2) by (intro exI [of _ l']) simp
qed simp

section \<open>Entries\<close>

definition hex_of :: "sdk \<Rightarrow> bytes \<Rightarrow> bytes" where
  "hex_of k v = (case format_hex k v 66 of Some t \<Rightarrow> t | None \<Rightarrow> [])"

definition ok_permission :: "slot list \<Rightarrow> bool" where
  "ok_permission p \<longleftrightarrow> length (m_msgs p 7) \<le> 3 \<and> list_all ok_key (m_msgs p 7) \<and> length (m_buf p 6) = 32"

definition entry_shows :: "sdk \<Rightarrow> permissionEntry_t \<Rightarrow> slot list \<Rightarrow> bool" where
  "entry_shows k e p \<longleftrightarrow> pe_present e \<and> cstr (pe_threshold e) = fmt_signed (sint (m_int p 4)) \<and>
     pe_keysCount e = length (m_msgs p 7) \<and> (\<forall>j<length (m_msgs p 7). cstr (pe_keys e ! j) = key_text k (m_msgs p 7 ! j)) \<and>
     cstr (pe_operations e) = chars ''0x'' @ hex_of k (m_buf p 6)"

lemma fill_entry:
  assumes "sdk_ok k" "ok_permission p"
  obtains e where "entry_shows k e p"
    "\<And>index s cont. fillPermissionEntry k index p s cont = cont (s\<lparr>permissionEntries := (permissionEntries s)[index := e]\<rparr>)"
proof -
  have keys: "take 3 (m_msgs p 7) = m_msgs p 7" "list_all ok_key (m_msgs p 7)" using assms(2) by (simp_all add: ok_permission_def)
  obtain lines where l: "permission_key_lines k (m_msgs p 7) 0 (replicate 35 0) (pe_keys zero_entry) = (True, lines)"
      "\<And>j. j < length (m_msgs p 7) \<Longrightarrow> cstr (lines ! j) = key_text k (m_msgs p 7 ! j)"
    using key_lines [OF assms(1) keys(2), of "replicate 35 0" 0 "pe_keys zero_entry"] assms(2)
    by (auto simp: ok_permission_def zero_entry_def)
  obtain t where t: "format_hex k (m_buf p 6) 66 = Some t"
    using sdk_hex_fits [OF assms(1), of "m_buf p 6" 66] assms(2) by (auto simp: ok_permission_def)
  define e where "e = zero_entry\<lparr>pe_present := True, pe_threshold := snprintf (replicate 24 0) 24 (fmt_signed (sint (m_int p 4))),
     pe_keysCount := length (m_msgs p 7), pe_keys := lines, pe_operations := bytes_to_string k (pe_operations zero_entry) 0 68 (m_buf p 6)\<rparr>"
  have "cstr (bytes_to_string k (pe_operations zero_entry) 0 68 (m_buf p 6)) = chars ''0x'' @ hex_of k (m_buf p 6)"
    using sdk_hex [OF assms(1) t] t
    by (simp add: bytes_to_string_def hex_of_def Let_def buf_write_def zero_entry_def chars_def)
  then have "entry_shows k e p"
    using l(2) fmt_signed_text [of "m_int p 4"] by (simp add: entry_shows_def e_def cstr_snprintf)
  then show thesis
    by (rule that) (simp add: fillPermissionEntry_def keys l(1) e_def Let_def)
qed


text \<open>The permissions of a contract by the index of their entry: owner, witness and two active ones.\<close>

definition perm_of :: "slot list \<Rightarrow> nat \<Rightarrow> slot list option" where
  "perm_of c e =
     (if e = 0 then if m_has c 2 then Some (m_msg c 2) else None
      else if e = 1 then if m_has c 3 then Some (m_msg c 3) else None
      else if e - 2 < length (m_msgs c 4) then Some (m_msgs c 4 ! (e - 2)) else None)"

definition entries_show :: "sdk \<Rightarrow> permissionEntry_t list \<Rightarrow> slot list \<Rightarrow> nat \<Rightarrow> bool" where
  "entries_show k es c n \<longleftrightarrow> length es = 4 \<and> (\<forall>e<4. if e < n then case perm_of c e of None \<Rightarrow> \<not> pe_present (es ! e) | Some p \<Rightarrow> entry_shows k (es ! e) p
     else \<not> pe_present (es ! e))"

definition ok_contract :: "slot list \<Rightarrow> bool" where
  "ok_contract c \<longleftrightarrow> length (m_msgs c 4) \<le> 2 \<and> (\<forall>e p. perm_of c e = Some p \<longrightarrow> ok_permission p)"

lemma entries_show_update:
  assumes "entries_show k es c n" "perm_of c n = Some p" "entry_shows k x p" "n < 4"
  shows "entries_show k (es[n := x]) c (Suc n)"
  unfolding entries_show_def
proof (intro conjI allI impI)
  show "length (es[n := x]) = 4" using assms(1) by (simp add: entries_show_def)
  fix e :: nat
  assume "e < 4"
  then show "if e < Suc n then case perm_of c e of None \<Rightarrow> \<not> pe_present (es[n := x] ! e) | Some p \<Rightarrow> entry_shows k (es[n := x] ! e) p
     else \<not> pe_present (es[n := x] ! e)"
  proof (cases "e = n")
    case True
    then show ?thesis using assms by (simp add: entries_show_def)
  next
    case False
    then have x: "es[n := x] ! e = es ! e" by simp
    show ?thesis unfolding x using assms(1) \<open>e < 4\<close> False by (simp add: entries_show_def less_Suc_eq)
  qed
qed

lemma skip_next:
  assumes "entries_show k es c n" "perm_of c n = None"
  shows "entries_show k es c (Suc n)"
  using assms by (auto simp: entries_show_def less_Suc_eq)

lemma fill_next:
  assumes "sdk_ok k" "ok_contract c" "n < 4" "entries_show k (permissionEntries s) c n" "perm_of c n = Some p"
  shows "\<exists>es. fillPermissionEntry k n p s cont = cont (s\<lparr>permissionEntries := es\<rparr>) \<and> entries_show k es c (Suc n)"
proof -
  have "ok_permission p" using assms(2,5) by (auto simp: ok_contract_def)
  then obtain e where "entry_shows k e p"
      "fillPermissionEntry k n p s cont = cont (s\<lparr>permissionEntries := (permissionEntries s)[n := e]\<rparr>)"
    using fill_entry [OF assms(1)] by metis
  then show ?thesis using entries_show_update [OF assms(4,5) _ assms(3)] by blast
qed

lemma fill_optional:
  assumes "sdk_ok k" "ok_contract c" "n < 4" "entries_show k (permissionEntries s) c n"
  shows "\<exists>es. (case perm_of c n of Some p \<Rightarrow> fillPermissionEntry k n p | None \<Rightarrow> (\<lambda>s cont. cont s)) s cont =
    cont (s\<lparr>permissionEntries := es\<rparr>) \<and> entries_show k es c (Suc n)"
proof (cases "perm_of c n")
  case None
  then show ?thesis using skip_next [OF assms(4)] by (intro exI [of _ "permissionEntries s"]) simp
next
  case (Some p)
  with fill_next [OF assms Some, of cont] show ?thesis by simp
qed

lemma fill_actives_show:
  assumes "sdk_ok k" "ok_contract c" "entries_show k (permissionEntries s) c (2 + i)" "i \<le> length (m_msgs c 4)"
  shows "\<exists>es. fill_actives k (drop i (m_msgs c 4)) (2 + i) s cont = cont (s\<lparr>permissionEntries := es\<rparr>) \<and>
    entries_show k es c (2 + length (m_msgs c 4))"
  using assms(3,4)
proof (induction "length (m_msgs c 4) - i" arbitrary: i s)
  case 0
  then show ?case by (intro exI [of _ "permissionEntries s"]) simp
next
  case (Suc x)
  then have i: "i < length (m_msgs c 4)" by simp
  have "length (m_msgs c 4) \<le> 2" using assms(2) by (simp add: ok_contract_def)
  then have n: "2 + i < 4" using i by simp
  have p: "perm_of c (2 + i) = Some (m_msgs c 4 ! i)" using i by (simp add: perm_of_def)
  let ?k = "\<lambda>s1. fill_actives k (drop (Suc i) (m_msgs c 4)) (2 + Suc i) s1 cont"
  obtain es where es: "fillPermissionEntry k (2 + i) (m_msgs c 4 ! i) s ?k = ?k (s\<lparr>permissionEntries := es\<rparr>)" "entries_show k es c (2 + Suc i)"
    using fill_next [OF assms(1,2) n Suc.prems(1) p, of ?k] by auto
  have "\<exists>es'. ?k (s\<lparr>permissionEntries := es\<rparr>) = cont (s\<lparr>permissionEntries := es\<rparr>\<lparr>permissionEntries := es'\<rparr>) \<and>
      entries_show k es' c (2 + length (m_msgs c 4))"
    by (rule Suc.hyps(1)) (use Suc.hyps(2) es(2) i in auto)
  moreover have "fill_actives k (drop i (m_msgs c 4)) (2 + i) s cont = ?k (s\<lparr>permissionEntries := es\<rparr>)"
    using es(1) i by (simp add: Cons_nth_drop_Suc [symmetric])
  ultimately show ?case by auto
qed

lemma entries_show_end:
  assumes "entries_show k es c (2 + length (m_msgs c 4))"
  shows "entries_show k es c 4"
  unfolding entries_show_def
proof (intro conjI allI impI)
  show "length es = 4" using assms by (simp add: entries_show_def)
  fix e :: nat
  assume "e < 4"
  moreover have "perm_of c e = None" if "\<not> e < 2 + length (m_msgs c 4)" using that by (auto simp: perm_of_def)
  ultimately show "if e < 4 then case perm_of c e of None \<Rightarrow> \<not> pe_present (es ! e) | Some p \<Rightarrow> entry_shows k (es ! e) p
     else \<not> pe_present (es ! e)"
    using assms by (cases "e < 2 + length (m_msgs c 4)") (simp_all add: entries_show_def)
qed

lemma sign_permissions:
  assumes "sdk_ok k" "ok_contract (msg s)" "\<exists>e. perm_of (msg s) e \<noteq> None"
  shows "\<exists>es. sign_permission_update k w s = ux_flow_display k APPROVAL_PERMISSION_UPDATE w (s\<lparr>permissionEntries := es\<rparr>) \<and>
    entries_show k es (msg s) 4"
proof -
  let ?c = "msg s" and ?f = "\<lambda>n. case perm_of (msg s) n of Some p \<Rightarrow> fillPermissionEntry k n p | None \<Rightarrow> (\<lambda>s cont. cont s)"
  let ?last = "ux_flow_display k APPROVAL_PERMISSION_UPDATE w"
  let ?k2 = "\<lambda>s2. fill_actives k (drop 0 (m_msgs ?c 4)) (2 + 0) s2 ?last"
  let ?k1 = "\<lambda>s1. ?f 1 s1 ?k2"
  let ?s = "\<lambda>es. s\<lparr>permissionEntries := es\<rparr>"
  have l: "length (m_msgs ?c 4) \<le> 2" using assms(2) by (simp add: ok_contract_def)
  have e: "sign_permission_update k w s = ?f 0 (?s (replicate 4 zero_entry)) ?k1"
    using assms(3) l by (auto simp: sign_permission_update_def Let_def perm_of_def split: if_splits)
  have "entries_show k (permissionEntries (?s (replicate 4 zero_entry))) ?c 0" by (simp add: entries_show_def zero_entry_def)
  from fill_optional [OF assms(1,2) _ this, of ?k1]
  obtain es0 where es0: "?f 0 (?s (replicate 4 zero_entry)) ?k1 = ?k1 (?s es0)" "entries_show k es0 ?c 1" by auto
  then have "entries_show k (permissionEntries (?s es0)) ?c 1" by simp
  from fill_optional [OF assms(1,2) _ this, of ?k2]
  obtain es1 where es1: "?k1 (?s es0) = ?k2 (?s es1)" "entries_show k es1 ?c (2 + 0)" by (auto simp: numeral_2_eq_2)
  then have "entries_show k (permissionEntries (?s es1)) ?c (2 + 0)" by simp
  from fill_actives_show [OF assms(1,2) this, of ?last]
  obtain es2 where "?k2 (?s es1) = ?last (?s es2)" "entries_show k es2 ?c (2 + length (m_msgs ?c 4))" by auto
  then show ?thesis using e es0(1) es1(1) entries_show_end by metis
qed

section \<open>The rows\<close>

definition permission_name :: "nat \<Rightarrow> string" where
  "permission_name e = [''Owner'', ''Witness'', ''Active 1'', ''Active 2''] ! e"

definition permission_rows :: "sdk \<Rightarrow> nat \<Rightarrow> slot list \<Rightarrow> row list" where
  "permission_rows k e p =
     [(chars (permission_name e @ '' Threshold''), fmt_signed (sint (m_int p 4)), None)] @
     map2 (\<lambda>i key. (chars (permission_name e @ '' Key '' @ i), key_text k key, None)) [''1'', ''2'', ''3''] (m_msgs p 7) @
     [(chars (permission_name e @ '' Operations''), chars ''0x'' @ hex_of k (m_buf p 6), None)]"

lemma less_4: "e < 4 \<longleftrightarrow> e = 0 \<or> e = 1 \<or> e = 2 \<or> e = (3 :: nat)"
  by auto

lemma labels:
  assumes "e < 4"
  shows "permissionThresholdLabel ! e = permission_name e @ '' Threshold''"
    "permissionOperationsLabel ! e = permission_name e @ '' Operations''"
    "i < 3 \<Longrightarrow> permissionKeyLabel ! e ! i = permission_name e @ '' Key '' @ [''1'', ''2'', ''3''] ! i"
  using assms
  by (auto simp: less_4 permissionThresholdLabel_def permissionOperationsLabel_def permissionKeyLabel_def permission_name_def
      less_Suc_eq numeral_3_eq_3)

lemma permission_field_rows:
  assumes "e < 4" "entry_shows k (permissionEntries s ! e) p" "ok_permission p"
  shows "map (row_of s \<circ> aliased s) (permission_fields s e) = permission_rows k e p"
proof -
  have n: "length (m_msgs p 7) \<le> 3" using assms(3) by (simp add: ok_permission_def)
  have "map (row_of s \<circ> aliased s) (map (\<lambda>i. field (Literal (permissionKeyLabel ! e ! i)) (PermKey e i)) [0..<length (m_msgs p 7)]) =
      map2 (\<lambda>i key. (chars (permission_name e @ '' Key '' @ i), key_text k key, None)) [''1'', ''2'', ''3''] (m_msgs p 7)"
    by (rule nth_equalityI) (use n assms(2) labels(3) [OF assms(1)] in \<open>auto simp: aliased_rows deref_def entry_shows_def\<close>)
  then show ?thesis
    using assms(2) labels(1,2) [OF assms(1)]
    by (simp add: permission_fields_def permission_rows_def entry_shows_def aliased_rows deref_def)
qed


definition contract_rows :: "sdk \<Rightarrow> slot list \<Rightarrow> row list" where
  "contract_rows k c = concat (map (\<lambda>e. case perm_of c e of None \<Rightarrow> [] | Some p \<Rightarrow> permission_rows k e p) [0..<4])"

lemma contract_row_list:
  assumes "entries_show k (permissionEntries s) c 4" "ok_contract c"
  shows "map (row_of s \<circ> aliased s) (concat (map (permission_fields s) [0..<4])) = contract_rows k c"
proof -
  have "map (row_of s \<circ> aliased s) (permission_fields s e) = (case perm_of c e of None \<Rightarrow> [] | Some p \<Rightarrow> permission_rows k e p)"
    if "e < 4" for e
  proof (cases "perm_of c e")
    case None
    then show ?thesis using assms(1) that by (auto simp: entries_show_def permission_fields_def)
  next
    case (Some p)
    then have "entry_shows k (permissionEntries s ! e) p" "ok_permission p"
      using assms that by (auto simp: entries_show_def ok_contract_def)
    with Some show ?thesis using permission_field_rows [OF that] by simp
  qed
  then have "map (\<lambda>e. map (row_of s \<circ> aliased s) (permission_fields s e)) [0..<4] =
      map (\<lambda>e. case perm_of c e of None \<Rightarrow> [] | Some p \<Rightarrow> permission_rows k e p) [0..<4]"
    by (intro map_cong) simp_all
  then show ?thesis unfolding contract_rows_def by (simp only: map_concat map_map comp_def)
qed

lemma prepare_permissions:
  "prepareTxInfos k APPROVAL_PERMISSION_UPDATE w s = (Inr True, s\<lparr>txInfos :=
     (titled (two_lines ''Review transaction to'' ''Update Permission'') (two_lines ''Sign transaction to'' ''Update Permission'')
       (fresh_infos APPROVAL_PERMISSION_UPDATE w))\<lparr>ti_fields := map (aliased s) (from_field # concat (map (permission_fields s) [0..<4]))\<rparr>\<rparr>)"
proof -
  let ?fs = "from_field # concat (map (permission_fields s) [0..<4])"
  have no: "\<not> (\<exists>f \<in> set ?fs. tv_value f = ToAddress)" by (auto simp: permission_fields_def)
  have i: "tx_infos_2 APPROVAL_PERMISSION_UPDATE (tx_infos_1 APPROVAL_PERMISSION_UPDATE s (fresh_infos APPROVAL_PERMISSION_UPDATE w)) =
      (titled (two_lines ''Review transaction to'' ''Update Permission'') (two_lines ''Sign transaction to'' ''Update Permission'')
       (fresh_infos APPROVAL_PERMISSION_UPDATE w))\<lparr>ti_fields := ?fs\<rparr>"
    by (simp add: tx_infos_1_def tx_infos_2_def)
  show ?thesis
    using no by (simp add: prepareTxInfos_def i insert_known_service_label_def apply_aliases Let_def del: upt_Suc)
qed

lemma permission_display:
  assumes "entries_show k (permissionEntries s) c 4" "ok_contract c"
    "cstr (fromAddress s) = base58 k owner" "g_sender_contact s = get_address_book_contact contacts owner"
  shows "\<exists>s'. ux_flow_display k APPROVAL_PERMISSION_UPDATE False s = (Returned, s') \<and>
    quiet s (s'\<lparr>the_screen := the_screen s\<rparr>) \<and> the_screen s' = TransactionScreen \<and>
    shown s' = address_row (chars ''From'') (get_address_book_contact contacts owner) (base58 k owner) # contract_rows k c"
proof -
  let ?fs = "from_field # concat (map (permission_fields s) [0..<4])"
  let ?i = "(titled (two_lines ''Review transaction to'' ''Update Permission'') (two_lines ''Sign transaction to'' ''Update Permission'')
       (fresh_infos APPROVAL_PERMISSION_UPDATE False))\<lparr>ti_fields := map (aliased s) ?fs\<rparr>"
  let ?s1 = "s\<lparr>txInfos := ?i\<rparr>"
  have "shown (reviewStart ?s1) = map (row_of s \<circ> aliased s) ?fs"
    by (simp add: shown_def reviewStart_def row_of_def del: upt_Suc)
  also have "\<dots> = row_of s (aliased s from_field) # contract_rows k c"
    using contract_row_list [OF assms(1,2)] by (simp only: list.map comp_apply)
  also have "row_of s (aliased s from_field) = address_row (chars ''From'') (get_address_book_contact contacts owner) (base58 k owner)"
    using assms(3,4) by (simp add: aliased_rows)
  finally show ?thesis
    by (intro exI [of _ "reviewStart ?s1"])
      (simp add: ux_flow_display_def prepare_permissions del: upt_Suc, simp add: reviewStart_def quiet_def core_def)
qed


section \<open>The contract\<close>

definition permissions :: "slot list \<Rightarrow> slot list list" where
  "permissions c = List.map_filter (perm_of c) [0..<4]"

definition mainnet_keys :: "slot list \<Rightarrow> bool" where
  "mainnet_keys c \<longleftrightarrow> list_all (\<lambda>p. list_all (\<lambda>key. m_buf key 1 ! 0 = 0x41) (m_msgs p 7)) (permissions c)"

text \<open>What a canonical message holds in a field of its descriptor.\<close>

lemma canon_slot:
  assumes "canon_msg fs m" "distinct (map f_tag fs)" "f \<in> set fs"
  shows "canon_field f (get_slot m (f_tag f))"
  using assms unfolding canon_msg_def
proof (induction rule: list_all2_induct)
  case (Cons g fs sl m)
  then have "s_tag sl = f_tag g" by (intro canon_tag)
  with Cons show ?case by (cases "f = g") (auto simp: get_slot_def)
qed simp

lemma canon_repeated:
  assumes "canon_msg fs m" "distinct (map f_tag fs)" "Field tag STATIC (REPEATED n) (LT_SUBMESSAGE gs) \<in> set fs"
  shows "length (m_msgs m tag) \<le> n" "list_all (canon_msg gs) (m_msgs m tag)"
  using canon_slot [OF assms] by (auto simp: m_msgs_def list_all_iff dest!: bspec)

lemma canon_optional:
  assumes "canon_msg fs m" "distinct (map f_tag fs)" "Field tag STATIC OPTIONAL (LT_SUBMESSAGE gs) \<in> set fs"
  shows "canon_msg gs (m_msg m tag)"
  using canon_slot [OF assms] by (auto simp: m_msg_def m_msgs_def)

lemma canon_fixed:
  assumes "canon_msg fs m" "distinct (map f_tag fs)" "Field tag STATIC SINGULAR (LT_FIXED_LENGTH_BYTES n) \<in> set fs"
  shows "length (m_buf m tag) = n"
  using canon_slot [OF assms] by (auto simp: m_buf_def)

lemma canon_permission:
  assumes "canon_msg (protocol_Permission es) p" "list_all (\<lambda>key. m_buf key 1 ! 0 = 0x41) (m_msgs p 7)"
  shows "ok_permission p"
proof -
  have d: "distinct (map f_tag (protocol_Permission es))" "distinct (map f_tag protocol_Key)"
    by (simp_all add: protocol_Permission_def protocol_Key_def)
  have "length (m_buf p 6) = 32" "length (m_msgs p 7) \<le> 3" "list_all (canon_msg protocol_Key) (m_msgs p 7)"
    by (rule canon_fixed [OF assms(1) d(1)] canon_repeated [OF assms(1) d(1)], simp add: protocol_Permission_def)+
  moreover have "length (m_buf key 1) = 21" if "canon_msg protocol_Key key" for key
    by (rule canon_fixed [OF that d(2)]) (simp add: protocol_Key_def)
  ultimately show ?thesis using assms(2) by (auto simp: ok_permission_def ok_key_def list_all_iff)
qed

lemma canon_contract:
  assumes "canon_msg (protocol_AccountPermissionUpdateContract es) c" "mainnet_keys c"
  shows "ok_contract c" "length (m_buf c 1) = 21"
proof -
  have d: "distinct (map f_tag (protocol_AccountPermissionUpdateContract es))" by (simp add: protocol_AccountPermissionUpdateContract_def)
  show "length (m_buf c 1) = 21" by (rule canon_fixed [OF assms(1) d]) (simp add: protocol_AccountPermissionUpdateContract_def)
  have o: "canon_msg (protocol_Permission es) (m_msg c 2)" "canon_msg (protocol_Permission es) (m_msg c 3)"
    by (rule canon_optional [OF assms(1) d], simp add: protocol_AccountPermissionUpdateContract_def)+
  have a: "length (m_msgs c 4) \<le> 2" "list_all (canon_msg (protocol_Permission es)) (m_msgs c 4)"
    by (rule canon_repeated [OF assms(1) d], simp add: protocol_AccountPermissionUpdateContract_def)+
  have "ok_permission p" if "perm_of c e = Some p" for e p
  proof (rule canon_permission)
    show "canon_msg (protocol_Permission es) p"
      using that o a(2) by (auto simp: perm_of_def list_all_length split: if_splits)
    have "e < 4" using that a(1) by (auto simp: perm_of_def split: if_splits)
    then have "p \<in> set (permissions c)" using that by (force simp: permissions_def List.map_filter_def)
    then show "list_all (\<lambda>key. m_buf key 1 ! 0 = 0x41) (m_msgs p 7)" using assms(2) by (simp add: mainnet_keys_def list_all_iff)
  qed
  then show "ok_contract c" using a(1) by (simp add: ok_contract_def)
qed


definition enc_permissions :: "sdk \<Rightarrow> slot list \<Rightarrow> bytes" where
  "enc_permissions k c = enc_msg (protocol_AccountPermissionUpdateContract (enum_size k)) c"

definition permission_content :: "slot list \<Rightarrow> txContent_t" where
  "permission_content c = (tx_content 46 0 (zero_content\<lparr>tc_contractType := INVALID_CONTRACT\<rparr>))\<lparr>tc_account := m_buf c 1\<rparr>"

lemma permissions_processed:
  assumes "sdk_ok k" "canon_msg (protocol_AccountPermissionUpdateContract (enum_size k)) c"
    "length (enc_tx ref_bytes ref_hash expiration 46 url (enc_permissions k c) timestamp 0) < 2 ^ 32"
    "txContent s = zero_content\<lparr>tc_contractType := INVALID_CONTRACT\<rparr>"
  shows "processTx k (enc_tx ref_bytes ref_hash expiration 46 url (enc_permissions k c) timestamp 0) s =
    (USTREAM_PROCESSING, s\<lparr>txContent := permission_content c, msg := c\<rparr>)"
proof -
  let ?v = "enc_permissions k c" and ?fs = "protocol_AccountPermissionUpdateContract (enum_size k)"
  have sw: "contract_switch k (of_nat 46) = Some (account_permission_update_contract k)" by (simp add: contract_switch_def)
  have len: "length (enc_contract 46 url ?v) < 2 ^ 32" "length ref_bytes < 2 ^ 32" "length ref_hash < 2 ^ 32" "length ?v < 2 ^ 32"
    using assms(3) by (simp_all add: enc_tx_def enc_len_def enc_contract_def enc_any_def)
  have ok: "ok_fields ?fs" using sdk_enum [OF assms(1)] by (auto simp: ok_fields_def descriptor_defs)
  have "pb_decode no_callbacks ?fs (IStream g p ?v) () = Some (c, ())" for g p
    using len(4) unfolding enc_permissions_def by (intro decode_canonical ok assms(2))
  then have m: "account_permission_update_contract k (IStream g p ?v) (tx_content 46 0 (txContent s)) = (True, permission_content c, c)" for g p
    by (simp add: account_permission_update_contract_def decode_msg_def permission_content_def assms(4))
  have ne: "?v \<noteq> []"
    using assms(2) by (auto simp: enc_permissions_def enc_msg_def protocol_AccountPermissionUpdateContract_def canon_msg_def
        list_all2_Cons1 enc_key_def)
  show ?thesis
    using processTx_enc [OF len(2,3,1) assms(1) _ _ ne _ _ _ sw m, of expiration timestamp] by (simp add: assms(4) zero_content_def)
qed

lemma wf_permission_content: "length (m_buf c 1) = 21 \<Longrightarrow> wf_content (permission_content c)"
  by (simp add: wf_content_def permission_content_def tx_content_def zero_content_def wf_name_def list_all_iff)

lemma finish_sign_permissions:
  assumes k: "sdk_ok k" and wf: "wf_state n k s" and sw: "\<not> G_called_from_swap s"
    and c: "txContent s = permission_content c" "msg s = c"
    and p: "ok_contract c" "permissions c \<noteq> []" "m_buf c 1 ! 0 = 0x41"
  shows "\<exists>s'. finish_sign k s = (Returned, s') \<and> quiet (hashed k s) (s'\<lparr>the_screen := the_screen s\<rparr>) \<and>
    the_screen s' = TransactionScreen \<and>
    shown s' = address_row (chars ''From'') (get_address_book_contact (ab_contacts s) (m_buf c 1)) (base58 k (m_buf c 1)) # contract_rows k c"
proof -
  let ?c = "txContent s"
  have f: "tc_contractType ?c = ACCOUNTPERMISSIONUPDATECONTRACT" "tc_permission_id ?c = 0" "tc_dataBytes ?c = 0" "tc_account ?c = m_buf c 1"
    by (simp_all add: c permission_content_def tx_content_def zero_content_def)
  define s1 where "s1 = set_sender k (hashed k s)"
  have "tc_account ?c ! 0 = 0x41" using f(4) p(3) by simp
  note s1 = sender_state [OF k wf f(2) this, folded s1_def]
  have m: "msg s1 = c" using c(2) f(2) by (simp add: s1_def set_sender_def Let_def)
  have "\<exists>e. perm_of c e \<noteq> None" using p(2) by (auto simp: permissions_def List.map_filter_def filter_empty_conv)
  then obtain es where es: "sign_permission_update k False s1 = ux_flow_display k APPROVAL_PERMISSION_UPDATE False (s1\<lparr>permissionEntries := es\<rparr>)"
      "entries_show k es c 4"
    using sign_permissions [OF k, of s1 False] p(1) by (auto simp: m)
  define s3 where "s3 = s1\<lparr>permissionEntries := es\<rparr>"
  have "finish_sign k s = sign_switch k False s1"
    using sw by (simp add: finish_sign_def Let_def f s1_def set_sender_def MAX_PERMISSION_ID_def)
  also have "\<dots> = ux_flow_display k APPROVAL_PERMISSION_UPDATE False s3"
    by (simp add: sign_switch_def s1(2) f Let_def es(1) s3_def)
  finally have e: "finish_sign k s = ux_flow_display k APPROVAL_PERMISSION_UPDATE False s3" .
  obtain s' where "ux_flow_display k APPROVAL_PERMISSION_UPDATE False s3 = (Returned, s')"
    "quiet s3 (s'\<lparr>the_screen := the_screen s3\<rparr>)" "the_screen s' = TransactionScreen"
    "shown s' = address_row (chars ''From'') (get_address_book_contact (ab_contacts s) (m_buf c 1)) (base58 k (m_buf c 1)) # contract_rows k c"
    using permission_display [of k s3 c "m_buf c 1" "ab_contacts s"] p(1) es(2) s1(6,8) f(4) by (auto simp: s3_def)
  moreover have "quiet (hashed k s) s3" "the_screen s3 = the_screen s" using s1(5,7) by (simp_all add: s3_def)
  ultimately show ?thesis using e by (auto intro: quiet_trans)
qed


section \<open>Property\<close>

text \<open>C5: What you see is what you sign, for a change of permissions: for every transaction with one contract that
  replaces owner, witness or active permissions, given as any message of its type (encoded without names) and sent in
  one command, the device shows the account, and then for each permission of the signed bytes, in the order owner,
  witness, first and second active one, its threshold, each of its keys - the whole address with its weight - and its
  operations in hexadecimal; no permission and no key is left out; and what waits for approval is the SHA-256 digest
  of exactly these transaction bytes under the path of the command. This holds for every value of the settings, although
  \<^verbatim>\<open>docs/APDU.md\<close> says that such a transaction needs the setting of signing by hash.\<close>

theorem permissions_shown:
  assumes "sdk_ok k" "wf_state n k s" "\<not> G_called_from_swap s"
    "read_bip32_path d (tr_bip32_path (transactionContext s)) = (Some m, path)"
    "drop m d = enc_tx ref_bytes ref_hash expiration 46 url (enc_permissions k c) timestamp 0" "length d \<le> 255"
    "canon_msg (protocol_AccountPermissionUpdateContract (enum_size k)) c" "m_buf c 1 ! 0 = 0x41" "mainnet_keys c" "permissions c \<noteq> []"
  shows "\<exists>s'. handleSign k P1_SIGN 0 d s = (Returned, s') \<and> outputs s' = outputs s \<and> the_screen s' = TransactionScreen \<and>
    tr_hash (transactionContext s') = cx_sha256 k (drop m d) \<and> tr_bip32_path (transactionContext s') = path \<and>
    shown s' =
      address_row (chars ''From'') (get_address_book_contact (ab_contacts s) (m_buf c 1)) (base58 k (m_buf c 1)) #
      concat (map (\<lambda>e. case perm_of c e of None \<Rightarrow> [] | Some p \<Rightarrow> permission_rows k e p) [0..<4])"
proof -
  note ok = canon_contract [OF assms(7,9)]
  have "length (drop m d) < 2 ^ 32" using assms(6) by simp
  then have "\<exists>g. g = c \<and> processTx k (drop m d) s2 = (USTREAM_PROCESSING, s2\<lparr>txContent := permission_content c, msg := g\<rparr>)"
    if "txContent s2 = zero_content\<lparr>tc_contractType := INVALID_CONTRACT\<rparr>" for s2
    using permissions_processed [OF assms(1,7) _ that, of ref_bytes ref_hash expiration url timestamp] by (simp add: assms(5))
  from handleSign_processed [where P = "\<lambda>g. g = c", OF assms(1-4) wf_permission_content [OF ok(2)] this]
  obtain s3 where s3: "handleSign k P1_SIGN 0 d s = finish_sign k s3" "wf_state n k s3" "outputs s3 = outputs s"
      "the_screen s3 = the_screen s" "\<not> G_called_from_swap s3" "txContent s3 = permission_content c"
      "ab_contacts s3 = ab_contacts s" "tr_bip32_path (transactionContext s3) = path" "tx_sha2 (txContext s3) = drop m d" "msg s3 = c"
    by blast
  from finish_sign_permissions [OF assms(1) s3(2,5,6,10) ok(1) assms(10,8)]
  obtain s' where "finish_sign k s3 = (Returned, s')" "quiet (hashed k s3) (s'\<lparr>the_screen := the_screen s3\<rparr>)"
    "the_screen s' = TransactionScreen"
    "shown s' = address_row (chars ''From'') (get_address_book_contact (ab_contacts s3) (m_buf c 1)) (base58 k (m_buf c 1)) # contract_rows k c"
    by blast
  then show ?thesis using s3 by (auto simp: quiet_def core_def contract_rows_def)
qed

section \<open>Witness\<close>

text \<open>An owner permission and an active one.\<close>

definition sample_permission :: "u64 \<Rightarrow> (bytes \<times> u64) list \<Rightarrow> slot list" where
  "sample_permission threshold keys =
     [Slot 1 False [VInt 0], Slot 2 False [VInt 0], Slot 3 False [], Slot 4 False [VInt threshold], Slot 5 False [VInt 0],
      Slot 6 False [VBuf (replicate 32 0xFF)],
      Slot 7 False (map (\<lambda>(a, w). VMsg [Slot 1 False [VBuf a], Slot 2 False [VInt w]]) keys)]"

definition sample_update :: "slot list" where
  "sample_update =
     [Slot 1 False [VBuf sample_address], Slot 2 True [VMsg (sample_permission 1 [(sample_address, 1)])],
      Slot 3 False [default_val (LT_SUBMESSAGE (protocol_Permission (enum_size sample_sdk)))],
      Slot 4 False [VMsg (sample_permission 2 [(sample_address, 1)])]]"

definition sample_permission_tx :: bytes where
  "sample_permission_tx = enc_tx [1, 2] [3, 4] 1000 46 [] (enc_permissions sample_sdk sample_update) 2000 0"

lemma sample_update_facts:
  "canon_msg (protocol_AccountPermissionUpdateContract (enum_size sample_sdk)) sample_update" "m_buf sample_update 1 ! 0 = 0x41"
  "perm_of sample_update 0 = Some (sample_permission 1 [(sample_address, 1)])" "perm_of sample_update (Suc 0) = None"
  "perm_of sample_update 2 = Some (sample_permission 2 [(sample_address, 1)])" "perm_of sample_update 3 = None"
proof -
  have e: "enum_size sample_sdk = 1" by (simp add: sample_sdk_def)
  show "canon_msg (protocol_AccountPermissionUpdateContract (enum_size sample_sdk)) sample_update"
    by (simp add: e canon_msg_def descriptor_defs sample_update_def sample_permission_def sample_address_def read_signed_def read_unsigned_def)
qed (simp_all add: perm_of_def m_has_def m_msg_def m_msgs_def m_buf_def get_slot_def sample_update_def sample_address_def)

lemma sample_permission_keys:
  "m_msgs (sample_permission t [(a, w)]) 7 = [[Slot 1 False [VBuf a], Slot 2 False [VInt w]]]"
  "m_int (sample_permission t ks) 4 = t" "m_buf (sample_permission t ks) 6 = replicate 32 0xFF"
  "m_buf [Slot 1 False [VBuf a], Slot 2 False [VInt w]] 1 = a" "m_int [Slot 1 False [VBuf a], Slot 2 False [VInt w]] 2 = w"
  by (simp_all add: sample_permission_def m_msgs_def m_int_def m_buf_def get_slot_def)

lemma upt_4: "[0..<4] = [0, Suc 0, 2, 3 :: nat]"
  by (simp add: upt_rec)

lemma sample_permissions: "permissions sample_update \<noteq> []" "mainnet_keys sample_update"
  by (simp_all add: mainnet_keys_def permissions_def upt_4 List.map_filter_def sample_update_facts sample_permission_keys)
    (simp_all add: sample_address_def)

lemma sample_permission_length: "length (sample_path @ sample_permission_tx) \<le> 255"
  by (simp add: sample_permission_tx_def sample_path_def sample_address_def enc_tx_def enc_contract_def enc_any_def enc_permissions_def
      enc_msg_def sample_update_def sample_permission_def descriptor_defs enc_len_def enc_int_def enc_key_def enc_varint.simps)

theorem permissions_shown_witness:
  "\<exists>s'. handleSign sample_sdk P1_SIGN 0 (sample_path @ sample_permission_tx) sample_state = (Returned, s') \<and>
    tr_hash (transactionContext s') = cx_sha256 sample_sdk sample_permission_tx \<and>
    shown s' = address_row (chars ''From'') None (base58 sample_sdk sample_address) #
      permission_rows sample_sdk 0 (sample_permission 1 [(sample_address, 1)]) @
      permission_rows sample_sdk 2 (sample_permission 2 [(sample_address, 1)])"
proof -
  have r: "read_bip32_path (sample_path @ sample_permission_tx) (tr_bip32_path (transactionContext sample_state)) = (Some 13, sample_bip32)"
    by (simp add: sample_facts sample_read)
  have d: "drop 13 (sample_path @ sample_permission_tx) = sample_permission_tx" by (simp only: sample_drop)
  have a: "m_buf sample_update 1 = sample_address" by (simp add: m_buf_def get_slot_def sample_update_def)
  show ?thesis
    using permissions_shown [OF sample_sdk_ok sample_facts(1,2) r trans [OF d sample_permission_tx_def] sample_permission_length
        sample_update_facts(1,2) sample_permissions(2,1)]
    unfolding d sample_facts(4) a upt_4 by (auto simp: sample_update_facts)
qed

end
