(* ===== verification/Utf8.thy ===== *)
theory Utf8
  imports Amount
begin

text \<open>
  \<^verbatim>\<open>pb_validate_utf8\<close> of \<^verbatim>\<open>src/nanopb/pb_common.c\<close>, the check of a C string that \<^verbatim>\<open>PB_VALIDATE_UTF8\<close> adds to the decoder and
  the encoder, against the definition of UTF-8: the code and its reference are two definitions, and the code accepts a
  string exactly when it is the encoding of a sequence of characters. \<open>accepted\<close> is one turn of the loop on
  numbers instead of masked bytes.
\<close>

unbundle bit_operations_syntax

section \<open>The code\<close>

text \<open>A string is the list of its bytes; what is read after them is the terminator. The loop stops there, and a test
  on it fails before the next byte is read.\<close>

definition byte_at :: "bytes \<Rightarrow> nat \<Rightarrow> u8" where
  "byte_at s i = (if i < length s then s ! i else 0)"

lemma byte_at_0: "byte_at s 0 \<noteq> 0 \<Longrightarrow> s \<noteq> []"
  by (auto simp: byte_at_def)

function pb_validate_utf8 :: "bytes \<Rightarrow> bool" where
  "pb_validate_utf8 s =
     (if byte_at s 0 = 0 then True
      else if byte_at s 0 < 0x80 then pb_validate_utf8 (drop 1 s)
      else if byte_at s 0 AND 0xe0 = 0xc0 then
        if byte_at s 1 AND 0xc0 \<noteq> 0x80 \<or> byte_at s 0 AND 0xfe = 0xc0 then False
        else pb_validate_utf8 (drop 2 s)
      else if byte_at s 0 AND 0xf0 = 0xe0 then
        if byte_at s 1 AND 0xc0 \<noteq> 0x80 \<or> byte_at s 2 AND 0xc0 \<noteq> 0x80 \<or>
           byte_at s 0 = 0xe0 \<and> byte_at s 1 AND 0xe0 = 0x80 \<or>
           byte_at s 0 = 0xed \<and> byte_at s 1 AND 0xe0 = 0xa0 \<or>
           byte_at s 0 = 0xef \<and> byte_at s 1 = 0xbf \<and> byte_at s 2 AND 0xfe = 0xbe then False
        else pb_validate_utf8 (drop 3 s)
      else if byte_at s 0 AND 0xf8 = 0xf0 then
        if byte_at s 1 AND 0xc0 \<noteq> 0x80 \<or> byte_at s 2 AND 0xc0 \<noteq> 0x80 \<or> byte_at s 3 AND 0xc0 \<noteq> 0x80 \<or>
           byte_at s 0 = 0xf0 \<and> byte_at s 1 AND 0xf0 = 0x80 \<or>
           byte_at s 0 = 0xf4 \<and> byte_at s 1 > 0x8f \<or> byte_at s 0 > 0xf4 then False
        else pb_validate_utf8 (drop 4 s)
      else False)"
  by pat_completeness auto
termination
  by (relation "measure length") (auto dest!: byte_at_0)

declare pb_validate_utf8.simps [simp del]

section \<open>Encoded characters\<close>

text \<open>The reference: the bytes of a code point, and the code points of a text, which are neither surrogates nor
  \<open>U+FFFE\<close>, \<open>U+FFFF\<close> nor NUL.\<close>

definition utf8_bytes :: "nat \<Rightarrow> nat list" where
  "utf8_bytes c =
     (if c < 0x80 then [c]
      else if c < 0x800 then [0xC0 + c div 64, 0x80 + c mod 64]
      else if c < 0x10000 then [0xE0 + c div 4096, 0x80 + c div 64 mod 64, 0x80 + c mod 64]
      else [0xF0 + c div 262144, 0x80 + c div 4096 mod 64, 0x80 + c div 64 mod 64, 0x80 + c mod 64])"

definition utf8 :: "nat \<Rightarrow> bytes" where
  "utf8 c = map of_nat (utf8_bytes c)"

definition text_char :: "nat \<Rightarrow> bool" where
  "text_char c \<longleftrightarrow> 0 < c \<and> c \<le> 0x10FFFF \<and> \<not> (0xD800 \<le> c \<and> c \<le> 0xDFFF) \<and> c \<noteq> 0xFFFE \<and> c \<noteq> 0xFFFF"

text \<open>The masks of the code compare the upper bits of a byte.\<close>

lemma upper_bits:
  fixes b :: u8
  assumes "k \<le> 8"
  shows "unat (b AND push_bit k (mask (8 - k))) = unat b div 2 ^ k * 2 ^ k"
proof -
  have e: "b AND push_bit k (mask (8 - k)) = push_bit k (drop_bit k b)"
    using assms by (intro bit_word_eqI) (auto simp: bit_simps)
  have u: "unat b < 2 ^ LENGTH(8)" by (rule unsigned_less)
  then have "unat b div 2 ^ k * 2 ^ k < 2 ^ 8" by (intro le_less_trans [OF div_times_less_eq_dividend]) simp
  with u show ?thesis
    unfolding e by (simp only: unsigned_push_bit_eq unsigned_drop_bit_eq) (simp add: push_bit_eq_mult drop_bit_eq_div take_bit_nat_eq_self)
qed

lemma mask_tests:
  fixes b :: u8
  shows "b AND 0xc0 = 0x80 \<longleftrightarrow> unat b div 64 = 2" "b AND 0xe0 = 0xc0 \<longleftrightarrow> unat b div 32 = 6" "b AND 0xf0 = 0xe0 \<longleftrightarrow> unat b div 16 = 14"
    "b AND 0xf8 = 0xf0 \<longleftrightarrow> unat b div 8 = 30" "b AND 0xfe = 0xc0 \<longleftrightarrow> unat b div 2 = 96" "b AND 0xfe = 0xbe \<longleftrightarrow> unat b div 2 = 95"
    "b AND 0xe0 = 0x80 \<longleftrightarrow> unat b div 32 = 4" "b AND 0xe0 = 0xa0 \<longleftrightarrow> unat b div 32 = 5" "b AND 0xf0 = 0x80 \<longleftrightarrow> unat b div 16 = 8"
proof -
  have m: "unat (b AND 0xc0) = unat b div 64 * 64" "unat (b AND 0xe0) = unat b div 32 * 32" "unat (b AND 0xf0) = unat b div 16 * 16"
      "unat (b AND 0xf8) = unat b div 8 * 8" "unat (b AND 0xfe) = unat b div 2 * 2"
    using upper_bits [of 6 b] upper_bits [of 5 b] upper_bits [of 4 b] upper_bits [of 3 b] upper_bits [of 1 b]
    by (simp_all add: mask_eq_exp_minus_1 push_bit_eq_mult)
  show "b AND 0xc0 = 0x80 \<longleftrightarrow> unat b div 64 = 2" "b AND 0xe0 = 0xc0 \<longleftrightarrow> unat b div 32 = 6" "b AND 0xf0 = 0xe0 \<longleftrightarrow> unat b div 16 = 14"
    "b AND 0xf8 = 0xf0 \<longleftrightarrow> unat b div 8 = 30" "b AND 0xfe = 0xc0 \<longleftrightarrow> unat b div 2 = 96" "b AND 0xfe = 0xbe \<longleftrightarrow> unat b div 2 = 95"
    "b AND 0xe0 = 0x80 \<longleftrightarrow> unat b div 32 = 4" "b AND 0xe0 = 0xa0 \<longleftrightarrow> unat b div 32 = 5" "b AND 0xf0 = 0x80 \<longleftrightarrow> unat b div 16 = 8"
    unfolding word_unat_eq_iff m by simp_all
qed

lemma number_tests:
  fixes b :: u8
  shows "b < 0x80 \<longleftrightarrow> unat b < 128" "b = 0xe0 \<longleftrightarrow> unat b = 224" "b = 0xed \<longleftrightarrow> unat b = 237" "b = 0xef \<longleftrightarrow> unat b = 239"
    "b = 0xbf \<longleftrightarrow> unat b = 191" "b = 0xf0 \<longleftrightarrow> unat b = 240" "b = 0xf4 \<longleftrightarrow> unat b = 244" "b > 0x8f \<longleftrightarrow> 143 < unat b"
    "b > 0xf4 \<longleftrightarrow> 244 < unat b"
  by (simp_all add: word_less_nat_alt word_unat_eq_iff)

text \<open>The tests of one turn of the loop on numbers: the length of the character that is accepted.\<close>

definition accepted :: "nat \<Rightarrow> nat \<Rightarrow> nat \<Rightarrow> nat \<Rightarrow> nat option" where
  "accepted a b c d =
     (if a < 128 then Some 1
      else if a div 32 = 6 then if b div 64 \<noteq> 2 \<or> a div 2 = 96 then None else Some 2
      else if a div 16 = 14 then
        if b div 64 \<noteq> 2 \<or> c div 64 \<noteq> 2 \<or> a = 224 \<and> b div 32 = 4 \<or> a = 237 \<and> b div 32 = 5 \<or> a = 239 \<and> b = 191 \<and> c div 2 = 95
        then None else Some 3
      else if a div 8 = 30 then
        if b div 64 \<noteq> 2 \<or> c div 64 \<noteq> 2 \<or> d div 64 \<noteq> 2 \<or> a = 240 \<and> b div 16 = 8 \<or> a = 244 \<and> 143 < b \<or> 244 < a
        then None else Some 4
      else None)"

abbreviation nat_at :: "bytes \<Rightarrow> nat \<Rightarrow> nat" where
  "nat_at s i \<equiv> unat (byte_at s i)"

lemma validate_step:
  "pb_validate_utf8 s =
     (if byte_at s 0 = 0 then True
      else case accepted (nat_at s 0) (nat_at s 1) (nat_at s 2) (nat_at s 3) of None \<Rightarrow> False | Some k \<Rightarrow> pb_validate_utf8 (drop k s))"
  unfolding pb_validate_utf8.simps [of s] accepted_def mask_tests
  unfolding number_tests
  by (simp only: if_distrib [of "case_option False (\<lambda>k. pb_validate_utf8 (drop k s))"] option.case)

section \<open>What is accepted is a character\<close>

lemma between: "n div k = q \<Longrightarrow> 0 < k \<Longrightarrow> q * k \<le> n \<and> n < q * k + k" for n k q :: nat
  using dividend_less_div_times [of k n] div_times_less_eq_dividend [of n k] by auto

lemma continuation: "b div 64 = 2 \<Longrightarrow> \<exists>y<64. b = 128 + y" for b :: nat
  using between [of b 64 2] by (intro exI [of _ "b - 128"]) auto

lemma base64_digit:
  fixes q r :: nat
  assumes "r < 64"
  shows "(q * 64 + r) mod 64 = r" "(q * 64 + r) div 64 = q"
  using assms by (simp_all only: mod_mult_self3 mod_less div_mult_self3 div_less add_0_right)

lemma base64_digits:
  assumes "y < 64" "z < 64"
  shows "((x * 64 + y) * 64 + z) mod 64 = (z :: nat)" "((x * 64 + y) * 64 + z) div 64 mod 64 = y" "((x * 64 + y) * 64 + z) div 4096 = x"
proof -
  show "((x * 64 + y) * 64 + z) mod 64 = z" "((x * 64 + y) * 64 + z) div 64 mod 64 = y" using assms by (simp_all only: base64_digit)
  have "((x * 64 + y) * 64 + z) div 4096 = ((x * 64 + y) * 64 + z) div 64 div 64" using div_mult2_eq [of _ 64 64] by simp
  then show "((x * 64 + y) * 64 + z) div 4096 = x" using assms by (simp only: base64_digit)
qed

lemma three_bytes:
  fixes x y z :: nat
  assumes "x < 16" "y < 64" "z < 64" "x = 0 \<Longrightarrow> 32 \<le> y" "x = 13 \<Longrightarrow> y < 32" "x = 15 \<Longrightarrow> y = 63 \<Longrightarrow> z < 62"
  shows "\<exists>m. text_char m \<and> utf8_bytes m = [224 + x, 128 + y, 128 + z]"
proof -
  define m where "m = (x * 64 + y) * 64 + z"
  have r: "2048 \<le> m" using assms(4) unfolding m_def by (cases "x = 0") auto
  have "m < 65534"
  proof (cases "x = 15")
    case True then show ?thesis using assms(2,3,6) unfolding m_def by (cases "y = 63") auto
  qed (use assms in \<open>simp add: m_def\<close>)
  moreover have "\<not> (55296 \<le> m \<and> m \<le> 57343)"
  proof (cases "x = 13")
    case True then show ?thesis using assms(3,5) unfolding m_def by simp
  next
    case False
    then have "x \<le> 12 \<or> 14 \<le> x" by linarith
    then show ?thesis using assms(2,3) unfolding m_def by auto
  qed
  ultimately have "text_char m" using r by (auto simp: text_char_def)
  moreover have "utf8_bytes m = [224 + x, 128 + y, 128 + z]"
    using r \<open>m < 65534\<close> base64_digits [OF assms(2,3), of x, folded m_def] by (simp add: utf8_bytes_def)
  ultimately show ?thesis by blast
qed

lemma four_bytes:
  fixes w x y z :: nat
  assumes "x < 5" "w < 64" "y < 64" "z < 64" "x = 0 \<Longrightarrow> 16 \<le> w" "x = 4 \<Longrightarrow> w < 16"
  shows "\<exists>m. text_char m \<and> utf8_bytes m = [240 + x, 128 + w, 128 + y, 128 + z]"
proof -
  define v where "v = x * 64 + w"
  define m where "m = (v * 64 + y) * 64 + z"
  have v: "16 \<le> v" "v < 272" using assms unfolding v_def by (cases "x = 0"; cases "x = 4"; simp)+
  then have r: "65536 \<le> m" "m < 1114112" using assms(3,4) unfolding m_def by simp_all
  then have "text_char m" by (auto simp: text_char_def)
  moreover have d: "m mod 64 = z" "m div 64 mod 64 = y" "m div 4096 = v" using base64_digits [OF assms(3,4), of v] by (simp_all only: m_def)
  have "v mod 64 = w" "v div 64 = x" using assms(2) unfolding v_def by (simp_all only: base64_digit)
  then have "m div 4096 mod 64 = w" "m div 262144 = x" using d(3) div_mult2_eq [of m 4096 64] by simp_all
  with r d have "utf8_bytes m = [240 + x, 128 + w, 128 + y, 128 + z]" by (simp add: utf8_bytes_def)
  ultimately show ?thesis by blast
qed

lemma accepted_cases:
  assumes "accepted a b c d = Some k"
  obtains "a < 128" "k = 1"
    | "a div 32 = 6" "b div 64 = 2" "a div 2 \<noteq> 96" "k = 2"
    | "a div 16 = 14" "b div 64 = 2" "c div 64 = 2" "\<not> (a = 224 \<and> b div 32 = 4)" "\<not> (a = 237 \<and> b div 32 = 5)"
      "\<not> (a = 239 \<and> b = 191 \<and> c div 2 = 95)" "k = 3"
    | "a div 8 = 30" "b div 64 = 2" "c div 64 = 2" "d div 64 = 2" "\<not> (a = 240 \<and> b div 16 = 8)" "\<not> (a = 244 \<and> 143 < b)" "a \<le> 244" "k = 4"
proof (cases "a < 128")
  case True
  with assms that(1) show thesis by (simp add: accepted_def)
next
  case l: False
  show thesis
  proof (cases "a div 32 = 6")
    case True
    with l assms that(2) show thesis by (simp add: accepted_def split: if_splits)
  next
    case m: False
    show thesis
    proof (cases "a div 16 = 14")
      case True
      with l m assms that(3) show thesis by (simp add: accepted_def split: if_splits)
    next
      case False
      with l m assms that(4) show thesis by (simp add: accepted_def split: if_splits)
    qed
  qed
qed

lemma two_chars:
  fixes a b :: nat
  assumes "a div 32 = 6" "a div 2 \<noteq> 96" "b div 64 = 2"
  shows "\<exists>m. text_char m \<and> utf8_bytes m = [a, b]"
proof -
  obtain y where y: "y < 64" "b = 128 + y" using assms(3) continuation by blast
  obtain x where x: "a = 192 + x" "x < 32" "2 \<le> x" using between [of a 32 6] assms(1,2) by (intro that [of "a - 192"]) auto
  define m where "m = x * 64 + y"
  have "128 \<le> m" "m < 2048" using x y unfolding m_def by simp_all
  moreover have "m div 64 = x" "m mod 64 = y" using y unfolding m_def by (simp_all only: base64_digit)
  ultimately have "text_char m \<and> utf8_bytes m = [a, b]" using x(1) y(2) by (simp add: text_char_def utf8_bytes_def)
  then show ?thesis ..
qed

lemma three_chars:
  assumes "a div 16 = 14" "b div 64 = 2" "c div 64 = 2" "\<not> (a = 224 \<and> b div 32 = 4)" "\<not> (a = 237 \<and> b div 32 = 5)"
      "\<not> (a = 239 \<and> b = 191 \<and> c div 2 = 95)"
  shows "\<exists>m. text_char m \<and> utf8_bytes m = [a, b, c]"
proof -
  obtain y z where y: "y < 64" "b = 128 + y" and z: "z < 64" "c = 128 + z" using assms(2,3) continuation by meson
  obtain x where x: "a = 224 + x" "x < 16" using between [of a 16 14] assms(1) by (intro that [of "a - 224"]) auto
  have q: "y < 32 \<Longrightarrow> (128 + y) div 32 = 4" "32 \<le> y \<Longrightarrow> (128 + y) div 32 = 5" "62 \<le> z \<Longrightarrow> (128 + z) div 2 = 95"
    using y(1) z(1) by - (rule div_nat_eqI; simp)+
  have "32 \<le> y" if "x = 0" using that assms(4) q(1) unfolding x(1) y(2) by (intro leI notI) simp
  moreover have "y < 32" if "x = 13" using that assms(5) q(2) unfolding x(1) y(2) by (intro linorder_class.not_le_imp_less notI) simp
  moreover have "z < 62" if "x = 15" "y = 63" using that assms(6) q(3) unfolding x(1) y(2) z(2) by (intro linorder_class.not_le_imp_less notI) simp
  ultimately show ?thesis using three_bytes [OF x(2) y(1) z(1)] unfolding x(1) y(2) z(2) by simp
qed

lemma four_chars:
  assumes "a div 8 = 30" "b div 64 = 2" "c div 64 = 2" "d div 64 = 2" "\<not> (a = 240 \<and> b div 16 = 8)" "\<not> (a = 244 \<and> 143 < b)" "a \<le> 244"
  shows "\<exists>m. text_char m \<and> utf8_bytes m = [a, b, c, d]"
proof -
  obtain w y z where w: "w < 64" "b = 128 + w" and y: "y < 64" "c = 128 + y" and z: "z < 64" "d = 128 + z" using assms(2-4) continuation by meson
  obtain x where x: "a = 240 + x" "x < 5" using between [of a 8 30] assms(1,7) by (intro that [of "a - 240"]) auto
  have "x = 0 \<Longrightarrow> 16 \<le> w" "x = 4 \<Longrightarrow> w < 16" using assms(5,6) x w by auto
  from four_bytes [OF x(2) w(1) y(1) z(1) this] show ?thesis using x w y z by simp
qed

lemma accepted_char:
  assumes "accepted a b c d = Some k" "a \<noteq> 0"
  shows "\<exists>x. text_char x \<and> utf8_bytes x = take k [a, b, c, d] \<and> 0 < k \<and> k \<le> 4"
  using assms(1)
proof (cases rule: accepted_cases)
  case 1
  then have "text_char a" "utf8_bytes a = [a]" using assms(2) by (simp_all add: text_char_def utf8_bytes_def)
  with 1(2) show ?thesis by auto
next
  case 2
  then show ?thesis using two_chars by simp
next
  case 3
  then show ?thesis using three_chars by simp
next
  case 4
  then show ?thesis using four_chars by simp
qed

section \<open>The bytes of a character are accepted\<close>

lemma tail_byte: "q < 64 \<Longrightarrow> (128 + q) div 64 = (2 :: nat)"
  by (rule div_nat_eqI) simp_all

lemma accepted_two:
  assumes "2 \<le> p" "p < 32" "q < 64"
  shows "accepted (192 + p) (128 + q) c d = Some 2"
proof -
  have "(192 + p) div 32 = 6" using assms by (intro div_nat_eqI) simp_all
  moreover have "97 \<le> (192 + p) div 2" using assms(1) by simp
  ultimately show ?thesis using assms tail_byte unfolding accepted_def by simp
qed

lemma accepted_three:
  assumes "p < 16" "q < 64" "r < 64" "p = 0 \<Longrightarrow> 32 \<le> q" "p = 13 \<Longrightarrow> q < 32" "p = 15 \<Longrightarrow> q = 63 \<Longrightarrow> r < 62"
  shows "accepted (224 + p) (128 + q) (128 + r) d = Some 3"
proof -
  have e: "(224 + p) div 32 = 7" "(224 + p) div 16 = 14" using assms(1) by - (rule div_nat_eqI; simp)+
  have "(128 + q) div 32 \<noteq> 4" if "p = 0"
  proof -
    have "(128 + q) div 32 = 5" using assms(2,4) that by (intro div_nat_eqI) simp_all
    then show ?thesis by simp
  qed
  moreover have "(128 + q) div 32 \<noteq> 5" if "p = 13"
  proof -
    have "(128 + q) div 32 = 4" using assms(5) that by (intro div_nat_eqI) simp_all
    then show ?thesis by simp
  qed
  moreover have "(128 + r) div 2 \<noteq> 95" if "p = 15" "q = 63"
  proof -
    have "(128 + r) div 2 < 95" using assms(6) that by (intro less_mult_imp_div_less) simp
    then show ?thesis by simp
  qed
  ultimately show ?thesis unfolding accepted_def e tail_byte [OF assms(2)] tail_byte [OF assms(3)] by (cases "p = 0") simp_all
qed

lemma accepted_four:
  assumes "p < 5" "w < 64" "q < 64" "r < 64" "p = 0 \<Longrightarrow> 16 \<le> w" "p = 4 \<Longrightarrow> w < 16"
  shows "accepted (240 + p) (128 + w) (128 + q) (128 + r) = Some 4"
proof -
  have e: "(240 + p) div 32 = 7" "(240 + p) div 16 = 15" "(240 + p) div 8 = 30" using assms(1) by - (rule div_nat_eqI; simp)+
  have "(128 + w) div 16 \<noteq> 8" if "p = 0"
  proof -
    have "9 \<le> (128 + w) div 16" using assms(5) that by (simp add: less_eq_div_iff_mult_less_eq)
    then show ?thesis by simp
  qed
  then show ?thesis using assms(1,6) unfolding accepted_def e tail_byte [OF assms(2)] tail_byte [OF assms(3)] tail_byte [OF assms(4)]
    by (cases "p = 0"; cases "p = 4") simp_all
qed

lemma char_accepted:
  assumes "text_char x" "utf8_bytes x = take (length (utf8_bytes x)) [a, b, c, d]"
  shows "accepted a b c d = Some (length (utf8_bytes x))"
proof -
  define p q r where "p = x div 4096" and "q = x div 64 mod 64" and "r = x mod 64"
  have b: "q < 64" "r < 64" unfolding q_def r_def by simp_all
  have "x div 64 div 64 = p" unfolding p_def by (simp add: div_mult2_eq [symmetric])
  then have d: "x div 64 = p * 64 + q" using div_mult_mod_eq [of "x div 64" 64] unfolding q_def by simp
  then have x: "x = (p * 64 + q) * 64 + r" using div_mult_mod_eq [of x 64] unfolding r_def by simp
  then have l: "x = 4096 * p + 64 * q + r" by simp
  have t: "\<not> (55296 \<le> x \<and> x \<le> 57343)" "x \<noteq> 65534" "x \<noteq> 65535" "x < 1114112" using assms(1) by (auto simp: text_char_def)
  consider "x < 128" | "128 \<le> x" "x < 2048" | "2048 \<le> x" "x < 65536" | "65536 \<le> x" by linarith
  then show ?thesis
  proof cases
    case 1
    with assms(2) show ?thesis by (simp add: utf8_bytes_def accepted_def)
  next
    case 2
    then have "utf8_bytes x = [192 + x div 64, 128 + r]" by (simp add: utf8_bytes_def r_def)
    moreover have "2 \<le> x div 64" "x div 64 < 32" using 2 by (simp_all add: less_mult_imp_div_less)
    ultimately show ?thesis using assms(2) accepted_two [of "x div 64" r c d] b(2) by auto
  next
    case 3
    then have "utf8_bytes x = [224 + p, 128 + q, 128 + r]" by (simp add: utf8_bytes_def p_def q_def r_def)
    moreover have "p < 16" "p = 0 \<Longrightarrow> 32 \<le> q" using 3 b l by - linarith+
    moreover have "q < 32" if "p = 13" using t(1) b that unfolding x by (intro linorder_class.not_le_imp_less notI) simp
    moreover have "r < 62" if "p = 15" "q = 63"
    proof (rule ccontr)
      assume "\<not> r < 62"
      then have "r = 62 \<or> r = 63" using b(2) by linarith
      then show False using t(2,3) that x by auto
    qed
    ultimately show ?thesis using assms(2) accepted_three [of p q r d] b by simp
  next
    case 4
    define u w where "u = p div 64" and "w = p mod 64"
    have w: "w < 64" "p = u * 64 + w" unfolding u_def w_def by simp_all
    have "16 \<le> p" "p < 272" using 4 t(4) b l by - linarith+
    then have "u < 5" "u = 0 \<Longrightarrow> 16 \<le> w" "u = 4 \<Longrightarrow> w < 16" using w by - linarith+
    moreover have "x div 262144 = u" using div_mult2_eq [of x 4096 64] unfolding u_def p_def by simp
    then have "utf8_bytes x = [240 + u, 128 + w, 128 + q, 128 + r]" using 4 by (simp add: utf8_bytes_def p_def q_def r_def w_def)
    ultimately show ?thesis using assms(2) accepted_four [of u w q r] b w(1) by simp
  qed
qed

section \<open>Characters of a string\<close>

lemma utf8_bytes_range:
  assumes "0 < x" "x < 1114112" "n \<in> set (utf8_bytes x)"
  shows "0 < n \<and> n < 256"
proof -
  have "x div 64 < 64" if "x < 2048" using that by (intro less_mult_imp_div_less) simp
  moreover have "x div 4096 < 32" if "x < 65536" using that by (intro less_mult_imp_div_less) simp
  moreover have "x div 262144 < 16" using assms(2) by (intro less_mult_imp_div_less) simp
  moreover have "y mod 64 < 64" for y :: nat by simp
  ultimately show ?thesis using assms(1,3) unfolding utf8_bytes_def by (auto split: if_splits simp: trans_less_add1 add.commute less_diff_conv)
qed

lemma utf8_bytes_length: "0 < length (utf8_bytes x)" "length (utf8_bytes x) \<le> 4"
  by (simp_all add: utf8_bytes_def)

lemma first_bytes: "k \<le> 4 \<Longrightarrow> take k [f 0, f 1, f 2, f 3] = map f [0..<k]" for f :: "nat \<Rightarrow> nat"
proof -
  have "[f 0, f 1, f 2, f 3] = map f [0..<4]" by (simp add: upt_rec eval_nat_numeral)
  then show "k \<le> 4 \<Longrightarrow> take k [f 0, f 1, f 2, f 3] = map f [0..<k]" by (simp only: take_map take_upt add_0)
qed

lemma utf8_prefix:
  assumes "text_char x"
  shows "map (nat_at s) [0..<length (utf8_bytes x)] = utf8_bytes x \<longleftrightarrow> (\<exists>r. s = utf8 x @ r)"
proof -
  let ?n = "length (utf8_bytes x)"
  have range: "0 < utf8_bytes x ! i \<and> utf8_bytes x ! i < 256" if "i < ?n" for i
    using utf8_bytes_range [of x "utf8_bytes x ! i"] assms that by (auto simp: text_char_def)
  show ?thesis
  proof
    assume e: "map (nat_at s) [0..<?n] = utf8_bytes x"
    then have n: "nat_at s i = utf8_bytes x ! i" if "i < ?n" for i
      using that by (metis add_0 diff_zero length_upt nth_map nth_upt)
    have "nat_at s (?n - 1) \<noteq> 0" using n [of "?n - 1"] range [of "?n - 1"] utf8_bytes_length(1) [of x] by simp
    then have "?n - 1 < length s" by (auto simp: byte_at_def split: if_splits)
    then have l: "?n \<le> length s" using utf8_bytes_length(1) [of x] by linarith
    have "take ?n s = utf8 x"
    proof (rule nth_equalityI)
      fix i assume "i < length (take ?n s)"
      then have i: "i < ?n" "i < length s" using l by simp_all
      then have "s ! i = of_nat (utf8_bytes x ! i)" using n [OF i(1)] by (simp add: byte_at_def flip: n)
      then show "take ?n s ! i = utf8 x ! i" using i by (simp add: utf8_def)
    qed (use l in \<open>simp add: utf8_def\<close>)
    then have "s = utf8 x @ drop ?n s" by (metis append_take_drop_id)
    then show "\<exists>r. s = utf8 x @ r" ..
  next
    assume "\<exists>r. s = utf8 x @ r"
    then obtain r where s: "s = utf8 x @ r" ..
    have "nat_at s i = utf8_bytes x ! i" if "i < ?n" for i
      using range [OF that] that unfolding s by (simp add: byte_at_def utf8_def nth_append unsigned_of_nat take_bit_nat_eq_self)
    then show "map (nat_at s) [0..<?n] = utf8_bytes x" by (intro nth_equalityI) simp_all
  qed
qed

lemma accepted_iff:
  assumes "byte_at s 0 \<noteq> 0"
  shows "accepted (nat_at s 0) (nat_at s 1) (nat_at s 2) (nat_at s 3) = Some k \<longleftrightarrow>
    (\<exists>x r. text_char x \<and> s = utf8 x @ r \<and> k = length (utf8 x))"
  (is "?a = _ \<longleftrightarrow> _")
proof
  assume "?a = Some k"
  then obtain x where x: "text_char x" "utf8_bytes x = take k [nat_at s 0, nat_at s 1, nat_at s 2, nat_at s 3]" "k \<le> 4"
    using accepted_char assms by (metis unat_eq_zero)
  have l: "length (utf8_bytes x) = k" using x(2,3) by simp
  have "\<exists>r. s = utf8 x @ r" using x first_bytes [of k "nat_at s"] l by (subst utf8_prefix [symmetric]) simp_all
  then show "\<exists>x r. text_char x \<and> s = utf8 x @ r \<and> k = length (utf8 x)" using x(1) l by (auto simp: utf8_def)
next
  assume "\<exists>x r. text_char x \<and> s = utf8 x @ r \<and> k = length (utf8 x)"
  then obtain x r where x: "text_char x" "s = utf8 x @ r" and k: "k = length (utf8_bytes x)" by (auto simp: utf8_def)
  then have "map (nat_at s) [0..<k] = utf8_bytes x" using utf8_prefix [of x s] by blast
  then show "?a = Some k" using char_accepted [OF x(1)] first_bytes [of k "nat_at s"] utf8_bytes_length(2) [of x] k by simp
qed

lemma utf8_nonzero: "text_char x \<Longrightarrow> b \<in> set (utf8 x) \<Longrightarrow> b \<noteq> 0"
  using utf8_bytes_range [of x] by (auto simp: utf8_def text_char_def word_unat_eq_iff unsigned_of_nat take_bit_nat_eq_self)

lemma cstr_utf8: "text_char x \<Longrightarrow> cstr (utf8 x @ r) = utf8 x @ cstr r"
  unfolding cstr_def by (rule takeWhile_append2) (rule utf8_nonzero)

lemma cstr_head: "cstr s = [] \<longleftrightarrow> byte_at s 0 = 0"
  by (cases s) (simp_all add: cstr_def byte_at_def)

lemma utf8_head: "text_char x \<Longrightarrow> byte_at (utf8 x @ r) 0 \<noteq> 0"
  using cstr_utf8 [of x r] utf8_bytes_length(1) [of x] by (auto simp: cstr_head [symmetric] utf8_def)

lemma validate_char:
  assumes "text_char x"
  shows "pb_validate_utf8 (utf8 x @ r) = pb_validate_utf8 r"
proof -
  let ?s = "utf8 x @ r"
  have "accepted (nat_at ?s 0) (nat_at ?s 1) (nat_at ?s 2) (nat_at ?s 3) = Some (length (utf8 x))"
    using assms accepted_iff [OF utf8_head [OF assms, of r]] by blast
  then show ?thesis using validate_step [of ?s] utf8_head [OF assms, of r] by simp
qed

lemma validate_sound: "pb_validate_utf8 s \<Longrightarrow> \<exists>cs. list_all text_char cs \<and> cstr s = concat (map utf8 cs)"
proof (induction "length s" arbitrary: s rule: less_induct)
  case (less s)
  show ?case
  proof (cases "byte_at s 0 = 0")
    case True
    then have "list_all text_char [] \<and> cstr s = concat (map utf8 [])" by (simp add: cstr_head)
    then show ?thesis by blast
  next
    case False
    then obtain k where "accepted (nat_at s 0) (nat_at s 1) (nat_at s 2) (nat_at s 3) = Some k"
      using less.prems validate_step [of s] by (cases "accepted (nat_at s 0) (nat_at s 1) (nat_at s 2) (nat_at s 3)") simp_all
    then obtain x r where x: "text_char x" "s = utf8 x @ r" using accepted_iff [OF False] by blast
    have "pb_validate_utf8 r" using less.prems validate_char [OF x(1)] unfolding x(2) by simp
    moreover have "length r < length s" using x(2) utf8_bytes_length(1) [of x] by (simp add: utf8_def)
    ultimately obtain cs where "list_all text_char cs" "cstr r = concat (map utf8 cs)" using less.hyps by blast
    then have "list_all text_char (x # cs) \<and> cstr s = concat (map utf8 (x # cs))" using x(1) unfolding x(2) by (simp add: cstr_utf8)
    then show ?thesis by blast
  qed
qed

lemma validate_complete: "list_all text_char cs \<Longrightarrow> cstr s = concat (map utf8 cs) \<Longrightarrow> pb_validate_utf8 s"
proof (induction cs arbitrary: s)
  case Nil
  then show ?case using validate_step [of s] by (simp add: cstr_head)
next
  case (Cons x cs)
  have "cstr s @ dropWhile (\<lambda>b. b \<noteq> 0) s = s" unfolding cstr_def by (rule takeWhile_dropWhile_id)
  then obtain r where s: "s = utf8 x @ r" unfolding Cons.prems(2) list.map concat.simps append.assoc by (elim that [OF sym])
  have x: "text_char x" "list_all text_char cs" using Cons.prems(1) by simp_all
  have "cstr r = concat (map utf8 cs)" using Cons.prems(2) unfolding s cstr_utf8 [OF x(1)] by simp
  from Cons.IH [OF x(2) this] show ?case unfolding s validate_char [OF x(1)] .
qed

section \<open>Property\<close>

text \<open>C40: \<^verbatim>\<open>pb_validate_utf8\<close> ends on every string and accepts exactly those whose bytes up to the NUL are the UTF-8
  encoding, in the shortest form, of some sequence of code points up to \<open>U+10FFFF\<close> other than the surrogates,
  \<open>U+FFFE\<close> and \<open>U+FFFF\<close>.\<close>

theorem pb_validate_utf8_iff:
  "pb_validate_utf8 s \<longleftrightarrow> (\<exists>cs. list_all text_char cs \<and> cstr s = concat (map utf8 cs))"
  using validate_sound validate_complete by blast

end
