(* ===== verification/Delimited.thy ===== *)
theory Delimited
  imports Message_Roundtrip
begin

text \<open>
  Messages with their length in front, as \<^verbatim>\<open>pb_encode_ex\<close> writes and \<^verbatim>\<open>pb_decode_ex\<close> of \<^verbatim>\<open>src/nanopb/pb_decode.c\<close> reads them
  with the flag for delimited messages: any number of them can follow each other in one stream.
\<close>

section \<open>The code\<close>

text \<open>\<^verbatim>\<open>pb_decode_ex\<close> with two of its flags as truth values. The memory that is kept without initialisation is an argument;
  the stream is left after the message, which is the end of the stream when the message is not delimited. The flag for
  messages that end at a zero tag, which no caller sets, is left out.\<close>

definition pb_decode_ex ::
  "bool \<Rightarrow> bool \<Rightarrow> 's pb_callback \<Rightarrow> pb_field list \<Rightarrow> slot list \<Rightarrow> pb_istream_t \<Rightarrow> 's \<Rightarrow> (slot list \<times> 's \<times> pb_istream_t) option" where
  "pb_decode_ex noinit delimited cb fs m s u =
     (let start = if noinit then m else pb_message_set_to_defaults fs in
      if \<not> delimited then
        map_option (\<lambda>(m', u'). (m', u', IStream (s_region s) (s_pos s + bytes_left s) [])) (pb_decode_inner cb fs s start u)
      else
        case pb_make_string_substream s of
          None \<Rightarrow> None
        | Some (sub, s') \<Rightarrow> map_option (\<lambda>(m', u'). (m', u', s')) (pb_decode_inner cb fs sub start u))"

text \<open>Writing and reading messages one after the other.\<close>

primrec write_messages :: "pb_field list \<Rightarrow> slot list list \<Rightarrow> encoder" where
  "write_messages fs [] s = Some s"
| "write_messages fs (m # ms) s = pb_encode_ex True False no_encode_callbacks fs m s \<bind> write_messages fs ms"

primrec read_messages ::
  "'s pb_callback \<Rightarrow> pb_field list \<Rightarrow> nat \<Rightarrow> pb_istream_t \<Rightarrow> 's \<Rightarrow> (slot list list \<times> 's \<times> pb_istream_t) option" where
  "read_messages cb fs 0 s u = Some ([], u, s)"
| "read_messages cb fs (Suc n) s u =
     do { (m, u1, s1) \<leftarrow> pb_decode_ex False True cb fs [] s u;
          (ms, u2, s2) \<leftarrow> read_messages cb fs n s1 u1;
          Some (m # ms, u2, s2) }"

section \<open>One message\<close>

definition frame :: "pb_field list \<Rightarrow> slot list \<Rightarrow> bytes" where
  "frame fs m = enc_varint (length (enc_msg fs m)) @ enc_msg fs m"

lemma emits_frame:
  assumes "ok_fields fs" "canon_msg fs m" "length (enc_msg fs m) < 2 ^ 32"
  shows "emits (pb_encode_ex True False no_encode_callbacks fs m) (frame fs m)"
proof -
  have "emits (pb_encode no_encode_callbacks fs m) (enc_msg fs m)"
    by (rule emits_message [OF _ assms(2,3)]) (use assms(1) in \<open>auto simp: ok_fields_def list_all_iff intro: emits_value_and_field\<close>)
  from emits_submessage [OF this assms(3)] show ?thesis by (simp add: emits_def frame_def pb_encode_ex_def)
qed

lemma decode_frame:
  assumes "ok_fields fs" "canon_msg fs m" "length (enc_msg fs m) < 2 ^ 32"
  shows "pb_decode_ex False True cb fs old (IStream g p (frame fs m @ rest)) u =
    Some (m, u, IStream g (p + length (frame fs m)) rest)"
  using decode_canonical [OF assms, of cb g "p + length (enc_varint (length (enc_msg fs m)))" u]
  by (simp add: pb_decode_ex_def frame_def substream_enc [OF assms(3)] pb_decode_def add.assoc)

section \<open>Sequences\<close>

lemma frame_length: "length (enc_msg fs m) \<le> length (frame fs m)"
  by (simp add: frame_def)

lemma emits_messages:
  assumes "ok_fields fs" "list_all (canon_msg fs) ms" "length (concat (map (frame fs) ms)) < 2 ^ 32"
  shows "emits (write_messages fs ms) (concat (map (frame fs) ms))"
  using assms(2,3)
proof (induction ms)
  case Nil
  then show ?case by (simp add: emits_def)
next
  case (Cons m ms)
  then have "canon_msg fs m" "length (enc_msg fs m) < 2 ^ 32" using frame_length [of fs m] by simp_all
  from emits_then [OF emits_frame [OF assms(1) this], of "write_messages fs ms" "concat (map (frame fs) ms)"] Cons
  show ?case by (simp add: emits_def)
qed

lemma decode_messages:
  assumes "ok_fields fs" "list_all (canon_msg fs) ms" "length (concat (map (frame fs) ms)) < 2 ^ 32"
  shows "read_messages cb fs (length ms) (IStream g p (concat (map (frame fs) ms) @ rest)) u =
    Some (ms, u, IStream g (p + length (concat (map (frame fs) ms))) rest)"
  using assms(2,3)
proof (induction ms arbitrary: p)
  case (Cons m ms)
  then have "canon_msg fs m" "length (enc_msg fs m) < 2 ^ 32" using frame_length [of fs m] by simp_all
  from decode_frame [OF assms(1) this, of cb "[]" g p "concat (map (frame fs) ms) @ rest" u] Cons
  show ?case by (simp add: add.assoc)
qed simp

text \<open>C39: Delimited messages follow each other: for every descriptor whose sizes fit and any number of messages without
  leftovers, writing them into a buffer succeeds exactly when it has room for all of them, and reading as many
  messages from what was written, whatever follows it, gives them back in order and leaves the stream at what follows.
\<close>

theorem delimited_roundtrip:
  assumes "ok_fields fs" "list_all (canon_msg fs) ms" "length (concat (map (frame fs) ms)) < 2 ^ 32"
  shows "map_option os_state (write_messages fs ms (pb_ostream_from_buffer bufsize)) =
      (if length (concat (map (frame fs) ms)) \<le> unat bufsize then Some (concat (map (frame fs) ms)) else None) \<and>
    read_messages cb fs (length ms) (pb_istream_from_buffer RInput 0 (concat (map (frame fs) ms) @ rest)) u =
      Some (ms, u, IStream RInput (length (concat (map (frame fs) ms))) rest)"
proof
  let ?bs = "concat (map (frame fs) ms)"
  have "map_option os_state (emit bs (pb_ostream_from_buffer bufsize)) = (if length bs \<le> unat bufsize then Some bs else None)" for bs
    by (auto simp: emit_def pb_ostream_from_buffer_def)
  then show "map_option os_state (write_messages fs ms (pb_ostream_from_buffer bufsize)) = (if length ?bs \<le> unat bufsize then Some ?bs else None)"
    using emitsD [OF emits_messages [OF assms], of "pb_ostream_from_buffer bufsize"] assms(3)
    by (simp only: pb_ostream_from_buffer_def) simp
  show "read_messages cb fs (length ms) (pb_istream_from_buffer RInput 0 (?bs @ rest)) u = Some (ms, u, IStream RInput (length ?bs) rest)"
    using decode_messages [OF assms, of cb RInput 0 rest u] by (simp add: pb_istream_from_buffer_def)
qed

theorem delimited_roundtrip_witness:
  "\<exists>bs. map_option os_state (write_messages protocol_VoteWitnessContract [sample_votes, sample_votes] (pb_ostream_from_buffer 300)) = Some bs \<and>
    read_messages (\<lambda>_. None) protocol_VoteWitnessContract 2 (pb_istream_from_buffer RInput 0 (bs @ [1])) () =
      Some ([sample_votes, sample_votes], (), IStream RInput (length bs) [1])"
proof -
  let ?ms = "[sample_votes, sample_votes]"
  let ?bs = "concat (map (frame protocol_VoteWitnessContract) ?ms)"
  have c: "list_all (canon_msg protocol_VoteWitnessContract) ?ms"
    by (simp add: canon_msg_def descriptor_defs sample_votes_def read_signed_def)
  have l: "length ?bs \<le> 300"
    by (simp add: frame_def enc_msg_def descriptor_defs sample_votes_def enc_key_def enc_varint.simps)
  have b: "length ?bs \<le> unat (300 :: u32)" using l by simp
  have "length ?bs < 2 ^ 32" using l by (rule le_less_trans) simp
  note r = delimited_roundtrip [OF ok_descriptors(3) c this, of 300 "\<lambda>_. None" "[1]" "()"]
  have "length ?ms = 2" by simp
  from r [unfolded if_P [OF b] this] show ?thesis by (rule exI)
qed

end
