(* ===== verification/Spec2Isabelle.thy ===== *)
theory Spec2Isabelle
  imports Swap_Policy Message_Signing Token_Review Contact_Edits Message_Types Uint256_Spec Paths Wire_Scalars Iterator
    Permission_Review Utf8 Delimited
begin

text \<open>
  The TRON application of a hardware wallet: it receives commands, shows what it is asked to sign and signs
  after the user approves.

  \<^bold>\<open>The parts of the program and their theories.\<close>

  \<^item> \<^verbatim>\<open>src/src/uint256.c\<close>: \<^verbatim>\<open>Uint256\<close> (128- and 256-bit integers as pairs of machine words, one definition per
    function), \<^verbatim>\<open>Uint256_Mul\<close> (multiplication), \<^verbatim>\<open>Uint256_Div\<close> (division) and \<^verbatim>\<open>Uint256_Print\<close> (digits). The 256-bit routines are written over the
    128-bit ones; the locales of these theories state what is used of the narrower type, and are interpreted
    on both widths.
  \<^item> \<^verbatim>\<open>adjustDecimals\<close> and \<^verbatim>\<open>print_amount\<close> of \<^verbatim>\<open>src/src/parse.c\<close>: \<^verbatim>\<open>Amount\<close>.
  \<^item> \<^verbatim>\<open>src/nanopb/pb_decode.c\<close>, \<^verbatim>\<open>pb_common.c\<close>: \<^verbatim>\<open>Nanopb\<close>, the decoder, with streams that know their position in the
    buffer they read; \<^verbatim>\<open>src/proto\<close>: \<^verbatim>\<open>Messages\<close>, the descriptors. \<^verbatim>\<open>Wire\<close> has an encoder as a specification.
    \<^verbatim>\<open>src/nanopb/pb_encode.c\<close>: \<^verbatim>\<open>Nanopb_Encode\<close>, over the same descriptors. \<^verbatim>\<open>src/nanopb/pb.h\<close> and the field iterator of
    \<^verbatim>\<open>pb_common.c\<close>: \<^verbatim>\<open>Descriptors\<close>, with the descriptors as packed words.
  \<^item> \<^verbatim>\<open>src/src/tokens.c\<close>: \<^verbatim>\<open>Tokens\<close>; \<^verbatim>\<open>known_services.c\<close>: \<^verbatim>\<open>Known_Services\<close>; \<^verbatim>\<open>src/src/addr_book\<close>: \<^verbatim>\<open>Contacts\<close>
    (the list and the commands that add to it) and \<^verbatim>\<open>Address_Book\<close> (the register and edit reviews).
  \<^item> The global variables: one record in \<^verbatim>\<open>App_State\<close>. \<^verbatim>\<open>helpers.c\<close>: \<^verbatim>\<open>Helpers\<close>; the rest of \<^verbatim>\<open>parse.c\<close>: \<^verbatim>\<open>Parse\<close>;
    \<^verbatim>\<open>ui/ui_review_menu_nbgl.c\<close>: \<^verbatim>\<open>Review\<close>; \<^verbatim>\<open>swap\<close>: \<^verbatim>\<open>Swap\<close>; \<^verbatim>\<open>ui/ui_globals.c\<close>: \<^verbatim>\<open>Approval\<close>;
    \<^verbatim>\<open>handlers/sign.c\<close>: \<^verbatim>\<open>Sign\<close>; the other handlers: \<^verbatim>\<open>Handlers\<close>; \<^verbatim>\<open>dispatcher.c\<close> and \<^verbatim>\<open>app_main.c\<close>: \<^verbatim>\<open>App_Main\<close>,
    where the whole application is a step relation over commands, answers, settings switches, contacts and
    confirmed edits of contacts.

  A handler takes the state and gives an outcome - returned, thrown with a status word, stuck in a loop, exited -
  and the new state; the replies sent are a list in the state, as is what the screen shows. A loop that may not
  end gives \<^const>\<open>None\<close>, and \<^verbatim>\<open>Stuck\<close> above it. Texts are byte lists with the NUL where the code has it; a store past
  the end of a buffer makes the list longer, so that a length that never changes shows that no store is out of
  bounds.

  \<^bold>\<open>What is shown.\<close>

  \<^item> \<^verbatim>\<open>Signing_Policy\<close>: no private key is used without approval. The SDK is replaced by one without keys, and
    every step that is not an approval is the same with both.
  \<^item> \<^verbatim>\<open>Sign_Walk\<close>: a locale that walks through the whole of \<^verbatim>\<open>finish_sign\<close> once; \<^verbatim>\<open>Session\<close> interprets it to show
    that what waits for approval is the digest of the chunks under the path of the first, \<^verbatim>\<open>Guards\<close> to show that
    the settings are respected. \<^verbatim>\<open>Extra_Data\<close> ties the number in \<^verbatim>\<open>txContent.dataBytes\<close> to the data fields of the
    chunks of a session.
  \<^item> \<^verbatim>\<open>Callbacks\<close>: what decoding keeps, as a locale over the callbacks; interpreted for memory safety, for the
    place of the captured contract in the buffer, and for the contracts that leave \<^verbatim>\<open>dataBytes\<close> alone. \<^verbatim>\<open>Extra_Data\<close>
    has a second one, over two sets of callbacks in step.
  \<^item> \<^verbatim>\<open>Memory\<close>, \<^verbatim>\<open>Well_Formed\<close>, \<^verbatim>\<open>Replies\<close>: every handler keeps the state well-formed and answers exactly once, by
    induction over the runs of the application.
  \<^item> \<^verbatim>\<open>Encoded_Tx\<close>, \<^verbatim>\<open>Transfer_Review\<close>, \<^verbatim>\<open>Token_Review\<close>: the review of a TRX transfer, and of a transfer or an
    approval of a known token, from the bytes of the command to the rows on the screen. \<^verbatim>\<open>Vote_Review\<close> and
    \<^verbatim>\<open>Permission_Review\<close> do the same for votes and for changes of permissions, for the bytes that the encoder of nanopb
    writes for any message of the contract.
  \<^item> \<^verbatim>\<open>Message_Signing\<close>: personal messages, over any number of chunks; and what they share with transactions.
  \<^item> \<^verbatim>\<open>Message_Types\<close>: the type of decoded messages.
  \<^item> \<^verbatim>\<open>Encoder_Bytes\<close>: the bytes that the encoder writes, as a function of the message; \<^verbatim>\<open>Message_Roundtrip\<close>: decoding
    them gives the message back; \<^verbatim>\<open>Delimited\<close>: messages with their lengths in front follow each other in a
    stream; \<^verbatim>\<open>Wire_Scalars\<close>: sequences of numbers, as a locale interpreted on the four wire formats.
  \<^item> \<^verbatim>\<open>Descriptor_Words\<close>: the packed words of a field are read back; \<^verbatim>\<open>Iterator\<close>: the search of the field iterator in
    packed descriptors refines the search in the lists of fields that the decoder model uses. \<^verbatim>\<open>Utf8\<close>: the check of
    UTF-8 text of \<^verbatim>\<open>pb_common.c\<close>, which an option of the build adds.
  \<^item> \<^verbatim>\<open>Uint256_Spec\<close>: arithmetic expressions over \<^verbatim>\<open>uint256_t\<close> refine those over the natural numbers.
  \<^item> \<^verbatim>\<open>Contact_Edits\<close>: what a confirmed edit of an address changes in the list of contacts.
  \<^item> \<^verbatim>\<open>Swap_Policy\<close>: what is signed for the Exchange application; \<^verbatim>\<open>Paths\<close>: derivation paths; \<^verbatim>\<open>Der\<close>: the format of
    TIP-712 signatures.

  \<^bold>\<open>Parameters and assumptions.\<close> The SDK of the device is not part of the repository: hashes, base58, hexadecimal
  text, key derivation and signatures, the configuration parser of swaps and some sizes are the record \<^verbatim>\<open>sdk\<close>, and
  \<^verbatim>\<open>sdk_ok\<close> lists what is used of them: lengths of digests and signatures, that base58 of 25 bytes with the prefix of
  the network has 34 characters, that hexadecimal text has no NUL, the DER format. \<^verbatim>\<open>Sample\<close> has an instance. The
  transport hands over one command at a time and is half-duplex; the hash context keeps its bytes when the digest
  is read; a failed decoding drops the effects of its callbacks, which no caller uses then; uninitialised locals
  are zero. Hash calls under \<^verbatim>\<open>CX_ASSERT\<close> do not fail; only the approval of TIP-712 messages tests what they return,
  and there \<^verbatim>\<open>cx_keccak_call\<close> says which calls succeed. A reply is always transmitted: the negative result of
  \<^verbatim>\<open>apdu_dispatcher\<close> that ends \<^verbatim>\<open>app_main\<close> stands for a failed transmission, and is not modelled. A contact in a review
  is a copy of the node of the list that the code points to: the rows are those of the list when the review is built. The
  runs of the application (\<^verbatim>\<open>app_run\<close>) start in the ordinary way; what happens in a swap is stated of the states of a swap.

  \<^bold>\<open>Fuel.\<close> The decoder recurses over the nesting of messages and the bytes of a stream; both decrease and no fuel is
  used. The loops of \<^verbatim>\<open>divmod128\<close> and \<^verbatim>\<open>divmod256\<close> are \<^verbatim>\<open>partial_function\<close>s; they are proved to end for every non-zero
  divisor, as are the search loops of the field iterator on every descriptor.

  \<^bold>\<open>Not modelled.\<close> Of nanopb, extension, required, pointer, oneof, fixed-count and fixed-width integer fields in
  messages, which no message has, and allocation and float conversion, which the build leaves out.
  The drawing of the idle menu, the allocator, and the SDK's own screens.
\<close>

end
